(* ===== verification/XF_Prelude.thy ===== *)
theory XF_Prelude
  imports Main "HOL-Library.Word"
begin

text \<open>
  Shared vocabulary of the development: the Go \<open>int64\<close> range with its wrap-around, Go's truncating
  division, the error values of the program (\<open>internal/store/types.go\<close> sentinels, the sentinels of
  \<open>daemon\<close> and \<open>policy\<close>, \<open>fmt.Errorf\<close> wrapping), and generic facts on lists that the component
  theories share.
\<close>

section \<open>Machine integers\<close>

text \<open>
  Go's \<open>int64\<close> values are kept as \<open>int\<close>; every \<open>+\<close>, \<open>-\<close> and \<open>*\<close> the source performs on them goes
  through \<open>wrap64\<close>, which is the two's complement reading of the 64-bit result.
\<close>

definition MinInt64 :: int where "MinInt64 = - 9223372036854775808"
definition MaxInt64 :: int where "MaxInt64 = 9223372036854775807"

definition wrap64 :: "int \<Rightarrow> int" where
  "wrap64 x = (x + 9223372036854775808) mod 18446744073709551616 - 9223372036854775808"

definition in_i64 :: "int \<Rightarrow> bool" where
  "in_i64 x \<longleftrightarrow> MinInt64 \<le> x \<and> x \<le> MaxInt64"

lemma in_i64_bounds: "in_i64 x \<longleftrightarrow> - 9223372036854775808 \<le> x \<and> x \<le> 9223372036854775807"
  by (simp add: in_i64_def MinInt64_def MaxInt64_def)

lemma wrap64_in_range [simp]: "in_i64 (wrap64 x)"
proof -
  have "0 \<le> (x + 9223372036854775808) mod 18446744073709551616"
    and "(x + 9223372036854775808) mod 18446744073709551616 < 18446744073709551616"
    by simp_all
  then show ?thesis by (simp add: wrap64_def in_i64_bounds)
qed

lemma wrap64_id [simp]: "in_i64 x \<Longrightarrow> wrap64 x = x"
  by (simp add: wrap64_def in_i64_bounds)

lemma wrap64_past: "9223372036854775808 \<le> x \<Longrightarrow> x < 18446744073709551616 \<Longrightarrow> wrap64 x = x - 18446744073709551616"
  by (simp add: wrap64_def minus_div_mult_eq_mod [symmetric])

lemma in_i64_nonneg: "0 \<le> x \<Longrightarrow> in_i64 x \<longleftrightarrow> x \<le> MaxInt64"
  by (simp add: in_i64_def MinInt64_def)

lemma wrap64_sint: "wrap64 x = sint (word_of_int x :: 64 word)"
  by (simp add: wrap64_def int_word_sint)

text \<open>Go's \<open>/\<close> and \<open>%\<close> truncate towards zero.\<close>

definition go_div :: "int \<Rightarrow> int \<Rightarrow> int" where
  "go_div a b = sgn a * sgn b * (\<bar>a\<bar> div \<bar>b\<bar>)"

definition go_mod :: "int \<Rightarrow> int \<Rightarrow> int" where
  "go_mod a b = a - go_div a b * b"

lemma go_div_nonneg: "0 \<le> a \<Longrightarrow> 0 < b \<Longrightarrow> go_div a b = a div b"
  by (cases "a = 0") (simp_all add: go_div_def)

lemma go_mod_nonneg: "0 \<le> a \<Longrightarrow> 0 < b \<Longrightarrow> go_mod a b = a mod b"
  by (simp add: go_mod_def go_div_nonneg minus_div_mult_eq_mod)

section \<open>Errors as values\<close>

text \<open>
  \<open>ErrWrap p e s\<close> is \<open>fmt.Errorf("p%ws", e)\<close>; \<open>ErrText\<close> is an error made by \<open>errors.New\<close> or
  \<open>fmt.Errorf\<close> without \<open>%w\<close>; \<open>ErrDriver\<close> is an error the database driver reports, with its text.
\<close>

datatype error =
    ErrNotFound | ErrAmbiguous | ErrConflict | ErrSchema | ErrRace | ErrLocked
  | ErrManagedPanel | ErrAmbiguousEffectiveTarget
  | ErrText string
  | ErrDriver string
  | ErrWrap string error string

fun error_text :: "error \<Rightarrow> string" where
  "error_text ErrNotFound = ''not found''"
| "error_text ErrAmbiguous = ''ambiguous match''"
| "error_text ErrConflict = ''conflict''"
| "error_text ErrSchema = ''schema validation failed''"
| "error_text ErrRace = ''compare-and-swap update failed''"
| "error_text ErrLocked = ''row is locked by another writer''"
| "error_text ErrManagedPanel = ''this panel is managed by a 3x-ui master: run XuiFactor on the master, or set factor_on_managed_node when the master does not factor these clients''"
| "error_text ErrAmbiguousEffectiveTarget = ''ambiguous effective target''"
| "error_text (ErrText t) = t"
| "error_text (ErrDriver t) = t"
| "error_text (ErrWrap p e s) = p @ error_text e @ s"

text \<open>\<open>errors.Is\<close> walks the chain of wrapped errors.\<close>

fun errors_is :: "error \<Rightarrow> error \<Rightarrow> bool" where
  "errors_is (ErrWrap p e s) t = (ErrWrap p e s = t \<or> errors_is e t)"
| "errors_is e t = (e = t)"

lemma errors_is_refl [simp]: "errors_is e e"
  by (cases e) auto

section \<open>Lists\<close>

definition first_of :: "'a list \<Rightarrow> 'a option" where
  "first_of xs = (case xs of [] \<Rightarrow> None | x # _ \<Rightarrow> Some x)"

lemma first_of_simps [simp]: "first_of [] = None" "first_of (x # xs) = Some x"
  by (simp_all add: first_of_def)

lemma first_of_eq_None [simp]: "first_of xs = None \<longleftrightarrow> xs = []"
  by (cases xs) auto

lemma first_of_in_set: "first_of xs = Some x \<Longrightarrow> x \<in> set xs"
  by (cases xs) auto

lemma first_of_SomeD: "first_of (filter P xs) = Some x \<Longrightarrow> x \<in> set xs \<and> P x"
  by (drule first_of_in_set) simp

text \<open>The rows of a table that an \<open>UPDATE ... WHERE\<close> touches.\<close>

definition update_where :: "('r \<Rightarrow> bool) \<Rightarrow> ('r \<Rightarrow> 'r) \<Rightarrow> 'r list \<Rightarrow> 'r list" where
  "update_where p f rows = map (\<lambda>r. if p r then f r else r) rows"

lemma update_where_Nil [simp]: "update_where p f [] = []"
  by (simp add: update_where_def)

lemma update_where_Cons [simp]:
  "update_where p f (r # rs) = (if p r then f r else r) # update_where p f rs"
  by (simp add: update_where_def)

lemma length_update_where [simp]: "length (update_where p f rs) = length rs"
  by (simp add: update_where_def)

lemma set_update_where:
  "set (update_where p f rs) = f ` {r \<in> set rs. p r} \<union> {r \<in> set rs. \<not> p r}"
  by (auto simp: update_where_def)

lemma map_update_where_keep:
  "(\<And>r. r \<in> set rs \<Longrightarrow> p r \<Longrightarrow> g (f r) = g r) \<Longrightarrow> map g (update_where p f rs) = map g rs"
  by (auto simp: update_where_def)

lemma update_where_id: "(\<And>r. r \<in> set rs \<Longrightarrow> \<not> p r) \<Longrightarrow> update_where p f rs = rs"
  by (induction rs) auto

lemma filter_update_where_other:
  "(\<And>r. r \<in> set rs \<Longrightarrow> p r \<Longrightarrow> \<not> q r \<and> \<not> q (f r)) \<Longrightarrow>
    filter q (update_where p f rs) = filter q rs"
  by (induction rs) auto

lemma filter_only: "filter p rs = [x] \<Longrightarrow> r \<in> set rs \<Longrightarrow> p r \<Longrightarrow> r = x"
  by (induction rs) (auto split: if_splits simp: filter_empty_conv)

lemma filter_only_in: "filter p rs = [x] \<Longrightarrow> x \<in> set rs \<and> p x"
  by (metis filter_eq_ConsD in_set_conv_decomp)

lemma update_where_only: "filter p rs = [x] \<Longrightarrow> update_where p f rs = update_where p (\<lambda>_. f x) rs"
  by (auto simp: update_where_def dest: filter_only)

lemma update_where_same: "filter p rs = [x] \<Longrightarrow> update_where p (\<lambda>_. x) rs = rs"
  unfolding update_where_def by (auto intro!: map_idI dest: filter_only)

lemma update_where_twice:
  "(\<And>r. p r \<Longrightarrow> p (g r)) \<Longrightarrow> update_where p f (update_where p g rs) = update_where p (\<lambda>r. f (g r)) rs"
  by (induction rs) auto

lemma filter_update_where_only: "filter p rs = [x] \<Longrightarrow> p y \<Longrightarrow> filter p (update_where p (\<lambda>_. y) rs) = [y]"
  by (induction rs) (auto split: if_splits simp: filter_empty_conv update_where_id)

text \<open>
  Inserting or rewriting rows keeps a key unique when the new key is fresh, or when the row keeps
  its key.
\<close>

lemma distinct_map_filter: "distinct (map f xs) \<Longrightarrow> distinct (map f (filter p xs))"
  by (induction xs) auto

lemma distinct_map_eq: "distinct (map f xs) \<Longrightarrow> x \<in> set xs \<Longrightarrow> y \<in> set xs \<Longrightarrow> f x = f y \<Longrightarrow> x = y"
  by (metis distinct_map inj_onD)

lemma filter_key_unique:
  assumes "distinct (map f xs)" and "x \<in> set xs"
  shows "filter (\<lambda>y. f y = f x) xs = [x]"
  using assms
proof (induction xs)
  case Nil
  then show ?case by simp
next
  case (Cons a xs)
  show ?case
  proof (cases "a = x")
    case True
    with Cons.prems have "f y \<noteq> f x" if "y \<in> set xs" for y
      using that by (metis distinct.simps(2) image_eqI list.set_map list.simps(9))
    then have "filter (\<lambda>y. f y = f x) xs = []"
      by (simp add: filter_empty_conv)
    with True show ?thesis by simp
  next
    case False
    with Cons.prems have "x \<in> set xs" and "f a \<noteq> f x" by (auto simp: image_iff)
    with Cons show ?thesis by simp
  qed
qed

section \<open>Collections of facts\<close>

named_theorems tx_simps \<open>one-step evaluation of transaction programs\<close>
named_theorems keeps_intro \<open>components of the database a program leaves unchanged\<close>
named_theorems inv_intro \<open>invariants a program keeps, whether it succeeds or fails\<close>

section \<open>Results\<close>

definition bind_result :: "'e + 'a \<Rightarrow> ('a \<Rightarrow> 'e + 'b) \<Rightarrow> 'e + 'b" where
  "bind_result r k = (case r of Inl e \<Rightarrow> Inl e | Inr x \<Rightarrow> k x)"

lemma bind_result_simps [simp]: "bind_result (Inl e) k = Inl e" "bind_result (Inr x) k = k x"
  by (simp_all add: bind_result_def)

lemma bind_result_Inr: "bind_result r k = Inr y \<longleftrightarrow> (\<exists>x. r = Inr x \<and> k x = Inr y)"
  by (cases r) auto

end
