(* ===== verification/XF_Strings.thy ===== *)
theory XF_Strings
  imports XF_Prelude
begin

text \<open>
  The parts of Go's \<open>strings\<close> and \<open>strconv\<close> packages the program uses, on byte strings: decimal
  printing and \<open>ParseInt\<close>, \<open>TrimSpace\<close>, \<open>Fields\<close>, \<open>Split\<close>, \<open>Cut\<close>, \<open>Trim\<close>. White space is Go's
  \<open>unicode.IsSpace\<close>: the ASCII blanks and the UTF-8 encodings of the other space code points.
\<close>

section \<open>Decimal numbers\<close>

definition digit_char :: "nat \<Rightarrow> char" where
  "digit_char d = (char_of (48 + d) :: char)"

definition is_digit :: "char \<Rightarrow> bool" where
  "is_digit c \<longleftrightarrow> 48 \<le> (of_char c :: nat) \<and> (of_char c :: nat) \<le> 57"

definition digit_val :: "char \<Rightarrow> nat" where
  "digit_val c = (of_char c :: nat) - 48"

fun nat_digits :: "nat \<Rightarrow> string" where
  "nat_digits n = (if n < 10 then [digit_char n] else nat_digits (n div 10) @ [digit_char (n mod 10)])"

declare nat_digits.simps [simp del]

definition digits_val :: "string \<Rightarrow> nat" where
  "digits_val s = foldl (\<lambda>a c. a * 10 + digit_val c) 0 s"

text \<open>\<open>strconv.FormatInt(n, 10)\<close>, also \<open>%d\<close>.\<close>

definition itoa :: "int \<Rightarrow> string" where
  "itoa n = (if n < 0 then ''-'' @ nat_digits (nat (- n)) else nat_digits (nat n))"

text \<open>\<open>strconv.ParseInt(s, 10, 64)\<close>; \<open>None\<close> stands for its syntax and range errors.\<close>

definition parse_int64 :: "string \<Rightarrow> int option" where
  "parse_int64 s =
    (let neg = (case s of c # _ \<Rightarrow> c = CHR ''-'' | [] \<Rightarrow> False);
         rest = (case s of c # cs \<Rightarrow> (if c = CHR ''-'' \<or> c = CHR ''+'' then cs else s) | [] \<Rightarrow> s)
     in if rest = [] \<or> \<not> list_all is_digit rest then None
        else let v = int (digits_val rest)
             in if neg then (if v \<le> MaxInt64 + 1 then Some (- v) else None)
                else (if v \<le> MaxInt64 then Some v else None))"

lemma digit_char_facts:
  assumes "d < 10"
  shows "is_digit (digit_char d)" and "digit_val (digit_char d) = d"
  using assms by (simp_all add: is_digit_def digit_char_def digit_val_def)

lemma digit_not_sign [simp]: "is_digit c \<Longrightarrow> c \<noteq> CHR ''-''" "is_digit c \<Longrightarrow> c \<noteq> CHR ''+''"
    "is_digit c \<Longrightarrow> c \<noteq> CHR ''.''"
  by (auto simp: is_digit_def)

lemma digit_chars [simp]: "is_digit CHR ''0''" "\<not> is_digit CHR ''.''"
  by (simp_all add: is_digit_def)

lemma nat_digits_nonempty [simp]: "nat_digits n \<noteq> []"
  by (subst nat_digits.simps) simp

lemma nat_digits_digits [simp]: "list_all is_digit (nat_digits n)"
proof (induction n rule: nat_digits.induct)
  case (1 n)
  then show ?case
    by (cases "n < 10") (auto simp: nat_digits.simps [of n] digit_char_facts)
qed

lemma digits_val_snoc: "digits_val (s @ [c]) = digits_val s * 10 + digit_val c"
  by (simp add: digits_val_def)

lemma digits_val_nat_digits [simp]: "digits_val (nat_digits n) = n"
proof (induction n rule: nat_digits.induct)
  case (1 n)
  show ?case
  proof (cases "n < 10")
    case True
    then show ?thesis by (simp add: nat_digits.simps [of n] digits_val_def digit_char_facts)
  next
    case False
    with 1 show ?thesis
      by (simp add: nat_digits.simps [of n] digits_val_snoc digit_char_facts)
  qed
qed

lemma parse_int64_digits:
  assumes "s \<noteq> []" and "list_all is_digit s"
  shows "parse_int64 s = (if int (digits_val s) \<le> MaxInt64 then Some (int (digits_val s)) else None)"
proof -
  obtain c cs where s: "s = c # cs" using assms(1) by (cases s) auto
  with assms(2) have "is_digit c" by simp
  with s assms(2) show ?thesis by (simp add: parse_int64_def Let_def)
qed

lemma parse_itoa:
  assumes "in_i64 n"
  shows "parse_int64 (itoa n) = Some n"
proof (cases "n < 0")
  case True
  with assms show ?thesis
    by (simp add: parse_int64_def itoa_def in_i64_bounds MaxInt64_def)
next
  case False
  with assms show ?thesis
    by (simp add: itoa_def parse_int64_digits in_i64_def)
qed

section \<open>Digit strings of a fixed width\<close>

text \<open>\<open>%0wd\<close>: padded with zeros on the left, the sign first.\<close>

definition zero_pad :: "nat \<Rightarrow> int \<Rightarrow> string" where
  "zero_pad w n =
    (if n < 0 then ''-'' @ (let d = nat_digits (nat (- n)) in replicate (w - 1 - length d) CHR ''0'' @ d)
     else (let d = nat_digits (nat n) in replicate (w - length d) CHR ''0'' @ d))"

lemma digits_val_append: "digits_val (s @ t) = digits_val s * 10 ^ length t + digits_val t"
proof (induction t rule: rev_induct)
  case Nil
  then show ?case by (simp add: digits_val_def)
next
  case (snoc c t)
  then show ?case
    by (simp add: digits_val_snoc append_assoc [symmetric] algebra_simps del: append_assoc)
qed

lemma digits_val_zeros [simp]: "digits_val (replicate k CHR ''0'') = 0"
proof -
  have "digits_val (replicate k CHR ''0'') = foldl (\<lambda>a c. a * 10 + digit_val c) 0 (replicate k CHR ''0'')"
    by (simp add: digits_val_def)
  also have "\<dots> = 0" by (induction k) (simp_all add: digit_val_def)
  finally show ?thesis .
qed

lemma length_nat_digits: "n < 10 ^ k \<Longrightarrow> 0 < k \<Longrightarrow> length (nat_digits n) \<le> k"
proof (induction k arbitrary: n)
  case 0
  then show ?case by simp
next
  case (Suc k)
  show ?case
  proof (cases "n < 10")
    case True
    then show ?thesis by (simp add: nat_digits.simps [of n])
  next
    case False
    from Suc.prems have less: "n div 10 < 10 ^ k" by (simp add: less_mult_imp_div_less)
    with False have "0 < k" by (cases k) auto
    with less have "length (nat_digits (n div 10)) \<le> k" by (rule Suc.IH)
    with False show ?thesis by (simp add: nat_digits.simps [of n])
  qed
qed

lemma zero_pad_facts:
  assumes "0 \<le> n" and "n < 10 ^ w" and "0 < w"
  shows "list_all is_digit (zero_pad w n)" and "length (zero_pad w n) = w"
    and "int (digits_val (zero_pad w n)) = n"
proof -
  have "nat n < 10 ^ w" using assms(1,2) by (simp add: nat_less_iff)
  then have len: "length (nat_digits (nat n)) \<le> w" using assms(3) by (rule length_nat_digits)
  have pad: "zero_pad w n = replicate (w - length (nat_digits (nat n))) CHR ''0'' @ nat_digits (nat n)"
    using assms(1) by (simp add: zero_pad_def Let_def)
  have "list_all is_digit (replicate k CHR ''0'')" for k
    by (simp add: list_all_iff is_digit_def)
  then show "list_all is_digit (zero_pad w n)" by (simp add: pad)
  show "length (zero_pad w n) = w" using len by (simp add: pad)
  show "int (digits_val (zero_pad w n)) = n" using assms(1) by (simp add: pad digits_val_append)
qed

section \<open>White space\<close>

definition ascii_spaces :: "string list" where
  "ascii_spaces = map (\<lambda>c. [c]) [CHR 0x20, CHR 0x09, CHR 0x0A, CHR 0x0B, CHR 0x0C, CHR 0x0D]"

definition unicode_spaces :: "string list" where
  "unicode_spaces =
    [[CHR 0xC2, CHR 0x85], [CHR 0xC2, CHR 0xA0], [CHR 0xE1, CHR 0x9A, CHR 0x80],
     [CHR 0xE2, CHR 0x80, CHR 0x80], [CHR 0xE2, CHR 0x80, CHR 0x81], [CHR 0xE2, CHR 0x80, CHR 0x82],
     [CHR 0xE2, CHR 0x80, CHR 0x83], [CHR 0xE2, CHR 0x80, CHR 0x84], [CHR 0xE2, CHR 0x80, CHR 0x85],
     [CHR 0xE2, CHR 0x80, CHR 0x86], [CHR 0xE2, CHR 0x80, CHR 0x87], [CHR 0xE2, CHR 0x80, CHR 0x88],
     [CHR 0xE2, CHR 0x80, CHR 0x89], [CHR 0xE2, CHR 0x80, CHR 0x8A], [CHR 0xE2, CHR 0x80, CHR 0xA8],
     [CHR 0xE2, CHR 0x80, CHR 0xA9], [CHR 0xE2, CHR 0x80, CHR 0xAF], [CHR 0xE2, CHR 0x81, CHR 0x9F],
     [CHR 0xE3, CHR 0x80, CHR 0x80]]"

definition spaces :: "string list" where "spaces = ascii_spaces @ unicode_spaces"

text \<open>Bytes of the white-space code point a string starts with, 0 if there is none.\<close>

definition space_len :: "string list \<Rightarrow> string \<Rightarrow> nat" where
  "space_len us s = (case filter (\<lambda>u. take (length u) s = u) us of [] \<Rightarrow> 0 | u # _ \<Rightarrow> length u)"

lemma space_len_le: "space_len us s \<le> length s"
proof (cases "filter (\<lambda>u. take (length u) s = u) us")
  case Nil
  then show ?thesis by (simp add: space_len_def)
next
  case (Cons u vs)
  then have "take (length u) s = u" by (metis (mono_tags, lifting) filter_eq_ConsD)
  then have "length u \<le> length s" by (metis length_take min.cobounded1)
  with Cons show ?thesis by (simp add: space_len_def)
qed

function strip_left :: "string list \<Rightarrow> string \<Rightarrow> string" where
  "strip_left us s = (if space_len us s = 0 then s else strip_left us (drop (space_len us s) s))"
  by pat_completeness auto
termination
proof (relation "measure (\<lambda>(us, s). length s)", goal_cases)
  case 1
  then show ?case by simp
next
  case (2 us s)
  then show ?case using space_len_le [of us s] by simp
qed

declare strip_left.simps [simp del]

text \<open>\<open>strings.TrimSpace\<close>.\<close>

definition trim_space :: "string \<Rightarrow> string" where
  "trim_space s = rev (strip_left (map rev spaces) (rev (strip_left spaces s)))"

text \<open>A byte above the blank and below 127 starts and ends no white space.\<close>

definition graphic :: "char \<Rightarrow> bool" where
  "graphic c \<longleftrightarrow> 33 \<le> (of_char c :: nat) \<and> (of_char c :: nat) \<le> 126"

lemma digit_graphic [simp]: "is_digit c \<Longrightarrow> graphic c"
  by (simp add: graphic_def is_digit_def)

lemma space_heads:
  "list_all (\<lambda>u. u \<noteq> [] \<and> \<not> graphic (hd u)) spaces"
  "list_all (\<lambda>u. u \<noteq> [] \<and> \<not> graphic (hd u)) (map rev spaces)"
  by (simp_all add: spaces_def ascii_spaces_def unicode_spaces_def graphic_def)

lemma space_len_graphic:
  assumes us: "list_all (\<lambda>u. u \<noteq> [] \<and> \<not> graphic (hd u)) us"
    and s: "s \<noteq> [] \<Longrightarrow> graphic (hd s)"
  shows "space_len us s = 0"
proof -
  have "\<not> take (length u) s = u" if "u \<in> set us" for u
    using us that s by (cases u; cases s) (auto simp: list_all_iff)
  then have "filter (\<lambda>u. take (length u) s = u) us = []" by (simp add: filter_empty_conv)
  then show ?thesis by (simp add: space_len_def)
qed

lemma strip_left_graphic:
  assumes us: "list_all (\<lambda>u. u \<noteq> [] \<and> \<not> graphic (hd u)) us"
    and s: "s \<noteq> [] \<Longrightarrow> graphic (hd s)"
  shows "strip_left us s = s"
  by (subst strip_left.simps) (simp add: space_len_graphic us s)

lemma trim_space_graphic:
  assumes "s \<noteq> [] \<Longrightarrow> graphic (hd s) \<and> graphic (last s)"
  shows "trim_space s = s"
proof -
  have "strip_left spaces s = s"
    using assms by (intro strip_left_graphic [OF space_heads(1)]) simp
  moreover have "strip_left (map rev spaces) (rev s) = rev s"
    using assms by (intro strip_left_graphic [OF space_heads(2)]) (simp add: hd_rev)
  ultimately show ?thesis by (simp add: trim_space_def)
qed

section \<open>Splitting and trimming\<close>

text \<open>\<open>strings.Split(s, string(c))\<close>: never empty.\<close>

fun split_on :: "char \<Rightarrow> string \<Rightarrow> string list" where
  "split_on c [] = [[]]"
| "split_on c (x # xs) =
    (if x = c then [] # split_on c xs
     else (case split_on c xs of [] \<Rightarrow> [[x]] | w # ws \<Rightarrow> (x # w) # ws))"

lemma split_on_none: "c \<notin> set s \<Longrightarrow> split_on c s = [s]"
  by (induction s) auto

lemma split_on_append: "c \<notin> set s \<Longrightarrow> split_on c (s @ c # t) = s # split_on c t"
  by (induction s) auto

text \<open>\<open>strings.TrimRight(s, string(c))\<close> and \<open>strings.Trim(s, csset)\<close>.\<close>

definition trim_right :: "char \<Rightarrow> string \<Rightarrow> string" where
  "trim_right c s = rev (dropWhile (\<lambda>x. x = c) (rev s))"

definition trim_set :: "string \<Rightarrow> string \<Rightarrow> string" where
  "trim_set cs s = rev (dropWhile (\<lambda>x. x \<in> set cs) (rev (dropWhile (\<lambda>x. x \<in> set cs) s)))"

lemma trim_right_pad:
  "trim_right c s @ replicate (length s - length (trim_right c s)) c = s"
proof -
  let ?r = "takeWhile (\<lambda>x. x = c) (rev s)"
  have "rev s = ?r @ dropWhile (\<lambda>x. x = c) (rev s)" by simp
  then have "s = trim_right c s @ rev ?r"
    by (metis rev_append rev_rev_ident trim_right_def)
  moreover have "?r = replicate (length ?r) c"
    by (metis (mono_tags, lifting) replicate_eqI set_takeWhileD)
  then have "rev ?r = replicate (length ?r) c" by (metis rev_replicate)
  moreover have "length ?r = length s - length (trim_right c s)"
  proof -
    have "length ?r + length (dropWhile (\<lambda>x. x = c) (rev s)) = length s"
      by (metis length_append length_rev takeWhile_dropWhile_id)
    then show ?thesis by (simp add: trim_right_def)
  qed
  ultimately show ?thesis by metis
qed

lemma trim_right_append:
  assumes "\<exists>x\<in>set t. x \<noteq> c"
  shows "trim_right c (s @ t) = s @ trim_right c t"
  using assms by (auto simp: trim_right_def dropWhile_append)

lemma length_trim_right [simp]: "length (trim_right c s) \<le> length s"
  by (simp add: trim_right_def) (metis length_dropWhile_le length_rev)

lemma set_trim_right: "set (trim_right c s) \<subseteq> set s"
  by (auto simp: trim_right_def dest: set_dropWhileD)

section \<open>Words\<close>

text \<open>\<open>strings.Fields\<close>: the maximal runs of bytes outside white space.\<close>

fun cut_word :: "string \<Rightarrow> string \<times> string" where
  "cut_word [] = ([], [])"
| "cut_word (c # cs) =
    (if 0 < space_len spaces (c # cs) then ([], c # cs)
     else (case cut_word cs of (w, rest) \<Rightarrow> (c # w, rest)))"

lemma cut_word_append: "fst (cut_word s) @ snd (cut_word s) = s"
  by (induction s rule: cut_word.induct) (auto split: prod.splits)

lemma strip_left_length: "length (strip_left us s) \<le> length s"
proof (induction us s rule: strip_left.induct)
  case (1 us s)
  then show ?case by (subst strip_left.simps) (auto intro: order_trans)
qed

lemma strip_left_stops: "space_len us (strip_left us s) = 0"
proof (induction us s rule: strip_left.induct)
  case (1 us s)
  then show ?case by (subst strip_left.simps) simp
qed

lemma cut_word_progress: "space_len spaces s = 0 \<Longrightarrow> s \<noteq> [] \<Longrightarrow> length (snd (cut_word s)) < length s"
proof (cases s)
  case (Cons c cs)
  assume "space_len spaces s = 0"
  moreover have "length (snd (cut_word cs)) \<le> length cs" by (metis cut_word_append le_add2 length_append)
  ultimately show ?thesis using Cons by (auto split: prod.split)
qed simp

function str_fields :: "string \<Rightarrow> string list" where
  "str_fields s = (let t = strip_left spaces s in if t = [] then [] else fst (cut_word t) # str_fields (snd (cut_word t)))"
  by pat_completeness auto
termination
proof (relation "measure length", goal_cases)
  case (2 s t)
  then have "length (snd (cut_word t)) < length t" by (simp add: cut_word_progress strip_left_stops)
  with 2 strip_left_length [of spaces s] show ?case by simp
qed simp

declare str_fields.simps [simp del]

lemma space_len_graphic_Cons [simp]: "graphic c \<Longrightarrow> space_len spaces (c # cs) = 0"
  by (rule space_len_graphic [OF space_heads(1)]) simp

lemma space_len_blank [simp]: "space_len spaces (CHR '' '' # cs) = 1"
  by (simp add: space_len_def spaces_def ascii_spaces_def)

lemma cut_word_graphic:
  "list_all graphic w \<Longrightarrow> cut_word (w @ CHR '' '' # s) = (w, CHR '' '' # s)"
  "list_all graphic w \<Longrightarrow> cut_word w = (w, [])"
  by (induction w) auto

lemma str_fields_blank: "str_fields (CHR '' '' # s) = str_fields s"
proof -
  have "strip_left spaces (CHR '' '' # s) = strip_left spaces s" by (subst strip_left.simps) simp
  then show ?thesis by (simp only: str_fields.simps [of "CHR '' '' # s"] str_fields.simps [of s])
qed

lemma str_fields_word:
  assumes "list_all graphic w" and "w \<noteq> []"
  shows "str_fields (w @ CHR '' '' # s) = w # str_fields s" and "str_fields w = [w]"
proof -
  have strip: "strip_left spaces (w @ t) = w @ t" for t
    using assms by (intro strip_left_graphic [OF space_heads(1)]) (cases w; simp)
  show "str_fields (w @ CHR '' '' # s) = w # str_fields s"
    using assms strip [of "CHR '' '' # s"]
    by (subst str_fields.simps) (simp add: cut_word_graphic str_fields_blank)
  show "str_fields w = [w]"
    using assms strip [of "[]"]
    by (subst str_fields.simps) (simp add: cut_word_graphic, subst str_fields.simps, subst strip_left.simps, simp add: space_len_def spaces_def ascii_spaces_def unicode_spaces_def)
qed

text \<open>\<open>strings.Cut(s, string(c))\<close>, \<open>None\<close> when the separator is not there.\<close>

fun cut_on :: "char \<Rightarrow> string \<Rightarrow> (string \<times> string) option" where
  "cut_on c [] = None"
| "cut_on c (x # xs) =
    (if x = c then Some ([], xs) else map_option (\<lambda>(a, b). (x # a, b)) (cut_on c xs))"

lemma cut_on_append: "c \<notin> set a \<Longrightarrow> cut_on c (a @ c # b) = Some (a, b)"
  by (induction a) auto

lemma cut_on_none: "c \<notin> set a \<Longrightarrow> cut_on c a = None"
  by (induction a) auto

definition has_prefix :: "string \<Rightarrow> string \<Rightarrow> bool" where
  "has_prefix p s \<longleftrightarrow> take (length p) s = p"

lemma has_prefix_append [simp]: "has_prefix p (p @ s)"
  by (simp add: has_prefix_def)

lemma trim_set_id: "s \<noteq> [] \<Longrightarrow> hd s \<notin> set cs \<Longrightarrow> last s \<notin> set cs \<Longrightarrow> trim_set cs s = s"
proof -
  assume a: "s \<noteq> []" "hd s \<notin> set cs" "last s \<notin> set cs"
  have drop: "dropWhile (\<lambda>x. x \<in> set cs) t = t" if "t \<noteq> []" "hd t \<notin> set cs" for t
    using that by (cases t) auto
  show ?thesis using a drop [of s] drop [of "rev s"] by (simp add: trim_set_def hd_rev)
qed

section \<open>Lower case\<close>

text \<open>
  \<open>strings.ToLower\<close>: the ASCII letters and the two letters outside ASCII whose lower case is ASCII (U+0130 and
  U+212A). The other letters become letters outside ASCII, which no comparison of the program tells apart, and are
  copied.
\<close>

definition lower_char :: "char \<Rightarrow> char" where
  "lower_char c = (let n = (of_char c :: nat) in if 65 \<le> n \<and> n \<le> 90 then char_of (n + 32) else c)"

fun to_lower :: "string \<Rightarrow> string" where
  "to_lower [] = []"
| "to_lower [c] = [lower_char c]"
| "to_lower [c, d] = (if c = CHR 0xC4 \<and> d = CHR 0xB0 then ''i'' else [lower_char c, lower_char d])"
| "to_lower (c # d # e # cs) =
    (if c = CHR 0xC4 \<and> d = CHR 0xB0 then CHR ''i'' # to_lower (e # cs)
     else if c = CHR 0xE2 \<and> d = CHR 0x84 \<and> e = CHR 0xAA then CHR ''k'' # to_lower cs
     else lower_char c # to_lower (d # e # cs))"

end
