(* ===== verification/XF_Factor.thy ===== *)
theory XF_Factor
  imports XF_Strings
begin

text \<open>
  \<open>internal/engine/factor.go\<close>: factors are decimal strings with up to six fractional digits, kept as
  parts per million in an \<open>int64\<close>. The lemmas show that \<open>FormatFactor\<close> prints a string \<open>ParseFactor\<close>
  reads padded, and which values \<open>ParseFactor\<close> can return.
\<close>

definition FactorScale :: int where "FactorScale = 1000000"

text \<open>
  \<open>%q\<close>: the escapes Go uses for ASCII text; other bytes are copied, where Go escapes a rune that is not printable and
  a byte that is not UTF-8. Only texts of errors depend on it.
\<close>

definition hex_char :: "nat \<Rightarrow> char" where
  "hex_char d = (if d < 10 then digit_char d else (char_of (87 + d) :: char))"

definition quote_char :: "char \<Rightarrow> string" where
  "quote_char c =
    (let n = (of_char c :: nat) in
     if n = 34 then [CHR 92, CHR 34] else if n = 92 then [CHR 92, CHR 92]
     else if n = 7 then [CHR 92, CHR ''a''] else if n = 8 then [CHR 92, CHR ''b'']
     else if n = 12 then [CHR 92, CHR ''f''] else if n = 10 then [CHR 92, CHR ''n'']
     else if n = 13 then [CHR 92, CHR ''r''] else if n = 9 then [CHR 92, CHR ''t'']
     else if n = 11 then [CHR 92, CHR ''v'']
     else if n < 32 \<or> n = 127 then [CHR 92, CHR ''x'', hex_char (n div 16), hex_char (n mod 16)]
     else [c])"

definition quoted :: "string \<Rightarrow> string" where
  "quoted s = CHR 34 # concat (map quote_char s) @ [CHR 34]"

definition allDigits :: "string \<Rightarrow> bool" where
  "allDigits value = list_all is_digit value"

definition invalid_factor :: "string \<Rightarrow> error" where
  "invalid_factor input = ErrText (''invalid factor '' @ quoted input)"

definition ParseFactor :: "string \<Rightarrow> error + int" where
  "ParseFactor input =
    (let value = trim_space input in
     if value = [] then Inl (ErrText ''factor is required'')
     else let parts = split_on CHR ''.'' value in
     if 2 < length parts then Inl (invalid_factor input)
     else if hd parts = [] \<or> \<not> allDigits (hd parts) then Inl (invalid_factor input)
     else if length parts = 2 \<and>
        (parts ! 1 = [] \<or> 6 < length (parts ! 1) \<or> \<not> allDigits (parts ! 1)) then Inl (invalid_factor input)
     else case parse_int64 (hd parts) of
         None \<Rightarrow> Inl (invalid_factor input)
       | Some whole \<Rightarrow>
           if go_div MaxInt64 FactorScale < whole
           then Inl (ErrText (''factor '' @ quoted input @ '' is too large''))
           else case (if length parts = 2
                      then parse_int64 (parts ! 1 @ replicate (6 - length (parts ! 1)) CHR ''0'')
                      else Some 0) of
               None \<Rightarrow> Inl (invalid_factor input)
             | Some fraction \<Rightarrow>
                 let ppm = wrap64 (wrap64 (whole * FactorScale) + fraction) in
                 if ppm < FactorScale
                 then Inl (ErrText ''factor must be greater than or equal to 1'')
                 else Inr ppm)"

definition FormatFactor :: "int \<Rightarrow> string" where
  "FormatFactor ppm =
    (let whole = go_div ppm FactorScale; fraction = go_mod ppm FactorScale in
     if fraction = 0 then itoa whole
     else trim_right CHR ''0'' (itoa whole @ ''.'' @ zero_pad 6 fraction))"

section \<open>Printing\<close>

lemma FormatFactor_whole:
  "0 \<le> w \<Longrightarrow> FormatFactor (w * FactorScale) = nat_digits (nat w)"
  by (simp add: FormatFactor_def FactorScale_def go_div_nonneg go_mod_nonneg itoa_def)

lemma FormatFactor_fraction:
  assumes "0 \<le> w" and "0 < f" and "f < FactorScale"
  shows "FormatFactor (w * FactorScale + f) =
    nat_digits (nat w) @ CHR ''.'' # trim_right CHR ''0'' (zero_pad 6 f)"
proof -
  have f: "0 \<le> f" "f < 10 ^ 6" using assms by (simp_all add: FactorScale_def)
  have "\<exists>x\<in>set (zero_pad 6 f). x \<noteq> CHR ''0''"
  proof (rule ccontr)
    assume "\<not> ?thesis"
    then have "zero_pad 6 f = replicate 6 CHR ''0''"
      using zero_pad_facts(2) [OF f] by (metis replicate_eqI zero_less_numeral)
    then have "int (digits_val (zero_pad 6 f)) = 0" by simp
    with zero_pad_facts(3) [OF f] assms(2) show False by simp
  qed
  then have trim: "trim_right CHR ''0'' ((nat_digits (nat w) @ [CHR ''.'']) @ zero_pad 6 f) =
      (nat_digits (nat w) @ [CHR ''.'']) @ trim_right CHR ''0'' (zero_pad 6 f)"
    by (rule trim_right_append)
  have div: "(w * 1000000 + f) div 1000000 = w" "(w * 1000000 + f) mod 1000000 = f"
    using assms by (simp_all add: FactorScale_def)
  show ?thesis
    using trim assms by (simp add: FormatFactor_def FactorScale_def go_div_nonneg go_mod_nonneg itoa_def div)
qed

section \<open>Parsing what was printed\<close>

lemma digits_no_dot: "list_all is_digit s \<Longrightarrow> CHR ''.'' \<notin> set s"
  by (auto simp: list_all_iff)

lemma digits_graphic_ends:
  "list_all is_digit s \<Longrightarrow> s \<noteq> [] \<Longrightarrow> graphic (hd s) \<and> graphic (last s)"
  by (simp add: list_all_iff)

lemma ParseFactor_whole:
  assumes "1 \<le> w" and "w * FactorScale \<le> MaxInt64"
  shows "ParseFactor (nat_digits (nat w)) = Inr (w * FactorScale)"
proof -
  let ?s = "nat_digits (nat w)"
  have "trim_space ?s = ?s" by (rule trim_space_graphic) (simp add: digits_graphic_ends)
  moreover have "split_on CHR ''.'' ?s = [?s]" by (simp add: split_on_none digits_no_dot)
  moreover have "parse_int64 ?s = Some w"
    using assms by (simp add: parse_int64_digits FactorScale_def MaxInt64_def)
  moreover have "in_i64 (w * FactorScale)"
    using assms by (simp add: in_i64_def MinInt64_def FactorScale_def)
  moreover have "w \<le> go_div MaxInt64 FactorScale"
    using assms by (simp add: go_div_nonneg FactorScale_def MaxInt64_def)
  ultimately show ?thesis
    using assms by (simp add: ParseFactor_def allDigits_def Let_def FactorScale_def)
qed

lemma digits_val_bound: "list_all is_digit s \<Longrightarrow> digits_val s < 10 ^ length s"
proof (induction s rule: rev_induct)
  case (snoc c s)
  have "digit_val c \<le> 9" using snoc.prems by (auto simp: is_digit_def digit_val_def)
  with snoc show ?case by (simp add: digits_val_snoc)
qed (simp add: digits_val_def)

text \<open>The two parts of a decimal number, and what becomes of their sum.\<close>

lemma ParseFactor_parts:
  assumes w: "1 \<le> w" "w * FactorScale \<le> MaxInt64" and t: "t \<noteq> []" "length t \<le> 6" "list_all is_digit t"
    and f: "int (digits_val (t @ replicate (6 - length t) CHR ''0'')) = f"
  shows "ParseFactor (nat_digits (nat w) @ CHR ''.'' # t) =
    (if w * FactorScale + f \<le> MaxInt64 then Inr (w * FactorScale + f)
     else Inl (ErrText ''factor must be greater than or equal to 1''))"
proof -
  let ?s = "nat_digits (nat w) @ CHR ''.'' # t" and ?p = "t @ replicate (6 - length t) CHR ''0''"
  have "graphic (hd ?s) \<and> graphic (last ?s)"
    using t digits_graphic_ends [of "nat_digits (nat w)"] digits_graphic_ends [of t] by simp
  then have "trim_space ?s = ?s" by (simp add: trim_space_graphic)
  moreover have "split_on CHR ''.'' ?s = [nat_digits (nat w), t]"
    using t by (simp add: split_on_append split_on_none digits_no_dot)
  moreover have digits: "list_all is_digit ?p" using t by (auto simp: list_all_iff)
  then have "digits_val ?p < 10 ^ 6" using digits_val_bound [OF digits] t by simp
  then have f0: "0 \<le> f" "f < 1000000" using f by simp_all
  have "parse_int64 (nat_digits (nat w)) = Some w" "w \<le> go_div MaxInt64 FactorScale"
    using w by (simp_all add: parse_int64_digits go_div_nonneg FactorScale_def MaxInt64_def)
  moreover have "parse_int64 ?p = Some f"
    using t f f0 digits by (simp add: parse_int64_digits MaxInt64_def)
  moreover have "wrap64 (w * FactorScale) = w * FactorScale"
    using w by (simp add: in_i64_def MinInt64_def FactorScale_def)
  moreover have "wrap64 (w * FactorScale + f) =
      (if w * FactorScale + f \<le> MaxInt64 then w * FactorScale + f else w * FactorScale + f - 2 ^ 64)"
    using w f0 wrap64_past [of "w * FactorScale + f"] by (auto simp: in_i64_nonneg FactorScale_def MaxInt64_def)
  ultimately show ?thesis
    using t w f0 by (simp add: ParseFactor_def allDigits_def Let_def FactorScale_def MaxInt64_def)
qed

lemma ParseFactor_fraction:
  assumes "1 \<le> w" and "t \<noteq> []" "length t \<le> 6" "list_all is_digit t"
    and "int (digits_val (t @ replicate (6 - length t) CHR ''0'')) = f"
    and "w * FactorScale + f \<le> MaxInt64"
  shows "ParseFactor (nat_digits (nat w) @ CHR ''.'' # t) = Inr (w * FactorScale + f)"
proof -
  have "0 \<le> f" using assms(5) by simp
  with assms show ?thesis by (subst ParseFactor_parts [OF assms(1) _ assms(2-5)]) simp_all
qed

text \<open>
  C26. Round trip: every factor the program can hold, from 1 (the scale) to the largest \<open>int64\<close>, is
  printed by \<open>FormatFactor\<close> as a string that \<open>ParseFactor\<close> reads padded as the same factor. So a factor
  shown by \<open>status\<close> or \<open>explain\<close> can be given to \<open>enable\<close> without loss.
\<close>

theorem ParseFactor_FormatFactor:
  assumes "FactorScale \<le> ppm" and "ppm \<le> MaxInt64"
  shows "ParseFactor (FormatFactor ppm) = Inr ppm"
proof -
  define w where "w = ppm div FactorScale"
  define f where "f = ppm mod FactorScale"
  have ppm: "ppm = w * FactorScale + f" by (simp add: w_def f_def)
  have f: "0 \<le> f" "f < FactorScale" by (simp_all add: f_def FactorScale_def)
  have w: "1 \<le> w" using assms(1) ppm f by (simp add: FactorScale_def)
  show ?thesis
  proof (cases "f = 0")
    case True
    with w assms(2) show ?thesis by (simp add: ppm FormatFactor_whole ParseFactor_whole)
  next
    case False
    let ?t = "trim_right CHR ''0'' (zero_pad 6 f)"
    have f': "0 \<le> f" "f < 10 ^ 6" using f by (simp_all add: FactorScale_def)
    note pad = zero_pad_facts [OF f', simplified]
    have padded: "?t @ replicate (6 - length ?t) CHR ''0'' = zero_pad 6 f"
      using trim_right_pad [of "CHR ''0''" "zero_pad 6 f"] pad(2) by simp
    have "?t \<noteq> []"
    proof
      assume "?t = []"
      with padded have "zero_pad 6 f = replicate 6 CHR ''0''" by simp
      then have "digits_val (zero_pad 6 f) = 0" by (simp only: digits_val_zeros)
      with pad(3) False show False by simp
    qed
    moreover have "length ?t \<le> 6" using length_trim_right [of "CHR ''0''" "zero_pad 6 f"] pad(2) by simp
    moreover have "list_all is_digit ?t"
      using pad(1) set_trim_right [of "CHR ''0''" "zero_pad 6 f"] by (auto simp: list_all_iff)
    ultimately have "ParseFactor (nat_digits (nat w) @ CHR ''.'' # ?t) = Inr (w * FactorScale + f)"
      using w assms(2) padded pad(3) ppm by (intro ParseFactor_fraction) simp_all
    moreover have "FormatFactor ppm = nat_digits (nat w) @ CHR ''.'' # ?t"
      unfolding ppm using w f False by (intro FormatFactor_fraction) simp_all
    ultimately show ?thesis by (simp add: ppm)
  qed
qed

theorem ParseFactor_FormatFactor_witness:
  "FactorScale \<le> 1250000 \<and> 1250000 \<le> MaxInt64 \<and> ParseFactor (FormatFactor 1250000) = Inr 1250000"
  using ParseFactor_FormatFactor [of 1250000] by (simp add: FactorScale_def MaxInt64_def)

lemma replicate_numeral: "replicate (numeral k) c = c # replicate (pred_numeral k) c"
  by (simp add: numeral_eq_Suc)

lemmas ParseFactor_eval = replicate_numeral
  ParseFactor_def trim_space_graphic graphic_def allDigits_def is_digit_def parse_int64_def
  digits_val_def digit_val_def go_div_def FactorScale_def MaxInt64_def wrap64_def

lemma ParseFactor_in_range: "ParseFactor input = Inr ppm \<Longrightarrow> FactorScale \<le> ppm \<and> in_i64 ppm"
  by (auto simp: ParseFactor_def Let_def split: if_splits option.splits)

text \<open>
  Bounds: whatever the input, a factor \<open>ParseFactor\<close> accepts is at least 1 and fits an \<open>int64\<close>, so
  no rule or override can be created that lowers a counter or holds a wrapped value.
\<close>

theorem ParseFactor_range:
  assumes "ParseFactor input = Inr ppm"
  shows "FactorScale \<le> ppm \<and> in_i64 ppm"
  using assms by (rule ParseFactor_in_range)

text \<open>
  C27. Every decimal number whose whole part passes the guard is accepted with its exact value exactly when that value fits an
  \<open>int64\<close>. The sum of the two parts is not checked: past the bound it wraps to a negative value, and the last check
  then reports a factor below 1 instead of one that is too large.
\<close>

theorem ParseFactor_decimal:
  assumes "1 \<le> w" "w * FactorScale \<le> MaxInt64" and "t \<noteq> []" "length t \<le> 6" "list_all is_digit t"
  shows "ParseFactor (itoa w @ CHR ''.'' # t) =
    (let ppm = w * FactorScale + int (digits_val (t @ replicate (6 - length t) CHR ''0'')) in
     if ppm \<le> MaxInt64 then Inr ppm else Inl (ErrText ''factor must be greater than or equal to 1''))"
  using assms ParseFactor_parts [OF assms refl] by (simp add: itoa_def Let_def)

theorem ParseFactor_decimal_witness:
  "ParseFactor (itoa 9223372036854 @ CHR ''.'' # ''8'') = Inl (ErrText ''factor must be greater than or equal to 1'') \<and>
   ParseFactor (itoa 9223372036854 @ CHR ''.'' # ''7'') = Inr 9223372036854700000"
  using ParseFactor_decimal [of 9223372036854 "''8''"] ParseFactor_decimal [of 9223372036854 "''7''"]
  by (simp add: FactorScale_def MaxInt64_def is_digit_def digits_val_def digit_val_def replicate_numeral)

end
