(* ===== verification/XF_Duration.thy ===== *)
theory XF_Duration
  imports XF_Factor
begin

text \<open>
  Durations in nanoseconds: Go's \<open>time.ParseDuration\<close>, and the two functions that add a suffix \<open>d\<close> for days,
  \<open>parseDuration\<close> of \<open>config/config.go\<close> and \<open>parseDurationFlag\<close> of \<open>cli/cli.go\<close>. The one floating-point
  expression, a fraction times its unit, is the parameter \<open>frac\<close>: digits, number of digits, unit.
\<close>

section \<open>time.ParseDuration\<close>

type_synonym fraction = "nat \<Rightarrow> nat \<Rightarrow> nat \<Rightarrow> nat"

definition units :: "(string \<times> nat) list" where
  "units = [(''ns'', 1), (''us'', 1000), ([CHR 0xC2, CHR 0xB5, CHR ''s''], 1000), ([CHR 0xCE, CHR 0xBC, CHR ''s''], 1000),
     (''ms'', 1000000), (''s'', 1000000000), (''m'', 60000000000), (''h'', 3600000000000)]"

text \<open>Digits up to the first other byte; \<open>None\<close> when the number leaves the 63 bits.\<close>

fun leadingInt :: "string \<Rightarrow> nat \<Rightarrow> (nat \<times> string) option" where
  "leadingInt [] x = Some (x, [])"
| "leadingInt (c # cs) x =
    (if \<not> is_digit c then Some (x, c # cs)
     else if 2 ^ 63 div 10 < x then None
     else if 2 ^ 63 < x * 10 + digit_val c then None
     else leadingInt cs (x * 10 + digit_val c))"

fun leadingFraction :: "string \<Rightarrow> nat \<Rightarrow> nat \<Rightarrow> bool \<Rightarrow> nat \<times> nat \<times> string" where
  "leadingFraction [] x k overflow = (x, k, [])"
| "leadingFraction (c # cs) x k overflow =
    (if \<not> is_digit c then (x, k, c # cs)
     else if overflow \<or> (2 ^ 63 - 1) div 10 < x \<or> 2 ^ 63 < x * 10 + digit_val c then leadingFraction cs x k True
     else leadingFraction cs (x * 10 + digit_val c) (k + 1) False)"

definition is_unit_char :: "char \<Rightarrow> bool" where
  "is_unit_char c \<longleftrightarrow> c \<noteq> CHR ''.'' \<and> \<not> is_digit c"

text \<open>One number with its unit, and what is left.\<close>

definition parse_segment :: "fraction \<Rightarrow> string \<Rightarrow> (nat \<times> string) option" where
  "parse_segment frac s =
    (case leadingInt s 0 of
       None \<Rightarrow> None
     | Some (v, s1) \<Rightarrow>
         (let dot = (s1 \<noteq> [] \<and> hd s1 = CHR ''.'') in
          case (if dot then leadingFraction (tl s1) 0 0 False else (0, 0, s1)) of
            (f, k, s2) \<Rightarrow>
              (let pre = (length s1 \<noteq> length s); post = (dot \<and> length s2 \<noteq> length (tl s1));
                   u = takeWhile is_unit_char s2
               in if \<not> pre \<and> \<not> post \<or> u = [] then None
                  else case map_of units u of
                      None \<Rightarrow> None
                    | Some unit \<Rightarrow>
                        if 2 ^ 63 div unit < v then None
                        else
                          let ns = (if 0 < f then v * unit + frac f k unit else v * unit)
                          in if 0 < f \<and> 2 ^ 63 < ns then None else Some (ns, dropWhile is_unit_char s2))))"

lemma leadingInt_length: "leadingInt s x = Some (v, s1) \<Longrightarrow> length s1 \<le> length s"
  by (induction s x rule: leadingInt.induct) (auto split: if_splits)

lemma leadingFraction_length: "leadingFraction s x k b = (f, k', s2) \<Longrightarrow> length s2 \<le> length s"
  by (induction s x k b rule: leadingFraction.induct) (auto split: if_splits)

lemma parse_segment_length:
  assumes "parse_segment frac s = Some (v, rest)"
  shows "length rest < length s"
proof -
  obtain v1 s1 f k s2 where s1: "leadingInt s 0 = Some (v1, s1)"
    and s2: "(if s1 \<noteq> [] \<and> hd s1 = CHR ''.'' then leadingFraction (tl s1) 0 0 False else (0, 0, s1)) = (f, k, s2)"
    and u: "takeWhile is_unit_char s2 \<noteq> []" and rest: "rest = dropWhile is_unit_char s2"
    using assms by (auto simp: parse_segment_def Let_def split: option.splits prod.splits if_splits)
  have "length s2 \<le> length s1" using s2 leadingFraction_length by (fastforce split: if_splits)
  moreover have "length rest < length s2"
  proof -
    have "length (takeWhile is_unit_char s2) + length rest = length s2"
      by (metis length_append rest takeWhile_dropWhile_id)
    with u show ?thesis by (cases "takeWhile is_unit_char s2") auto
  qed
  ultimately show ?thesis using leadingInt_length [OF s1] by simp
qed

text \<open>The loop adds in 64 unsigned bits.\<close>

function parse_segments :: "fraction \<Rightarrow> string \<Rightarrow> nat \<Rightarrow> nat option" where
  "parse_segments frac s d =
    (if s = [] then Some d
     else case parse_segment frac s of
         None \<Rightarrow> None
       | Some (v, rest) \<Rightarrow>
           let d' = (d + v) mod 2 ^ 64 in if 2 ^ 63 < d' then None else parse_segments frac rest d')"
  by pat_completeness auto
termination
  by (relation "measure (\<lambda>(frac, s, d). length s)") (auto dest: parse_segment_length)

declare parse_segments.simps [simp del]

definition ParseDuration :: "fraction \<Rightarrow> string \<Rightarrow> int option" where
  "ParseDuration frac s =
    (let neg = (case s of c # _ \<Rightarrow> c = CHR ''-'' | [] \<Rightarrow> False);
         rest = (case s of c # cs \<Rightarrow> if c = CHR ''-'' \<or> c = CHR ''+'' then cs else s | [] \<Rightarrow> s)
     in if rest = ''0'' then Some 0
        else if rest = [] then None
        else case parse_segments frac rest 0 of
            None \<Rightarrow> None
          | Some d \<Rightarrow> if neg then Some (- int d) else if int d \<le> MaxInt64 then Some (int d) else None)"

section \<open>Days\<close>

definition has_suffix_d :: "string \<Rightarrow> bool" where
  "has_suffix_d s \<longleftrightarrow> s \<noteq> [] \<and> last s = CHR ''d''"

definition invalid_duration :: "string \<Rightarrow> error" where
  "invalid_duration value = ErrText (''time: invalid duration '' @ quoted value)"

definition parseDuration :: "fraction \<Rightarrow> string \<Rightarrow> error + int" where
  "parseDuration frac value =
    (case ParseDuration frac value of
       Some d \<Rightarrow> Inr d
     | None \<Rightarrow>
         if \<not> has_suffix_d value then Inl (invalid_duration value)
         else if trim_space (butlast value) = [] then Inl (invalid_duration value)
         else case ParseDuration frac (butlast value @ ''h'') of
             None \<Rightarrow> Inl (invalid_duration value)
           | Some days \<Rightarrow> Inr (wrap64 (days * 24)))"

definition positive_duration_error :: "string \<Rightarrow> error" where
  "positive_duration_error name = ErrText (name @ '' must be a positive duration'')"

definition parseDurationFlag :: "fraction \<Rightarrow> string \<Rightarrow> string \<Rightarrow> error + int" where
  "parseDurationFlag frac value name =
    (case (case ParseDuration frac value of
        Some d \<Rightarrow> Some d
      | None \<Rightarrow>
          if \<not> has_suffix_d value then None
          else (case parse_int64 (butlast value) of
              None \<Rightarrow> None
            | Some days \<Rightarrow> if trim_space (butlast value) = [] then None else Some (wrap64 (days * 86400000000000)))) of
       None \<Rightarrow> Inl (positive_duration_error name)
     | Some d \<Rightarrow> if d \<le> 0 then Inl (positive_duration_error name) else Inr d)"

section \<open>Bounds\<close>

lemma parse_segments_bound: "parse_segments frac s d = Some d' \<Longrightarrow> d \<le> 2 ^ 63 \<Longrightarrow> d' \<le> 2 ^ 63"
proof (induction frac s d rule: parse_segments.induct)
  case (1 frac s d)
  show ?case
  proof (cases "s = []")
    case True
    with 1(2,3) show ?thesis by (simp add: parse_segments.simps)
  next
    case False
    then obtain v rest where seg: "parse_segment frac s = Some (v, rest)" and small: "(d + v) mod 2 ^ 64 \<le> 2 ^ 63"
      and run: "parse_segments frac rest ((d + v) mod 2 ^ 64) = Some d'"
      using 1(2) by (subst (asm) parse_segments.simps) (auto simp: Let_def split: if_splits option.splits)
    from 1(1) [OF False seg refl refl] small run show ?thesis by simp
  qed
qed

lemma ParseDuration_range: "ParseDuration frac s = Some d \<Longrightarrow> in_i64 d"
  using parse_segments_bound [of frac _ 0]
  by (auto simp: ParseDuration_def in_i64_bounds MaxInt64_def Let_def split: if_splits option.splits list.splits)

lemma parseDuration_range: "parseDuration frac s = Inr d \<Longrightarrow> in_i64 d"
  by (auto simp: parseDuration_def split: option.splits if_splits dest: ParseDuration_range)

text \<open>
  A duration flag that is accepted is positive and fits 63 bits, whatever the text and whatever the
  floating-point fraction; in particular a poll of the audit log since such a duration looks back.
\<close>

theorem parseDurationFlag_range:
  assumes "parseDurationFlag frac value name = Inr d"
  shows "0 < d \<and> d \<le> MaxInt64"
proof -
  have "0 < d" "in_i64 d"
    using assms by (auto simp: parseDurationFlag_def split: option.splits if_splits dest: ParseDuration_range)
  then show ?thesis by (simp add: in_i64_nonneg)
qed

section \<open>Days that wrap\<close>

lemma digits_val_Cons: "digits_val (a # s) = digit_val a * 10 ^ length s + digits_val s"
  using digits_val_append [of "[a]" s] by (simp add: digits_val_def)

lemma leadingInt_digits:
  "list_all is_digit s \<Longrightarrow> \<not> is_digit c \<Longrightarrow> x * 10 ^ length s + digits_val s \<le> 2 ^ 63 \<Longrightarrow>
    leadingInt (s @ c # r) x = Some (x * 10 ^ length s + digits_val s, c # r)"
proof (induction s arbitrary: x)
  case (Cons a s)
  have sum: "x * 10 ^ length (a # s) + digits_val (a # s) = (x * 10 + digit_val a) * 10 ^ length s + digits_val s"
    by (simp add: digits_val_Cons add_mult_distrib)
  have "x * 10 + digit_val a \<le> (x * 10 + digit_val a) * 10 ^ length s" by simp
  also have "\<dots> \<le> 2 ^ 63" using Cons.prems(3) unfolding sum by (rule add_leD1)
  finally have "leadingInt ((a # s) @ c # r) x = leadingInt (s @ c # r) (x * 10 + digit_val a)"
    using Cons.prems(1) by simp
  also have "\<dots> = Some ((x * 10 + digit_val a) * 10 ^ length s + digits_val s, c # r)"
    using Cons.prems unfolding sum by (intro Cons.IH) simp_all
  finally show ?case unfolding sum .
qed (simp add: digits_val_def)

lemma one_segment:
  assumes "n \<le> 2 ^ 63" and "is_unit_char c"
  shows "parse_segment frac (nat_digits n @ [c]) =
    (case map_of units [c] of
       None \<Rightarrow> None
     | Some unit \<Rightarrow> if 2 ^ 63 div unit < n then None else Some (n * unit, []))"
proof -
  have "leadingInt (nat_digits n @ [c]) 0 = Some (n, [c])"
    using assms leadingInt_digits [of "nat_digits n" c 0 "[]"] by (simp add: is_unit_char_def)
  with assms(2) show ?thesis by (simp add: parse_segment_def is_unit_char_def Let_def split: option.split)
qed

lemma number_sign: "\<exists>c cs. nat_digits n @ t = c # cs \<and> c \<noteq> CHR ''-'' \<and> c \<noteq> CHR ''+''"
proof -
  obtain c cs where n: "nat_digits n = c # cs" by (cases "nat_digits n") auto
  then have "is_digit c" using nat_digits_digits [of n] by simp
  with n show ?thesis by (auto simp: is_digit_def)
qed

lemma parse_segments_one:
  "parse_segment frac s = None \<Longrightarrow> s \<noteq> [] \<Longrightarrow> parse_segments frac s 0 = None"
  "parse_segment frac s = Some (v, []) \<Longrightarrow> s \<noteq> [] \<Longrightarrow> v \<le> 2 ^ 63 \<Longrightarrow> parse_segments frac s 0 = Some v"
  by (subst parse_segments.simps, simp) (subst parse_segments.simps, simp add: parse_segments.simps [of frac "[]"])

lemma number_with_unit:
  assumes "is_unit_char c"
  shows "ParseDuration frac (nat_digits n @ [c]) =
    (case parse_segments frac (nat_digits n @ [c]) 0 of
       None \<Rightarrow> None | Some v \<Rightarrow> if int v \<le> MaxInt64 then Some (int v) else None)"
proof -
  obtain x xs where "nat_digits n @ [c] = x # xs" "x \<noteq> CHR ''-''" "x \<noteq> CHR ''+''" using number_sign by blast
  moreover have "nat_digits n @ [c] \<noteq> ''0''"
    using assms nat_digits_nonempty [of n] by (cases "nat_digits n") auto
  ultimately show ?thesis by (auto simp: ParseDuration_def Let_def split: option.split)
qed

lemma leadingInt_overflow:
  "list_all is_digit s \<Longrightarrow> \<not> is_digit c \<Longrightarrow> x \<le> 2 ^ 63 \<Longrightarrow> 2 ^ 63 < x * 10 ^ length s + digits_val s \<Longrightarrow>
    leadingInt (s @ c # r) x = None"
proof (induction s arbitrary: x)
  case (Cons a s)
  have sum: "x * 10 ^ length (a # s) + digits_val (a # s) = (x * 10 + digit_val a) * 10 ^ length s + digits_val s"
    by (simp add: digits_val_Cons add_mult_distrib)
  show ?case
  proof (cases "2 ^ 63 div 10 < x \<or> 2 ^ 63 < x * 10 + digit_val a")
    case True
    with Cons.prems(1) show ?thesis by auto
  next
    case False
    with Cons.prems(1,2,4) have "leadingInt (s @ c # r) (x * 10 + digit_val a) = None"
      unfolding sum by (intro Cons.IH) simp_all
    with False Cons.prems(1) show ?thesis by simp
  qed
qed (simp add: digits_val_def)

lemma too_many_digits:
  assumes "2 ^ 63 < n" and "is_unit_char c"
  shows "ParseDuration frac (nat_digits n @ [c]) = None"
proof -
  have "leadingInt (nat_digits n @ [c]) 0 = None"
    using assms leadingInt_overflow [of "nat_digits n" c 0 "[]"] by (simp add: is_unit_char_def)
  then have "parse_segments frac (nat_digits n @ [c]) 0 = None" by (simp add: parse_segments_one parse_segment_def)
  with number_with_unit [OF assms(2), of frac n] show ?thesis by simp
qed

text \<open>Go's unit of a day does not exist, and an hour is accepted up to the largest number of hours in 63 bits.\<close>

lemma whole_hours:
  "ParseDuration frac (nat_digits n @ ''h'') = (if n \<le> 2562047 then Some (int n * 3600000000000) else None)"
  "ParseDuration frac (nat_digits n @ ''d'') = None"
proof -
  have units: "map_of units ''h'' = Some 3600000000000" "map_of units ''d'' = None" by (simp_all add: units_def)
  have chars: "is_unit_char CHR ''h''" "is_unit_char CHR ''d''" by (simp_all add: is_unit_char_def is_digit_def)
  show "ParseDuration frac (nat_digits n @ ''d'') = None"
    using number_with_unit [OF chars(2)] one_segment [OF _ chars(2), of n frac] too_many_digits [OF _ chars(2)] units(2)
    by (cases "n \<le> 2 ^ 63") (simp_all add: parse_segments_one)
  show "ParseDuration frac (nat_digits n @ ''h'') = (if n \<le> 2562047 then Some (int n * 3600000000000) else None)"
  proof (cases "n \<le> 2 ^ 63")
    case True
    from one_segment [OF True chars(1), of frac]
    have "parse_segment frac (nat_digits n @ ''h'') = (if n \<le> 2562047 then Some (n * 3600000000000, []) else None)"
      by (simp add: units(1))
    then show ?thesis using number_with_unit [OF chars(1), of frac n]
      by (simp add: parse_segments_one MaxInt64_def split: if_splits)
  qed (use too_many_digits [OF _ chars(1)] in simp)
qed

lemma trim_number: "trim_space (nat_digits n) = nat_digits n"
  using nat_digits_digits [of n] by (intro trim_space_graphic) (simp add: list_all_iff)

text \<open>
  C40. Days are multiplied without an overflow check. In the configuration, \<open>n\<close> days are accepted up to 2562047 (the most
  hours that fit 63 bits, as the number is first read as hours) and refused above; what is accepted is
  \<open>n * 86400000000000\<close> nanoseconds reduced to 64 bits. \<open>audit --since\<close> takes any \<open>n\<close> that fits 63 bits, reduces
  the product alike, and refuses it when it is not positive. The product means \<open>n\<close> days exactly up to 106751, so
  213504 days (584 years) are 1526 seconds, and an \<open>audit_retention\<close> of that many prunes the log after 25 minutes.
\<close>

theorem days_are_reduced:
  "parseDuration frac (nat_digits n @ ''d'') =
     (if n \<le> 2562047 then Inr (wrap64 (int n * 86400000000000)) else Inl (invalid_duration (nat_digits n @ ''d''))) \<and>
   parseDurationFlag frac (nat_digits n @ ''d'') name =
     (if int n \<le> MaxInt64 \<and> 0 < wrap64 (int n * 86400000000000) then Inr (wrap64 (int n * 86400000000000))
      else Inl (positive_duration_error name)) \<and>
   (wrap64 (int n * 86400000000000) = int n * 86400000000000 \<longleftrightarrow> n \<le> 106751)"
proof -
  have number: "parse_int64 (nat_digits n) = (if int n \<le> MaxInt64 then Some (int n) else None)"
    by (simp add: parse_int64_digits)
  have "wrap64 x = x \<longleftrightarrow> in_i64 x" for x by (metis wrap64_id wrap64_in_range)
  then have "wrap64 (int n * 86400000000000) = int n * 86400000000000 \<longleftrightarrow> n \<le> 106751"
    by (simp add: in_i64_bounds) linarith
  then show ?thesis
    by (simp add: parseDuration_def parseDurationFlag_def whole_hours number has_suffix_d_def trim_number mult.assoc)
qed

theorem days_are_reduced_witness:
  "\<forall>frac name. parseDuration frac (nat_digits 213504 @ ''d'') = Inr 1526290448384 \<and>
     parseDurationFlag frac (nat_digits 213504 @ ''d'') name = Inr 1526290448384 \<and>
     parseDurationFlag frac (nat_digits 106752 @ ''d'') name = Inl (positive_duration_error name) \<and>
     parseDuration frac (nat_digits 2562048 @ ''d'') = Inl (invalid_duration (nat_digits 2562048 @ ''d''))"
  using days_are_reduced [of _ 213504] days_are_reduced [of _ 106752] days_are_reduced [of _ 2562048]
  by (simp add: wrap64_def MaxInt64_def)

text \<open>The fraction as an exact quotient, and a plain duration.\<close>

definition exact_fraction :: fraction where
  "exact_fraction f k unit = f * unit div 10 ^ k"

theorem parseDurationFlag_range_witness:
  "parseDurationFlag exact_fraction ''1.5h'' ''--since'' = Inr 5400000000000 \<and> (5400000000000 :: int) \<le> MaxInt64"
proof -
  have run: "parseDurationFlag exact_fraction ''1.5h'' ''--since'' = Inr 5400000000000"
    by (simp add: parseDurationFlag_def ParseDuration_def parse_segments.simps parse_segment_def units_def is_unit_char_def
        is_digit_def digit_val_def MaxInt64_def exact_fraction_def Let_def)
  with parseDurationFlag_range [OF run] show ?thesis by simp
qed

end
