(* ===== verification/XF_Json.thy ===== *)
theory XF_Json
  imports XF_Strings
begin

text \<open>
  The part of Go's \<open>encoding/json\<close> that reading a configuration file uses, on bytes: the grammar with its limit on
  nesting, the decoding of string literals, and the comparison of keys with the names of fields. The text is first
  cut into tokens and the tokens are put together by a machine with a stack of open arrays and objects, as the
  package's scanner does it.
\<close>

section \<open>UTF-8\<close>

definition byte :: "char \<Rightarrow> nat" where
  "byte c = of_char c"

definition continuation :: "char \<Rightarrow> bool" where
  "continuation c \<longleftrightarrow> 128 \<le> byte c \<and> byte c \<le> 191"

definition between :: "nat \<Rightarrow> nat \<Rightarrow> char \<Rightarrow> bool" where
  "between lo hi c \<longleftrightarrow> lo \<le> byte c \<and> byte c \<le> hi"

text \<open>\<open>utf8.DecodeRune\<close>: the length of the valid encoding a text starts with, 0 if there is none.\<close>

fun rune_length :: "string \<Rightarrow> nat" where
  "rune_length [] = 0"
| "rune_length (a # s) =
    (if byte a < 128 then 1
     else case s of
       [] \<Rightarrow> 0
     | b # s1 \<Rightarrow>
         (if between 194 223 a then (if continuation b then 2 else 0)
          else case s1 of
            [] \<Rightarrow> 0
          | c # s2 \<Rightarrow>
              (if between 224 239 a then
                 (if (if byte a = 224 then between 160 191 b else if byte a = 237 then between 128 159 b
                      else continuation b) \<and> continuation c then 3 else 0)
               else case s2 of
                 [] \<Rightarrow> 0
               | d # _ \<Rightarrow>
                   (if between 240 244 a \<and>
                       (if byte a = 240 then between 144 191 b else if byte a = 244 then between 128 143 b
                        else continuation b) \<and> continuation c \<and> continuation d then 4 else 0))))"

definition encode_rune :: "nat \<Rightarrow> string" where
  "encode_rune r =
    (if r < 128 then [char_of r]
     else if r < 2048 then [char_of (192 + r div 64), char_of (128 + r mod 64)]
     else if r < 65536 then [char_of (224 + r div 4096), char_of (128 + r div 64 mod 64), char_of (128 + r mod 64)]
     else [char_of (240 + r div 262144), char_of (128 + r div 4096 mod 64), char_of (128 + r div 64 mod 64),
       char_of (128 + r mod 64)])"

text \<open>\<open>unicode.ReplacementChar\<close> (U+FFFD).\<close>

definition replacement :: string where
  "replacement = [CHR 0xEF, CHR 0xBF, CHR 0xBD]"

section \<open>String literals\<close>

definition hex_digit :: "char \<Rightarrow> nat option" where
  "hex_digit c =
    (if between 48 57 c then Some (byte c - 48)
     else if between 97 102 c then Some (byte c - 87)
     else if between 65 70 c then Some (byte c - 55) else None)"

text \<open>\<open>getu4\<close>: the code of a leading \<open>\uXXXX\<close>.\<close>

fun getu4 :: "string \<Rightarrow> nat option" where
  "getu4 (b # u # h3 # h2 # h1 # h0 # _) =
    (if b = CHR 92 \<and> u = CHR ''u'' then
       (case (hex_digit h3, hex_digit h2, hex_digit h1, hex_digit h0) of
          (Some a, Some b, Some c, Some d) \<Rightarrow> Some (a * 4096 + b * 256 + c * 16 + d)
        | _ \<Rightarrow> None)
     else None)"
| "getu4 _ = None"

text \<open>
  The characters between the quotes and the text after the closing quote; \<open>None\<close> for a control character, an unknown
  escape or a missing quote.
\<close>

definition simple_escape :: "char \<Rightarrow> char option" where
  "simple_escape c =
    (if c = CHR 34 \<or> c = CHR 92 \<or> c = CHR ''/'' then Some c
     else if c = CHR ''b'' then Some (CHR 8)
     else if c = CHR ''f'' then Some (CHR 12)
     else if c = CHR ''n'' then Some (CHR 10)
     else if c = CHR ''r'' then Some (CHR 13)
     else if c = CHR ''t'' then Some (CHR 9) else None)"

fun literal :: "string \<Rightarrow> (string \<times> string) option" where
  "literal [] = None"
| "literal (c # s) =
    (if c = CHR 34 then Some ([], s)
     else if byte c < 32 then None
     else if c = CHR 92 then
       (case s of
          [] \<Rightarrow> None
        | e # s' \<Rightarrow>
            (if simple_escape e \<noteq> None \<or> getu4 (c # s) \<noteq> None
             then map_option (\<lambda>(raw, rest). (c # e # raw, rest)) (literal s') else None))
     else map_option (\<lambda>(raw, rest). (c # raw, rest)) (literal s))"

text \<open>
  \<open>unquote\<close>: escapes are resolved, two escaped surrogates make one code point, a single one and every byte outside
  a valid encoding become the replacement character.
\<close>

definition surrogate_pair :: "nat \<Rightarrow> nat option \<Rightarrow> nat option" where
  "surrogate_pair hi lo =
    (case lo of
       Some l \<Rightarrow> if 55296 \<le> hi \<and> hi < 56320 \<and> 56320 \<le> l \<and> l < 57344
         then Some ((hi - 55296) * 1024 + (l - 56320) + 65536) else None
     | None \<Rightarrow> None)"

function unquote :: "string \<Rightarrow> string" where
  "unquote s =
    (case s of
       [] \<Rightarrow> []
     | c # cs \<Rightarrow>
         (if c = CHR 92 then
            (case getu4 s of
               Some r \<Rightarrow>
                 (if 55296 \<le> r \<and> r < 57344 then
                    (case surrogate_pair r (getu4 (drop 6 s)) of
                       Some p \<Rightarrow> encode_rune p @ unquote (drop 12 s)
                     | None \<Rightarrow> replacement @ unquote (drop 6 s))
                  else encode_rune r @ unquote (drop 6 s))
             | None \<Rightarrow>
                 (case cs of
                    [] \<Rightarrow> []
                  | e # rest \<Rightarrow> (case simple_escape e of Some x \<Rightarrow> [x] | None \<Rightarrow> []) @ unquote rest))
          else if rune_length s = 0 then replacement @ unquote cs
          else take (rune_length s) s @ unquote (drop (rune_length s) s)))"
  by pat_completeness auto
termination
  by (relation "measure length") auto

declare unquote.simps [simp del]

section \<open>Tokens\<close>

datatype token = TPunct char | TText string | TNumber | TTrue | TFalse | TNull

definition is_punct :: "char \<Rightarrow> bool" where
  "is_punct c \<longleftrightarrow> c \<in> {CHR ''['', CHR '']'', CHR ''{'', CHR ''}'', CHR '','', CHR '':''}"

definition is_blank :: "char \<Rightarrow> bool" where
  "is_blank c \<longleftrightarrow> c \<in> {CHR 32, CHR 9, CHR 10, CHR 13}"

text \<open>A number: sign, digits without a leading zero, fraction, exponent; \<open>None\<close> when one of them is cut short.\<close>

definition digits_then :: "string \<Rightarrow> string option" where
  "digits_then s = (case s of c # _ \<Rightarrow> if is_digit c then Some (dropWhile is_digit s) else None | [] \<Rightarrow> None)"

definition integer_part :: "string \<Rightarrow> string option" where
  "integer_part s =
    (case s of c # cs \<Rightarrow> if c = CHR ''0'' then Some cs else digits_then s | [] \<Rightarrow> None)"

definition fraction_part :: "string \<Rightarrow> string option" where
  "fraction_part s = (case s of c # cs \<Rightarrow> if c = CHR ''.'' then digits_then cs else Some s | [] \<Rightarrow> Some [])"

definition exponent_part :: "string \<Rightarrow> string option" where
  "exponent_part s =
    (case s of
       c # cs \<Rightarrow>
         (if c = CHR ''e'' \<or> c = CHR ''E''
          then digits_then (case cs of x # xs \<Rightarrow> if x = CHR ''+'' \<or> x = CHR ''-'' then xs else cs | [] \<Rightarrow> [])
          else Some s)
     | [] \<Rightarrow> Some [])"

definition number :: "string \<Rightarrow> string option" where
  "number s =
    Option.bind (integer_part (case s of c # cs \<Rightarrow> if c = CHR ''-'' then cs else s | [] \<Rightarrow> [])) (\<lambda>s1.
    Option.bind (fraction_part s1) exponent_part)"

text \<open>The token a text without leading blanks starts with, and the text after it.\<close>

definition next_token :: "string \<Rightarrow> (token \<times> string) option" where
  "next_token s =
    (case s of
       [] \<Rightarrow> None
     | c # cs \<Rightarrow>
         (if is_punct c then Some (TPunct c, cs)
          else if c = CHR 34 then map_option (\<lambda>(raw, rest). (TText (unquote raw), rest)) (literal cs)
          else if c = CHR ''-'' \<or> is_digit c then map_option (\<lambda>rest. (TNumber, rest)) (number s)
          else if has_prefix ''true'' s then Some (TTrue, drop 4 s)
          else if has_prefix ''false'' s then Some (TFalse, drop 5 s)
          else if has_prefix ''null'' s then Some (TNull, drop 4 s)
          else None))"

lemma digits_then_shorter: "digits_then s = Some r \<Longrightarrow> length r < length s"
  by (auto simp: digits_then_def le_imp_less_Suc length_dropWhile_le split: list.splits if_splits)

lemma number_shorter: "number s = Some r \<Longrightarrow> length r < length s"
proof -
  have "length r < length s" if "integer_part s = Some r" for s r
    using that by (auto simp: integer_part_def dest: digits_then_shorter split: list.splits if_splits)
  moreover have "length r \<le> length s" if "fraction_part s = Some r" for s r
    using that by (auto simp: fraction_part_def dest!: digits_then_shorter split: list.splits if_splits)
  moreover have "length r \<le> length s" if "exponent_part s = Some r" for s r
    using that by (auto simp: exponent_part_def dest!: digits_then_shorter split: list.splits if_splits)
  moreover assume "number s = Some r"
  ultimately show ?thesis
    by (fastforce simp: number_def bind_eq_Some_conv split: list.splits if_splits)
qed

lemma literal_shorter: "literal s = Some (raw, r) \<Longrightarrow> length r < length s"
  by (induction s arbitrary: raw rule: literal.induct) (fastforce split: if_splits list.splits)+

lemma next_token_shorter: "next_token s = Some (t, r) \<Longrightarrow> length r < length s"
  by (auto simp: next_token_def has_prefix_def dest: number_shorter literal_shorter split: list.splits if_splits)

function tokens :: "string \<Rightarrow> token list option" where
  "tokens s =
    (let t = dropWhile is_blank s in
     if t = [] then Some []
     else case next_token t of
         None \<Rightarrow> None
       | Some (tok, rest) \<Rightarrow> map_option (\<lambda>ts. tok # ts) (tokens rest))"
  by pat_completeness auto
termination
proof (relation "measure length", goal_cases)
  case (2 s t p tok rest)
  then have "next_token (dropWhile is_blank s) = Some (tok, rest)" by simp
  then have "length rest < length (dropWhile is_blank s)" by (rule next_token_shorter)
  then show ?case using length_dropWhile_le [of is_blank s] by simp
qed simp

declare tokens.simps [simp del]

section \<open>Values\<close>

datatype json = JNull | JBool bool | JNumber | JText string | JArray "json list" | JObject "(string \<times> json) list"

text \<open>
  What is open: an array with its elements so far, an object with its members so far, and with the key of the
  member whose value is next, the latest first.
\<close>

datatype frame = FArray "json list" | FObject "(string \<times> json) list" | FMember "(string \<times> json) list" string

text \<open>A value, or the end of an array or an object that has just begun; a key; a colon; what follows a value.\<close>

datatype expect = Value | FirstElement | FirstKey | Key | Colon | After json

fun scalar :: "token \<Rightarrow> json option" where
  "scalar (TText s) = Some (JText s)"
| "scalar TNumber = Some JNumber"
| "scalar TTrue = Some (JBool True)"
| "scalar TFalse = Some (JBool False)"
| "scalar TNull = Some JNull"
| "scalar (TPunct c) = None"

definition maxNestingDepth :: nat where "maxNestingDepth = 10000"

text \<open>A token where a value is expected.\<close>

definition open_value :: "token \<Rightarrow> frame list \<Rightarrow> (expect \<times> frame list) option" where
  "open_value t stack =
    (case scalar t of
       Some v \<Rightarrow> Some (After v, stack)
     | None \<Rightarrow>
         (if length stack \<ge> maxNestingDepth then None
          else if t = TPunct CHR ''['' then Some (FirstElement, FArray [] # stack)
          else if t = TPunct CHR ''{'' then Some (FirstKey, FObject [] # stack) else None))"

text \<open>A token after a complete value.\<close>

definition close_value :: "json \<Rightarrow> token \<Rightarrow> frame list \<Rightarrow> (expect \<times> frame list) option" where
  "close_value v t stack =
    (case stack of
       FArray vs # rest \<Rightarrow>
         (if t = TPunct CHR '','' then Some (Value, FArray (v # vs) # rest)
          else if t = TPunct CHR '']'' then Some (After (JArray (rev (v # vs))), rest) else None)
     | FMember ms k # rest \<Rightarrow>
         (if t = TPunct CHR '','' then Some (Key, FObject ((k, v) # ms) # rest)
          else if t = TPunct CHR ''}'' then Some (After (JObject (rev ((k, v) # ms))), rest) else None)
     | _ \<Rightarrow> None)"

definition open_member :: "token \<Rightarrow> frame list \<Rightarrow> (expect \<times> frame list) option" where
  "open_member t stack =
    (case (t, stack) of (TText k, FObject ms # rest) \<Rightarrow> Some (Colon, FMember ms k # rest) | _ \<Rightarrow> None)"

fun json_step :: "expect \<Rightarrow> token \<Rightarrow> frame list \<Rightarrow> (expect \<times> frame list) option" where
  "json_step Value t stack = open_value t stack"
| "json_step FirstElement t stack =
    (if t = TPunct CHR '']'' then Some (After (JArray []), tl stack) else open_value t stack)"
| "json_step FirstKey t stack =
    (if t = TPunct CHR ''}'' then Some (After (JObject []), tl stack) else open_member t stack)"
| "json_step Key t stack = open_member t stack"
| "json_step Colon t stack = (if t = TPunct CHR '':'' then Some (Value, stack) else None)"
| "json_step (After v) t stack = close_value v t stack"

fun build :: "token list \<Rightarrow> expect \<Rightarrow> frame list \<Rightarrow> json option" where
  "build [] e stack = (case (e, stack) of (After v, []) \<Rightarrow> Some v | _ \<Rightarrow> None)"
| "build (t # ts) e stack = (case json_step e t stack of None \<Rightarrow> None | Some (e', stack') \<Rightarrow> build ts e' stack')"

definition parse_json :: "string \<Rightarrow> json option" where
  "parse_json text = (case tokens text of None \<Rightarrow> None | Some ts \<Rightarrow> build ts Value [])"

section \<open>Keys\<close>

text \<open>
  \<open>foldName\<close> up to what can equal a field name: one case for the ASCII letters (Go takes the upper one, which decides
  the same), and the Kelvin sign and the long s as the letters they fold to.
\<close>

fun fold_name :: "string \<Rightarrow> string" where
  "fold_name [] = []"
| "fold_name (a # s) =
    (if a = CHR 0xE2 \<and> take 2 s = [CHR 0x84, CHR 0xAA] then CHR ''k'' # fold_name (drop 2 s)
     else if a = CHR 0xC5 \<and> take 1 s = [CHR 0xBF] then CHR ''s'' # fold_name (drop 1 s)
     else (if between 65 90 a then char_of (byte a + 32) else a) # fold_name s)"

text \<open>A name in lower case is its own fold.\<close>

lemma fold_lower: "list_all (\<lambda>c. byte c < 128 \<and> \<not> between 65 90 c) s \<Longrightarrow> fold_name s = s"
  by (induction s) (auto simp: byte_def)

section \<open>Writing a value down\<close>

text \<open>The tokens of a value, and a text of them: one blank after each token, quotes and backslashes escaped.\<close>

fun separate :: "token list list \<Rightarrow> token list" where
  "separate [] = []"
| "separate [x] = x"
| "separate (x # y # xs) = x @ TPunct CHR '','' # separate (y # xs)"

definition member_tokens :: "string \<times> token list \<Rightarrow> token list" where
  "member_tokens m = TText (fst m) # TPunct CHR '':'' # snd m"

primrec json_tokens :: "json \<Rightarrow> token list" where
  "json_tokens JNull = [TNull]"
| "json_tokens (JBool b) = [if b then TTrue else TFalse]"
| "json_tokens JNumber = [TNumber]"
| "json_tokens (JText s) = [TText s]"
| "json_tokens (JArray vs) = TPunct CHR ''['' # separate (map json_tokens vs) @ [TPunct CHR '']'']"
| "json_tokens (JObject ms) =
    TPunct CHR ''{'' # separate (map member_tokens (map (map_prod id json_tokens) ms)) @ [TPunct CHR ''}'']"

primrec nesting :: "json \<Rightarrow> nat" where
  "nesting JNull = 0"
| "nesting (JBool b) = 0"
| "nesting JNumber = 0"
| "nesting (JText s) = 0"
| "nesting (JArray vs) = Suc (foldr max (map nesting vs) 0)"
| "nesting (JObject ms) = Suc (foldr max (map snd (map (map_prod id nesting) ms)) 0)"

definition escape_char :: "char \<Rightarrow> string" where
  "escape_char c = (if c = CHR 34 \<or> c = CHR 92 then [CHR 92, c] else [c])"

fun spell :: "token \<Rightarrow> string" where
  "spell (TPunct c) = [c]"
| "spell (TText s) = CHR 34 # concat (map escape_char s) @ [CHR 34]"
| "spell TNumber = ''0''"
| "spell TTrue = ''true''"
| "spell TFalse = ''false''"
| "spell TNull = ''null''"

definition json_text :: "json \<Rightarrow> string" where
  "json_text v = concat (map (\<lambda>t. spell t @ '' '') (json_tokens v))"

subsection \<open>The tokens are put together again\<close>

lemma json_tokens_cases:
  obtains t ts where "json_tokens v = t # ts" "t \<noteq> TPunct CHR '']''"
  by (cases v) auto

lemma first_element: "build (json_tokens v @ ts) FirstElement st = build (json_tokens v @ ts) Value st"
  by (rule json_tokens_cases [of v]) simp

definition reads_back :: "json \<Rightarrow> bool" where
  "reads_back v \<longleftrightarrow> (\<forall>ts st. nesting v + length st \<le> maxNestingDepth \<longrightarrow>
     build (json_tokens v @ ts) Value st = build ts (After v) st)"

lemma elements_read_back:
  assumes "\<forall>v \<in> set (v # vs). reads_back v \<and> nesting v + Suc (length st) \<le> maxNestingDepth"
  shows "build (separate (map json_tokens (v # vs)) @ TPunct CHR '']'' # ts) Value (FArray acc # st) =
    build ts (After (JArray (rev acc @ v # vs))) st"
  using assms
proof (induction vs arbitrary: v acc)
  case Nil
  then show ?case by (simp add: reads_back_def close_value_def)
next
  case (Cons w vs)
  then have "build (json_tokens v @ TPunct CHR '','' # ts') Value (FArray acc # st) =
      build ts' Value (FArray (v # acc) # st)" for ts'
    by (simp add: reads_back_def close_value_def)
  with Cons.IH [of w "v # acc"] Cons.prems show ?case by simp
qed

lemma members_read_back:
  assumes "\<forall>(k, v) \<in> set (m # ms). reads_back v \<and> nesting v + Suc (length st) \<le> maxNestingDepth"
    and "e = Key \<or> e = FirstKey"
  shows "build (separate (map member_tokens (map (map_prod id json_tokens) (m # ms))) @ TPunct CHR ''}'' # ts)
      e (FObject acc # st) =
    build ts (After (JObject (rev acc @ m # ms))) st"
  using assms
proof (induction ms arbitrary: m acc e)
  case Nil
  then show ?case by (cases m) (auto simp: reads_back_def close_value_def open_member_def member_tokens_def)
next
  case (Cons n ms)
  obtain k v where m: "m = (k, v)" by (cases m)
  with Cons.prems have "build (member_tokens (k, json_tokens v) @ TPunct CHR '','' # ts') e (FObject acc # st) =
      build ts' Key (FObject ((k, v) # acc) # st)" for ts'
    by (auto simp: reads_back_def close_value_def open_member_def member_tokens_def)
  with Cons.IH [of n Key "m # acc"] Cons.prems(1) m show ?case by simp
qed

lemma le_foldr_max: "x \<in> set xs \<Longrightarrow> x \<le> foldr max xs (0::nat)"
  by (induction xs) (auto simp: le_max_iff_disj)

lemma foldr_max_less: "\<forall>x \<in> set xs. x < n \<Longrightarrow> 0 < n \<Longrightarrow> foldr max xs 0 < (n::nat)"
  by (induction xs) auto

lemma built: "reads_back v"
proof (induction v)
  case (JArray vs)
  have "build (json_tokens (JArray vs) @ ts) Value st = build ts (After (JArray vs)) st"
    if "nesting (JArray vs) + length st \<le> maxNestingDepth" for ts st
  proof (cases vs)
    case Nil
    with that show ?thesis by (simp add: open_value_def maxNestingDepth_def)
  next
    case (Cons w ws)
    have "\<forall>v \<in> set (w # ws). reads_back v \<and> nesting v + Suc (length st) \<le> maxNestingDepth"
      using JArray that le_foldr_max [of _ "map nesting vs"] unfolding Cons [symmetric] by fastforce
    from elements_read_back [OF this, of ts "[]"] show ?thesis
      using that Cons first_element by (cases ws) (simp_all add: open_value_def)
  qed
  then show ?case by (simp add: reads_back_def)
next
  case (JObject ms)
  have "build (json_tokens (JObject ms) @ ts) Value st = build ts (After (JObject ms)) st"
    if "nesting (JObject ms) + length st \<le> maxNestingDepth" for ts st
  proof (cases ms)
    case Nil
    with that show ?thesis by (simp add: open_value_def maxNestingDepth_def)
  next
    case (Cons m ms')
    have "\<forall>(k, v) \<in> set (m # ms'). reads_back v \<and> nesting v + Suc (length st) \<le> maxNestingDepth"
      using JObject that le_foldr_max [of _ "map snd (map (map_prod id nesting) ms)"] unfolding Cons [symmetric] by fastforce
    from members_read_back [OF this, of FirstKey ts "[]"] show ?thesis
      using that Cons by (simp add: open_value_def)
  qed
  then show ?case by (simp add: reads_back_def)
qed (simp_all add: reads_back_def open_value_def)

subsection \<open>The text is cut into the tokens again\<close>

definition plain :: "char \<Rightarrow> bool" where
  "plain c \<longleftrightarrow> 32 \<le> byte c \<and> byte c < 128"

fun plain_token :: "token \<Rightarrow> bool" where
  "plain_token (TPunct c) = is_punct c"
| "plain_token (TText s) = list_all plain s"
| "plain_token t = True"

lemma literal_escaped:
  "list_all plain s \<Longrightarrow> literal (concat (map escape_char s) @ CHR 34 # r) = Some (concat (map escape_char s), r)"
  by (induction s) (auto simp: escape_char_def plain_def simple_escape_def byte_def)

lemma unquote_escaped: "list_all plain s \<Longrightarrow> unquote (concat (map escape_char s)) = s"
proof (induction s)
  case Nil
  show ?case by (simp add: unquote.simps)
next
  case (Cons c s)
  then have c: "byte c < 128" and rest: "unquote (concat (map escape_char s)) = s" by (simp_all add: plain_def)
  show ?case
  proof (cases "c = CHR 34 \<or> c = CHR 92")
    case True
    then have no_code: "getu4 (CHR 92 # c # t) = None" for t
      by (cases "(CHR 92 # c # t)" rule: getu4.cases) auto
    show ?thesis
      using True rest by (subst unquote.simps) (auto simp: escape_char_def no_code simple_escape_def)
  next
    case False
    then show ?thesis using c rest by (subst unquote.simps) (simp add: escape_char_def)
  qed
qed

lemma next_token_spelled:
  assumes "plain_token t"
  shows "next_token (spell t @ CHR 32 # r) = Some (t, CHR 32 # r)"
  using assms
  by (cases t) (simp_all add: next_token_def is_punct_def literal_escaped unquote_escaped has_prefix_def number_def
    integer_part_def fraction_part_def exponent_part_def is_digit_def)

lemma spelled_first: "plain_token t \<Longrightarrow> \<exists>c cs. spell t = c # cs \<and> \<not> is_blank c"
  by (cases t) (auto simp: is_punct_def is_blank_def)

lemma tokens_spelled: "list_all plain_token ts \<Longrightarrow> tokens (concat (map (\<lambda>t. spell t @ '' '') ts)) = Some ts"
proof (induction ts)
  case Nil
  show ?case by (simp add: tokens.simps)
next
  case (Cons t ts)
  let ?rest = "concat (map (\<lambda>t. spell t @ '' '') ts)"
  obtain c cs where c: "spell t = c # cs" "\<not> is_blank c" using spelled_first Cons.prems by fastforce
  have "tokens (CHR 32 # ?rest) = tokens ?rest"
    by (subst (1 2) tokens.simps) (simp add: is_blank_def)
  then show ?case
    using Cons c next_token_spelled [of t ?rest] by (subst tokens.simps) simp
qed

fun plain_json :: "json \<Rightarrow> bool" where
  "plain_json (JText s) = list_all plain s"
| "plain_json (JArray vs) = (\<forall>v \<in> set vs. plain_json v)"
| "plain_json (JObject ms) = (\<forall>(k, v) \<in> set ms. list_all plain k \<and> plain_json v)"
| "plain_json v = True"

lemma separate_all: "\<forall>x \<in> set xs. list_all P x \<Longrightarrow> P (TPunct CHR '','') \<Longrightarrow> list_all P (separate xs)"
  by (induction xs rule: separate.induct) auto

lemma json_tokens_plain: "plain_json v \<Longrightarrow> list_all plain_token (json_tokens v)"
proof (induction v)
  case (JArray vs)
  then show ?case by (auto simp: is_punct_def intro!: separate_all)
next
  case (JObject ms)
  then have "list_all plain_token (separate (map member_tokens (map (map_prod id json_tokens) ms)))"
    by (intro separate_all) (fastforce simp: member_tokens_def is_punct_def)+
  then show ?case by (simp add: is_punct_def)
qed (simp_all add: is_punct_def)

text \<open>The text of a value of printable ASCII, nested no deeper than the limit, is parsed to the value.\<close>

theorem parse_json_text:
  assumes "plain_json v" and "nesting v \<le> maxNestingDepth"
  shows "parse_json (json_text v) = Some v"
  using built [of v] assms
  by (simp add: parse_json_def json_text_def tokens_spelled json_tokens_plain reads_back_def)
    (metis append_Nil2 build.simps(1) case_prod_conv expect.simps list.simps(4) add.right_neutral list.size(3))

end
