(* ===== verification/XF_Config.thy ===== *)
theory XF_Config
  imports XF_Duration XF_Json
begin

text \<open>
  The configuration of \<open>config/config.go\<close>: defaults, the JSON file, the environment of the panel and validation.
  What the machine gives is a record \<open>Machine\<close>: the bytes of the configuration files, the environment, the
  environment files, and the words \<open>encoding/json\<close> finds for a text that is not JSON. Durations are nanoseconds.
\<close>

section \<open>Data\<close>

record Config =
  cf_database_path :: string
  cf_database_backend :: string
  cf_database_dsn :: string
  cf_poll_interval :: int
  cf_busy_timeout :: int
  cf_backup_dir :: string
  cf_enable_backups :: bool
  cf_log_level :: string
  cf_auto_cleanup :: bool
  cf_missing_client_grace :: int
  cf_disabled_rule_retention :: int
  cf_audit_retention :: int
  cf_factor_on_managed_node :: bool

record fileConfig =
  fi_database_path :: string
  fi_database_backend :: string
  fi_database_dsn :: string
  fi_poll_interval :: string
  fi_busy_timeout :: string
  fi_backup_dir :: string
  fi_enable_backups :: "bool option"
  fi_log_level :: string
  fi_auto_cleanup :: "bool option"
  fi_missing_client_grace :: string
  fi_disabled_rule_retention :: string
  fi_audit_retention :: string
  fi_factor_on_managed_node :: "bool option"

text \<open>What \<open>os.ReadFile\<close> makes of a configuration file.\<close>

datatype config_file = NoFile | Unreadable error | FileText string

record Machine =
  mc_config :: "string \<Rightarrow> config_file"
  mc_syntax_error :: "string \<Rightarrow> error"
  mc_getenv :: "string \<Rightarrow> string"
  mc_read_file :: "string \<Rightarrow> string option"

definition DefaultPath :: string where "DefaultPath = ''/etc/xui-factor/config.json''"

definition BackendAuto :: string where "BackendAuto = ''auto''"

definition BackendSQLite :: string where "BackendSQLite = ''sqlite''"

definition BackendPostgres :: string where "BackendPostgres = ''postgres''"

definition second :: int where "second = 1000000000"

definition hour :: int where "hour = 3600000000000"

definition Defaults :: Config where
  "Defaults = \<lparr>cf_database_path = ''/etc/x-ui/x-ui.db'', cf_database_backend = BackendAuto, cf_database_dsn = [],
     cf_poll_interval = 5 * second, cf_busy_timeout = 5 * second, cf_backup_dir = ''/var/backups/xui-factor'',
     cf_enable_backups = True, cf_log_level = ''info'', cf_auto_cleanup = True, cf_missing_client_grace = 30 * second,
     cf_disabled_rule_retention = 7 * 24 * hour, cf_audit_retention = 30 * 24 * hour, cf_factor_on_managed_node = False\<rparr>"

section \<open>The backend\<close>

definition normalizeBackend :: "string \<Rightarrow> string option" where
  "normalizeBackend value =
    (let v = to_lower (trim_space value) in
     if v = [] \<or> v = BackendAuto then Some BackendAuto
     else if v = BackendSQLite then Some BackendSQLite
     else if v = BackendPostgres \<or> v = ''postgresql'' \<or> v = ''pg'' then Some BackendPostgres
     else None)"

definition ResolvedBackend :: "Config \<Rightarrow> string" where
  "ResolvedBackend c =
    (if normalizeBackend (cf_database_backend c) = Some BackendSQLite then BackendSQLite
     else if normalizeBackend (cf_database_backend c) = Some BackendPostgres then BackendPostgres
     else if trim_space (cf_database_dsn c) \<noteq> [] then BackendPostgres else BackendSQLite)"

section \<open>The environment of the panel\<close>

definition panelEnvFilePaths :: "string list" where
  "panelEnvFilePaths = [''/etc/default/x-ui'', ''/etc/conf.d/x-ui'', ''/etc/sysconfig/x-ui'']"

definition strip_export :: "string \<Rightarrow> string" where
  "strip_export line =
    (if has_prefix ''export'' line
     then (case drop 6 line of
         [] \<Rightarrow> []
       | c # cs \<Rightarrow> if c = CHR '' '' \<or> c = CHR 9 then trim_space (c # cs) else line)
     else line)"

definition strip_quotes :: "string \<Rightarrow> string" where
  "strip_quotes value =
    (if 2 \<le> length value \<and> hd value = last value \<and> (hd value = CHR 34 \<or> hd value = CHR 39)
     then butlast (tl value) else value)"

text \<open>The assignment a line makes, if it is one of the two that matter.\<close>

definition env_line :: "string \<Rightarrow> (string \<times> string) option" where
  "env_line raw =
    (let line = trim_space raw in
     if line = [] \<or> has_prefix ''#'' line then None
     else case cut_on CHR ''='' (strip_export line) of
         None \<Rightarrow> None
       | Some (k, v) \<Rightarrow>
           if trim_space k \<noteq> ''XUI_DB_TYPE'' \<and> trim_space k \<noteq> ''XUI_DB_DSN'' then None
           else Some (trim_space k, strip_quotes (trim_space v)))"

definition add_line :: "string \<Rightarrow> (string \<rightharpoonup> string) \<Rightarrow> (string \<rightharpoonup> string)" where
  "add_line line vals =
    (case env_line line of
       None \<Rightarrow> vals
     | Some (k, v) \<Rightarrow> if vals k \<noteq> None then vals else vals(k \<mapsto> v))"

definition add_file :: "(string \<Rightarrow> string option) \<Rightarrow> string \<Rightarrow> (string \<rightharpoonup> string) \<Rightarrow> (string \<rightharpoonup> string)" where
  "add_file read path vals =
    (case read path of None \<Rightarrow> vals | Some text \<Rightarrow> fold add_line (split_on CHR 10 text) vals)"

definition readPanelEnvValues :: "(string \<Rightarrow> string option) \<Rightarrow> string list \<Rightarrow> (string \<rightharpoonup> string)" where
  "readPanelEnvValues read paths = fold (add_file read) paths Map.empty"

text \<open>The closure \<open>lookup\<close>.\<close>

definition env_lookup :: "Machine \<Rightarrow> string \<Rightarrow> string" where
  "env_lookup m key =
    (if trim_space (mc_getenv m key) \<noteq> [] then trim_space (mc_getenv m key)
     else case readPanelEnvValues (mc_read_file m) panelEnvFilePaths key of None \<Rightarrow> [] | Some v \<Rightarrow> v)"

definition applyDatabaseEnv :: "Machine \<Rightarrow> Config \<Rightarrow> Config" where
  "applyDatabaseEnv m cfg =
    (if normalizeBackend (cf_database_backend cfg) = Some BackendSQLite then cfg
     else if normalizeBackend (cf_database_backend cfg) = Some BackendPostgres then
       (if trim_space (cf_database_dsn cfg) = [] then cfg\<lparr>cf_database_dsn := env_lookup m ''XUI_DB_DSN''\<rparr> else cfg)
     else if trim_space (cf_database_dsn cfg) \<noteq> [] then cfg
     else if normalizeBackend (env_lookup m ''XUI_DB_TYPE'') = Some BackendPostgres
     then cfg\<lparr>cf_database_backend := BackendPostgres, cf_database_dsn := env_lookup m ''XUI_DB_DSN''\<rparr>
     else cfg)"

section \<open>Validation\<close>

definition invalid_backend :: "string \<Rightarrow> error" where
  "invalid_backend value = ErrText (''invalid database_backend '' @ quoted value @ '': use auto, sqlite, or postgres'')"

definition Validate :: "Config \<Rightarrow> error option" where
  "Validate c =
    (if normalizeBackend (cf_database_backend c) = None then Some (invalid_backend (cf_database_backend c))
     else if ResolvedBackend c = BackendPostgres \<and> trim_space (cf_database_dsn c) = []
     then Some (ErrText ''database_dsn is required for the postgres backend'')
     else if ResolvedBackend c \<noteq> BackendPostgres \<and> trim_space (cf_database_path c) = []
     then Some (ErrText ''database_path is required'')
     else if cf_poll_interval c \<le> 0 then Some (ErrText ''poll_interval must be positive'')
     else if cf_busy_timeout c \<le> 0 then Some (ErrText ''busy_timeout must be positive'')
     else if trim_space (cf_backup_dir c) = [] then Some (ErrText ''backup_dir is required'')
     else if trim_space (cf_log_level c) = [] then Some (ErrText ''log_level is required'')
     else if cf_missing_client_grace c \<le> 0 then Some (ErrText ''missing_client_grace must be positive'')
     else if cf_disabled_rule_retention c \<le> 0 then Some (ErrText ''disabled_rule_retention must be positive'')
     else if cf_audit_retention c \<le> 0 then Some (ErrText ''audit_retention must be positive'')
     else None)"

definition validated :: "Config \<Rightarrow> error + Config" where
  "validated c = (case Validate c of Some e \<Rightarrow> Inl e | None \<Rightarrow> Inr c)"

section \<open>Decoding the file\<close>

text \<open>
  \<open>json.Unmarshal\<close> into a \<open>fileConfig\<close>: a member goes to the field whose name its key equals up to letter case, other
  members are ignored, a later member overwrites an earlier one. A \<open>null\<close> leaves a string as it is and makes a
  pointer nil. A value of another type is an error; decoding goes on and the first error is reported at the end.
\<close>

definition no_fields :: fileConfig where
  "no_fields = \<lparr>fi_database_path = [], fi_database_backend = [], fi_database_dsn = [], fi_poll_interval = [],
     fi_busy_timeout = [], fi_backup_dir = [], fi_enable_backups = None, fi_log_level = [], fi_auto_cleanup = None,
     fi_missing_client_grace = [], fi_disabled_rule_retention = [], fi_audit_retention = [],
     fi_factor_on_managed_node = None\<rparr>"

definition text_fields :: "(string \<times> ((string \<Rightarrow> string) \<Rightarrow> fileConfig \<Rightarrow> fileConfig)) list" where
  "text_fields = [(''database_path'', fi_database_path_update), (''database_backend'', fi_database_backend_update),
     (''database_dsn'', fi_database_dsn_update), (''poll_interval'', fi_poll_interval_update),
     (''busy_timeout'', fi_busy_timeout_update), (''backup_dir'', fi_backup_dir_update),
     (''log_level'', fi_log_level_update), (''missing_client_grace'', fi_missing_client_grace_update),
     (''disabled_rule_retention'', fi_disabled_rule_retention_update), (''audit_retention'', fi_audit_retention_update)]"

definition flag_fields :: "(string \<times> ((bool option \<Rightarrow> bool option) \<Rightarrow> fileConfig \<Rightarrow> fileConfig)) list" where
  "flag_fields = [(''enable_backups'', fi_enable_backups_update), (''auto_cleanup'', fi_auto_cleanup_update),
     (''factor_on_managed_node'', fi_factor_on_managed_node_update)]"

fun kind_name :: "json \<Rightarrow> string" where
  "kind_name JNull = ''null''"
| "kind_name (JBool b) = ''bool''"
| "kind_name JNumber = ''number''"
| "kind_name (JText s) = ''string''"
| "kind_name (JArray vs) = ''array''"
| "kind_name (JObject ms) = ''object''"

definition type_error :: "string \<Rightarrow> json \<Rightarrow> string \<Rightarrow> error" where
  "type_error field v type = ErrText (''json: cannot unmarshal '' @ kind_name v @
     '' into Go struct field fileConfig.'' @ field @ '' of type '' @ type)"

type_synonym decoding = "fileConfig \<times> error option"

definition save_error :: "error \<Rightarrow> decoding \<Rightarrow> decoding" where
  "save_error e d = (fst d, Some (case snd d of None \<Rightarrow> e | Some first \<Rightarrow> first))"

fun store_text :: "string \<times> ((string \<Rightarrow> string) \<Rightarrow> fileConfig \<Rightarrow> fileConfig) \<Rightarrow> json \<Rightarrow> decoding \<Rightarrow> decoding" where
  "store_text (name, update) (JText s) d = (update (\<lambda>_. s) (fst d), snd d)"
| "store_text (name, update) JNull d = d"
| "store_text (name, update) v d = save_error (type_error name v ''string'') d"

fun store_flag :: "string \<times> ((bool option \<Rightarrow> bool option) \<Rightarrow> fileConfig \<Rightarrow> fileConfig) \<Rightarrow> json \<Rightarrow> decoding \<Rightarrow> decoding" where
  "store_flag (name, update) (JBool b) d = (update (\<lambda>_. Some b) (fst d), snd d)"
| "store_flag (name, update) JNull d = (update (\<lambda>_. None) (fst d), snd d)"
| "store_flag (name, update) v d = save_error (type_error name v ''bool'') d"

definition field_of :: "(string \<times> 'a) list \<Rightarrow> string \<Rightarrow> (string \<times> 'a) option" where
  "field_of fs key = find (\<lambda>f. fold_name (fst f) = fold_name key) fs"

fun store_member :: "string \<times> json \<Rightarrow> decoding \<Rightarrow> decoding" where
  "store_member (key, v) d =
    (case field_of text_fields key of
       Some f \<Rightarrow> store_text f v d
     | None \<Rightarrow> (case field_of flag_fields key of Some f \<Rightarrow> store_flag f v d | None \<Rightarrow> d))"

fun decode_value :: "json \<Rightarrow> error + fileConfig" where
  "decode_value JNull = Inr no_fields"
| "decode_value (JObject ms) =
    (case fold store_member ms (no_fields, None) of (raw, None) \<Rightarrow> Inr raw | (_, Some e) \<Rightarrow> Inl e)"
| "decode_value v = Inl (ErrText (''json: cannot unmarshal '' @ kind_name v @ '' into Go value of type config.fileConfig''))"

definition Unmarshal :: "error \<Rightarrow> string \<Rightarrow> error + fileConfig" where
  "Unmarshal syntax data = (case parse_json data of None \<Rightarrow> Inl syntax | Some v \<Rightarrow> decode_value v)"

section \<open>Loading\<close>

text \<open>A text field of the file replaces the default when it is not blank, an optional flag when it is present.\<close>

definition text_field :: "string \<Rightarrow> ((string \<Rightarrow> string) \<Rightarrow> Config \<Rightarrow> Config) \<Rightarrow> Config \<Rightarrow> Config" where
  "text_field value update cfg = (if trim_space value \<noteq> [] then update (\<lambda>_. trim_space value) cfg else cfg)"

definition flag_field :: "bool option \<Rightarrow> ((bool \<Rightarrow> bool) \<Rightarrow> Config \<Rightarrow> Config) \<Rightarrow> Config \<Rightarrow> Config" where
  "flag_field value update cfg = (case value of None \<Rightarrow> cfg | Some b \<Rightarrow> update (\<lambda>_. b) cfg)"

definition duration_field :: "fraction \<Rightarrow> string \<Rightarrow> string \<Rightarrow> ((int \<Rightarrow> int) \<Rightarrow> Config \<Rightarrow> Config) \<Rightarrow> Config \<Rightarrow> error + Config" where
  "duration_field frac name value update cfg =
    (if trim_space value = [] then Inr cfg
     else case parseDuration frac (trim_space value) of
         Inl e \<Rightarrow> Inl (ErrWrap (''invalid '' @ name @ '': '') e [])
       | Inr d \<Rightarrow> Inr (update (\<lambda>_. d) cfg))"

definition backend_field :: "string \<Rightarrow> Config \<Rightarrow> error + Config" where
  "backend_field value cfg =
    (if trim_space value = [] then Inr cfg
     else case normalizeBackend (trim_space value) of
         None \<Rightarrow> Inl (invalid_backend (trim_space value))
       | Some backend \<Rightarrow> Inr (cfg\<lparr>cf_database_backend := backend\<rparr>))"

definition decoded :: "fraction \<Rightarrow> Machine \<Rightarrow> fileConfig \<Rightarrow> error + Config" where
  "decoded frac m raw =
    bind_result (backend_field (fi_database_backend raw) (text_field (fi_database_path raw) cf_database_path_update Defaults)) (\<lambda>cfg.
    bind_result (Inr (applyDatabaseEnv m (text_field (fi_database_dsn raw) cf_database_dsn_update cfg))) (\<lambda>cfg.
    bind_result (duration_field frac ''poll_interval'' (fi_poll_interval raw) cf_poll_interval_update cfg) (\<lambda>cfg.
    bind_result (duration_field frac ''busy_timeout'' (fi_busy_timeout raw) cf_busy_timeout_update cfg) (\<lambda>cfg.
    bind_result (Inr (text_field (fi_backup_dir raw) cf_backup_dir_update cfg)) (\<lambda>cfg.
    bind_result (Inr (flag_field (fi_enable_backups raw) cf_enable_backups_update cfg)) (\<lambda>cfg.
    bind_result (Inr (text_field (fi_log_level raw) cf_log_level_update cfg)) (\<lambda>cfg.
    bind_result (Inr (flag_field (fi_auto_cleanup raw) cf_auto_cleanup_update cfg)) (\<lambda>cfg.
    bind_result (Inr (flag_field (fi_factor_on_managed_node raw) cf_factor_on_managed_node_update cfg)) (\<lambda>cfg.
    bind_result (duration_field frac ''missing_client_grace'' (fi_missing_client_grace raw) cf_missing_client_grace_update cfg) (\<lambda>cfg.
    bind_result (duration_field frac ''disabled_rule_retention'' (fi_disabled_rule_retention raw) cf_disabled_rule_retention_update cfg) (\<lambda>cfg.
    bind_result (duration_field frac ''audit_retention'' (fi_audit_retention raw) cf_audit_retention_update cfg)
    validated)))))))))))"

definition Load :: "fraction \<Rightarrow> Machine \<Rightarrow> string \<Rightarrow> error + Config" where
  "Load frac m path =
    (case mc_config m (if path = [] then DefaultPath else path) of
       NoFile \<Rightarrow> validated (applyDatabaseEnv m Defaults)
     | Unreadable e \<Rightarrow> Inl (ErrWrap ''read config: '' e [])
     | FileText data \<Rightarrow>
         (case Unmarshal (mc_syntax_error m data) data of
            Inl e \<Rightarrow> Inl (ErrWrap ''parse config: '' e [])
          | Inr raw \<Rightarrow> decoded frac m raw))"


section \<open>The first assignment wins\<close>

definition file_assignments :: "(string \<Rightarrow> string option) \<Rightarrow> string \<Rightarrow> (string \<times> string) list" where
  "file_assignments read path = (case read path of None \<Rightarrow> [] | Some text \<Rightarrow> List.map_filter env_line (split_on CHR 10 text))"

text \<open>An assignment the map already has is kept.\<close>

lemma add_lines_keeps: "vals k = Some v \<Longrightarrow> fold add_line ls vals k = Some v"
  by (induction ls arbitrary: vals) (auto simp: add_line_def split: option.split)

lemma add_lines_new: "vals k = None \<Longrightarrow> fold add_line ls vals k = map_of (List.map_filter env_line ls) k"
  by (induction ls arbitrary: vals) (auto simp: add_line_def map_filter_simps add_lines_keeps split: option.split)

lemma add_file_at:
  "add_file read p vals k = (case vals k of None \<Rightarrow> map_of (file_assignments read p) k | Some v \<Rightarrow> Some v)"
  by (auto simp: add_file_def file_assignments_def add_lines_keeps add_lines_new split: option.split)

lemma add_files_at:
  "fold (add_file read) paths vals k =
    (case vals k of None \<Rightarrow> map_of (concat (map (file_assignments read) paths)) k | Some v \<Rightarrow> Some v)"
proof (induction paths arbitrary: vals)
  case (Cons p paths)
  have "fold (add_file read) (p # paths) vals k =
      (case add_file read p vals k of None \<Rightarrow> map_of (concat (map (file_assignments read) paths)) k | Some v \<Rightarrow> Some v)"
    by (simp only: fold_Cons o_apply Cons.IH)
  with add_file_at [of read p vals k] show ?case
    by (simp only:) (simp add: map_add_def split: option.split)
qed (simp split: option.split)

text \<open>
  The vals read from the panel's environment files are those of the first assignment to each of the two keys,
  over the lines of the readable files in the order of the files; unreadable files, comments, other keys and later
  assignments change nothing.
\<close>

theorem panel_env_first_wins:
  "readPanelEnvValues read paths = map_of (concat (map (file_assignments read) paths))"
  by (rule ext) (simp add: readPanelEnvValues_def add_files_at)

section \<open>What a loaded configuration satisfies\<close>

definition config_ok :: "Config \<Rightarrow> bool" where
  "config_ok c \<longleftrightarrow>
    normalizeBackend (cf_database_backend c) \<noteq> None \<and>
    (ResolvedBackend c = BackendPostgres \<longrightarrow> trim_space (cf_database_dsn c) \<noteq> []) \<and>
    (ResolvedBackend c = BackendSQLite \<longrightarrow> trim_space (cf_database_path c) \<noteq> []) \<and>
    trim_space (cf_backup_dir c) \<noteq> [] \<and> trim_space (cf_log_level c) \<noteq> [] \<and>
    list_all (\<lambda>d. 0 < d \<and> d \<le> MaxInt64) [cf_poll_interval c, cf_busy_timeout c, cf_missing_client_grace c,
      cf_disabled_rule_retention c, cf_audit_retention c]"

definition durations_fit :: "Config \<Rightarrow> bool" where
  "durations_fit c \<longleftrightarrow> list_all in_i64 [cf_poll_interval c, cf_busy_timeout c, cf_missing_client_grace c,
     cf_disabled_rule_retention c, cf_audit_retention c]"

lemma backend_names [simp]: "BackendSQLite \<noteq> BackendPostgres" "BackendPostgres \<noteq> BackendSQLite"
  "BackendAuto \<noteq> BackendPostgres" "BackendAuto \<noteq> BackendSQLite"
  by (simp_all add: BackendSQLite_def BackendPostgres_def BackendAuto_def)

lemma ResolvedBackend_cases: "ResolvedBackend c = BackendSQLite \<or> ResolvedBackend c = BackendPostgres"
  by (simp add: ResolvedBackend_def)

lemma validated_iff: "validated c = Inr c' \<longleftrightarrow> c' = c \<and> Validate c = None"
  by (auto simp: validated_def split: option.splits)

lemma validated_ok: "validated c = Inr c' \<Longrightarrow> durations_fit c \<Longrightarrow> config_ok c'"
  using ResolvedBackend_cases [of c]
  by (auto simp: validated_iff Validate_def config_ok_def durations_fit_def in_i64_def split: if_splits)

lemma fits_duration:
  assumes "duration_field frac name value update c = Inr c'" and "durations_fit c"
    and "\<And>d. in_i64 d \<Longrightarrow> durations_fit (update (\<lambda>_. d) c)"
  shows "durations_fit c'"
  using assms by (auto simp: duration_field_def dest: parseDuration_range split: if_splits sum.splits)

lemma fits_Defaults: "durations_fit Defaults"
  by (simp add: durations_fit_def Defaults_def second_def hour_def in_i64_bounds)

lemma fits_env: "durations_fit (applyDatabaseEnv m c) = durations_fit c"
  by (simp add: applyDatabaseEnv_def durations_fit_def)

lemma fits_text: "(\<And>v. durations_fit (update (\<lambda>_. v) c) = durations_fit c) \<Longrightarrow> durations_fit (text_field value update c) = durations_fit c"
  by (simp add: text_field_def)

lemma fits_flag: "(\<And>b. durations_fit (update (\<lambda>_. b) c) = durations_fit c) \<Longrightarrow> durations_fit (flag_field value update c) = durations_fit c"
  by (simp add: flag_field_def split: option.split)

lemma fits_backend: "backend_field value c = Inr c' \<Longrightarrow> durations_fit c' = durations_fit c"
  by (auto simp: backend_field_def durations_fit_def split: if_splits option.splits)

lemma fits_updates [simp]:
  "durations_fit (c\<lparr>cf_database_path := s\<rparr>) = durations_fit c" "durations_fit (c\<lparr>cf_database_dsn := s\<rparr>) = durations_fit c"
  "durations_fit (c\<lparr>cf_database_backend := s\<rparr>) = durations_fit c"
  "durations_fit (c\<lparr>cf_backup_dir := s\<rparr>) = durations_fit c" "durations_fit (c\<lparr>cf_log_level := s\<rparr>) = durations_fit c"
  "durations_fit (c\<lparr>cf_enable_backups := b\<rparr>) = durations_fit c" "durations_fit (c\<lparr>cf_auto_cleanup := b\<rparr>) = durations_fit c"
  "durations_fit (c\<lparr>cf_factor_on_managed_node := b\<rparr>) = durations_fit c"
  "durations_fit c \<Longrightarrow> durations_fit (c\<lparr>cf_poll_interval := d\<rparr>) = in_i64 d"
  "durations_fit c \<Longrightarrow> durations_fit (c\<lparr>cf_busy_timeout := d\<rparr>) = in_i64 d"
  "durations_fit c \<Longrightarrow> durations_fit (c\<lparr>cf_missing_client_grace := d\<rparr>) = in_i64 d"
  "durations_fit c \<Longrightarrow> durations_fit (c\<lparr>cf_disabled_rule_retention := d\<rparr>) = in_i64 d"
  "durations_fit c \<Longrightarrow> durations_fit (c\<lparr>cf_audit_retention := d\<rparr>) = in_i64 d"
  by (simp_all add: durations_fit_def)

text \<open>Each step of \<open>decoded\<close> keeps the durations in range, so validation makes them positive.\<close>

lemma decoded_ok:
  assumes "decoded frac m raw = Inr c"
  shows "config_ok c"
proof -
  note fits = fits_text fits_flag fits_env
  obtain c1 where c1: "backend_field (fi_database_backend raw) (text_field (fi_database_path raw) cf_database_path_update Defaults) = Inr c1"
    using assms by (auto simp: decoded_def bind_result_Inr)
  have d1: "durations_fit c1" using fits_backend [OF c1] by (simp add: fits fits_Defaults)
  let ?c2 = "applyDatabaseEnv m (text_field (fi_database_dsn raw) cf_database_dsn_update c1)"
  have d2: "durations_fit ?c2" using d1 by (simp add: fits)
  obtain c3 where c3: "duration_field frac ''poll_interval'' (fi_poll_interval raw) cf_poll_interval_update ?c2 = Inr c3"
    using assms c1 by (auto simp: decoded_def bind_result_Inr)
  have d3: "durations_fit c3" by (rule fits_duration [OF c3 d2]) (simp add: d2)
  obtain c4 where c4: "duration_field frac ''busy_timeout'' (fi_busy_timeout raw) cf_busy_timeout_update c3 = Inr c4"
    using assms c1 c3 by (auto simp: decoded_def bind_result_Inr)
  have d4: "durations_fit c4" by (rule fits_duration [OF c4 d3]) (simp add: d3)
  obtain c5 c6 c7 where c5: "duration_field frac ''missing_client_grace'' (fi_missing_client_grace raw) cf_missing_client_grace_update
      (flag_field (fi_factor_on_managed_node raw) cf_factor_on_managed_node_update
      (flag_field (fi_auto_cleanup raw) cf_auto_cleanup_update (text_field (fi_log_level raw) cf_log_level_update
      (flag_field (fi_enable_backups raw) cf_enable_backups_update (text_field (fi_backup_dir raw) cf_backup_dir_update c4))))) = Inr c5"
    and c6: "duration_field frac ''disabled_rule_retention'' (fi_disabled_rule_retention raw) cf_disabled_rule_retention_update c5 = Inr c6"
    and c7: "duration_field frac ''audit_retention'' (fi_audit_retention raw) cf_audit_retention_update c6 = Inr c7"
    and c: "validated c7 = Inr c"
    using assms c1 c3 c4 by (auto simp: decoded_def bind_result_Inr)
  have d5: "durations_fit c5" by (rule fits_duration [OF c5]) (simp_all add: fits d4)
  have d6: "durations_fit c6" by (rule fits_duration [OF c6 d5]) (simp add: d5)
  have d7: "durations_fit c7" by (rule fits_duration [OF c7 d6]) (simp add: d6)
  show ?thesis by (rule validated_ok [OF c d7])
qed

text \<open>
  C38. A configuration that loads is valid whatever the file, the environment and the panel's files hold: the backend
  is one of the three, a PostgreSQL backend has a DSN and a SQLite backend a path, the backup directory and log level
  are not blank, and every duration is a positive int64 of nanoseconds.
\<close>

theorem Load_valid:
  assumes "Load frac m path = Inr c"
  shows "config_ok c"
  using assms
  by (auto simp: Load_def fits_env fits_Defaults dest: decoded_ok validated_ok split: config_file.splits sum.splits)

definition panel_machine :: Machine where
  "panel_machine = \<lparr>mc_config = (\<lambda>_. NoFile), mc_syntax_error = (\<lambda>_. ErrText []), mc_getenv = (\<lambda>_. []),
     mc_read_file = (\<lambda>p. if p = ''/etc/default/x-ui'' then Some (''XUI_DB_TYPE=PG'' @ [CHR 10] @ ''XUI_DB_DSN=u'') else None)\<rparr>"

theorem Load_valid_witness:
  "Load (\<lambda>_ _ _. 0) panel_machine [] = Inr (Defaults\<lparr>cf_database_backend := BackendPostgres, cf_database_dsn := ''u''\<rparr>) \<and>
   config_ok (Defaults\<lparr>cf_database_backend := BackendPostgres, cf_database_dsn := ''u''\<rparr>)"
proof -
  have env: "applyDatabaseEnv panel_machine Defaults = Defaults\<lparr>cf_database_backend := BackendPostgres, cf_database_dsn := ''u''\<rparr>"
    by code_simp
  have "Validate (Defaults\<lparr>cf_database_backend := BackendPostgres, cf_database_dsn := ''u''\<rparr>) = None"
    by code_simp
  then have run: "Load (\<lambda>_ _ _. 0) panel_machine [] = Inr (Defaults\<lparr>cf_database_backend := BackendPostgres, cf_database_dsn := ''u''\<rparr>)"
    by (simp add: Load_def panel_machine_def validated_def env [unfolded panel_machine_def])
  with Load_valid [OF run] show ?thesis by simp
qed

section \<open>A file is read back\<close>

definition flag_value :: "bool option \<Rightarrow> json" where
  "flag_value b = (case b of None \<Rightarrow> JNull | Some x \<Rightarrow> JBool x)"

text \<open>The members that spell a \<open>fileConfig\<close>, in the order of the struct.\<close>

definition config_members :: "fileConfig \<Rightarrow> (string \<times> json) list" where
  "config_members raw = [(''database_path'', JText (fi_database_path raw)),
     (''database_backend'', JText (fi_database_backend raw)), (''database_dsn'', JText (fi_database_dsn raw)),
     (''poll_interval'', JText (fi_poll_interval raw)), (''busy_timeout'', JText (fi_busy_timeout raw)),
     (''backup_dir'', JText (fi_backup_dir raw)), (''enable_backups'', flag_value (fi_enable_backups raw)),
     (''log_level'', JText (fi_log_level raw)), (''auto_cleanup'', flag_value (fi_auto_cleanup raw)),
     (''missing_client_grace'', JText (fi_missing_client_grace raw)),
     (''disabled_rule_retention'', JText (fi_disabled_rule_retention raw)),
     (''audit_retention'', JText (fi_audit_retention raw)),
     (''factor_on_managed_node'', flag_value (fi_factor_on_managed_node raw))]"

definition unknown_key :: "string \<Rightarrow> bool" where
  "unknown_key key \<longleftrightarrow> field_of text_fields key = None \<and> field_of flag_fields key = None"

definition plain_config :: "fileConfig \<Rightarrow> bool" where
  "plain_config raw \<longleftrightarrow> list_all (list_all plain) [fi_database_path raw, fi_database_backend raw, fi_database_dsn raw,
     fi_poll_interval raw, fi_busy_timeout raw, fi_backup_dir raw, fi_log_level raw, fi_missing_client_grace raw,
     fi_disabled_rule_retention raw, fi_audit_retention raw]"

lemma unknown_ignored: "\<forall>m \<in> set ms. unknown_key (fst m) \<Longrightarrow> fold store_member ms d = d"
  by (induction ms) (auto simp: unknown_key_def)

lemma folded_names:
  "map (\<lambda>f. fold_name (fst f)) text_fields = map fst text_fields"
  "map (\<lambda>f. fold_name (fst f)) flag_fields = map fst flag_fields"
  by (simp_all add: text_fields_def flag_fields_def fold_lower between_def byte_def)

lemma members_decoded: "fold store_member (config_members raw) (no_fields, None) = (raw, None)"
proof -
  note names = folded_names [unfolded text_fields_def flag_fields_def, simplified]
  show ?thesis
    by (simp add: config_members_def text_fields_def flag_fields_def field_of_def names no_fields_def flag_value_def
      split: option.split)
qed

lemma member_keys_plain: "list_all (\<lambda>m. list_all plain (fst m)) (config_members raw)"
  by (simp add: config_members_def plain_def byte_def)

lemma members_plain:
  assumes "plain_config raw" and "(k, v) \<in> set (config_members raw)"
  shows "list_all plain k \<and> plain_json v \<and> nesting v = 0"
proof -
  have "list_all plain k" using member_keys_plain [of raw] assms(2) by (fastforce simp: list_all_iff)
  then show ?thesis
    using assms by (auto simp: config_members_def plain_config_def flag_value_def split: option.splits)
qed

text \<open>
  C39. A configuration file that spells a \<open>fileConfig\<close> as JSON is read as exactly that: members with unknown keys, whatever
  plain values they have, are ignored, no field is mixed up with another, and quotes and backslashes in the texts are
  the ones that were meant.
\<close>

theorem config_file_reads_back:
  assumes "mc_config m path = FileText (json_text (JObject (others @ config_members raw)))" and "path \<noteq> []"
    and "plain_config raw"
    and "\<forall>(k, v) \<in> set others. unknown_key k \<and> list_all plain k \<and> plain_json v \<and> nesting v < maxNestingDepth"
  shows "Load frac m path = decoded frac m raw"
proof -
  let ?v = "JObject (others @ config_members raw)"
  have "plain_json ?v" using assms(4) members_plain [OF assms(3)] by auto
  moreover have "\<forall>(k, v) \<in> set (others @ config_members raw). nesting v < maxNestingDepth"
    using assms(4) members_plain [OF assms(3)] by (fastforce simp: maxNestingDepth_def)
  then have "foldr max (map snd (map (map_prod id nesting) (others @ config_members raw))) 0 < maxNestingDepth"
    by (intro foldr_max_less) (fastforce simp: maxNestingDepth_def)+
  then have "nesting ?v \<le> maxNestingDepth" by simp
  ultimately have "parse_json (json_text ?v) = Some ?v" by (rule parse_json_text)
  moreover have "decode_value ?v = Inr raw"
    using unknown_ignored [of others] assms(4) by (fastforce simp: members_decoded)
  ultimately show ?thesis using assms(1,2) by (simp add: Load_def Unmarshal_def)
qed

definition spelled_config :: fileConfig where
  "spelled_config = no_fields\<lparr>fi_poll_interval := ''10s'', fi_database_dsn := [CHR 34, CHR 92], fi_enable_backups := Some False\<rparr>"

definition spelled_machine :: Machine where
  "spelled_machine = panel_machine\<lparr>mc_config := (\<lambda>_. FileText (json_text (JObject ((''comment'', JArray [JNumber]) #
     config_members spelled_config))))\<rparr>"

theorem config_file_reads_back_witness:
  "Load (\<lambda>_ _ _. 0) spelled_machine ''c.json'' = decoded (\<lambda>_ _ _. 0) spelled_machine spelled_config"
proof (rule config_file_reads_back [where others = "[(''comment'', JArray [JNumber])]"])
  show "plain_config spelled_config" by code_simp
  have "unknown_key ''comment''" by code_simp
  moreover have "list_all plain ''comment''" by code_simp
  ultimately show "\<forall>(k, v) \<in> set [(''comment'', JArray [JNumber])]. unknown_key k \<and> list_all plain k \<and> plain_json v \<and>
      nesting v < maxNestingDepth"
    by (simp add: maxNestingDepth_def)
qed (simp_all add: spelled_machine_def)

end
