(* ===== verification/XF_Types.thy ===== *)
theory XF_Types
  imports XF_Factor
begin

text \<open>
  \<open>internal/store/types.go\<close> and the metadata tables of \<open>internal/store/migrations.go\<close>: the structs the
  program passes around as records, the rows of the tables it keeps in the panel's database, and the
  conversion from a row to a struct that the \<open>scan*\<close> functions perform. Nullable columns are
  options; \<open>note\<close> and \<open>name\<close> are written with \<open>NULLIF(?, '')\<close> and read with \<open>COALESCE(_, '')\<close>.
\<close>

section \<open>States and event types\<close>

datatype rule_state = StateActive | StatePaused | StateDisabled | StateMerged | StateOrphaned

fun state_name :: "rule_state \<Rightarrow> string" where
  "state_name StateActive = ''active''"
| "state_name StatePaused = ''paused''"
| "state_name StateDisabled = ''disabled''"
| "state_name StateMerged = ''merged''"
| "state_name StateOrphaned = ''orphaned''"

datatype event_type =
    EventRuleEnabled | EventRuleDisabled | EventRulePaused | EventRuleResumed | EventRuleMerged
  | EventRuleReconcile | EventClientAdopted | EventClientRelinked | EventRuleSkip
  | EventTrafficApply | EventClientReset | EventClientMissing | EventClientPruned
  | EventScopeEnroll | EventScopeSkip | EventCleanup | EventExcludeEnable | EventExcludeDisable
  | EventOverrideEnable | EventOverrideUpdate | EventOverrideDisable

fun event_type_name :: "event_type \<Rightarrow> string" where
  "event_type_name EventRuleEnabled = ''rule_enabled''"
| "event_type_name EventRuleDisabled = ''rule_disabled''"
| "event_type_name EventRulePaused = ''rule_paused''"
| "event_type_name EventRuleResumed = ''rule_resumed''"
| "event_type_name EventRuleMerged = ''rule_consolidated''"
| "event_type_name EventRuleReconcile = ''rule_reconciled''"
| "event_type_name EventClientAdopted = ''client_adopted_into_scope''"
| "event_type_name EventClientRelinked = ''client_relinked''"
| "event_type_name EventRuleSkip = ''rule_skipped_not_compatible''"
| "event_type_name EventTrafficApply = ''traffic_applied''"
| "event_type_name EventClientReset = ''client_rebaseline''"
| "event_type_name EventClientMissing = ''client_missing''"
| "event_type_name EventClientPruned = ''client_tracking_pruned''"
| "event_type_name EventScopeEnroll = ''scope_auto_enroll''"
| "event_type_name EventScopeSkip = ''scope_auto_enroll_skipped''"
| "event_type_name EventCleanup = ''cleanup''"
| "event_type_name EventExcludeEnable = ''exclude_enabled''"
| "event_type_name EventExcludeDisable = ''exclude_disabled''"
| "event_type_name EventOverrideEnable = ''override_enabled''"
| "event_type_name EventOverrideUpdate = ''override_updated''"
| "event_type_name EventOverrideDisable = ''override_disabled''"

section \<open>Panel rows\<close>

datatype driver = DriverSQLite | DriverPostgres

text \<open>
  The panel's \<open>enable\<close> column: an integer on SQLite, a boolean on PostgreSQL, where an imported
  database can still hold integers.
\<close>

datatype enable_value = EnableNull | EnableInt int | EnableBool bool

text \<open>
  \<open>enableTrueExpr\<close>: the column itself on SQLite, membership of its text in
  \<open>('1', 'true', 't', 'yes')\<close> on PostgreSQL.
\<close>

fun enableTrueExpr :: "driver \<Rightarrow> enable_value \<Rightarrow> bool" where
  "enableTrueExpr d EnableNull = False"
| "enableTrueExpr d (EnableBool b) = b"
| "enableTrueExpr DriverSQLite (EnableInt n) = (n \<noteq> 0)"
| "enableTrueExpr DriverPostgres (EnableInt n) = (n = 1)"

definition enableAsIntExpr :: "driver \<Rightarrow> enable_value \<Rightarrow> int" where
  "enableAsIntExpr d v = (if enableTrueExpr d v then 1 else 0)"

record TrafficRow =
  tr_id :: int
  tr_inbound_id :: int
  tr_enable :: enable_value
  tr_email :: string
  tr_up :: int
  tr_down :: int
  tr_total :: int

record ClientTraffic =
  ct_id :: int
  ct_inbound_id :: int
  ct_enable :: int
  ct_email :: string
  ct_up :: int
  ct_down :: int
  ct_total :: int

definition scan_client :: "driver \<Rightarrow> TrafficRow \<Rightarrow> ClientTraffic" where
  "scan_client d t = \<lparr>ct_id = tr_id t, ct_inbound_id = tr_inbound_id t,
     ct_enable = enableAsIntExpr d (tr_enable t), ct_email = tr_email t,
     ct_up = tr_up t, ct_down = tr_down t, ct_total = tr_total t\<rparr>"

lemma scan_client_simps [simp]:
  "ct_id (scan_client d t) = tr_id t" "ct_inbound_id (scan_client d t) = tr_inbound_id t"
  "ct_email (scan_client d t) = tr_email t" "ct_up (scan_client d t) = tr_up t"
  "ct_down (scan_client d t) = tr_down t" "ct_total (scan_client d t) = tr_total t"
  "ct_enable (scan_client d t) = enableAsIntExpr d (tr_enable t)"
  by (simp_all add: scan_client_def)

section \<open>Rules and scopes\<close>

text \<open>
  Go's \<open>Rule\<close> and \<open>Scope\<close> point to each other. A scope held by a rule has a zero \<open>Rule\<close>
  (\<open>attachScope\<close>, \<open>scanScopeRuleRows\<close>), so \<open>Scope\<close> has no rule, and the scopes that carry their rule
  extend it.
\<close>

record Scope =
  sc_rule_id :: int
  sc_inbound_id :: "int option"
  sc_limited_only :: bool
  sc_include_disabled_clients :: bool
  sc_once :: bool
  sc_created_at :: int
  sc_updated_at :: int

record Rule =
  r_id :: int
  r_name :: string
  r_inbound_id :: int
  r_email :: string
  r_factor_ppm :: int
  r_state :: rule_state
  r_created_at :: int
  r_updated_at :: int
  r_activated_at :: "int option"
  r_paused_at :: "int option"
  r_disabled_at :: "int option"
  r_client_count :: int
  r_effective_client_count :: int
  r_scope :: "Scope option"

record ScopeRule = Scope +
  sc_rule :: Rule

record RuleRow =
  rr_id :: int
  rr_name :: "string option"
  rr_inbound_id :: "int option"
  rr_email :: string
  rr_factor_ppm :: int
  rr_state :: rule_state
  rr_created_at :: int
  rr_updated_at :: int
  rr_activated_at :: "int option"
  rr_paused_at :: "int option"
  rr_disabled_at :: "int option"

text \<open>\<open>scanRule\<close> and \<open>scanRuleRows\<close>: \<open>COALESCE\<close> on the two nullable columns, no scope, no counts.\<close>

definition scanRule :: "RuleRow \<Rightarrow> Rule" where
  "scanRule r = \<lparr>r_id = rr_id r, r_name = (case rr_name r of None \<Rightarrow> [] | Some n \<Rightarrow> n),
     r_inbound_id = (case rr_inbound_id r of None \<Rightarrow> 0 | Some i \<Rightarrow> i), r_email = rr_email r,
     r_factor_ppm = rr_factor_ppm r, r_state = rr_state r, r_created_at = rr_created_at r,
     r_updated_at = rr_updated_at r, r_activated_at = rr_activated_at r,
     r_paused_at = rr_paused_at r, r_disabled_at = rr_disabled_at r,
     r_client_count = 0, r_effective_client_count = 0, r_scope = None\<rparr>"

lemma scanRule_simps [simp]:
  "r_id (scanRule r) = rr_id r" "r_email (scanRule r) = rr_email r"
  "r_factor_ppm (scanRule r) = rr_factor_ppm r" "r_state (scanRule r) = rr_state r"
  "r_scope (scanRule r) = None" "r_activated_at (scanRule r) = rr_activated_at r"
  "r_paused_at (scanRule r) = rr_paused_at r" "r_disabled_at (scanRule r) = rr_disabled_at r"
  "r_updated_at (scanRule r) = rr_updated_at r" "r_created_at (scanRule r) = rr_created_at r"
  by (simp_all add: scanRule_def)

text \<open>\<open>attachScope\<close> and \<open>scanRuleRowsWithScope\<close>: the rule with the scope row that the left join found.\<close>

definition scanRuleWithScope :: "RuleRow \<Rightarrow> Scope option \<Rightarrow> Rule" where
  "scanRuleWithScope r s = (scanRule r)\<lparr>r_scope := s\<rparr>"

text \<open>\<open>scanScopeRuleRows\<close>.\<close>

definition scanScopeRule :: "Scope \<Rightarrow> RuleRow \<Rightarrow> ScopeRule" where
  "scanScopeRule s r = \<lparr>sc_rule_id = sc_rule_id s, sc_inbound_id = sc_inbound_id s,
     sc_limited_only = sc_limited_only s,
     sc_include_disabled_clients = sc_include_disabled_clients s, sc_once = sc_once s,
     sc_created_at = sc_created_at s, sc_updated_at = sc_updated_at s,
     sc_rule = scanRuleWithScope r (Some s)\<rparr>"

lemma scanScopeRule_simps [simp]:
  "sc_rule_id (scanScopeRule s r) = sc_rule_id s" "sc_inbound_id (scanScopeRule s r) = sc_inbound_id s"
  "sc_limited_only (scanScopeRule s r) = sc_limited_only s"
  "sc_include_disabled_clients (scanScopeRule s r) = sc_include_disabled_clients s"
  "sc_once (scanScopeRule s r) = sc_once s"
  "sc_rule (scanScopeRule s r) = scanRuleWithScope r (Some s)"
  by (simp_all add: scanScopeRule_def)

lemma scanRuleWithScope_simps [simp]:
  "r_id (scanRuleWithScope r s) = rr_id r" "r_scope (scanRuleWithScope r s) = s"
  "r_state (scanRuleWithScope r s) = rr_state r" "r_email (scanRuleWithScope r s) = rr_email r"
  "r_factor_ppm (scanRuleWithScope r s) = rr_factor_ppm r"
  by (simp_all add: scanRuleWithScope_def)

section \<open>Rule clients, policies, events\<close>

text \<open>\<open>RuleClient\<close> is also the row of \<open>xui_factor_rule_clients\<close>.\<close>

record RuleClient =
  rc_rule_id :: int
  rc_traffic_id :: int
  rc_inbound_id :: int
  rc_email :: string
  rc_last_up :: int
  rc_last_down :: int
  rc_rem_up :: int
  rc_rem_down :: int
  rc_missing_at :: "int option"
  rc_updated_at :: int

record ActiveRuleClient =
  arc_rule :: Rule
  arc_client :: RuleClient

record ExcludePolicy =
  ep_id :: int
  ep_traffic_id :: int
  ep_inbound_id :: int
  ep_email :: string
  ep_state :: rule_state
  ep_note :: string
  ep_created_at :: int
  ep_updated_at :: int
  ep_activated_at :: "int option"
  ep_disabled_at :: "int option"

record OverridePolicy =
  op_id :: int
  op_traffic_id :: int
  op_inbound_id :: int
  op_email :: string
  op_factor_ppm :: int
  op_state :: rule_state
  op_note :: string
  op_created_at :: int
  op_updated_at :: int
  op_activated_at :: "int option"
  op_disabled_at :: "int option"

record EventRow =
  ev_id :: int
  ev_rule_id :: "int option"
  ev_type :: event_type
  ev_message :: string
  ev_created_at :: int

record ClientFilter =
  cf_inbound_id :: "int option"
  cf_limited_only :: bool
  cf_include_disabled_clients :: bool

record CleanupOptions =
  co_now :: int
  co_missing_client_grace :: int
  co_disabled_rule_retention :: int
  co_audit_retention :: int
  co_dry_run :: bool

record CleanupResult =
  cr_missing_clients_marked :: int
  cr_missing_clients_pruned :: int
  cr_disabled_rules_pruned :: int
  cr_disabled_scopes_pruned :: int
  cr_inactive_excludes_pruned :: int
  cr_inactive_overrides_pruned :: int
  cr_audit_events_pruned :: int
  cr_vacuum_run :: bool
  cr_dry_run :: bool

end
