(* ===== verification/XF_Tx.thy ===== *)
theory XF_Tx
  imports XF_Types
begin

text \<open>
  The database and the transactions of \<open>internal/store/store.go\<close>. A store method is a program over
  the whole database that returns a value or an error; as in Go, an error does not undo what the
  method has written, only \<open>WithImmediateTx\<close> does. The driver can refuse any statement: \<open>w_faults\<close> is
  the driver's behaviour for the coming calls (\<open>Some text\<close> fails with that error), and on
  PostgreSQL a refused statement aborts the transaction it is in.
\<close>

section \<open>The database\<close>

record Database =
  t_tables :: "string list"
  t_client_traffics :: "TrafficRow list"
  t_clients :: "(int \<times> string) list"
  t_client_inbounds :: "(int \<times> int) list"
  t_nodes :: "enable_value list"
  t_client_global_traffics :: "int list"
  t_rules :: "RuleRow list"
  t_rule_clients :: "RuleClient list"
  t_scopes :: "Scope list"
  t_excludes :: "ExcludePolicy list"
  t_overrides :: "OverridePolicy list"
  t_events :: "EventRow list"
  t_meta :: "(string \<times> string \<times> int) list"
  t_seq_rules :: int
  t_seq_excludes :: int
  t_seq_overrides :: int
  t_seq_events :: int

record World =
  w_db :: Database
  w_driver :: driver
  w_faults :: "string option list"
  w_aborted :: bool
  w_locked :: "int list"

type_synonym 'a tx = "World \<Rightarrow> (error + 'a) \<times> World"

section \<open>Programs\<close>

definition return_tx :: "'a \<Rightarrow> 'a tx" where
  "return_tx x w = (Inr x, w)"

definition fail_tx :: "error \<Rightarrow> 'a tx" where
  "fail_tx e w = (Inl e, w)"

definition bind_tx :: "'a tx \<Rightarrow> ('a \<Rightarrow> 'b tx) \<Rightarrow> 'b tx" where
  "bind_tx m f w = (case m w of (Inl e, w') \<Rightarrow> (Inl e, w') | (Inr x, w') \<Rightarrow> f x w')"

text \<open>\<open>x, err := m\<close> with \<open>err\<close> inspected by the caller.\<close>

definition attempt :: "'a tx \<Rightarrow> (error + 'a \<Rightarrow> 'b tx) \<Rightarrow> 'b tx" where
  "attempt m h w = (case m w of (r, w') \<Rightarrow> h r w')"

definition with_driver :: "(driver \<Rightarrow> 'a tx) \<Rightarrow> 'a tx" where
  "with_driver k w = k (w_driver w) w"

text \<open>A \<open>for ... range\<close> loop that threads an accumulator and stops at the first error.\<close>

fun for_each :: "'a list \<Rightarrow> ('a \<Rightarrow> 'b \<Rightarrow> 'b tx) \<Rightarrow> 'b \<Rightarrow> 'b tx" where
  "for_each [] f acc = return_tx acc"
| "for_each (x # xs) f acc = bind_tx (f x acc) (\<lambda>acc'. for_each xs f acc')"

section \<open>Driver calls\<close>

fun str_contains :: "string \<Rightarrow> string \<Rightarrow> bool" where
  "str_contains [] sub = (sub = [])"
| "str_contains (c # cs) sub = (take (length sub) (c # cs) = sub \<or> str_contains cs sub)"

text \<open>\<open>wrapDatabaseError\<close> on a driver error.\<close>

definition wrapDatabaseError :: "string \<Rightarrow> error \<Rightarrow> error" where
  "wrapDatabaseError action err =
    (let message = to_lower (error_text err) in
     if str_contains message ''busy'' \<or> str_contains message ''locked'' \<or>
        str_contains message ''lock timeout'' \<or> str_contains message ''deadlock detected''
     then ErrWrap (action @ '': database is locked or busy after busy timeout: '') err []
     else if str_contains message ''file is not a database'' \<or>
        str_contains message ''database disk image is malformed'' \<or>
        str_contains message ''malformed database''
     then ErrWrap (action @ '': database is not a valid SQLite database: '') err []
     else err)"

text \<open>A call outside a statement of a running transaction (connect, begin, commit).\<close>

definition conn_call :: "(error \<Rightarrow> error) \<Rightarrow> unit tx" where
  "conn_call wrap w =
    (case w_faults w of
       [] \<Rightarrow> (Inr (), w)
     | None # fs \<Rightarrow> (Inr (), w\<lparr>w_faults := fs\<rparr>)
     | Some t # fs \<Rightarrow> (Inl (wrap (ErrDriver t)), w\<lparr>w_faults := fs\<rparr>))"

text \<open>A statement: refused when the transaction is aborted, and aborting it on PostgreSQL if refused.\<close>

definition refuse :: "(error \<Rightarrow> error) \<Rightarrow> string \<Rightarrow> 'a tx" where
  "refuse wrap t w = (Inl (wrap (ErrDriver t)), w\<lparr>w_aborted := (w_driver w = DriverPostgres)\<rparr>)"

definition statement :: "(error \<Rightarrow> error) \<Rightarrow> (Database \<Rightarrow> string + 'a \<times> Database) \<Rightarrow> 'a tx" where
  "statement wrap f w =
    (if w_aborted w
     then (Inl (wrap (ErrDriver ''current transaction is aborted, commands ignored until end of transaction block'')), w)
     else case w_faults w of
         Some t # fs \<Rightarrow> refuse wrap t (w\<lparr>w_faults := fs\<rparr>)
       | fs \<Rightarrow>
           (let w1 = w\<lparr>w_faults := tl fs\<rparr> in
            case f (w_db w) of
              Inl t \<Rightarrow> refuse wrap t w1
            | Inr (x, d) \<Rightarrow> (Inr x, w1\<lparr>w_db := d\<rparr>)))"

text \<open>\<open>Tx.ExecContext\<close>, \<open>Tx.QueryContext\<close>, \<open>Tx.QueryRowContext\<close>.\<close>

definition ExecContext :: "(Database \<Rightarrow> string + 'a \<times> Database) \<Rightarrow> 'a tx" where
  "ExecContext f = statement (wrapDatabaseError ''execute database statement'') f"

definition exec_tx :: "(Database \<Rightarrow> Database) \<Rightarrow> unit tx" where
  "exec_tx f = ExecContext (\<lambda>d. Inr ((), f d))"

definition QueryContext :: "(Database \<Rightarrow> 'a) \<Rightarrow> 'a tx" where
  "QueryContext q = statement (wrapDatabaseError ''query database'') (\<lambda>d. Inr (q d, d))"

definition QueryRowContext :: "(Database \<Rightarrow> 'a) \<Rightarrow> 'a tx" where
  "QueryRowContext q = statement (\<lambda>e. e) (\<lambda>d. Inr (q d, d))"

text \<open>A row that \<open>Scan\<close> does not find is \<open>ErrNotFound\<close>.\<close>

definition found :: "'a option \<Rightarrow> 'a tx" where
  "found r = (case r of None \<Rightarrow> fail_tx ErrNotFound | Some x \<Rightarrow> return_tx x)"

definition TableExists :: "string \<Rightarrow> bool tx" where
  "TableExists table =
    statement (wrapDatabaseError ''read database schema'') (\<lambda>d. Inr (table \<in> set (t_tables d), d))"

section \<open>Transactions\<close>

text \<open>
  \<open>ROLLBACK\<close> restores the tables of the start. PostgreSQL keeps the identity sequences, SQLite's
  \<open>sqlite_sequence\<close> is a table like any other.
\<close>

definition rollback :: "World \<Rightarrow> World \<Rightarrow> World" where
  "rollback w0 w1 = w1\<lparr>w_aborted := False,
     w_db := (if w_driver w1 = DriverPostgres
              then (w_db w0)\<lparr>t_seq_rules := t_seq_rules (w_db w1), t_seq_excludes := t_seq_excludes (w_db w1),
                      t_seq_overrides := t_seq_overrides (w_db w1), t_seq_events := t_seq_events (w_db w1)\<rparr>
              else w_db w0)\<rparr>"

text \<open>
  The body of a transaction and its \<open>COMMIT\<close>. PostgreSQL answers the \<open>COMMIT\<close> of an aborted
  transaction with a rollback and no error.
\<close>

definition run_body :: "string \<Rightarrow> 'a tx \<Rightarrow> 'a tx" where
  "run_body commit_action fn w0 =
    (case fn w0 of
       (Inl e, w1) \<Rightarrow> (Inl e, rollback w0 w1)
     | (Inr x, w1) \<Rightarrow>
         (if w_aborted w1 then (Inr x, rollback w0 w1)
          else case conn_call (wrapDatabaseError commit_action) w1 of
              (Inl e, w2) \<Rightarrow> (Inl e, rollback w0 w2)
            | (Inr _, w2) \<Rightarrow> (Inr x, w2)))"

definition WithImmediateTx :: "'a tx \<Rightarrow> 'a tx" where
  "WithImmediateTx fn =
    bind_tx (conn_call (\<lambda>e. e)) (\<lambda>_.
    with_driver (\<lambda>driver.
    bind_tx (conn_call (wrapDatabaseError ''begin write transaction'')) (\<lambda>_.
    bind_tx (if driver = DriverPostgres
             then conn_call (wrapDatabaseError ''lock write transaction'') else return_tx ()) (\<lambda>_.
    run_body ''commit transaction'' fn))))"

definition WithReadTx :: "'a tx \<Rightarrow> 'a tx" where
  "WithReadTx fn =
    bind_tx (conn_call (\<lambda>e. e)) (\<lambda>_.
    bind_tx (conn_call (wrapDatabaseError ''begin read transaction'')) (\<lambda>_.
    run_body ''commit read transaction'' fn))"

section \<open>Running without driver failures\<close>

text \<open>Empty tables, as \<open>Migrate\<close> leaves them beside an empty panel, and a world on SQLite.\<close>

definition empty_db :: Database where
  "empty_db = \<lparr>t_tables = [''client_traffics'', ''clients'', ''client_inbounds'', ''xui_factor_rules'',
      ''xui_factor_rule_clients'', ''xui_factor_scopes'', ''xui_factor_excludes'', ''xui_factor_overrides'',
      ''xui_factor_events'', ''xui_factor_meta''],
     t_client_traffics = [], t_clients = [], t_client_inbounds = [], t_nodes = [], t_client_global_traffics = [],
     t_rules = [], t_rule_clients = [], t_scopes = [], t_excludes = [], t_overrides = [], t_events = [], t_meta = [],
     t_seq_rules = 0, t_seq_excludes = 0, t_seq_overrides = 0, t_seq_events = 0\<rparr>"

definition sqlite_world :: "string option list \<Rightarrow> Database \<Rightarrow> World" where
  "sqlite_world faults d = \<lparr>w_db = d, w_driver = DriverSQLite, w_faults = faults, w_aborted = False, w_locked = []\<rparr>"

definition healthy :: "World \<Rightarrow> bool" where
  "healthy w \<longleftrightarrow> w_faults w = [] \<and> \<not> w_aborted w"

lemma sqlite_world_simps [simp]:
  "w_db (sqlite_world fs d) = d" "w_driver (sqlite_world fs d) = DriverSQLite" "w_locked (sqlite_world fs d) = []"
  "healthy (sqlite_world fs d) \<longleftrightarrow> fs = []"
  by (simp_all add: sqlite_world_def healthy_def)

lemma sqlite_world_update [simp]: "(sqlite_world fs d)\<lparr>w_db := d'\<rparr> = sqlite_world fs d'"
  by (simp add: sqlite_world_def)

lemma sqlite_world_eq [simp]: "sqlite_world fs d = sqlite_world fs d' \<longleftrightarrow> d = d'"
  by (simp add: sqlite_world_def)

lemma healthy_update [simp]: "healthy (w\<lparr>w_db := d\<rparr>) = healthy w"
  by (simp add: healthy_def)

text \<open>What a statement that succeeds has done.\<close>

lemma statement_Inr: "statement wrap f w = (Inr x, w') \<Longrightarrow> f (w_db w) = Inr (x, w_db w') \<and> \<not> w_aborted w'"
  by (auto simp: statement_def refuse_def Let_def split: if_splits list.splits option.splits sum.splits)

lemma exec_context_Inr:
  "ExecContext (\<lambda>d. Inr (q d, g d)) w = (Inr x, w') \<Longrightarrow> x = q (w_db w) \<and> w_db w' = g (w_db w)"
  unfolding ExecContext_def by (drule statement_Inr) simp

lemma world_update_same [simp]: "w\<lparr>w_db := w_db w\<rparr> = w"
  by simp

lemma return_tx_run [simp]: "return_tx x w = (Inr x, w)"
  by (simp add: return_tx_def)

lemma fail_tx_run [simp]: "fail_tx e w = (Inl e, w)"
  by (simp add: fail_tx_def)

lemma bind_tx_run [tx_simps]:
  "bind_tx m f w = (case m w of (Inl e, w') \<Rightarrow> (Inl e, w') | (Inr x, w') \<Rightarrow> f x w')"
  by (simp add: bind_tx_def)

lemma attempt_run [tx_simps]: "attempt m h w = (case m w of (r, w') \<Rightarrow> h r w')"
  by (simp add: attempt_def)

lemma with_driver_run [tx_simps]: "with_driver k w = k (w_driver w) w"
  by (simp add: with_driver_def)

lemma statement_healthy [tx_simps]:
  "healthy w \<Longrightarrow> statement wrap f w =
    (case f (w_db w) of Inl t \<Rightarrow> refuse wrap t w | Inr (x, d) \<Rightarrow> (Inr x, w\<lparr>w_db := d\<rparr>))"
  by (cases w) (auto simp: statement_def healthy_def Let_def split: sum.split)

lemma ExecContext_healthy [tx_simps]:
  "healthy w \<Longrightarrow> ExecContext f w =
    (case f (w_db w) of
       Inl t \<Rightarrow> refuse (wrapDatabaseError ''execute database statement'') t w
     | Inr (x, d) \<Rightarrow> (Inr x, w\<lparr>w_db := d\<rparr>))"
  by (simp add: ExecContext_def statement_healthy)

lemma exec_healthy [tx_simps]: "healthy w \<Longrightarrow> exec_tx f w = (Inr (), w\<lparr>w_db := f (w_db w)\<rparr>)"
  by (simp add: exec_tx_def ExecContext_healthy)

lemma query_healthy [tx_simps]: "healthy w \<Longrightarrow> QueryContext q w = (Inr (q (w_db w)), w)"
  by (simp add: QueryContext_def statement_healthy)

lemma query_row_healthy [tx_simps]: "healthy w \<Longrightarrow> QueryRowContext q w = (Inr (q (w_db w)), w)"
  by (simp add: QueryRowContext_def statement_healthy)

lemma TableExists_healthy [tx_simps]:
  "healthy w \<Longrightarrow> TableExists t w = (Inr (t \<in> set (t_tables (w_db w))), w)"
  by (simp add: TableExists_def statement_healthy)

lemma found_run [tx_simps]:
  "found r w = (case r of None \<Rightarrow> (Inl ErrNotFound, w) | Some x \<Rightarrow> (Inr x, w))"
  by (simp add: found_def split: option.split)

lemma conn_call_healthy [tx_simps]: "healthy w \<Longrightarrow> conn_call wrap w = (Inr (), w)"
  by (simp add: conn_call_def healthy_def)

lemma WithImmediateTx_healthy:
  assumes "healthy w"
  shows "WithImmediateTx fn w =
    (case fn w of
       (Inl e, w1) \<Rightarrow> (Inl e, rollback w w1)
     | (Inr x, w1) \<Rightarrow>
         if w_aborted w1 then (Inr x, rollback w w1)
         else (case conn_call (wrapDatabaseError ''commit transaction'') w1 of
              (Inl e, w2) \<Rightarrow> (Inl e, rollback w w2)
            | (Inr _, w2) \<Rightarrow> (Inr x, w2)))"
  using assms by (simp add: WithImmediateTx_def run_body_def tx_simps)

lemma WithImmediateTx_ok:
  "healthy w \<Longrightarrow> fn w = (Inr x, w') \<Longrightarrow> healthy w' \<Longrightarrow> WithImmediateTx fn w = (Inr x, w')"
  by (simp add: WithImmediateTx_healthy conn_call_healthy) (simp add: healthy_def)

lemma WithImmediateTx_err:
  "healthy w \<Longrightarrow> fn w = (Inl e, w') \<Longrightarrow> WithImmediateTx fn w = (Inl e, rollback w w')"
  by (simp add: WithImmediateTx_healthy)

section \<open>Reasoning about programs\<close>

text \<open>
  \<open>triple P m Q R\<close>: started in a database that satisfies \<open>P\<close>, under any behaviour of the driver, \<open>m\<close>
  ends with \<open>Q\<close> for the value it returns, or with \<open>R\<close> for its error.
\<close>

definition triple ::
  "(Database \<Rightarrow> bool) \<Rightarrow> 'a tx \<Rightarrow> ('a \<Rightarrow> Database \<Rightarrow> bool) \<Rightarrow> (Database \<Rightarrow> bool) \<Rightarrow> bool" where
  "triple P m Q R \<longleftrightarrow>
    (\<forall>w r w'. P (w_db w) \<longrightarrow> m w = (r, w') \<longrightarrow>
      (case r of Inl e \<Rightarrow> R (w_db w') | Inr x \<Rightarrow> Q x (w_db w')))"

lemma tripleI:
  assumes "\<And>w x w'. P (w_db w) \<Longrightarrow> m w = (Inr x, w') \<Longrightarrow> Q x (w_db w')"
    and "\<And>w e w'. P (w_db w) \<Longrightarrow> m w = (Inl e, w') \<Longrightarrow> R (w_db w')"
  shows "triple P m Q R"
  using assms by (auto simp: triple_def split: sum.split)

lemma triple_OkD: "triple P m Q R \<Longrightarrow> P (w_db w) \<Longrightarrow> m w = (Inr x, w') \<Longrightarrow> Q x (w_db w')"
  unfolding triple_def by (metis sum.simps(6))

lemma triple_ErrD: "triple P m Q R \<Longrightarrow> P (w_db w) \<Longrightarrow> m w = (Inl e, w') \<Longrightarrow> R (w_db w')"
  unfolding triple_def by (metis sum.simps(5))

lemma bind_tx_Inr:
  "bind_tx m f w = (Inr y, w') \<longleftrightarrow> (\<exists>x w1. m w = (Inr x, w1) \<and> f x w1 = (Inr y, w'))"
  by (auto simp: bind_tx_def split: prod.split sum.split)

lemma bind_tx_Inl:
  "bind_tx m f w = (Inl e, w') \<longleftrightarrow>
    m w = (Inl e, w') \<or> (\<exists>x w1. m w = (Inr x, w1) \<and> f x w1 = (Inl e, w'))"
  by (auto simp: bind_tx_def split: prod.split sum.split)

lemma attempt_result:
  "attempt m h w = (r', w') \<longleftrightarrow> (\<exists>r w1. m w = (r, w1) \<and> h r w1 = (r', w'))"
  by (auto simp: attempt_def split: prod.split)

lemma triple_conseq:
  "triple P' m Q' R' \<Longrightarrow> (\<And>d. P d \<Longrightarrow> P' d) \<Longrightarrow> (\<And>x d. Q' x d \<Longrightarrow> Q x d) \<Longrightarrow>
    (\<And>d. R' d \<Longrightarrow> R d) \<Longrightarrow> triple P m Q R"
  by (rule tripleI) (blast dest: triple_OkD triple_ErrD)+

lemma triple_return: "(\<And>d. P d \<Longrightarrow> Q x d) \<Longrightarrow> triple P (return_tx x) Q R"
  by (rule tripleI) auto

lemma triple_fail: "(\<And>d. P d \<Longrightarrow> R d) \<Longrightarrow> triple P (fail_tx e) Q R"
  by (rule tripleI) auto

lemma triple_bind:
  assumes "triple P m Q' R" and "\<And>x. triple (Q' x) (f x) Q R"
  shows "triple P (bind_tx m f) Q R"
  using assms by (intro tripleI) (auto simp: bind_tx_Inr bind_tx_Inl dest: triple_OkD triple_ErrD)

lemma triple_attempt:
  assumes "triple P m Q' R'" and "\<And>x. triple (Q' x) (h (Inr x)) Q R" and "\<And>e. triple R' (h (Inl e)) Q R"
  shows "triple P (attempt m h) Q R"
proof (rule tripleI)
  fix w x w'
  assume "P (w_db w)" and "attempt m h w = (Inr x, w')"
  then obtain r w1 where "m w = (r, w1)" and "h r w1 = (Inr x, w')" by (auto simp: attempt_result)
  with \<open>P (w_db w)\<close> assms show "Q x (w_db w')" by (cases r) (blast dest: triple_OkD triple_ErrD)+
next
  fix w e w'
  assume "P (w_db w)" and "attempt m h w = (Inl e, w')"
  then obtain r w1 where "m w = (r, w1)" and "h r w1 = (Inl e, w')" by (auto simp: attempt_result)
  with \<open>P (w_db w)\<close> assms show "R (w_db w')" by (cases r) (blast dest: triple_OkD triple_ErrD)+
qed

lemma triple_with_driver: "(\<And>dr. triple P (k dr) Q R) \<Longrightarrow> triple P (with_driver k) Q R"
  by (simp add: triple_def with_driver_def)

lemma triple_for_each:
  "(\<And>x acc. x \<in> set xs \<Longrightarrow> triple (I acc) (f x acc) I R) \<Longrightarrow> triple (I acc) (for_each xs f acc) I R"
  by (induction xs arbitrary: acc) (auto intro!: triple_return intro: triple_bind)

lemma triple_statement:
  assumes "\<And>d x d'. P d \<Longrightarrow> f d = Inr (x, d') \<Longrightarrow> Q x d'" and "\<And>d. P d \<Longrightarrow> R d"
  shows "triple P (statement wrap f) Q R"
  using assms
  by (intro tripleI) (auto simp: statement_def refuse_def Let_def split: if_splits list.splits option.splits sum.splits)

lemma triple_exec_tx:
  "(\<And>d. P d \<Longrightarrow> Q () (f d)) \<Longrightarrow> (\<And>d. P d \<Longrightarrow> R d) \<Longrightarrow> triple P (exec_tx f) Q R"
  unfolding exec_tx_def ExecContext_def by (rule triple_statement) auto

lemma triple_query:
  "(\<And>d. P d \<Longrightarrow> Q (q d) d) \<Longrightarrow> (\<And>d. P d \<Longrightarrow> R d) \<Longrightarrow> triple P (QueryContext q) Q R"
  unfolding QueryContext_def by (rule triple_statement) auto

lemma triple_query_row:
  "(\<And>d. P d \<Longrightarrow> Q (q d) d) \<Longrightarrow> (\<And>d. P d \<Longrightarrow> R d) \<Longrightarrow> triple P (QueryRowContext q) Q R"
  unfolding QueryRowContext_def by (rule triple_statement) auto

text \<open>What a query that succeeds has read.\<close>

lemma query_row_Inr: "QueryRowContext q w = (Inr x, w') \<Longrightarrow> x = q (w_db w) \<and> w_db w' = w_db w"
  by (auto simp: QueryRowContext_def statement_def refuse_def Let_def split: if_splits list.splits option.splits)

lemma query_Inr: "QueryContext q w = (Inr x, w') \<Longrightarrow> x = q (w_db w) \<and> w_db w' = w_db w"
  by (auto simp: QueryContext_def statement_def refuse_def Let_def split: if_splits list.splits option.splits)

lemma found_Inr: "found r w = (Inr x, w') \<longleftrightarrow> r = Some x \<and> w' = w"
  by (auto simp: found_def return_tx_def fail_tx_def split: option.split)

text \<open>An invariant that a program keeps in every outcome, and a part of the database it never writes.\<close>

definition preserves :: "(Database \<Rightarrow> bool) \<Rightarrow> 'a tx \<Rightarrow> bool" where
  "preserves P m \<longleftrightarrow> triple P m (\<lambda>_. P) P"

lemma preservesD: "preserves P m \<Longrightarrow> P (w_db w) \<Longrightarrow> m w = (r, w') \<Longrightarrow> P (w_db w')"
  unfolding preserves_def by (cases r) (blast dest: triple_OkD triple_ErrD)+

lemma preservesI: "(\<And>w r w'. P (w_db w) \<Longrightarrow> m w = (r, w') \<Longrightarrow> P (w_db w')) \<Longrightarrow> preserves P m"
  unfolding preserves_def by (rule tripleI) blast+

definition keeps :: "(Database \<Rightarrow> 'k) \<Rightarrow> 'a tx \<Rightarrow> bool" where
  "keeps k m \<longleftrightarrow> (\<forall>w r w'. m w = (r, w') \<longrightarrow> k (w_db w') = k (w_db w))"

lemma keepsD: "keeps k m \<Longrightarrow> m w = (r, w') \<Longrightarrow> k (w_db w') = k (w_db w)"
  by (simp add: keeps_def)

lemma keepsI: "(\<And>w r w'. m w = (r, w') \<Longrightarrow> k (w_db w') = k (w_db w)) \<Longrightarrow> keeps k m"
  by (simp add: keeps_def)

lemma keeps_return [keeps_intro]: "keeps k (return_tx x)"
  by (simp add: keeps_def)

lemma keeps_fail [keeps_intro]: "keeps k (fail_tx e)"
  by (simp add: keeps_def)

lemma keeps_bind [keeps_intro]:
  assumes "keeps k m" and "\<And>x. keeps k (f x)"
  shows "keeps k (bind_tx m f)"
proof (rule keepsI)
  fix w r w'
  assume run: "bind_tx m f w = (r, w')"
  obtain r1 w1 where m: "m w = (r1, w1)" by fastforce
  with assms(1) have "k (w_db w1) = k (w_db w)" by (rule keepsD)
  with run m assms(2) show "k (w_db w') = k (w_db w)"
    by (cases r1) (auto simp: bind_tx_def dest!: keepsD [OF assms(2)])
qed

lemma keeps_attempt [keeps_intro]:
  assumes "keeps k m" and "\<And>r. keeps k (h r)"
  shows "keeps k (attempt m h)"
proof (rule keepsI)
  fix w r w'
  assume run: "attempt m h w = (r, w')"
  obtain r1 w1 where m: "m w = (r1, w1)" by fastforce
  with assms(1) have "k (w_db w1) = k (w_db w)" by (rule keepsD)
  moreover from run m assms(2) have "k (w_db w') = k (w_db w1)"
    by (auto simp: attempt_def dest: keepsD)
  ultimately show "k (w_db w') = k (w_db w)" by simp
qed

lemma keeps_with_driver [keeps_intro]: "(\<And>dr. keeps k (f dr)) \<Longrightarrow> keeps k (with_driver f)"
  by (simp add: keeps_def with_driver_def)

lemma keeps_for_each [keeps_intro]:
  "(\<And>x acc. keeps k (f x acc)) \<Longrightarrow> keeps k (for_each xs f acc)"
  by (induction xs arbitrary: acc) (auto intro: keeps_intro)

lemma keeps_statement: "(\<And>d x d'. f d = Inr (x, d') \<Longrightarrow> k d' = k d) \<Longrightarrow> keeps k (statement wrap f)"
  by (rule keepsI) (auto simp: statement_def refuse_def Let_def split: if_splits list.splits option.splits sum.splits)

lemma keeps_exec_context [keeps_intro]:
  "(\<And>d x d'. f d = Inr (x, d') \<Longrightarrow> k d' = k d) \<Longrightarrow> keeps k (ExecContext f)"
  unfolding ExecContext_def by (rule keeps_statement)

lemma keeps_exec [keeps_intro]: "(\<And>d. k (f d) = k d) \<Longrightarrow> keeps k (exec_tx f)"
  unfolding exec_tx_def ExecContext_def by (rule keeps_statement) auto

lemma keeps_query [keeps_intro]: "keeps k (QueryContext q)"
  unfolding QueryContext_def by (rule keeps_statement) auto

lemma keeps_query_row [keeps_intro]: "keeps k (QueryRowContext q)"
  unfolding QueryRowContext_def by (rule keeps_statement) auto

lemma keeps_TableExists [keeps_intro]: "keeps k (TableExists t)"
  unfolding TableExists_def by (rule keeps_statement) auto

lemma keeps_conn_call [keeps_intro]: "keeps k (conn_call wrap)"
  by (auto simp: keeps_def conn_call_def split: list.splits option.splits)

lemma keeps_found [keeps_intro]: "keeps k (found r)"
  by (auto simp: found_def intro: keeps_intro split: option.split)

lemma keeps_if [keeps_intro]: "(b \<Longrightarrow> keeps k m) \<Longrightarrow> (\<not> b \<Longrightarrow> keeps k n) \<Longrightarrow> keeps k (if b then m else n)"
  by simp

lemma keeps_option [keeps_intro]:
  "keeps k m \<Longrightarrow> (\<And>x. keeps k (f x)) \<Longrightarrow> keeps k (case r of None \<Rightarrow> m | Some x \<Rightarrow> f x)"
  by (cases r) auto

lemma keeps_sum [keeps_intro]:
  "(\<And>e. keeps k (f e)) \<Longrightarrow> (\<And>x. keeps k (g x)) \<Longrightarrow>
    keeps k (case r of Inl e \<Rightarrow> f e | Inr x \<Rightarrow> g x)"
  by (cases r) auto

lemma keeps_prod [keeps_intro]: "(\<And>a b. keeps k (f a b)) \<Longrightarrow> keeps k (case p of (a, b) \<Rightarrow> f a b)"
  by (cases p) auto

lemma keeps_prod_app [keeps_intro]:
  "(\<And>a b. keeps k (f a b x)) \<Longrightarrow> keeps k ((case p of (a, b) \<Rightarrow> f a b) x)"
  by (cases p) auto

lemma keeps_list [keeps_intro]:
  "keeps k m \<Longrightarrow> (\<And>x xs. keeps k (f x xs)) \<Longrightarrow> keeps k (case l of [] \<Rightarrow> m | x # xs \<Rightarrow> f x xs)"
  by (cases l) auto

lemma keeps_bool [keeps_intro]: "keeps k m \<Longrightarrow> keeps k n \<Longrightarrow> keeps k (case b of True \<Rightarrow> m | False \<Rightarrow> n)"
  by (cases b) auto

lemma keeps_rule_state [keeps_intro]:
  "keeps k a \<Longrightarrow> keeps k b \<Longrightarrow> keeps k c \<Longrightarrow> keeps k d \<Longrightarrow> keeps k e \<Longrightarrow>
    keeps k (case s of StateActive \<Rightarrow> a | StatePaused \<Rightarrow> b | StateDisabled \<Rightarrow> c | StateMerged \<Rightarrow> d | StateOrphaned \<Rightarrow> e)"
  by (cases s) auto

lemma keeps_Let [keeps_intro]: "(\<And>x. keeps k (f x)) \<Longrightarrow> keeps k (Let v f)"
  by (simp add: Let_def)

section \<open>Atomicity\<close>

text \<open>What a database holds, apart from the counters that hand out identifiers.\<close>

definition contents :: "Database \<Rightarrow> Database" where
  "contents d = d\<lparr>t_seq_rules := 0, t_seq_excludes := 0, t_seq_overrides := 0, t_seq_events := 0\<rparr>"

lemma contents_rollback [simp]: "contents (w_db (rollback w0 w1)) = contents (w_db w0)"
  by (simp add: rollback_def contents_def)

lemma run_body_err: "run_body a fn w = (Inl e, w') \<Longrightarrow> contents (w_db w') = contents (w_db w)"
  by (auto simp: run_body_def split: prod.splits sum.splits if_splits)

lemma conn_call_db: "conn_call wrap w = (r, w') \<Longrightarrow> w_db w' = w_db w"
  by (auto simp: conn_call_def split: list.splits option.splits)

text \<open>
  C6. Atomicity of every write operation: \<open>WithImmediateTx\<close> runs a body that may write anything and may
  fail at any statement, by its own decision or because the driver refuses the statement or the
  commit, and if it reports an error then no table has changed.
\<close>

theorem WithImmediateTx_atomic:
  assumes "WithImmediateTx fn w = (Inl e, w')"
  shows "contents (w_db w') = contents (w_db w)"
  using assms
  by (auto simp: WithImmediateTx_def bind_tx_def with_driver_def
      split: prod.splits sum.splits if_splits dest!: conn_call_db dest: run_body_err)

theorem WithImmediateTx_atomic_witness:
  "\<exists>e w'. WithImmediateTx (exec_tx (\<lambda>d. d\<lparr>t_seq_rules := 3, t_clients := [(1, ''a'')]\<rparr>))
      (sqlite_world [None, None, None, Some ''disk I/O error''] empty_db) = (Inl e, w') \<and>
    contents (w_db w') = contents empty_db"
proof -
  let ?w = "sqlite_world [None, None, None, Some ''disk I/O error''] empty_db"
  obtain e w' where run: "WithImmediateTx (exec_tx (\<lambda>d. d\<lparr>t_seq_rules := 3, t_clients := [(1, ''a'')]\<rparr>)) ?w = (Inl e, w')"
    by (simp add: sqlite_world_def WithImmediateTx_def run_body_def bind_tx_def with_driver_def conn_call_def
        exec_tx_def ExecContext_def statement_def)
  from WithImmediateTx_atomic [OF run] have "contents (w_db w') = contents empty_db"
    by (simp add: sqlite_world_def)
  with run show ?thesis by blast
qed

text \<open>A transaction keeps what its body keeps.\<close>

lemma keeps_run_body:
  assumes "keeps k fn" and "\<And>d. k (contents d) = k d"
  shows "keeps k (run_body a fn)"
proof (rule keepsI)
  fix w r w'
  assume run: "run_body a fn w = (r, w')"
  have restored: "k (w_db (rollback w w1)) = k (w_db w)" for w1
    by (metis assms(2) contents_rollback)
  from run show "k (w_db w') = k (w_db w)"
    using keepsD [OF assms(1)] restored
    by (auto simp: run_body_def split: prod.splits sum.splits if_splits dest!: conn_call_db)
qed

lemma keeps_WithImmediateTx:
  assumes "keeps k fn" and "\<And>d. k (contents d) = k d"
  shows "keeps k (WithImmediateTx fn)"
  unfolding WithImmediateTx_def by (intro keeps_intro keeps_run_body assms)

section \<open>Relations between before and after\<close>

text \<open>
  A reflexive and transitive relation \<open>R\<close> between databases, such as ``no counter decreased'' or ``still well
  formed, and no identifier forgotten''. \<open>moves C m Q\<close>: from a database with \<open>C\<close>, however \<open>m\<close> ends and
  whatever the driver does, \<open>R\<close> relates the database before to the one after, and a value it returns
  has \<open>Q\<close>. \<open>under C m\<close> says nothing of the value; its rules need a \<open>C\<close> that \<open>R\<close> cannot destroy.
\<close>

named_theorems moves_intro \<open>programs that move the database along a relation\<close>

locale stable_relation =
  fixes R :: "Database \<Rightarrow> Database \<Rightarrow> bool"
  assumes reflexive: "R d d"
    and transitive: "R d1 d2 \<Longrightarrow> R d2 d3 \<Longrightarrow> R d1 d3"
begin

definition moves :: "(Database \<Rightarrow> bool) \<Rightarrow> 'a tx \<Rightarrow> ('a \<Rightarrow> Database \<Rightarrow> bool) \<Rightarrow> bool" where
  "moves C m Q \<longleftrightarrow> (\<forall>w r w'. C (w_db w) \<longrightarrow> m w = (r, w') \<longrightarrow>
     R (w_db w) (w_db w') \<and> (\<forall>x. r = Inr x \<longrightarrow> Q x (w_db w')))"

abbreviation under :: "(Database \<Rightarrow> bool) \<Rightarrow> 'a tx \<Rightarrow> bool" where
  "under C m \<equiv> moves C m (\<lambda>_ _. True)"

definition stable :: "(Database \<Rightarrow> bool) \<Rightarrow> bool" where
  "stable C \<longleftrightarrow> (\<forall>d d'. C d \<longrightarrow> R d d' \<longrightarrow> C d')"

lemma stable_True [moves_intro]: "stable (\<lambda>_. True)"
  by (simp add: stable_def)

lemma movesI:
  "(\<And>w r w'. C (w_db w) \<Longrightarrow> m w = (r, w') \<Longrightarrow> R (w_db w) (w_db w') \<and> (\<forall>x. r = Inr x \<longrightarrow> Q x (w_db w'))) \<Longrightarrow>
    moves C m Q"
  by (auto simp: moves_def)

lemma movesD: "moves C m Q \<Longrightarrow> C (w_db w) \<Longrightarrow> m w = (r, w') \<Longrightarrow> R (w_db w) (w_db w')"
  unfolding moves_def by blast

lemma moves_resultD: "moves C m Q \<Longrightarrow> C (w_db w) \<Longrightarrow> m w = (Inr x, w') \<Longrightarrow> Q x (w_db w')"
  unfolding moves_def by blast

lemma underD: "under (\<lambda>_. True) m \<Longrightarrow> R (w_db w) (w_db (snd (m w)))"
  by (cases "m w") (auto dest: movesD)

lemma moves_conseq:
  "moves C' m Q' \<Longrightarrow> (\<And>d. C d \<Longrightarrow> C' d) \<Longrightarrow> (\<And>x d. Q' x d \<Longrightarrow> Q x d) \<Longrightarrow> moves C m Q"
  unfolding moves_def by blast

lemma under_any: "under (\<lambda>_. True) m \<Longrightarrow> under C m"
  by (erule moves_conseq) auto

lemma under_moves: "moves C m Q \<Longrightarrow> under C m"
  by (erule moves_conseq) auto

lemma under_keeps: "keeps k m \<Longrightarrow> (\<And>d d'. k d' = k d \<Longrightarrow> R d d') \<Longrightarrow> under C m"
  by (intro movesI) (auto dest: keepsD)

lemma under_reads: "keeps (\<lambda>d. d) m \<Longrightarrow> under C m"
  by (erule under_keeps) (simp add: reflexive)

lemma moves_return: "(\<And>d. C d \<Longrightarrow> Q x d) \<Longrightarrow> moves C (return_tx x) Q"
  by (rule movesI) (auto simp: reflexive)

lemma under_return [moves_intro]: "under C (return_tx x)"
  by (rule moves_return) simp

lemma moves_fail [moves_intro]: "moves C (fail_tx e) Q"
  by (rule movesI) (auto simp: reflexive)

lemma moves_bind:
  assumes "moves C m Q'" and "\<And>x. moves (Q' x) (f x) Q"
  shows "moves C (bind_tx m f) Q"
proof (rule movesI)
  fix w r w'
  assume C: "C (w_db w)" and run: "bind_tx m f w = (r, w')"
  obtain r1 w1 where m: "m w = (r1, w1)" by fastforce
  have R1: "R (w_db w) (w_db w1)" using movesD [OF assms(1) C m] .
  show "R (w_db w) (w_db w') \<and> (\<forall>x. r = Inr x \<longrightarrow> Q x (w_db w'))"
  proof (cases r1)
    case (Inl e)
    with m run R1 show ?thesis by (auto simp: bind_tx_def)
  next
    case (Inr x)
    then have Q': "Q' x (w_db w1)" using moves_resultD [OF assms(1) C] m by simp
    from m run Inr have run': "f x w1 = (r, w')" by (simp add: bind_tx_def)
    have "R (w_db w1) (w_db w')" by (rule movesD [OF assms(2) Q' run'])
    moreover have "\<forall>y. r = Inr y \<longrightarrow> Q y (w_db w')" using moves_resultD [OF assms(2) Q'] run' by blast
    ultimately show ?thesis using R1 transitive by blast
  qed
qed

text \<open>A stable context is still there after any step.\<close>

lemma moves_stable: "stable C \<Longrightarrow> moves C m Q \<Longrightarrow> moves C m (\<lambda>x d. C d \<and> Q x d)"
  unfolding moves_def stable_def by blast

lemma under_bind_value:
  assumes "stable C" and "moves C m (\<lambda>x _. p x)" and "\<And>x. p x \<Longrightarrow> moves C (f x) Q"
  shows "moves C (bind_tx m f) Q"
proof (rule moves_bind [OF moves_stable [OF assms(1,2)]])
  show "moves (\<lambda>d. C d \<and> p x) (f x) Q" for x
    using assms(3) [of x] by (cases "p x") (simp_all add: moves_def)
qed

lemma under_bind [moves_intro]:
  "stable C \<Longrightarrow> under C m \<Longrightarrow> (\<And>x. moves C (f x) Q) \<Longrightarrow> moves C (bind_tx m f) Q"
  by (rule under_bind_value [where p = "\<lambda>_. True"])

lemma under_attempt_value:
  assumes "stable C" and "moves C m (\<lambda>x _. p x)" and "\<And>x. p x \<Longrightarrow> moves C (h (Inr x)) Q"
    and "\<And>e. moves C (h (Inl e)) Q"
  shows "moves C (attempt m h) Q"
proof (rule movesI)
  fix w r w'
  assume C: "C (w_db w)" and run: "attempt m h w = (r, w')"
  obtain r1 w1 where m: "m w = (r1, w1)" by fastforce
  with run have run': "h r1 w1 = (r, w')" by (simp add: attempt_def)
  have R1: "R (w_db w) (w_db w1)" using movesD [OF assms(2) C m] .
  then have C1: "C (w_db w1)" using assms(1) C unfolding stable_def by blast
  have h: "moves C (h r1) Q"
    using assms(3,4) moves_resultD [OF assms(2) C] m by (cases r1) auto
  show "R (w_db w) (w_db w') \<and> (\<forall>x. r = Inr x \<longrightarrow> Q x (w_db w'))"
    using transitive [OF R1 movesD [OF h C1 run']] moves_resultD [OF h C1] run' by blast
qed

lemma under_attempt [moves_intro]:
  "stable C \<Longrightarrow> under C m \<Longrightarrow> (\<And>r. moves C (h r) Q) \<Longrightarrow> moves C (attempt m h) Q"
  by (rule under_attempt_value [where p = "\<lambda>_. True"])

lemma moves_with_driver [moves_intro]: "(\<And>dr. moves C (k dr) Q) \<Longrightarrow> moves C (with_driver k) Q"
  by (simp add: moves_def with_driver_def)

lemma under_for_each:
  "stable C \<Longrightarrow> (\<And>x acc. x \<in> set xs \<Longrightarrow> under C (f x acc)) \<Longrightarrow> under C (for_each xs f acc)"
  by (induction xs arbitrary: acc) (auto simp del: return_tx_run intro!: under_return intro: under_bind)

lemma under_loop [moves_intro]:
  "stable C \<Longrightarrow> (\<And>x acc. under C (f x acc)) \<Longrightarrow> under C (for_each xs f acc)"
  by (rule under_for_each)

text \<open>A loop invariant may speak of the result so far.\<close>

lemma moves_for_each:
  "(\<And>x acc. x \<in> set xs \<Longrightarrow> moves (I acc) (f x acc) I) \<Longrightarrow> moves (I acc) (for_each xs f acc) I"
  by (induction xs arbitrary: acc) (auto simp del: return_tx_run intro!: moves_return intro: moves_bind)

lemma moves_statement:
  "(\<And>d x d'. C d \<Longrightarrow> f d = Inr (x, d') \<Longrightarrow> R d d' \<and> Q x d') \<Longrightarrow> moves C (statement wrap f) Q"
  by (intro movesI)
    (auto simp: statement_def refuse_def Let_def reflexive split: if_splits list.splits option.splits sum.splits)

lemma moves_ExecContext:
  "(\<And>d x d'. C d \<Longrightarrow> f d = Inr (x, d') \<Longrightarrow> R d d' \<and> Q x d') \<Longrightarrow> moves C (ExecContext f) Q"
  unfolding ExecContext_def by (rule moves_statement)

lemma moves_exec_tx: "(\<And>d. C d \<Longrightarrow> R d (f d) \<and> Q () (f d)) \<Longrightarrow> moves C (exec_tx f) Q"
  unfolding exec_tx_def by (rule moves_ExecContext) auto

lemma moves_query: "(\<And>d. C d \<Longrightarrow> Q (q d) d) \<Longrightarrow> moves C (QueryContext q) Q"
  unfolding QueryContext_def by (rule moves_statement) (auto simp: reflexive)

lemma moves_query_row: "(\<And>d. C d \<Longrightarrow> Q (q d) d) \<Longrightarrow> moves C (QueryRowContext q) Q"
  unfolding QueryRowContext_def by (rule moves_statement) (auto simp: reflexive)

lemma moves_found: "(\<And>x d. r = Some x \<Longrightarrow> C d \<Longrightarrow> Q x d) \<Longrightarrow> moves C (found r) Q"
  unfolding found_def by (cases r) (simp_all del: return_tx_run fail_tx_run add: moves_return moves_fail)

lemma under_branches [moves_intro]:
  "(b \<Longrightarrow> moves C m Q) \<Longrightarrow> (\<not> b \<Longrightarrow> moves C n Q) \<Longrightarrow> moves C (if b then m else n) Q"
  "moves C m Q \<Longrightarrow> (\<And>x. moves C (f x) Q) \<Longrightarrow> moves C (case o' of None \<Rightarrow> m | Some x \<Rightarrow> f x) Q"
  "(\<And>e. moves C (g e) Q) \<Longrightarrow> (\<And>x. moves C (f x) Q) \<Longrightarrow> moves C (case s of Inl e \<Rightarrow> g e | Inr x \<Rightarrow> f x) Q"
  "(\<And>a b. moves C (h a b) Q) \<Longrightarrow> moves C (case p of (a, b) \<Rightarrow> h a b) Q"
  "(\<And>a b. moves C (h' a b y) Q) \<Longrightarrow> moves C ((case p of (a, b) \<Rightarrow> h' a b) y) Q"
  "moves C m Q \<Longrightarrow> (\<And>x xs. moves C (f' x xs) Q) \<Longrightarrow> moves C (case l of [] \<Rightarrow> m | x # xs \<Rightarrow> f' x xs) Q"
  "moves C m Q \<Longrightarrow> moves C n Q \<Longrightarrow> moves C (case b of True \<Rightarrow> m | False \<Rightarrow> n) Q"
  "(\<And>x. moves C (f x) Q) \<Longrightarrow> moves C (Let v f) Q"
  by (simp_all split: option.split sum.split prod.split list.split bool.split)

lemma under_rule_state [moves_intro]:
  "moves C a Q \<Longrightarrow> moves C b Q \<Longrightarrow> moves C c Q \<Longrightarrow> moves C d Q \<Longrightarrow> moves C e Q \<Longrightarrow>
    moves C (case s of StateActive \<Rightarrow> a | StatePaused \<Rightarrow> b | StateDisabled \<Rightarrow> c | StateMerged \<Rightarrow> d | StateOrphaned \<Rightarrow> e) Q"
  by (cases s) auto

lemma under_conn_call [moves_intro]: "under C (conn_call f)"
  by (rule under_reads, rule keeps_conn_call)

text \<open>A rollback keeps \<open>R\<close> when \<open>R\<close> does not mind identifiers that are skipped.\<close>

lemma under_WithImmediateTx:
  assumes "under (\<lambda>_. True) fn"
    and "\<And>d d1. R d d1 \<Longrightarrow> R d (d\<lparr>t_seq_rules := t_seq_rules d1, t_seq_excludes := t_seq_excludes d1,
        t_seq_overrides := t_seq_overrides d1, t_seq_events := t_seq_events d1\<rparr>)"
  shows "under (\<lambda>_. True) (WithImmediateTx fn)"
proof -
  have "under (\<lambda>_. True) (run_body a fn)" for a
  proof (rule movesI)
    fix w r w'
    assume run: "run_body a fn w = (r, w')"
    have body: "fn w = (r1, w1) \<Longrightarrow> R (w_db w) (w_db w1)" for r1 w1 using movesD [OF assms(1)] by blast
    have restored: "R (w_db w) (w_db (rollback w w2))" if "R (w_db w) (w_db w2)" for w2
      using that assms(2) by (simp add: rollback_def reflexive)
    from run show "R (w_db w) (w_db w') \<and> (\<forall>x. r = Inr x \<longrightarrow> True)"
      using body restored by (auto simp: run_body_def split: prod.splits sum.splits if_splits dest!: conn_call_db)
  qed
  then show ?thesis unfolding WithImmediateTx_def by (intro moves_intro)
qed

end

end
