(* ===== verification/XF_Clients.thy ===== *)
theory XF_Clients
  imports XF_Tx "HOL-Library.Char_ord" "HOL-Library.List_Lexorder" "HOL-Library.Product_Lexorder"
begin

text \<open>
  The panel's own tables, as the store reads them (\<open>store/tick.go\<close>, \<open>store/membership.go\<close>,
  \<open>store/bulk.go\<close>, \<open>store/panel.go\<close>, \<open>FindClient\<close> of \<open>store/rules.go\<close>) and the one statement that
  writes them, the compare-and-swap of the counters. \<open>ORDER BY\<close> on text is the byte order SQLite uses.
\<close>

section \<open>Reading clients\<close>

text \<open>Inbound attachment lives in \<open>client_inbounds\<close>, never in \<open>client_traffics.inbound_id\<close>.\<close>

definition clientInboundMembership :: "Database \<Rightarrow> string \<Rightarrow> int \<Rightarrow> bool" where
  "clientInboundMembership d email inbound =
    list_ex (\<lambda>(cid, e). e = email \<and> list_ex (\<lambda>(c, i). c = cid \<and> i = inbound) (t_client_inbounds d))
      (t_clients d)"

definition ClientIsInboundMember :: "string \<Rightarrow> int \<Rightarrow> bool tx" where
  "ClientIsInboundMember email inboundID =
    QueryRowContext (\<lambda>d. clientInboundMembership d email inboundID)"

text \<open>\<open>AND\<close> the membership test when an inbound is given.\<close>

definition in_inbound :: "Database \<Rightarrow> string \<Rightarrow> int option \<Rightarrow> bool" where
  "in_inbound d email inbound =
    (case inbound of None \<Rightarrow> True | Some i \<Rightarrow> clientInboundMembership d email i)"

definition with_locked :: "(int list \<Rightarrow> 'a tx) \<Rightarrow> 'a tx" where
  "with_locked k w = k (w_locked w) w"

text \<open>
  \<open>clientTrafficByID\<close>: with \<open>FOR UPDATE SKIP LOCKED\<close> the rows another writer holds are invisible.
\<close>

definition clientTrafficByID :: "int list \<Rightarrow> int \<Rightarrow> ClientTraffic tx" where
  "clientTrafficByID skip trafficID =
    with_driver (\<lambda>driver.
    bind_tx (QueryRowContext (\<lambda>d. first_of (map (scan_client driver)
        (filter (\<lambda>t. tr_id t = trafficID \<and> tr_id t \<notin> set skip) (t_client_traffics d))))) found)"

definition ClientTrafficByID :: "int \<Rightarrow> ClientTraffic tx" where
  "ClientTrafficByID trafficID = clientTrafficByID [] trafficID"

definition LockClientTraffic :: "int \<Rightarrow> ClientTraffic tx" where
  "LockClientTraffic trafficID =
    with_driver (\<lambda>driver.
    if driver \<noteq> DriverPostgres then clientTrafficByID [] trafficID
    else with_locked (\<lambda>locked.
      attempt (clientTrafficByID locked trafficID) (\<lambda>r.
      case r of
        Inr current \<Rightarrow> return_tx current
      | Inl err \<Rightarrow>
          if \<not> errors_is err ErrNotFound then fail_tx err
          else bind_tx (clientTrafficByID [] trafficID) (\<lambda>_. fail_tx ErrLocked))))"

definition ClientTrafficByEmail :: "string \<Rightarrow> ClientTraffic tx" where
  "ClientTrafficByEmail email =
    with_driver (\<lambda>driver.
    bind_tx (QueryRowContext (\<lambda>d. first_of (map (scan_client driver)
        (sort_key tr_id (filter (\<lambda>t. tr_email t = email) (t_client_traffics d)))))) found)"

definition FindClient :: "string \<Rightarrow> int option \<Rightarrow> ClientTraffic tx" where
  "FindClient email inboundID =
    with_driver (\<lambda>driver.
    bind_tx (QueryContext (\<lambda>d. take 2 (map (scan_client driver)
        (sort_key tr_id (filter (\<lambda>t. tr_email t = email \<and> in_inbound d (tr_email t) inboundID)
          (t_client_traffics d)))))) (\<lambda>matches.
    case matches of
      [] \<Rightarrow> fail_tx ErrNotFound
    | [c] \<Rightarrow> return_tx c
    | _ \<Rightarrow> fail_tx ErrAmbiguous))"

definition client_order :: "TrafficRow \<Rightarrow> int \<times> string \<times> int" where
  "client_order t = (tr_inbound_id t, tr_email t, tr_id t)"

definition candidate_row :: "driver \<Rightarrow> Database \<Rightarrow> ClientFilter \<Rightarrow> TrafficRow \<Rightarrow> bool" where
  "candidate_row driver d flt t \<longleftrightarrow>
    tr_email t \<noteq> [] \<and>
    (cf_include_disabled_clients flt \<or> enableTrueExpr driver (tr_enable t)) \<and>
    (cf_limited_only flt \<longrightarrow> 0 < tr_total t) \<and>
    in_inbound d (tr_email t) (cf_inbound_id flt)"

definition ListClientCandidates :: "ClientFilter \<Rightarrow> ClientTraffic list tx" where
  "ListClientCandidates flt =
    with_driver (\<lambda>driver.
    QueryContext (\<lambda>d. map (scan_client driver)
      (sort_key client_order (filter (candidate_row driver d flt) (t_client_traffics d)))))"

text \<open>\<open>ListClientTraffics\<close> reads one row more than the limit to know whether it truncates.\<close>

definition ListClientTraffics :: "int option \<Rightarrow> int \<Rightarrow> (ClientTraffic list \<times> bool) tx" where
  "ListClientTraffics inboundID limit =
    with_driver (\<lambda>driver.
    bind_tx (QueryContext (\<lambda>d.
      let rows = map (scan_client driver) (sort_key client_order
            (filter (\<lambda>t. tr_email t \<noteq> [] \<and> in_inbound d (tr_email t) inboundID) (t_client_traffics d)))
      in if 0 < limit then take (nat (limit + 1)) rows else rows)) (\<lambda>clients.
    if 0 < limit \<and> limit < int (length clients)
    then return_tx (take (nat limit) clients, True)
    else return_tx (clients, False)))"

section \<open>The role of the panel\<close>

record PanelRole =
  pr_nodes :: int
  pr_managed :: bool

fun PanelRole_Name :: "PanelRole \<Rightarrow> string" where
  "PanelRole_Name r =
    (if pr_managed r then ''node'' else if 0 < pr_nodes r then ''master'' else ''standalone'')"

text \<open>24 hours, in milliseconds.\<close>

definition managedPanelWindow :: int where "managedPanelWindow = 86400000"

definition PanelRole_tx :: "int \<Rightarrow> PanelRole tx" where
  "PanelRole_tx clock_ms =
    with_driver (\<lambda>driver.
    bind_tx (TableExists ''nodes'') (\<lambda>exists.
    bind_tx (if exists
        then statement (wrapDatabaseError ''read panel nodes'')
               (\<lambda>d. Inr (int (length (filter (enableTrueExpr driver) (t_nodes d))), d))
        else return_tx 0) (\<lambda>nodes.
    bind_tx (TableExists ''client_global_traffics'') (\<lambda>exists.
    bind_tx (if exists
        then statement (wrapDatabaseError ''read master usage'')
               (\<lambda>d. Inr (list_ex (\<lambda>u. clock_ms - managedPanelWindow \<le> u) (t_client_global_traffics d), d))
        else return_tx False) (\<lambda>managed.
    return_tx \<lparr>pr_nodes = nodes, pr_managed = managed\<rparr>)))))"

section \<open>Writing counters\<close>

definition cas_match :: "ClientTraffic \<Rightarrow> TrafficRow \<Rightarrow> bool" where
  "cas_match current t \<longleftrightarrow> tr_id t = ct_id current \<and> tr_email t = ct_email current \<and>
     tr_up t = ct_up current \<and> tr_down t = ct_down current"

definition UpdateClientCountersCAS :: "ClientTraffic \<Rightarrow> int \<Rightarrow> int \<Rightarrow> bool tx" where
  "UpdateClientCountersCAS current newUp newDown =
    bind_tx (ExecContext (\<lambda>d. Inr (length (filter (cas_match current) (t_client_traffics d)),
        d\<lparr>t_client_traffics := update_where (cas_match current)
            (\<lambda>t. t\<lparr>tr_up := newUp, tr_down := newDown\<rparr>) (t_client_traffics d)\<rparr>))) (\<lambda>rows.
    if rows = 0 then return_tx False
    else if rows = 1 then return_tx True
    else fail_tx (ErrText (''unsafe counter update matched '' @ itoa (int rows) @ '' rows'')))"

section \<open>Facts\<close>

lemma with_locked_run [tx_simps]: "with_locked k w = k (w_locked w) w"
  by (simp add: with_locked_def)

lemma keeps_with_locked [keeps_intro]: "(\<And>l. keeps k (f l)) \<Longrightarrow> keeps k (with_locked f)"
  by (simp add: keeps_def with_locked_def)

text \<open>Readers change nothing, whatever view of the database one takes.\<close>

lemma keeps_statement_read:
  "keeps k (statement wrap (\<lambda>d. Inr (q d, d)))"
  by (rule keeps_statement) auto

lemma readers_keep [keeps_intro]:
  "keeps k (ClientIsInboundMember email i)" "keeps k (clientTrafficByID skip t)"
  "keeps k (ClientTrafficByID t)" "keeps k (LockClientTraffic t)" "keeps k (ClientTrafficByEmail email)"
  "keeps k (FindClient email inb)" "keeps k (ListClientCandidates flt)"
  "keeps k (ListClientTraffics inb limit)" "keeps k (PanelRole_tx clock)"
  unfolding ClientIsInboundMember_def clientTrafficByID_def ClientTrafficByID_def LockClientTraffic_def
    ClientTrafficByEmail_def FindClient_def ListClientCandidates_def ListClientTraffics_def PanelRole_tx_def
  by (intro keeps_intro keeps_statement_read)+

lemma keeps_CAS [keeps_intro]:
  "(\<And>d v. k (d\<lparr>t_client_traffics := v\<rparr>) = k d) \<Longrightarrow> keeps k (UpdateClientCountersCAS c u v)"
  unfolding UpdateClientCountersCAS_def by (intro keeps_intro) auto

end
