(* ===== verification/XF_Rules.thy ===== *)
theory XF_Rules
  imports XF_Clients
begin

text \<open>
  The metadata tables of rules, scopes, rule clients and events: every query and statement of
  \<open>store/rules.go\<close>, \<open>store/scopes.go\<close>, \<open>store/bulk.go\<close>, \<open>store/membership.go\<close> and \<open>store/tick.go\<close> on them.
  Inserts refuse a row whose primary key exists, as the database does.
\<close>

section \<open>Inserting\<close>

text \<open>
  \<open>insertReturningID\<close>: \<open>RETURNING id\<close> read as a row on PostgreSQL, \<open>LastInsertId\<close> of the statement on
  SQLite; only the latter wraps the driver's error.
\<close>

definition insertReturningID :: "(Database \<Rightarrow> string + int \<times> Database) \<Rightarrow> int tx" where
  "insertReturningID f =
    with_driver (\<lambda>driver. if driver = DriverPostgres then statement (\<lambda>e. e) f else ExecContext f)"

definition nullif_empty :: "string \<Rightarrow> string option" where
  "nullif_empty s = (if s = [] then None else Some s)"

definition insert_rule :: "Rule \<Rightarrow> Database \<Rightarrow> int \<times> Database" where
  "insert_rule rule d =
    (let newID = t_seq_rules d + 1 in
     (newID, d\<lparr>t_seq_rules := newID,
        t_rules := t_rules d @ [\<lparr>rr_id = newID, rr_name = nullif_empty (r_name rule),
          rr_inbound_id = Some (r_inbound_id rule), rr_email = r_email rule,
          rr_factor_ppm = r_factor_ppm rule, rr_state = r_state rule,
          rr_created_at = r_created_at rule, rr_updated_at = r_updated_at rule,
          rr_activated_at = r_activated_at rule, rr_paused_at = None, rr_disabled_at = None\<rparr>]\<rparr>))"

definition CreateRule :: "Rule \<Rightarrow> int tx" where
  "CreateRule rule = insertReturningID (\<lambda>d. Inr (insert_rule rule d))"

definition unique_violation :: "string \<Rightarrow> string" where
  "unique_violation columns = ''UNIQUE constraint failed: '' @ columns"

definition insert_rule_client :: "RuleClient \<Rightarrow> Database \<Rightarrow> string + unit \<times> Database" where
  "insert_rule_client rc d =
    (if list_ex (\<lambda>old. rc_rule_id old = rc_rule_id rc \<and> rc_traffic_id old = rc_traffic_id rc) (t_rule_clients d)
     then Inl (unique_violation ''xui_factor_rule_clients.rule_id, xui_factor_rule_clients.traffic_id'')
     else Inr ((), d\<lparr>t_rule_clients := t_rule_clients d @ [rc]\<rparr>))"

definition CreateRuleClient :: "RuleClient \<Rightarrow> unit tx" where
  "CreateRuleClient rc =
    ExecContext (insert_rule_client (rc\<lparr>rc_rem_up := 0, rc_rem_down := 0, rc_missing_at := None\<rparr>))"

definition CreateScope :: "Scope \<Rightarrow> unit tx" where
  "CreateScope scope = ExecContext (\<lambda>d.
    if list_ex (\<lambda>s. sc_rule_id s = sc_rule_id scope) (t_scopes d)
    then Inl (unique_violation ''xui_factor_scopes.rule_id'')
    else Inr ((), d\<lparr>t_scopes := t_scopes d @ [scope]\<rparr>))"

definition insert_event :: "int option \<Rightarrow> event_type \<Rightarrow> string \<Rightarrow> int \<Rightarrow> Database \<Rightarrow> Database" where
  "insert_event ruleID eventType message now d =
    (let newID = t_seq_events d + 1 in
     d\<lparr>t_seq_events := newID,
       t_events := t_events d @ [\<lparr>ev_id = newID, ev_rule_id = ruleID, ev_type = eventType,
          ev_message = message, ev_created_at = now\<rparr>]\<rparr>)"

definition AddEvent :: "int option \<Rightarrow> event_type \<Rightarrow> string \<Rightarrow> int \<Rightarrow> unit tx" where
  "AddEvent ruleID eventType message now = exec_tx (insert_event ruleID eventType message now)"

definition AddEventOnce :: "int \<Rightarrow> event_type \<Rightarrow> string \<Rightarrow> int \<Rightarrow> bool tx" where
  "AddEventOnce ruleID eventType message now =
    bind_tx (QueryRowContext (\<lambda>d. list_ex (\<lambda>e. ev_rule_id e = Some ruleID \<and>
        ev_type e = eventType \<and> ev_message e = message) (t_events d))) (\<lambda>exists.
    if exists then return_tx False
    else bind_tx (AddEvent (Some ruleID) eventType message now) (\<lambda>_. return_tx True))"

section \<open>Finding rules\<close>

text \<open>The inner join of rules and rule clients, in the order of the rules' identifiers.\<close>

definition rules_for_traffic :: "(RuleRow \<Rightarrow> bool) \<Rightarrow> int \<Rightarrow> Database \<Rightarrow> Rule list" where
  "rules_for_traffic p trafficID d =
    map scanRule (sort_key rr_id
      [r. r \<leftarrow> t_rules d, rc \<leftarrow> t_rule_clients d,
        rc_rule_id rc = rr_id r \<and> rc_traffic_id rc = trafficID \<and> p r])"

definition scope_of :: "Database \<Rightarrow> int \<Rightarrow> Scope option" where
  "scope_of d ruleID = first_of (filter (\<lambda>s. sc_rule_id s = ruleID) (t_scopes d))"

definition ActiveRuleForTraffic :: "int \<Rightarrow> Rule tx" where
  "ActiveRuleForTraffic trafficID =
    bind_tx (QueryRowContext (\<lambda>d. first_of (rules_for_traffic (\<lambda>r. rr_state r = StateActive) trafficID d))) found"

definition ActiveRuleForTrafficExcept :: "int \<Rightarrow> int \<Rightarrow> Rule tx" where
  "ActiveRuleForTrafficExcept trafficID exceptRuleID =
    bind_tx (QueryRowContext (\<lambda>d. first_of (rules_for_traffic
      (\<lambda>r. rr_state r = StateActive \<and> rr_id r \<noteq> exceptRuleID) trafficID d))) found"

definition ActiveScopeForTrafficExcept :: "int \<Rightarrow> int \<Rightarrow> Rule tx" where
  "ActiveScopeForTrafficExcept trafficID exceptRuleID =
    bind_tx (QueryRowContext (\<lambda>d. first_of (rules_for_traffic
      (\<lambda>r. rr_state r = StateActive \<and> rr_id r \<noteq> exceptRuleID \<and> scope_of d (rr_id r) \<noteq> None)
      trafficID d))) found"

definition RulesForTrafficInStates :: "int \<Rightarrow> rule_state list \<Rightarrow> Rule list tx" where
  "RulesForTrafficInStates trafficID states =
    (if states = [] then return_tx []
     else QueryContext (rules_for_traffic (\<lambda>r. rr_state r \<in> set states) trafficID))"

text \<open>\<open>ORDER BY r.id DESC LIMIT 2\<close>.\<close>

definition FindRuleBySelector :: "string \<Rightarrow> int option \<Rightarrow> rule_state list \<Rightarrow> Rule tx" where
  "FindRuleBySelector email inboundID states =
    (if states = [] then fail_tx ErrNotFound
     else bind_tx (QueryContext (\<lambda>d. take 2 (map scanRule (rev (sort_key rr_id
        (filter (\<lambda>r. rr_email r = email \<and> rr_state r \<in> set states \<and>
            (case inboundID of None \<Rightarrow> True | Some i \<Rightarrow> rr_inbound_id r = Some i)) (t_rules d))))))) (\<lambda>rules.
      case rules of
        [] \<Rightarrow> fail_tx ErrNotFound
      | [r] \<Rightarrow> return_tx r
      | _ \<Rightarrow> fail_tx ErrAmbiguous))"

definition GetRule :: "int \<Rightarrow> Rule tx" where
  "GetRule ruleID =
    bind_tx (QueryRowContext (\<lambda>d. map_option scanRule (first_of (filter (\<lambda>r. rr_id r = ruleID) (t_rules d))))) found"

definition ActiveConflictForRule :: "int \<Rightarrow> (Rule \<times> int) tx" where
  "ActiveConflictForRule ruleID =
    bind_tx (QueryRowContext (\<lambda>d. first_of (map (\<lambda>(r, t). (scanRule r, t))
      (sort_key (\<lambda>(r, t). (t, rr_id r))
        [(r, rc_traffic_id rc). self \<leftarrow> t_rule_clients d, rc \<leftarrow> t_rule_clients d, r \<leftarrow> t_rules d,
          rc_traffic_id rc = rc_traffic_id self \<and> rr_id r = rc_rule_id rc \<and>
          rc_rule_id self = ruleID \<and> rr_state r = StateActive \<and> rr_id r \<noteq> ruleID])))) found"

definition ListRulesInStates :: "int option \<Rightarrow> rule_state list \<Rightarrow> Rule list tx" where
  "ListRulesInStates inboundID states =
    (if states = [] then return_tx []
     else QueryContext (\<lambda>d. map (\<lambda>r. scanRuleWithScope r (scope_of d (rr_id r))) (sort_key rr_id
        (filter (\<lambda>r. rr_state r \<in> set states \<and>
            (case inboundID of None \<Rightarrow> True | Some i \<Rightarrow> rr_inbound_id r = Some i)) (t_rules d)))))"

text \<open>The inner join of scopes and rules.\<close>

definition scope_rules :: "(Scope \<Rightarrow> RuleRow \<Rightarrow> bool) \<Rightarrow> Database \<Rightarrow> ScopeRule list" where
  "scope_rules p d =
    sort_key sc_rule_id [scanScopeRule s r. s \<leftarrow> t_scopes d, r \<leftarrow> t_rules d, rr_id r = sc_rule_id s \<and> p s r]"

definition ListActivePersistentScopes :: "ScopeRule list tx" where
  "ListActivePersistentScopes =
    QueryContext (scope_rules (\<lambda>s r. rr_state r = StateActive \<and> \<not> sc_once s))"

definition FindActivePersistentScope :: "int \<Rightarrow> int option \<Rightarrow> bool \<Rightarrow> bool \<Rightarrow> ScopeRule tx" where
  "FindActivePersistentScope factorPPM inboundID limitedOnly includeDisabledClients =
    bind_tx (QueryContext (\<lambda>d. first_of (scope_rules (\<lambda>s r. rr_state r = StateActive \<and>
        rr_factor_ppm r = factorPPM \<and> \<not> sc_once s \<and> sc_limited_only s = limitedOnly \<and>
        sc_include_disabled_clients s = includeDisabledClients \<and> sc_inbound_id s = inboundID) d))) found"

definition RuleHasScope :: "int \<Rightarrow> bool tx" where
  "RuleHasScope ruleID = QueryRowContext (\<lambda>d. list_ex (\<lambda>s. sc_rule_id s = ruleID) (t_scopes d))"

section \<open>Reading rule clients\<close>

definition is_rc :: "int \<Rightarrow> int \<Rightarrow> RuleClient \<Rightarrow> bool" where
  "is_rc ruleID trafficID rc \<longleftrightarrow> rc_rule_id rc = ruleID \<and> rc_traffic_id rc = trafficID"

definition RuleClientExists :: "int \<Rightarrow> int \<Rightarrow> bool tx" where
  "RuleClientExists ruleID trafficID =
    QueryRowContext (\<lambda>d. list_ex (is_rc ruleID trafficID) (t_rule_clients d))"

definition RuleClient_tx :: "int \<Rightarrow> int \<Rightarrow> RuleClient tx" where
  "RuleClient_tx ruleID trafficID =
    bind_tx (QueryRowContext (\<lambda>d. first_of (filter (is_rc ruleID trafficID) (t_rule_clients d)))) found"

definition RuleClientsForRule :: "int \<Rightarrow> RuleClient list tx" where
  "RuleClientsForRule ruleID =
    QueryContext (\<lambda>d. sort_key rc_traffic_id (filter (\<lambda>rc. rc_rule_id rc = ruleID) (t_rule_clients d)))"

definition RuleClientCount :: "int \<Rightarrow> int tx" where
  "RuleClientCount ruleID =
    QueryRowContext (\<lambda>d. int (length (filter (\<lambda>rc. rc_rule_id rc = ruleID) (t_rule_clients d))))"

definition active_targets :: "Database \<Rightarrow> ActiveRuleClient list" where
  "active_targets d =
    sort_key (\<lambda>t. (r_id (arc_rule t), rc_traffic_id (arc_client t)))
      [\<lparr>arc_rule = scanRuleWithScope r (scope_of d (rr_id r)), arc_client = rc\<rparr>.
        r \<leftarrow> t_rules d, rc \<leftarrow> t_rule_clients d, rc_rule_id rc = rr_id r \<and> rr_state r = StateActive]"

definition ListActiveRuleClients :: "ActiveRuleClient list tx" where
  "ListActiveRuleClients = QueryContext active_targets"

section \<open>Updating rules\<close>

definition update_rule :: "int \<Rightarrow> (RuleRow \<Rightarrow> RuleRow) \<Rightarrow> unit tx" where
  "update_rule ruleID f = exec_tx (\<lambda>d. d\<lparr>t_rules := update_where (\<lambda>r. rr_id r = ruleID) f (t_rules d)\<rparr>)"

definition SetRuleDisabled :: "int \<Rightarrow> int \<Rightarrow> unit tx" where
  "SetRuleDisabled ruleID now = update_rule ruleID
    (\<lambda>r. r\<lparr>rr_state := StateDisabled, rr_updated_at := now, rr_disabled_at := Some now\<rparr>)"

definition SetRuleMerged :: "int \<Rightarrow> int \<Rightarrow> unit tx" where
  "SetRuleMerged ruleID now = update_rule ruleID
    (\<lambda>r. r\<lparr>rr_state := StateMerged, rr_updated_at := now, rr_disabled_at := Some now\<rparr>)"

definition SetRuleOrphaned :: "int \<Rightarrow> int \<Rightarrow> unit tx" where
  "SetRuleOrphaned ruleID now = update_rule ruleID
    (\<lambda>r. r\<lparr>rr_state := StateOrphaned, rr_updated_at := now, rr_disabled_at := Some now\<rparr>)"

definition SetRulePaused :: "int \<Rightarrow> int \<Rightarrow> unit tx" where
  "SetRulePaused ruleID now = update_rule ruleID
    (\<lambda>r. r\<lparr>rr_state := StatePaused, rr_updated_at := now, rr_paused_at := Some now\<rparr>)"

definition SetRuleActive :: "int \<Rightarrow> int \<Rightarrow> unit tx" where
  "SetRuleActive ruleID now = update_rule ruleID
    (\<lambda>r. r\<lparr>rr_state := StateActive, rr_updated_at := now, rr_activated_at := Some now\<rparr>)"

section \<open>Updating rule clients\<close>

definition update_rule_clients :: "(RuleClient \<Rightarrow> bool) \<Rightarrow> (RuleClient \<Rightarrow> RuleClient) \<Rightarrow> unit tx" where
  "update_rule_clients p f = exec_tx (\<lambda>d. d\<lparr>t_rule_clients := update_where p f (t_rule_clients d)\<rparr>)"

definition UpdateRuleClientBaseline :: "RuleClient \<Rightarrow> unit tx" where
  "UpdateRuleClientBaseline rc = update_rule_clients (is_rc (rc_rule_id rc) (rc_traffic_id rc))
    (\<lambda>old. old\<lparr>rc_last_up := rc_last_up rc, rc_last_down := rc_last_down rc, rc_rem_up := rc_rem_up rc,
       rc_rem_down := rc_rem_down rc, rc_missing_at := None, rc_updated_at := rc_updated_at rc\<rparr>)"

definition MarkRuleClientMissing :: "int \<Rightarrow> int \<Rightarrow> int \<Rightarrow> unit tx" where
  "MarkRuleClientMissing ruleID trafficID now = update_rule_clients (is_rc ruleID trafficID)
    (\<lambda>old. old\<lparr>rc_missing_at := (case rc_missing_at old of None \<Rightarrow> Some now | Some m \<Rightarrow> Some m),
       rc_updated_at := now\<rparr>)"

definition AdoptRuleClientInbound :: "int \<Rightarrow> int \<Rightarrow> int \<Rightarrow> int \<Rightarrow> unit tx" where
  "AdoptRuleClientInbound ruleID trafficID inboundID now = update_rule_clients (is_rc ruleID trafficID)
    (\<lambda>old. old\<lparr>rc_inbound_id := inboundID, rc_updated_at := now\<rparr>)"

text \<open>The values a refreshed baseline takes from the client's current counters.\<close>

definition refresh_row :: "int \<Rightarrow> ClientTraffic \<Rightarrow> RuleClient \<Rightarrow> RuleClient" where
  "refresh_row now c old = old\<lparr>rc_inbound_id := ct_inbound_id c, rc_last_up := ct_up c, rc_last_down := ct_down c,
     rc_rem_up := 0, rc_rem_down := 0, rc_missing_at := None, rc_updated_at := now\<rparr>"

definition RefreshActiveRuleClientBaselinesForTraffic :: "int \<Rightarrow> string \<Rightarrow> int \<Rightarrow> int tx" where
  "RefreshActiveRuleClientBaselinesForTraffic trafficID email now =
    bind_tx (ClientTrafficByID trafficID) (\<lambda>current.
    if ct_email current \<noteq> email then fail_tx ErrNotFound
    else ExecContext (\<lambda>d.
      let p = (\<lambda>rc. rc_traffic_id rc = trafficID \<and> rc_email rc = email \<and>
            list_ex (\<lambda>r. rr_id r = rc_rule_id rc \<and> rr_state r = StateActive) (t_rules d))
      in Inr (int (length (filter p (t_rule_clients d))),
         d\<lparr>t_rule_clients := update_where p (refresh_row now current) (t_rule_clients d)\<rparr>)))"

definition RefreshRuleClientBaselinesCount :: "int \<Rightarrow> int \<Rightarrow> int tx" where
  "RefreshRuleClientBaselinesCount ruleID now =
    with_driver (\<lambda>driver.
    bind_tx (QueryContext (\<lambda>d. [scan_client driver ct. rc \<leftarrow> t_rule_clients d, ct \<leftarrow> t_client_traffics d,
        tr_id ct = rc_traffic_id rc \<and> tr_email ct = rc_email rc \<and> rc_rule_id rc = ruleID])) (\<lambda>clients.
    bind_tx (for_each clients (\<lambda>c _. update_rule_clients (is_rc ruleID (ct_id c))
        (\<lambda>old. (refresh_row now c old)\<lparr>rc_email := ct_email c\<rparr>)) ()) (\<lambda>_.
    return_tx (int (length clients)))))"

definition RefreshRuleClientBaselines :: "int \<Rightarrow> int \<Rightarrow> unit tx" where
  "RefreshRuleClientBaselines ruleID now =
    bind_tx (RefreshRuleClientBaselinesCount ruleID now) (\<lambda>count.
    if count = 0 then fail_tx ErrNotFound else return_tx ())"

text \<open>
  \<open>INSERT ... SELECT\<close> of the one row with the given key, under another rule. Selecting nothing
  inserts nothing.
\<close>

definition CopyRuleClient :: "int \<Rightarrow> int \<Rightarrow> int \<Rightarrow> unit tx" where
  "CopyRuleClient fromRuleID toRuleID trafficID = ExecContext (\<lambda>d.
    case first_of (filter (is_rc fromRuleID trafficID) (t_rule_clients d)) of
      None \<Rightarrow> Inr ((), d)
    | Some rc \<Rightarrow> insert_rule_client (rc\<lparr>rc_rule_id := toRuleID\<rparr>) d)"

definition RelinkRuleClientByEmail :: "int \<Rightarrow> int \<Rightarrow> int \<Rightarrow> RuleClient tx" where
  "RelinkRuleClientByEmail ruleID trafficID now =
    bind_tx (RuleClient_tx ruleID trafficID) (\<lambda>rc.
    bind_tx (ClientTrafficByEmail (rc_email rc)) (\<lambda>current.
    bind_tx (ExecContext (\<lambda>d.
      let p = (\<lambda>old. is_rc ruleID trafficID old \<and> \<not> list_ex (is_rc ruleID (ct_id current)) (t_rule_clients d))
      in Inr (length (filter p (t_rule_clients d)),
         d\<lparr>t_rule_clients := update_where p
             (\<lambda>old. (refresh_row now current old)\<lparr>rc_traffic_id := ct_id current\<rparr>) (t_rule_clients d)\<rparr>))) (\<lambda>affected.
    if affected \<noteq> 1 then fail_tx ErrConflict
    else RuleClient_tx ruleID (ct_id current))))"

definition ConflictError :: "string \<Rightarrow> error" where
  "ConflictError msg = ErrWrap [] ErrConflict ('': '' @ msg)"

section \<open>What the statements leave alone\<close>

text \<open>
  A view \<open>k\<close> of the database that ignores the table a statement writes is kept by that statement.
\<close>

lemma keeps_insertReturningID [keeps_intro]:
  "(\<And>d x d'. f d = Inr (x, d') \<Longrightarrow> k d' = k d) \<Longrightarrow> keeps k (insertReturningID f)"
  unfolding insertReturningID_def by (intro keeps_intro keeps_statement) auto

lemma rule_readers_keep [keeps_intro]:
  "keeps k (ActiveRuleForTraffic t)" "keeps k (ActiveRuleForTrafficExcept t r)"
  "keeps k (ActiveScopeForTrafficExcept t r)" "keeps k (RulesForTrafficInStates t ss)"
  "keeps k (FindRuleBySelector e i ss)" "keeps k (GetRule r)" "keeps k (ActiveConflictForRule r)"
  "keeps k (ListRulesInStates i ss)" "keeps k ListActivePersistentScopes"
  "keeps k (FindActivePersistentScope p i l b)" "keeps k (RuleHasScope r)" "keeps k (RuleClientExists r t)"
  "keeps k (RuleClient_tx r t)" "keeps k (RuleClientsForRule r)" "keeps k (RuleClientCount r)"
  "keeps k ListActiveRuleClients"
  unfolding ActiveRuleForTraffic_def ActiveRuleForTrafficExcept_def ActiveScopeForTrafficExcept_def
    RulesForTrafficInStates_def FindRuleBySelector_def GetRule_def ActiveConflictForRule_def
    ListRulesInStates_def ListActivePersistentScopes_def FindActivePersistentScope_def RuleHasScope_def
    RuleClientExists_def RuleClient_tx_def RuleClientsForRule_def RuleClientCount_def ListActiveRuleClients_def
  by (intro keeps_intro)+

lemma keeps_events [keeps_intro]:
  assumes "\<And>d s. k (d\<lparr>t_seq_events := s\<rparr>) = k d" and "\<And>d v. k (d\<lparr>t_events := v\<rparr>) = k d"
  shows "keeps k (AddEvent r e m now)" "keeps k (AddEventOnce r' e m now)"
  unfolding AddEvent_def AddEventOnce_def insert_event_def Let_def by (intro keeps_intro; simp add: assms)+

lemma keeps_rules [keeps_intro]:
  assumes "\<And>d v. k (d\<lparr>t_rules := v\<rparr>) = k d"
  shows "keeps k (SetRuleDisabled r now)" "keeps k (SetRuleMerged r now)" "keeps k (SetRuleOrphaned r now)"
    "keeps k (SetRulePaused r now)" "keeps k (SetRuleActive r now)"
  unfolding SetRuleDisabled_def SetRuleMerged_def SetRuleOrphaned_def SetRulePaused_def SetRuleActive_def update_rule_def
  by (intro keeps_intro; simp add: assms)+

lemma keeps_CreateRule [keeps_intro]:
  "(\<And>d s. k (d\<lparr>t_seq_rules := s\<rparr>) = k d) \<Longrightarrow> (\<And>d v. k (d\<lparr>t_rules := v\<rparr>) = k d) \<Longrightarrow>
    keeps k (CreateRule r)"
  unfolding CreateRule_def by (intro keeps_intro) (auto simp: insert_rule_def Let_def)

lemma keeps_CreateScope [keeps_intro]:
  "(\<And>d v. k (d\<lparr>t_scopes := v\<rparr>) = k d) \<Longrightarrow> keeps k (CreateScope s)"
  unfolding CreateScope_def by (intro keeps_intro) (auto split: if_splits)

lemma insert_rule_client_db: "insert_rule_client rc d = Inr (x, d') \<Longrightarrow> \<exists>v. d' = d\<lparr>t_rule_clients := v\<rparr>"
  by (auto simp: insert_rule_client_def split: if_splits)

lemma keeps_rule_clients [keeps_intro]:
  assumes "\<And>d v. k (d\<lparr>t_rule_clients := v\<rparr>) = k d"
  shows "keeps k (CreateRuleClient rc)" "keeps k (UpdateRuleClientBaseline rc)"
    "keeps k (MarkRuleClientMissing r t now)" "keeps k (AdoptRuleClientInbound r t i now)"
    "keeps k (RefreshActiveRuleClientBaselinesForTraffic t e now)" "keeps k (RefreshRuleClientBaselinesCount r now)"
    "keeps k (RefreshRuleClientBaselines r now)" "keeps k (CopyRuleClient r r' t)"
    "keeps k (RelinkRuleClientByEmail r t now)"
  unfolding CreateRuleClient_def UpdateRuleClientBaseline_def MarkRuleClientMissing_def AdoptRuleClientInbound_def
    RefreshActiveRuleClientBaselinesForTraffic_def RefreshRuleClientBaselines_def RefreshRuleClientBaselinesCount_def CopyRuleClient_def
    RelinkRuleClientByEmail_def update_rule_clients_def
  by (intro keeps_intro; (auto simp: assms Let_def split: option.splits dest!: insert_rule_client_db)?)+

section \<open>Evaluation\<close>

lemma update_rule_clients_run [tx_simps]:
  "healthy w \<Longrightarrow> update_rule_clients p f w =
    (Inr (), w\<lparr>w_db := (w_db w)\<lparr>t_rule_clients := update_where p f (t_rule_clients (w_db w))\<rparr>\<rparr>)"
  by (simp add: update_rule_clients_def tx_simps)

lemma AddEvent_run [tx_simps]:
  "healthy w \<Longrightarrow> AddEvent r e m now w = (Inr (), w\<lparr>w_db := insert_event r e m now (w_db w)\<rparr>)"
  by (simp add: AddEvent_def tx_simps)

lemma insert_event_simps [simp]:
  "t_client_traffics (insert_event r e m now d) = t_client_traffics d"
  "t_rule_clients (insert_event r e m now d) = t_rule_clients d"
  "t_rules (insert_event r e m now d) = t_rules d" "t_scopes (insert_event r e m now d) = t_scopes d"
  "t_excludes (insert_event r e m now d) = t_excludes d" "t_overrides (insert_event r e m now d) = t_overrides d"
  "t_clients (insert_event r e m now d) = t_clients d" "t_meta (insert_event r e m now d) = t_meta d"
  "t_client_inbounds (insert_event r e m now d) = t_client_inbounds d"
  "t_tables (insert_event r e m now d) = t_tables d" "t_nodes (insert_event r e m now d) = t_nodes d"
  "t_client_global_traffics (insert_event r e m now d) = t_client_global_traffics d"
  by (simp_all add: insert_event_def Let_def)

end
