(* ===== verification/XF_Policies.thy ===== *)
theory XF_Policies
  imports XF_Rules
begin

text \<open>
  \<open>store/excludes.go\<close> and \<open>store/overrides.go\<close>: the two policy tables. Each row has an identifier and a
  unique (traffic, inbound, email) tuple; a statement whose result would break that constraint is
  refused. The two tables follow the same protocol, stated once as the locale \<open>policy_table\<close>.
\<close>

section \<open>Excludes\<close>

text \<open>\<open>ORDER BY id DESC LIMIT 1\<close>.\<close>

definition newest :: "('p \<Rightarrow> int) \<Rightarrow> ('p \<Rightarrow> bool) \<Rightarrow> 'p list \<Rightarrow> 'p option" where
  "newest ident p rows = first_of (rev (sort_key ident (filter p rows)))"

definition ep_tuple :: "ExcludePolicy \<Rightarrow> int \<times> int \<times> string" where
  "ep_tuple p = (ep_traffic_id p, ep_inbound_id p, ep_email p)"

definition write_excludes :: "ExcludePolicy list \<Rightarrow> Database \<Rightarrow> string + unit \<times> Database" where
  "write_excludes rows d =
    (if distinct (map ep_tuple rows) then Inr ((), d\<lparr>t_excludes := rows\<rparr>)
     else Inl (unique_violation ''xui_factor_excludes.traffic_id, xui_factor_excludes.inbound_id, xui_factor_excludes.email''))"

definition insert_exclude :: "ExcludePolicy \<Rightarrow> Database \<Rightarrow> string + int \<times> Database" where
  "insert_exclude p d =
    (let newID = t_seq_excludes d + 1 in
     case write_excludes (t_excludes d @ [p\<lparr>ep_id := newID\<rparr>]) d of
       Inl t \<Rightarrow> Inl t
     | Inr (_, d') \<Rightarrow> Inr (newID, d'\<lparr>t_seq_excludes := newID\<rparr>))"

definition update_exclude :: "int \<Rightarrow> (ExcludePolicy \<Rightarrow> ExcludePolicy) \<Rightarrow> unit tx" where
  "update_exclude policyID f =
    ExecContext (\<lambda>d. write_excludes (update_where (\<lambda>p. ep_id p = policyID) f (t_excludes d)) d)"

definition find_exclude :: "(ExcludePolicy \<Rightarrow> bool) \<Rightarrow> ExcludePolicy tx" where
  "find_exclude p = bind_tx (QueryRowContext (\<lambda>d. newest ep_id p (t_excludes d))) found"

definition FindActiveExcludeForClient :: "int \<Rightarrow> string \<Rightarrow> ExcludePolicy tx" where
  "FindActiveExcludeForClient trafficID email =
    find_exclude (\<lambda>p. ep_traffic_id p = trafficID \<and> ep_email p = email \<and> ep_state p = StateActive)"

definition FindExcludeForClient :: "int \<Rightarrow> string \<Rightarrow> ExcludePolicy tx" where
  "FindExcludeForClient trafficID email =
    find_exclude (\<lambda>p. ep_traffic_id p = trafficID \<and> ep_email p = email)"

definition FindExcludeByEmail :: "string \<Rightarrow> ExcludePolicy tx" where
  "FindExcludeByEmail email = find_exclude (\<lambda>p. ep_email p = email)"

definition FindActiveExcludeByEmail :: "string \<Rightarrow> ExcludePolicy tx" where
  "FindActiveExcludeByEmail email = find_exclude (\<lambda>p. ep_email p = email \<and> ep_state p = StateActive)"

definition FindExcludeByID :: "int \<Rightarrow> ExcludePolicy tx" where
  "FindExcludeByID policyID =
    bind_tx (QueryRowContext (\<lambda>d. first_of (filter (\<lambda>p. ep_id p = policyID) (t_excludes d)))) found"

definition findExcludeForUpsert :: "int \<Rightarrow> string \<Rightarrow> ExcludePolicy option tx" where
  "findExcludeForUpsert trafficID email =
    attempt (FindActiveExcludeForClient trafficID email) (\<lambda>r.
    case r of
      Inr existing \<Rightarrow> return_tx (Some existing)
    | Inl err \<Rightarrow> if \<not> errors_is err ErrNotFound then fail_tx err else
        attempt (FindExcludeForClient trafficID email) (\<lambda>r.
        case r of
          Inr existing \<Rightarrow> return_tx (Some existing)
        | Inl err \<Rightarrow> if \<not> errors_is err ErrNotFound then fail_tx err else
            attempt (FindExcludeByEmail email) (\<lambda>r.
            case r of
              Inr existing \<Rightarrow> return_tx (Some existing)
            | Inl err \<Rightarrow> if errors_is err ErrNotFound then return_tx None else fail_tx err)))"

definition UpsertExclude :: "ExcludePolicy \<Rightarrow> ExcludePolicy tx" where
  "UpsertExclude policy =
    bind_tx (findExcludeForUpsert (ep_traffic_id policy) (ep_email policy)) (\<lambda>existing.
    let note = trim_space (ep_note policy) in
    case existing of
      None \<Rightarrow>
        bind_tx (insertReturningID (insert_exclude
          (policy\<lparr>ep_state := StateActive, ep_note := note, ep_disabled_at := None\<rparr>))) FindExcludeByID
    | Some row \<Rightarrow>
        bind_tx (update_exclude (ep_id row) (\<lambda>p. p\<lparr>ep_traffic_id := ep_traffic_id policy,
            ep_inbound_id := ep_inbound_id policy, ep_state := StateActive, ep_note := note,
            ep_updated_at := ep_updated_at policy, ep_activated_at := ep_activated_at policy,
            ep_disabled_at := None\<rparr>)) (\<lambda>_.
        FindExcludeByID (ep_id row)))"

definition DisableExclude :: "int \<Rightarrow> int \<Rightarrow> unit tx" where
  "DisableExclude policyID now = update_exclude policyID
    (\<lambda>p. p\<lparr>ep_state := StateDisabled, ep_updated_at := now, ep_disabled_at := Some now\<rparr>)"

definition RelinkExcludeRow :: "ExcludePolicy \<Rightarrow> ClientTraffic \<Rightarrow> int \<Rightarrow> unit tx" where
  "RelinkExcludeRow policy current now =
    bind_tx (QueryRowContext (\<lambda>d. newest ep_id (\<lambda>p. ep_traffic_id p = ct_id current \<and>
        ep_inbound_id p = ct_inbound_id current \<and> ep_email p = ep_email policy \<and>
        ep_id p \<noteq> ep_id policy) (t_excludes d))) (\<lambda>occupant.
    case occupant of
      None \<Rightarrow> update_exclude (ep_id policy) (\<lambda>p. p\<lparr>ep_traffic_id := ct_id current,
          ep_inbound_id := ct_inbound_id current, ep_updated_at := now\<rparr>)
    | Some occ \<Rightarrow>
        bind_tx (if ep_state occ \<noteq> StateActive
            then update_exclude (ep_id occ) (\<lambda>p. p\<lparr>ep_state := StateActive, ep_note := ep_note policy,
                ep_activated_at := ep_activated_at policy, ep_updated_at := now\<rparr>)
            else return_tx ()) (\<lambda>_.
        DisableExclude (ep_id policy) now))"

definition active_excludes :: "Database \<Rightarrow> ExcludePolicy list" where
  "active_excludes d = sort_key (\<lambda>p. (ep_inbound_id p, ep_email p, ep_traffic_id p))
     (filter (\<lambda>p. ep_state p = StateActive) (t_excludes d))"

definition ListActiveExcludes :: "ExcludePolicy list tx" where
  "ListActiveExcludes = QueryContext active_excludes"

section \<open>Overrides\<close>

definition op_tuple :: "OverridePolicy \<Rightarrow> int \<times> int \<times> string" where
  "op_tuple p = (op_traffic_id p, op_inbound_id p, op_email p)"

definition write_overrides :: "OverridePolicy list \<Rightarrow> Database \<Rightarrow> string + unit \<times> Database" where
  "write_overrides rows d =
    (if distinct (map op_tuple rows) then Inr ((), d\<lparr>t_overrides := rows\<rparr>)
     else Inl (unique_violation ''xui_factor_overrides.traffic_id, xui_factor_overrides.inbound_id, xui_factor_overrides.email''))"

definition insert_override :: "OverridePolicy \<Rightarrow> Database \<Rightarrow> string + int \<times> Database" where
  "insert_override p d =
    (let newID = t_seq_overrides d + 1 in
     case write_overrides (t_overrides d @ [p\<lparr>op_id := newID\<rparr>]) d of
       Inl t \<Rightarrow> Inl t
     | Inr (_, d') \<Rightarrow> Inr (newID, d'\<lparr>t_seq_overrides := newID\<rparr>))"

definition update_override :: "int \<Rightarrow> (OverridePolicy \<Rightarrow> OverridePolicy) \<Rightarrow> unit tx" where
  "update_override policyID f =
    ExecContext (\<lambda>d. write_overrides (update_where (\<lambda>p. op_id p = policyID) f (t_overrides d)) d)"

definition find_override :: "(OverridePolicy \<Rightarrow> bool) \<Rightarrow> OverridePolicy tx" where
  "find_override p = bind_tx (QueryRowContext (\<lambda>d. newest op_id p (t_overrides d))) found"

definition FindActiveOverrideForClient :: "int \<Rightarrow> string \<Rightarrow> OverridePolicy tx" where
  "FindActiveOverrideForClient trafficID email =
    find_override (\<lambda>p. op_traffic_id p = trafficID \<and> op_email p = email \<and> op_state p = StateActive)"

definition FindOverrideForClient :: "int \<Rightarrow> string \<Rightarrow> OverridePolicy tx" where
  "FindOverrideForClient trafficID email =
    find_override (\<lambda>p. op_traffic_id p = trafficID \<and> op_email p = email)"

definition FindOverrideByEmail :: "string \<Rightarrow> OverridePolicy tx" where
  "FindOverrideByEmail email = find_override (\<lambda>p. op_email p = email)"

definition FindActiveOverrideByEmail :: "string \<Rightarrow> OverridePolicy tx" where
  "FindActiveOverrideByEmail email = find_override (\<lambda>p. op_email p = email \<and> op_state p = StateActive)"

definition FindOverrideByID :: "int \<Rightarrow> OverridePolicy tx" where
  "FindOverrideByID policyID =
    bind_tx (QueryRowContext (\<lambda>d. first_of (filter (\<lambda>p. op_id p = policyID) (t_overrides d)))) found"

definition findOverrideForUpsert :: "int \<Rightarrow> string \<Rightarrow> OverridePolicy option tx" where
  "findOverrideForUpsert trafficID email =
    attempt (FindActiveOverrideForClient trafficID email) (\<lambda>r.
    case r of
      Inr existing \<Rightarrow> return_tx (Some existing)
    | Inl err \<Rightarrow> if \<not> errors_is err ErrNotFound then fail_tx err else
        attempt (FindOverrideForClient trafficID email) (\<lambda>r.
        case r of
          Inr existing \<Rightarrow> return_tx (Some existing)
        | Inl err \<Rightarrow> if \<not> errors_is err ErrNotFound then fail_tx err else
            attempt (FindOverrideByEmail email) (\<lambda>r.
            case r of
              Inr existing \<Rightarrow> return_tx (Some existing)
            | Inl err \<Rightarrow> if errors_is err ErrNotFound then return_tx None else fail_tx err)))"

text \<open>The boolean reports whether an already active override changed.\<close>

definition UpsertOverride :: "OverridePolicy \<Rightarrow> (OverridePolicy \<times> bool) tx" where
  "UpsertOverride policy =
    bind_tx (findOverrideForUpsert (op_traffic_id policy) (op_email policy)) (\<lambda>existing.
    let note = trim_space (op_note policy) in
    case existing of
      None \<Rightarrow>
        bind_tx (insertReturningID (insert_override
          (policy\<lparr>op_state := StateActive, op_note := note, op_disabled_at := None\<rparr>))) (\<lambda>newID.
        bind_tx (FindOverrideByID newID) (\<lambda>created. return_tx (created, False)))
    | Some row \<Rightarrow>
        let changed = (op_state row = StateActive \<and>
              (op_factor_ppm row \<noteq> op_factor_ppm policy \<or> trim_space (op_note row) \<noteq> note)) in
        bind_tx (update_override (op_id row) (\<lambda>p. p\<lparr>op_traffic_id := op_traffic_id policy,
            op_inbound_id := op_inbound_id policy, op_factor_ppm := op_factor_ppm policy,
            op_state := StateActive, op_note := note, op_updated_at := op_updated_at policy,
            op_activated_at := op_activated_at policy, op_disabled_at := None\<rparr>)) (\<lambda>_.
        bind_tx (FindOverrideByID (op_id row)) (\<lambda>updated. return_tx (updated, changed))))"

definition DisableOverride :: "int \<Rightarrow> int \<Rightarrow> unit tx" where
  "DisableOverride policyID now = update_override policyID
    (\<lambda>p. p\<lparr>op_state := StateDisabled, op_updated_at := now, op_disabled_at := Some now\<rparr>)"

definition RelinkOverrideRow :: "OverridePolicy \<Rightarrow> ClientTraffic \<Rightarrow> int \<Rightarrow> unit tx" where
  "RelinkOverrideRow policy current now =
    bind_tx (QueryRowContext (\<lambda>d. newest op_id (\<lambda>p. op_traffic_id p = ct_id current \<and>
        op_inbound_id p = ct_inbound_id current \<and> op_email p = op_email policy \<and>
        op_id p \<noteq> op_id policy) (t_overrides d))) (\<lambda>occupant.
    case occupant of
      None \<Rightarrow> update_override (op_id policy) (\<lambda>p. p\<lparr>op_traffic_id := ct_id current,
          op_inbound_id := ct_inbound_id current, op_updated_at := now\<rparr>)
    | Some occ \<Rightarrow>
        bind_tx (if op_state occ \<noteq> StateActive
            then update_override (op_id occ) (\<lambda>p. p\<lparr>op_state := StateActive,
                op_factor_ppm := op_factor_ppm policy, op_note := op_note policy,
                op_activated_at := op_activated_at policy, op_updated_at := now\<rparr>)
            else return_tx ()) (\<lambda>_.
        DisableOverride (op_id policy) now))"

definition active_overrides :: "Database \<Rightarrow> OverridePolicy list" where
  "active_overrides d = sort_key (\<lambda>p. (op_inbound_id p, op_email p, op_traffic_id p))
     (filter (\<lambda>p. op_state p = StateActive) (t_overrides d))"

definition ListActiveOverrides :: "OverridePolicy list tx" where
  "ListActiveOverrides = QueryContext active_overrides"

section \<open>What the statements leave alone\<close>

lemma keeps_excludes [keeps_intro]:
  assumes "\<And>d s. k (d\<lparr>t_seq_excludes := s\<rparr>) = k d" and "\<And>d v. k (d\<lparr>t_excludes := v\<rparr>) = k d"
  shows "keeps k (find_exclude q)" "keeps k (insertReturningID (insert_exclude p))" "keeps k (update_exclude i f)"
  unfolding find_exclude_def update_exclude_def
  by (intro keeps_intro; auto simp: assms insert_exclude_def write_excludes_def Let_def split: if_splits sum.splits)+

lemma keeps_overrides [keeps_intro]:
  assumes "\<And>d s. k (d\<lparr>t_seq_overrides := s\<rparr>) = k d" and "\<And>d v. k (d\<lparr>t_overrides := v\<rparr>) = k d"
  shows "keeps k (find_override q)" "keeps k (insertReturningID (insert_override p))" "keeps k (update_override i f)"
  unfolding find_override_def update_override_def
  by (intro keeps_intro; auto simp: assms insert_override_def write_overrides_def Let_def split: if_splits sum.splits)+

lemma exclude_finders_keep [keeps_intro]:
  "keeps k (FindActiveExcludeForClient t e)" "keeps k (FindExcludeForClient t e)" "keeps k (FindExcludeByEmail e)"
  "keeps k (FindActiveExcludeByEmail e)" "keeps k (findExcludeForUpsert t e)" "keeps k ListActiveExcludes"
  "keeps k (FindExcludeByID i)"
  unfolding FindActiveExcludeForClient_def FindExcludeForClient_def FindExcludeByEmail_def findExcludeForUpsert_def
    FindActiveExcludeByEmail_def ListActiveExcludes_def find_exclude_def
    FindExcludeByID_def
  by (intro keeps_intro)+

lemma override_finders_keep [keeps_intro]:
  "keeps k (FindActiveOverrideForClient t e)" "keeps k (FindOverrideForClient t e)" "keeps k (FindOverrideByEmail e)"
  "keeps k (FindActiveOverrideByEmail e)" "keeps k (findOverrideForUpsert t e)" "keeps k ListActiveOverrides"
  "keeps k (FindOverrideByID i)"
  unfolding FindActiveOverrideForClient_def FindOverrideForClient_def FindOverrideByEmail_def findOverrideForUpsert_def
    FindActiveOverrideByEmail_def ListActiveOverrides_def find_override_def
    FindOverrideByID_def
  by (intro keeps_intro)+

lemma keeps_exclude_writers [keeps_intro]:
  assumes "\<And>d s. k (d\<lparr>t_seq_excludes := s\<rparr>) = k d" and "\<And>d v. k (d\<lparr>t_excludes := v\<rparr>) = k d"
  shows "keeps k (UpsertExclude p)" "keeps k (DisableExclude i now)" "keeps k (RelinkExcludeRow p c now)"
  unfolding UpsertExclude_def DisableExclude_def RelinkExcludeRow_def by (intro keeps_intro assms)+

lemma keeps_override_writers [keeps_intro]:
  assumes "\<And>d s. k (d\<lparr>t_seq_overrides := s\<rparr>) = k d" and "\<And>d v. k (d\<lparr>t_overrides := v\<rparr>) = k d"
  shows "keeps k (UpsertOverride q)" "keeps k (DisableOverride i now)" "keeps k (RelinkOverrideRow q c now)"
  unfolding UpsertOverride_def DisableOverride_def RelinkOverrideRow_def by (intro keeps_intro assms)+


section \<open>One row per client\<close>

text \<open>
  What the commands rely on: a lookup for an upsert writes nothing and misses only when no row has the
  e-mail, an insert adds one row, and an update of a row keeps its e-mail. Then an upsert never gives
  a client a second row, which the tables' own constraint, with the inbound in its key, would allow.
\<close>

locale policy_table =
  fixes rows :: "Database \<Rightarrow> 'p list" and mail :: "'p \<Rightarrow> string"
    and lookup :: "int \<Rightarrow> string \<Rightarrow> 'p option tx" and insert_row :: "'p \<Rightarrow> int tx"
    and update_row :: "int \<Rightarrow> ('p \<Rightarrow> 'p) \<Rightarrow> unit tx"
  assumes lookup_reads: "keeps (\<lambda>d. d) (lookup t e)"
    and lookup_misses: "lookup t e w = (Inr None, w') \<Longrightarrow> p \<in> set (rows (w_db w)) \<Longrightarrow> mail p \<noteq> e"
    and insert_adds: "insert_row p w = (r, w') \<Longrightarrow>
      rows (w_db w') = rows (w_db w) \<or> map mail (rows (w_db w')) = map mail (rows (w_db w)) @ [mail p]"
    and update_keeps_mail: "(\<And>p. mail (f p) = mail p) \<Longrightarrow> keeps (\<lambda>d. map mail (rows d)) (update_row i f)"
begin

definition one_each :: "Database \<Rightarrow> bool" where
  "one_each d \<longleftrightarrow> distinct (map mail (rows d))"

lemma update_keeps_one_each:
  "(\<And>p. mail (f p) = mail p) \<Longrightarrow> update_row i f w = (r, w') \<Longrightarrow> one_each (w_db w') = one_each (w_db w)"
  unfolding one_each_def by (metis update_keeps_mail keepsD)

lemma upsert_keeps_one_each:
  assumes "mail p = e" and "\<And>i. keeps rows (created i)" and "\<And>row. preserves one_each (existing row)"
  shows "preserves one_each (bind_tx (lookup t e) (\<lambda>r. case r of None \<Rightarrow> bind_tx (insert_row p) created | Some row \<Rightarrow> existing row))"
proof (rule preservesI)
  fix w r w'
  assume one: "one_each (w_db w)"
    and run: "bind_tx (lookup t e) (\<lambda>r. case r of None \<Rightarrow> bind_tx (insert_row p) created | Some row \<Rightarrow> existing row) w = (r, w')"
  obtain found w1 where look: "lookup t e w = (found, w1)" by fastforce
  then have same: "w_db w1 = w_db w" by (rule keepsD [OF lookup_reads])
  show "one_each (w_db w')"
  proof (cases found)
    case (Inl err)
    with run look same one show ?thesis by (simp add: bind_tx_def)
  next
    case (Inr row)
    show ?thesis
    proof (cases row)
      case None
      obtain r2 w2 where ins: "insert_row p w1 = (r2, w2)" by fastforce
      have "one_each (w_db w2)"
        using insert_adds [OF ins] one lookup_misses [of t e w w1] look Inr None same assms(1)
        by (fastforce simp: one_each_def)
      moreover have "rows (w_db w') = rows (w_db w2)"
        using run look Inr None ins by (cases r2) (auto simp: bind_tx_def dest: keepsD [OF assms(2)])
      ultimately show ?thesis by (simp add: one_each_def)
    next
      case (Some x)
      with run look Inr have "existing x w1 = (r, w')" by (simp add: bind_tx_def)
      from preservesD [OF assms(3) _ this] one same show ?thesis by simp
    qed
  qed
qed

end

lemma newest_None: "newest ident p rows = None \<longleftrightarrow> (\<forall>r \<in> set rows. \<not> p r)"
proof -
  have "newest ident p rows = None \<longleftrightarrow> sort_key ident (filter p rows) = []" by (simp add: newest_def)
  also have "\<dots> \<longleftrightarrow> filter p rows = []" by (metis length_0_conv length_sort)
  finally show ?thesis by (simp add: filter_empty_conv)
qed

lemma statement_cases:
  "statement wrap f w = (r, w') \<Longrightarrow> w_db w' = w_db w \<or> (\<exists>x d. f (w_db w) = Inr (x, d) \<and> w_db w' = d)"
  by (auto simp: statement_def refuse_def Let_def split: if_splits list.splits option.splits sum.splits)

text \<open>A statement that can only answer with an error of the driver never says \<open>ErrNotFound\<close>.\<close>

lemma query_row_error: "QueryRowContext q w = (Inl e, w') \<Longrightarrow> \<not> errors_is e ErrNotFound"
  by (auto simp: QueryRowContext_def statement_def refuse_def Let_def split: if_splits list.splits option.splits)

lemma find_row_misses:
  assumes "bind_tx (QueryRowContext q) found w = (Inl e, w')" and "errors_is e ErrNotFound"
  shows "q (w_db w) = None \<and> w_db w' = w_db w"
  using assms query_row_error
  by (auto simp: bind_tx_def found_def split: prod.splits sum.splits option.splits dest!: query_row_Inr)

text \<open>The three stages of a lookup: the next one is tried when a row is not found.\<close>

lemma lookup_falls_back:
  "attempt m (\<lambda>r. case r of Inr x \<Rightarrow> return_tx (Some x)
      | Inl err \<Rightarrow> if \<not> errors_is err ErrNotFound then fail_tx err else k) w = (Inr None, w') \<Longrightarrow>
    \<exists>err w1. m w = (Inl err, w1) \<and> k w1 = (Inr None, w')"
  by (auto simp: attempt_def split: prod.splits sum.splits if_splits)

lemma lookup_ends:
  "attempt m (\<lambda>r. case r of Inr x \<Rightarrow> return_tx (Some x)
      | Inl err \<Rightarrow> if errors_is err ErrNotFound then return_tx None else fail_tx err) w = (Inr None, w') \<Longrightarrow>
    \<exists>err. m w = (Inl err, w') \<and> errors_is err ErrNotFound"
  by (auto simp: attempt_def split: prod.splits sum.splits if_splits)

lemma insert_exclude_adds:
  "insert_exclude p d = Inr (x, d') \<Longrightarrow> map ep_email (t_excludes d') = map ep_email (t_excludes d) @ [ep_email p]"
  by (auto simp: insert_exclude_def write_excludes_def Let_def split: if_splits sum.splits)

interpretation excludes: policy_table t_excludes ep_email findExcludeForUpsert
  "\<lambda>p. insertReturningID (insert_exclude p)" update_exclude
proof
  fix t :: int and e :: string and w w' p
  show "keeps (\<lambda>d. d) (findExcludeForUpsert t e)" by (rule exclude_finders_keep)
  assume miss: "findExcludeForUpsert t e w = (Inr None, w')" and p: "p \<in> set (t_excludes (w_db w))"
  from miss obtain w1 w2 e1 e2 err where m: "FindActiveExcludeForClient t e w = (Inl e1, w1)"
    "FindExcludeForClient t e w1 = (Inl e2, w2)" "FindExcludeByEmail e w2 = (Inl err, w')" "errors_is err ErrNotFound"
    unfolding findExcludeForUpsert_def by (auto dest!: lookup_falls_back lookup_ends)
  then have "w_db w2 = w_db w"
    using keepsD [of "\<lambda>d. d", OF exclude_finders_keep(1)] keepsD [of "\<lambda>d. d", OF exclude_finders_keep(2)] by metis
  with p find_row_misses [OF m(3) [unfolded FindExcludeByEmail_def find_exclude_def] m(4)] show "ep_email p \<noteq> e"
    by (auto simp: newest_None)
next
  fix p w r w'
  show "insertReturningID (insert_exclude p) w = (r, w') \<Longrightarrow> t_excludes (w_db w') = t_excludes (w_db w) \<or>
      map ep_email (t_excludes (w_db w')) = map ep_email (t_excludes (w_db w)) @ [ep_email p]"
    by (auto simp: insertReturningID_def with_driver_def ExecContext_def split: if_splits
        dest!: statement_cases dest: insert_exclude_adds)
next
  fix f :: "ExcludePolicy \<Rightarrow> ExcludePolicy" and i
  assume "\<And>p. ep_email (f p) = ep_email p"
  then show "keeps (\<lambda>d. map ep_email (t_excludes d)) (update_exclude i f)"
    unfolding update_exclude_def
    by (intro keeps_intro) (auto simp: write_excludes_def split: if_splits simp: map_update_where_keep)
qed


lemma insert_override_adds:
  "insert_override p d = Inr (x, d') \<Longrightarrow> map op_email (t_overrides d') = map op_email (t_overrides d) @ [op_email p]"
  by (auto simp: insert_override_def write_overrides_def Let_def split: if_splits sum.splits)

interpretation overrides: policy_table t_overrides op_email findOverrideForUpsert
  "\<lambda>p. insertReturningID (insert_override p)" update_override
proof
  fix t :: int and e :: string and w w' p
  show "keeps (\<lambda>d. d) (findOverrideForUpsert t e)" by (rule override_finders_keep)
  assume miss: "findOverrideForUpsert t e w = (Inr None, w')" and p: "p \<in> set (t_overrides (w_db w))"
  from miss obtain w1 w2 e1 e2 err where m: "FindActiveOverrideForClient t e w = (Inl e1, w1)"
    "FindOverrideForClient t e w1 = (Inl e2, w2)" "FindOverrideByEmail e w2 = (Inl err, w')" "errors_is err ErrNotFound"
    unfolding findOverrideForUpsert_def by (auto dest!: lookup_falls_back lookup_ends)
  then have "w_db w2 = w_db w"
    using keepsD [of "\<lambda>d. d", OF override_finders_keep(1)] keepsD [of "\<lambda>d. d", OF override_finders_keep(2)] by metis
  with p find_row_misses [OF m(3) [unfolded FindOverrideByEmail_def find_override_def] m(4)] show "op_email p \<noteq> e"
    by (auto simp: newest_None)
next
  fix p w r w'
  show "insertReturningID (insert_override p) w = (r, w') \<Longrightarrow> t_overrides (w_db w') = t_overrides (w_db w) \<or>
      map op_email (t_overrides (w_db w')) = map op_email (t_overrides (w_db w)) @ [op_email p]"
    by (auto simp: insertReturningID_def with_driver_def ExecContext_def split: if_splits
        dest!: statement_cases dest: insert_override_adds)
next
  fix f :: "OverridePolicy \<Rightarrow> OverridePolicy" and i
  assume "\<And>p. op_email (f p) = op_email p"
  then show "keeps (\<lambda>d. map op_email (t_overrides d)) (update_override i f)"
    unfolding update_override_def
    by (intro keeps_intro) (auto simp: write_overrides_def split: if_splits simp: map_update_where_keep)
qed

text \<open>So the two upserts keep their table at one row per e-mail.\<close>

lemma preserves_bind: "preserves P m \<Longrightarrow> (\<And>x. preserves P (f x)) \<Longrightarrow> preserves P (bind_tx m f)"
  unfolding preserves_def by (rule triple_bind)

lemma preserves_keeps: "keeps k m \<Longrightarrow> (\<And>d d'. k d' = k d \<Longrightarrow> P d' = P d) \<Longrightarrow> preserves P m"
proof (rule preservesI)
  fix w r w'
  assume "keeps k m" and P: "\<And>d d'. k d' = k d \<Longrightarrow> P d' = P d" and "P (w_db w)" and "m w = (r, w')"
  then have "P (w_db w') = P (w_db w)" by (intro P) (rule keepsD)
  with \<open>P (w_db w)\<close> show "P (w_db w')" by simp
qed

lemma upsert_exclude_one_each: "preserves excludes.one_each (UpsertExclude policy)"
proof -
  have existing: "preserves excludes.one_each (bind_tx (update_exclude j f) (\<lambda>_. FindExcludeByID i))"
    if "\<And>p. ep_email (f p) = ep_email p" for j f i
    by (intro preserves_bind preserves_keeps [OF excludes.update_keeps_mail] that
        preserves_keeps [OF exclude_finders_keep(7) [where k = t_excludes]]) (simp_all add: excludes.one_each_def)
  show ?thesis
    unfolding UpsertExclude_def Let_def
    by (rule excludes.upsert_keeps_one_each) (simp_all add: existing exclude_finders_keep)
qed

lemma upsert_override_one_each: "preserves overrides.one_each (UpsertOverride policy)"
proof -
  have existing: "preserves overrides.one_each (bind_tx (update_override j f) (\<lambda>_. bind_tx (FindOverrideByID i) (\<lambda>u. return_tx (u, b))))"
    if "\<And>p. op_email (f p) = op_email p" for j f i b
    by (intro preserves_bind preserves_keeps [OF overrides.update_keeps_mail] that
        preserves_keeps [OF keeps_return [where k = t_overrides]]
        preserves_keeps [OF override_finders_keep(7) [where k = t_overrides]]) (simp_all add: overrides.one_each_def)
  show ?thesis
    unfolding UpsertOverride_def Let_def
    by (rule overrides.upsert_keeps_one_each) (simp_all add: existing override_finders_keep keeps_bind keeps_return del: return_tx_run)
qed

end
