(* ===== verification/XF_Cleanup.thy ===== *)
theory XF_Cleanup
  imports XF_Policies
begin

text \<open>
  Retention: \<open>store/cleanup.go\<close> and \<open>engine/cleanup.go\<close>. A clean-up marks rule clients whose panel
  row is gone, prunes what has been missing or inactive for longer than its retention, and trims the
  audit log; a dry run counts the same things and writes nothing.
\<close>

section \<open>Metadata values\<close>

text \<open>
  \<open>CAST(value AS BIGINT)\<close>: PostgreSQL refuses a text that is no integer, SQLite reads the longest
  integer prefix, 0 without one, saturating at the ends of the range.
\<close>

definition int_prefix :: "string \<Rightarrow> int" where
  "int_prefix s =
    (let t = dropWhile (\<lambda>c. c \<in> set (concat ascii_spaces)) s;
         negative = (take 1 t = ''-'');
         ds = takeWhile is_digit (if negative \<or> take 1 t = ''+'' then tl t else t);
         v = (if negative then - int (digits_val ds) else int (digits_val ds))
     in max MinInt64 (min MaxInt64 v))"

definition cast_bigint :: "driver \<Rightarrow> string \<Rightarrow> string + int" where
  "cast_bigint dr s =
    (case parse_int64 s of
       Some n \<Rightarrow> Inr n
     | None \<Rightarrow> if dr = DriverPostgres then Inl (''invalid input syntax for type bigint'') else Inr (int_prefix s))"

definition GetMetaInt64 :: "string \<Rightarrow> int option tx" where
  "GetMetaInt64 key =
    with_driver (\<lambda>driver.
    statement (\<lambda>e. e) (\<lambda>d.
      case first_of (filter (\<lambda>(k, _, _). k = key) (t_meta d)) of
        None \<Rightarrow> Inr (None, d)
      | Some (_, v, _) \<Rightarrow> (case cast_bigint driver v of Inl t \<Rightarrow> Inl t | Inr n \<Rightarrow> Inr (Some n, d))))"

definition upsert_meta :: "string \<Rightarrow> string \<Rightarrow> int \<Rightarrow> Database \<Rightarrow> Database" where
  "upsert_meta key v now d =
    (if list_ex (\<lambda>(k, _, _). k = key) (t_meta d)
     then d\<lparr>t_meta := update_where (\<lambda>(k, _, _). k = key) (\<lambda>_. (key, v, now)) (t_meta d)\<rparr>
     else d\<lparr>t_meta := t_meta d @ [(key, v, now)]\<rparr>)"

definition SetMetaInt64 :: "string \<Rightarrow> int \<Rightarrow> unit tx" where
  "SetMetaInt64 key v = exec_tx (upsert_meta key (itoa v) v)"

section \<open>Marking and pruning\<close>

definition missing_message :: "int \<Rightarrow> string" where
  "missing_message trafficID =
    ''traffic id '' @ itoa trafficID @ '' is missing or no longer matches rule target''"

definition rc_order :: "RuleClient \<Rightarrow> int \<times> int" where
  "rc_order rc = (rc_rule_id rc, rc_traffic_id rc)"

definition mark_step :: "int \<Rightarrow> bool \<Rightarrow> RuleClient \<Rightarrow> int \<Rightarrow> int tx" where
  "mark_step now dryRun client marked =
    attempt (ClientTrafficByID (rc_traffic_id client)) (\<lambda>r.
    case (case r of
            Inl err \<Rightarrow> if errors_is err ErrNotFound then Inr True else Inl err
          | Inr current \<Rightarrow> Inr (ct_email current \<noteq> rc_email client)) of
      Inl err \<Rightarrow> fail_tx err
    | Inr False \<Rightarrow> return_tx marked
    | Inr True \<Rightarrow>
        if dryRun then return_tx (marked + 1)
        else
          bind_tx (MarkRuleClientMissing (rc_rule_id client) (rc_traffic_id client) now) (\<lambda>_.
          bind_tx (AddEvent (Some (rc_rule_id client)) EventClientMissing
              (missing_message (rc_traffic_id client)) now) (\<lambda>_.
          return_tx (marked + 1))))"

definition markMismatchedRuleClients :: "int \<Rightarrow> bool \<Rightarrow> int tx" where
  "markMismatchedRuleClients now dryRun =
    bind_tx (QueryContext (\<lambda>d. sort_key rc_order
        (filter (\<lambda>rc. rc_missing_at rc = None) (t_rule_clients d)))) (\<lambda>clients.
    for_each clients (mark_step now dryRun) 0)"

definition missing_since :: "int \<Rightarrow> RuleClient \<Rightarrow> bool" where
  "missing_since cutoff rc = (case rc_missing_at rc of None \<Rightarrow> False | Some m \<Rightarrow> m \<le> cutoff)"

definition pruneMissingRuleClients :: "int \<Rightarrow> int \<Rightarrow> bool \<Rightarrow> int tx" where
  "pruneMissingRuleClients cutoff now dryRun =
    bind_tx (QueryContext (\<lambda>d. sort_key rc_order (filter (missing_since cutoff) (t_rule_clients d)))) (\<lambda>targets.
    if dryRun \<or> targets = [] then return_tx (int (length targets))
    else
      bind_tx (for_each targets (\<lambda>target _.
        bind_tx (exec_tx (\<lambda>d. d\<lparr>t_rule_clients := filter
            (\<lambda>rc. \<not> is_rc (rc_rule_id target) (rc_traffic_id target) rc) (t_rule_clients d)\<rparr>)) (\<lambda>_.
        AddEvent (Some (rc_rule_id target)) EventClientPruned
          (''traffic id '' @ itoa (rc_traffic_id target) @ '' missing client tracking pruned'') now)) ()) (\<lambda>_.
      return_tx (int (length targets))))"

text \<open>\<open>COALESCE(disabled_at, updated_at) <= cutoff\<close> for a row that is no longer in use.\<close>

definition retired_at :: "int option \<Rightarrow> int \<Rightarrow> int" where
  "retired_at disabled_at updated_at = (case disabled_at of Some t \<Rightarrow> t | None \<Rightarrow> updated_at)"

definition retired_rule :: "int \<Rightarrow> RuleRow \<Rightarrow> bool" where
  "retired_rule cutoff r \<longleftrightarrow> rr_state r \<in> set [StateDisabled, StateMerged, StateOrphaned] \<and>
     retired_at (rr_disabled_at r) (rr_updated_at r) \<le> cutoff"

definition delete_rule :: "int \<Rightarrow> unit tx" where
  "delete_rule ruleID =
    bind_tx (exec_tx (\<lambda>d. d\<lparr>t_rule_clients := filter (\<lambda>rc. rc_rule_id rc \<noteq> ruleID) (t_rule_clients d)\<rparr>)) (\<lambda>_.
    bind_tx (exec_tx (\<lambda>d. d\<lparr>t_scopes := filter (\<lambda>s. sc_rule_id s \<noteq> ruleID) (t_scopes d)\<rparr>)) (\<lambda>_.
    exec_tx (\<lambda>d. d\<lparr>t_rules := filter (\<lambda>r. rr_id r \<noteq> ruleID) (t_rules d)\<rparr>)))"

text \<open>The left join marks the rules that have a scope row.\<close>

definition pruneDisabledRules :: "int \<Rightarrow> int \<Rightarrow> bool \<Rightarrow> (int \<times> int) tx" where
  "pruneDisabledRules cutoff now dryRun =
    bind_tx (QueryContext (\<lambda>d. map (\<lambda>r. (rr_id r, scope_of d (rr_id r) \<noteq> None))
        (sort_key rr_id (filter (retired_rule cutoff) (t_rules d))))) (\<lambda>targets.
    let scopes = int (length (filter snd targets));
        rules = int (length (filter (\<lambda>t. \<not> snd t) targets))
    in if dryRun \<or> targets = [] then return_tx (rules, scopes)
       else
         bind_tx (for_each targets (\<lambda>(ruleID, isScope) _.
           bind_tx (AddEvent (Some ruleID) EventCleanup
             (if isScope then ''disabled scope metadata pruned'' else ''disabled rule metadata pruned'') now) (\<lambda>_.
           delete_rule ruleID)) ()) (\<lambda>_.
         return_tx (rules, scopes)))"

definition retired_exclude :: "int \<Rightarrow> ExcludePolicy \<Rightarrow> bool" where
  "retired_exclude cutoff p \<longleftrightarrow> ep_state p \<noteq> StateActive \<and>
     retired_at (ep_disabled_at p) (ep_updated_at p) \<le> cutoff"

definition pruneInactiveExcludes :: "int \<Rightarrow> int \<Rightarrow> bool \<Rightarrow> int tx" where
  "pruneInactiveExcludes cutoff now dryRun =
    bind_tx (QueryContext (\<lambda>d. map ep_id (sort_key ep_id (filter (retired_exclude cutoff) (t_excludes d))))) (\<lambda>ids.
    if dryRun \<or> ids = [] then return_tx (int (length ids))
    else
      bind_tx (for_each ids (\<lambda>policyID _.
        bind_tx (AddEvent None EventCleanup (''exclude policy '' @ itoa policyID @ '' metadata pruned'') now) (\<lambda>_.
        exec_tx (\<lambda>d. d\<lparr>t_excludes := filter (\<lambda>p. ep_id p \<noteq> policyID) (t_excludes d)\<rparr>))) ()) (\<lambda>_.
      return_tx (int (length ids))))"

definition retired_override :: "int \<Rightarrow> OverridePolicy \<Rightarrow> bool" where
  "retired_override cutoff p \<longleftrightarrow> op_state p \<noteq> StateActive \<and>
     retired_at (op_disabled_at p) (op_updated_at p) \<le> cutoff"

definition pruneInactiveOverrides :: "int \<Rightarrow> int \<Rightarrow> bool \<Rightarrow> int tx" where
  "pruneInactiveOverrides cutoff now dryRun =
    bind_tx (QueryContext (\<lambda>d. map op_id (sort_key op_id (filter (retired_override cutoff) (t_overrides d))))) (\<lambda>ids.
    if dryRun \<or> ids = [] then return_tx (int (length ids))
    else
      bind_tx (for_each ids (\<lambda>policyID _.
        bind_tx (AddEvent None EventCleanup (''override policy '' @ itoa policyID @ '' metadata pruned'') now) (\<lambda>_.
        exec_tx (\<lambda>d. d\<lparr>t_overrides := filter (\<lambda>p. op_id p \<noteq> policyID) (t_overrides d)\<rparr>))) ()) (\<lambda>_.
      return_tx (int (length ids))))"

definition pruneAuditEvents :: "int \<Rightarrow> bool \<Rightarrow> int tx" where
  "pruneAuditEvents cutoff dryRun =
    bind_tx (QueryRowContext (\<lambda>d. int (length (filter (\<lambda>e. ev_created_at e \<le> cutoff) (t_events d))))) (\<lambda>count.
    if dryRun \<or> count = 0 then return_tx count
    else bind_tx (exec_tx (\<lambda>d. d\<lparr>t_events := filter (\<lambda>e. \<not> ev_created_at e \<le> cutoff) (t_events d)\<rparr>)) (\<lambda>_.
      return_tx count))"

section \<open>Clean-up\<close>

definition Cleanup_tx :: "CleanupOptions \<Rightarrow> CleanupResult tx" where
  "Cleanup_tx opts =
    (if co_now opts \<le> 0 then fail_tx (ErrText ''cleanup now must be positive'')
     else if co_missing_client_grace opts \<le> 0 then fail_tx (ErrText ''missing client grace must be positive'')
     else if co_disabled_rule_retention opts \<le> 0 then fail_tx (ErrText ''disabled rule retention must be positive'')
     else if co_audit_retention opts \<le> 0 then fail_tx (ErrText ''audit retention must be positive'')
     else
       let now = co_now opts; dry = co_dry_run opts;
           missingCutoff = wrap64 (now - co_missing_client_grace opts);
           disabledCutoff = wrap64 (now - co_disabled_rule_retention opts);
           auditCutoff = wrap64 (now - co_audit_retention opts) in
       bind_tx (markMismatchedRuleClients now dry) (\<lambda>marked.
       bind_tx (pruneMissingRuleClients missingCutoff now dry) (\<lambda>prunedMissing.
       bind_tx (pruneDisabledRules disabledCutoff now dry) (\<lambda>(prunedRules, prunedScopes).
       bind_tx (pruneInactiveExcludes disabledCutoff now dry) (\<lambda>inactiveExcludes.
       bind_tx (pruneInactiveOverrides disabledCutoff now dry) (\<lambda>inactiveOverrides.
       bind_tx (pruneAuditEvents auditCutoff dry) (\<lambda>auditEvents.
       return_tx \<lparr>cr_missing_clients_marked = marked, cr_missing_clients_pruned = prunedMissing,
         cr_disabled_rules_pruned = prunedRules, cr_disabled_scopes_pruned = prunedScopes,
         cr_inactive_excludes_pruned = inactiveExcludes, cr_inactive_overrides_pruned = inactiveOverrides,
         cr_audit_events_pruned = auditEvents, cr_vacuum_run = False, cr_dry_run = dry\<rparr>)))))))"

text \<open>\<open>Store.Cleanup\<close>, \<open>Store.AutoCleanup\<close> and \<open>Store.Vacuum\<close>.\<close>

definition Cleanup :: "CleanupOptions \<Rightarrow> CleanupResult tx" where
  "Cleanup opts = WithImmediateTx (Cleanup_tx opts)"

definition no_cleanup :: CleanupResult where
  "no_cleanup = \<lparr>cr_missing_clients_marked = 0, cr_missing_clients_pruned = 0, cr_disabled_rules_pruned = 0,
     cr_disabled_scopes_pruned = 0, cr_inactive_excludes_pruned = 0, cr_inactive_overrides_pruned = 0,
     cr_audit_events_pruned = 0, cr_vacuum_run = False, cr_dry_run = False\<rparr>"

definition auto_cleanup_key :: string where
  "auto_cleanup_key = ''last_auto_cleanup_at''"

definition auto_cleanup_body :: "CleanupOptions \<Rightarrow> (CleanupResult \<times> bool) tx" where
  "auto_cleanup_body opts =
    bind_tx (GetMetaInt64 auto_cleanup_key) (\<lambda>lastRun.
    let interval = co_missing_client_grace opts in
    if interval \<le> 0 then fail_tx (ErrText ''missing client grace must be positive'')
    else if (case lastRun of None \<Rightarrow> False | Some t \<Rightarrow> wrap64 (co_now opts - t) < interval)
    then return_tx (no_cleanup, False)
    else
      bind_tx (Cleanup_tx opts) (\<lambda>result.
      bind_tx (SetMetaInt64 auto_cleanup_key (co_now opts)) (\<lambda>_.
      return_tx (result, True))))"

definition AutoCleanup :: "CleanupOptions \<Rightarrow> (CleanupResult \<times> bool) tx" where
  "AutoCleanup opts = WithImmediateTx (auto_cleanup_body opts)"

definition Vacuum :: "unit tx" where
  "Vacuum = conn_call (wrapDatabaseError ''vacuum database'')"

section \<open>The engine's clean-up\<close>

text \<open>Durations are nanoseconds, as in Go's \<open>time.Duration\<close>.\<close>

record RetentionConfig =
  rt_missing_client_grace :: int
  rt_disabled_rule_retention :: int
  rt_audit_retention :: int

definition cleanupSeconds :: "int \<Rightarrow> int" where
  "cleanupSeconds d = (let seconds = go_div d 1000000000 in if seconds \<le> 0 then 1 else seconds)"

definition engine_Cleanup :: "RetentionConfig \<Rightarrow> bool \<Rightarrow> int \<Rightarrow> bool \<Rightarrow> int \<Rightarrow> CleanupResult tx" where
  "engine_Cleanup cfg dryRun olderThan vacuum now =
    (let missingGrace = rt_missing_client_grace cfg;
         disabledRetention = (if 0 < olderThan then olderThan else rt_disabled_rule_retention cfg);
         auditRetention = (if 0 < olderThan then olderThan else rt_audit_retention cfg) in
     if missingGrace \<le> 0 \<or> disabledRetention \<le> 0 \<or> auditRetention \<le> 0
     then fail_tx (ErrText ''cleanup retention values must be positive'')
     else
       bind_tx (Cleanup \<lparr>co_now = now, co_missing_client_grace = cleanupSeconds missingGrace,
           co_disabled_rule_retention = cleanupSeconds disabledRetention,
           co_audit_retention = cleanupSeconds auditRetention, co_dry_run = dryRun\<rparr>) (\<lambda>result.
       if vacuum \<and> \<not> dryRun
       then bind_tx Vacuum (\<lambda>_. return_tx (result\<lparr>cr_vacuum_run := True\<rparr>))
       else return_tx result))"

end
