(* ===== verification/XF_Engine.thy ===== *)
theory XF_Engine
  imports XF_Cleanup
begin

text \<open>
  \<open>engine/engine.go\<close>: the rule commands. Each one is a transaction; \<open>now\<close> is the service's clock in
  seconds.
\<close>

section \<open>Requests\<close>

definition normalizeEmail :: "string \<Rightarrow> error + string" where
  "normalizeEmail email =
    (let e = trim_space email in if e = [] then Inl (ErrText ''email is required'') else Inr e)"

definition describeSelectorError :: "string \<Rightarrow> error \<Rightarrow> error" where
  "describeSelectorError action err =
    (if errors_is err ErrNotFound then ErrWrap (action @ '': '') ErrNotFound '': no matching record''
     else if errors_is err ErrAmbiguous
     then ErrWrap (action @ '': '') ErrAmbiguous '': multiple matches; pass --inbound-id''
     else ErrWrap (action @ '': '') err [])"

text \<open>\<open>x, err := m; if err != nil { return describeSelectorError(action, err) }\<close>.\<close>

definition described :: "string \<Rightarrow> 'a tx \<Rightarrow> 'a tx" where
  "described action m =
    attempt m (\<lambda>r. case r of Inl err \<Rightarrow> fail_tx (describeSelectorError action err) | Inr x \<Rightarrow> return_tx x)"

text \<open>
  The recurring guard \<open>if conflict, err := m; err == nil { ... } else if !errors.Is(err, ErrNotFound)\<close>:
  the row found, or that there is none.
\<close>

definition optional :: "'a tx \<Rightarrow> 'a option tx" where
  "optional m =
    attempt m (\<lambda>r.
    case r of
      Inr x \<Rightarrow> return_tx (Some x)
    | Inl err \<Rightarrow> if errors_is err ErrNotFound then return_tx None else fail_tx err)"

definition from_result :: "error + 'a \<Rightarrow> ('a \<Rightarrow> 'b tx) \<Rightarrow> 'b tx" where
  "from_result r k = (case r of Inl err \<Rightarrow> fail_tx err | Inr x \<Rightarrow> k x)"

record EnableRequest =
  er_name :: string
  er_email :: string
  er_inbound_id :: "int option"
  er_factor :: string

record RuleSelector =
  rs_email :: string
  rs_inbound_id :: "int option"

definition new_rule :: "string \<Rightarrow> int \<Rightarrow> string \<Rightarrow> int \<Rightarrow> int \<Rightarrow> Rule" where
  "new_rule name inbound email factor now = \<lparr>r_id = 0, r_name = name, r_inbound_id = inbound, r_email = email,
     r_factor_ppm = factor, r_state = StateActive, r_created_at = now, r_updated_at = now,
     r_activated_at = Some now, r_paused_at = None, r_disabled_at = None, r_client_count = 0,
     r_effective_client_count = 0, r_scope = None\<rparr>"

text \<open>A rule client whose baseline is the client's current counters.\<close>

definition new_rule_client :: "int \<Rightarrow> ClientTraffic \<Rightarrow> int \<Rightarrow> RuleClient" where
  "new_rule_client ruleID c now = \<lparr>rc_rule_id = ruleID, rc_traffic_id = ct_id c, rc_inbound_id = ct_inbound_id c,
     rc_email = ct_email c, rc_last_up = ct_up c, rc_last_down = ct_down c, rc_rem_up = 0, rc_rem_down = 0,
     rc_missing_at = None, rc_updated_at = now\<rparr>"

definition targets_message :: "int \<Rightarrow> int \<Rightarrow> string" where
  "targets_message ruleID trafficID =
    ''active rule '' @ itoa ruleID @ '' already targets traffic id '' @ itoa trafficID"

section \<open>Commands\<close>

definition Enable_body :: "EnableRequest \<Rightarrow> string \<Rightarrow> int \<Rightarrow> int \<Rightarrow> Rule tx" where
  "Enable_body req email factorPPM now =
    bind_tx (described ''find client'' (FindClient email (er_inbound_id req))) (\<lambda>client.
    bind_tx (optional (ActiveRuleForTraffic (ct_id client))) (\<lambda>conflict.
    case conflict of
      Some c \<Rightarrow> fail_tx (ConflictError (targets_message (r_id c) (ct_id client)))
    | None \<Rightarrow>
        bind_tx (CreateRule (new_rule (trim_space (er_name req))
            (case er_inbound_id req of None \<Rightarrow> ct_inbound_id client | Some i \<Rightarrow> i) email factorPPM now)) (\<lambda>ruleID.
        bind_tx (CreateRuleClient (new_rule_client ruleID client now)) (\<lambda>_.
        bind_tx (AddEvent (Some ruleID) EventRuleEnabled ''rule enabled'' now) (\<lambda>_.
        GetRule ruleID)))))"

definition Enable :: "EnableRequest \<Rightarrow> int \<Rightarrow> Rule tx" where
  "Enable req now =
    from_result (normalizeEmail (er_email req)) (\<lambda>email.
    from_result (ParseFactor (er_factor req)) (\<lambda>factorPPM.
    WithImmediateTx (Enable_body req email factorPPM now)))"

definition unsupported_state :: "rule_state \<Rightarrow> error" where
  "unsupported_state to = ErrText (''unsupported rule state '' @ quoted (state_name to))"

definition transition_body ::
  "RuleSelector \<Rightarrow> string \<Rightarrow> rule_state list \<Rightarrow> rule_state \<Rightarrow> int \<Rightarrow> Rule tx" where
  "transition_body selector email states to now =
    bind_tx (described ''find rule'' (FindRuleBySelector email (rs_inbound_id selector) states)) (\<lambda>rule.
    bind_tx (case to of
        StateDisabled \<Rightarrow> bind_tx (SetRuleDisabled (r_id rule) now) (\<lambda>_.
          AddEvent (Some (r_id rule)) EventRuleDisabled ''rule disabled'' now)
      | StatePaused \<Rightarrow> bind_tx (SetRulePaused (r_id rule) now) (\<lambda>_.
          AddEvent (Some (r_id rule)) EventRulePaused ''rule paused'' now)
      | _ \<Rightarrow> fail_tx (unsupported_state to)) (\<lambda>_.
    GetRule (r_id rule)))"

definition transition :: "RuleSelector \<Rightarrow> rule_state list \<Rightarrow> rule_state \<Rightarrow> int \<Rightarrow> Rule tx" where
  "transition selector states to now =
    from_result (normalizeEmail (rs_email selector)) (\<lambda>email.
    WithImmediateTx (transition_body selector email states to now))"

definition Disable :: "RuleSelector \<Rightarrow> int \<Rightarrow> Rule tx" where
  "Disable selector now = transition selector [StateActive, StatePaused] StateDisabled now"

definition Pause :: "RuleSelector \<Rightarrow> int \<Rightarrow> Rule tx" where
  "Pause selector now = transition selector [StateActive] StatePaused now"

definition Resume_body :: "RuleSelector \<Rightarrow> string \<Rightarrow> int \<Rightarrow> Rule tx" where
  "Resume_body selector email now =
    bind_tx (described ''find paused rule'' (FindRuleBySelector email (rs_inbound_id selector) [StatePaused])) (\<lambda>rule.
    bind_tx (optional (ActiveConflictForRule (r_id rule))) (\<lambda>conflict.
    case conflict of
      Some (c, trafficID) \<Rightarrow> fail_tx (ConflictError (targets_message (r_id c) trafficID))
    | None \<Rightarrow>
        bind_tx (described ''refresh rule baseline'' (RefreshRuleClientBaselines (r_id rule) now)) (\<lambda>_.
        bind_tx (SetRuleActive (r_id rule) now) (\<lambda>_.
        bind_tx (AddEvent (Some (r_id rule)) EventRuleResumed ''rule resumed'' now) (\<lambda>_.
        GetRule (r_id rule))))))"

definition Resume :: "RuleSelector \<Rightarrow> int \<Rightarrow> Rule tx" where
  "Resume selector now =
    from_result (normalizeEmail (rs_email selector)) (\<lambda>email.
    WithImmediateTx (Resume_body selector email now))"

end
