(* ===== verification/XF_Reconcile.thy ===== *)
theory XF_Reconcile
  imports XF_Engine
begin

text \<open>
  \<open>engine/reconcile.go\<close> and \<open>adoptSingleRuleIntoScope\<close> of \<open>engine/bulk.go\<close>: single-user rules follow
  their client to a new traffic row, are merged into a compatible scope, or become orphans; active
  policies follow their client by e-mail.
\<close>

record ReconcileRequest =
  rq_inbound_id :: "int option"
  rq_dry_run :: bool

record ReconcileResult =
  rr_checked :: int
  rr_reconciled :: int
  rr_orphaned :: int
  rr_disabled_clients :: int
  rr_superseded :: int
  rr_conflicts :: int
  rr_policies_repaired :: int

definition no_reconcile :: ReconcileResult where
  "no_reconcile = \<lparr>rr_checked = 0, rr_reconciled = 0, rr_orphaned = 0, rr_disabled_clients = 0,
     rr_superseded = 0, rr_conflicts = 0, rr_policies_repaired = 0\<rparr>"

definition ReconcileResult_Summary :: "ReconcileResult \<Rightarrow> string" where
  "ReconcileResult_Summary r = ''checked='' @ itoa (rr_checked r) @ '' reconciled='' @ itoa (rr_reconciled r) @
     '' orphaned='' @ itoa (rr_orphaned r) @ '' disabled_clients='' @ itoa (rr_disabled_clients r) @
     '' superseded='' @ itoa (rr_superseded r) @ '' conflicts='' @ itoa (rr_conflicts r) @
     '' policies_repaired='' @ itoa (rr_policies_repaired r)"

section \<open>Merging a rule into a scope\<close>

text \<open>The boolean says whether the rule was adopted, the string why not.\<close>

definition adoptSingleRuleIntoScope :: "ScopeRule \<Rightarrow> Rule \<Rightarrow> ClientTraffic \<Rightarrow> int \<Rightarrow> (bool \<times> string) tx" where
  "adoptSingleRuleIntoScope scope rule client now =
    (if r_factor_ppm rule \<noteq> r_factor_ppm (sc_rule scope) then return_tx (False, ''factor does not match scope'')
     else if sc_limited_only scope \<and> ct_total client \<le> 0 then return_tx (False, ''client is not limited'')
     else if \<not> sc_include_disabled_clients scope \<and> ct_enable client \<noteq> 1 then return_tx (False, ''client is disabled'')
     else
       bind_tx (RuleClientCount (r_id rule)) (\<lambda>count.
       if count \<noteq> 1 then return_tx (False, ''rule does not have exactly one materialized client'')
       else
         bind_tx (optional (RuleClient_tx (r_id rule) (ct_id client))) (\<lambda>found_rc.
         case found_rc of
           None \<Rightarrow> return_tx (False, ''rule client is missing'')
         | Some rc \<Rightarrow>
             if rc_missing_at rc \<noteq> None \<or> rc_email rc \<noteq> ct_email client then
               bind_tx (MarkRuleClientMissing (r_id rule) (rc_traffic_id rc) now) (\<lambda>_.
               bind_tx (AddEvent (Some (r_id rule)) EventClientMissing (missing_message (rc_traffic_id rc)) now) (\<lambda>_.
               return_tx (False, ''rule client identity does not match'')))
             else
               bind_tx (optional (ActiveScopeForTrafficExcept (ct_id client) (sc_rule_id scope))) (\<lambda>conflict.
               case conflict of
                 Some c \<Rightarrow> return_tx (False, ''active scope '' @ itoa (r_id c) @
                     '' already targets traffic id '' @ itoa (ct_id client))
               | None \<Rightarrow>
                   bind_tx (CopyRuleClient (r_id rule) (sc_rule_id scope) (ct_id client)) (\<lambda>_.
                   bind_tx (SetRuleMerged (r_id rule) now) (\<lambda>_.
                   bind_tx (AddEvent (Some (sc_rule_id scope)) EventClientAdopted
                     (''traffic id '' @ itoa (ct_id client) @ '' adopted from rule '' @ itoa (r_id rule)) now) (\<lambda>_.
                   bind_tx (AddEvent (Some (r_id rule)) EventRuleMerged
                     (''rule merged into scope '' @ itoa (sc_rule_id scope)) now) (\<lambda>_.
                   return_tx (True, [])))))))))"

definition adoptOrSupersede :: "ScopeRule \<Rightarrow> Rule \<Rightarrow> ClientTraffic \<Rightarrow> int \<Rightarrow> bool \<Rightarrow> bool tx" where
  "adoptOrSupersede scope rule client now dryRun =
    bind_tx (RuleClientExists (sc_rule_id scope) (ct_id client)) (\<lambda>exists.
    if dryRun then return_tx True
    else if exists then
      bind_tx (SetRuleMerged (r_id rule) now) (\<lambda>_.
      bind_tx (AddEvent (Some (r_id rule)) EventRuleMerged
        (''rule superseded by scope '' @ itoa (sc_rule_id scope)) now) (\<lambda>_.
      return_tx True))
    else
      bind_tx (adoptSingleRuleIntoScope scope rule client now) (\<lambda>(adopted, reason).
      bind_tx (if \<not> adopted \<and> reason \<noteq> [] then AddEvent (Some (r_id rule)) EventRuleSkip reason now
               else return_tx ()) (\<lambda>_.
      return_tx adopted)))"

definition scopeMatchesClient :: "ScopeRule \<Rightarrow> Rule \<Rightarrow> ClientTraffic \<Rightarrow> bool tx" where
  "scopeMatchesClient scope rule client =
    (if sc_once scope then return_tx False
     else if r_factor_ppm rule \<noteq> r_factor_ppm (sc_rule scope) then return_tx False
     else
       bind_tx (case sc_inbound_id scope of
           None \<Rightarrow> return_tx True
         | Some i \<Rightarrow> ClientIsInboundMember (ct_email client) i) (\<lambda>member.
       return_tx (member \<and> \<not> (sc_limited_only scope \<and> ct_total client \<le> 0) \<and>
         \<not> (\<not> sc_include_disabled_clients scope \<and> ct_enable client \<noteq> 1))))"

fun compatibleScopeForClient :: "ScopeRule list \<Rightarrow> Rule \<Rightarrow> ClientTraffic \<Rightarrow> ScopeRule option tx" where
  "compatibleScopeForClient [] rule client = return_tx None"
| "compatibleScopeForClient (scope # scopes) rule client =
    (if sc_rule_id scope = r_id rule then compatibleScopeForClient scopes rule client
     else
       bind_tx (scopeMatchesClient scope rule client) (\<lambda>matches.
       if \<not> matches then compatibleScopeForClient scopes rule client
       else
         bind_tx (optional (ActiveScopeForTrafficExcept (ct_id client) (sc_rule_id scope))) (\<lambda>conflict.
         case conflict of
           Some c \<Rightarrow> if r_id c \<noteq> sc_rule_id scope then compatibleScopeForClient scopes rule client
                     else return_tx None
         | None \<Rightarrow> return_tx (Some scope))))"

section \<open>One rule\<close>

definition orphanRule :: "Rule \<Rightarrow> int \<Rightarrow> bool \<Rightarrow> string \<Rightarrow> ReconcileResult tx" where
  "orphanRule rule now dryRun reason =
    (let result = no_reconcile\<lparr>rr_reconciled := 1, rr_orphaned := 1\<rparr> in
     if dryRun then return_tx result
     else
       bind_tx (SetRuleOrphaned (r_id rule) now) (\<lambda>_.
       bind_tx (AddEvent (Some (r_id rule)) EventRuleReconcile
         (if reason \<noteq> [] then ''rule orphaned by reconcile: '' @ reason else ''rule orphaned by reconcile'') now) (\<lambda>_.
       return_tx result)))"

definition markRuleClientMissing :: "int \<Rightarrow> RuleClient \<Rightarrow> int \<Rightarrow> bool \<Rightarrow> unit tx" where
  "markRuleClientMissing ruleID rc now dryRun =
    (if rc_missing_at rc \<noteq> None \<or> dryRun then return_tx ()
     else
       bind_tx (MarkRuleClientMissing ruleID (rc_traffic_id rc) now) (\<lambda>_.
       AddEvent (Some ruleID) EventClientMissing (missing_message (rc_traffic_id rc)) now))"

text \<open>The second half of \<open>reconcileSingleRule\<close>: the client was found and has the rule's e-mail.\<close>

definition reconcileFoundClient ::
  "Rule \<Rightarrow> ScopeRule list \<Rightarrow> int \<Rightarrow> bool \<Rightarrow> RuleClient \<Rightarrow> ClientTraffic \<Rightarrow> bool \<Rightarrow> ReconcileResult tx" where
  "reconcileFoundClient rule scopes now dryRun rc current repaired =
    bind_tx (if ct_inbound_id current \<noteq> rc_inbound_id rc \<and> \<not> dryRun
        then AdoptRuleClientInbound (r_id rule) (rc_traffic_id rc) (ct_inbound_id current) now
        else return_tx ()) (\<lambda>_.
    bind_tx (compatibleScopeForClient scopes rule current) (\<lambda>scope.
    bind_tx (case scope of None \<Rightarrow> return_tx False
        | Some s \<Rightarrow> adoptOrSupersede s rule current now dryRun) (\<lambda>adopted.
    if adopted then return_tx (no_reconcile\<lparr>rr_reconciled := 1, rr_superseded := 1\<rparr>)
    else if ct_enable current \<noteq> 1 then
      bind_tx (orphanRule rule now dryRun (''traffic id '' @ itoa (rc_traffic_id rc) @
        '' is disabled and no compatible include-disabled scope owns it'')) (\<lambda>result.
      return_tx (result\<lparr>rr_disabled_clients := 1\<rparr>))
    else
      bind_tx (optional (ActiveScopeForTrafficExcept (ct_id current) (r_id rule))) (\<lambda>conflict.
      case conflict of
        Some c \<Rightarrow>
          bind_tx (orphanRule rule now dryRun (''traffic id '' @ itoa (ct_id current) @
            '' already has active scope rule '' @ itoa (r_id c))) (\<lambda>result.
          return_tx (result\<lparr>rr_conflicts := 1\<rparr>))
      | None \<Rightarrow> return_tx (if repaired then no_reconcile\<lparr>rr_reconciled := 1\<rparr> else no_reconcile)))))"

definition reconcileWithCurrent ::
  "Rule \<Rightarrow> ScopeRule list \<Rightarrow> int \<Rightarrow> bool \<Rightarrow> RuleClient \<Rightarrow> ClientTraffic \<Rightarrow> bool \<Rightarrow> ReconcileResult tx" where
  "reconcileWithCurrent rule scopes now dryRun rc current repaired =
    (if ct_email current \<noteq> rc_email rc then
       bind_tx (markRuleClientMissing (r_id rule) rc now dryRun) (\<lambda>_.
       orphanRule rule now dryRun (''traffic id '' @ itoa (rc_traffic_id rc) @
         '' no longer matches email identity''))
     else if rc_missing_at rc \<noteq> None then
       (if dryRun then return_tx (no_reconcile\<lparr>rr_reconciled := 1\<rparr>)
        else
          bind_tx (UpdateRuleClientBaseline \<lparr>rc_rule_id = r_id rule, rc_traffic_id = rc_traffic_id rc,
            rc_inbound_id = 0, rc_email = [], rc_last_up = ct_up current, rc_last_down = ct_down current,
            rc_rem_up = 0, rc_rem_down = 0, rc_missing_at = None, rc_updated_at = now\<rparr>) (\<lambda>_.
          bind_tx (AddEvent (Some (r_id rule)) EventClientReset
            (''traffic id '' @ itoa (rc_traffic_id rc) @ '' revived; baseline refreshed'') now) (\<lambda>_.
          reconcileFoundClient rule scopes now dryRun (rc\<lparr>rc_missing_at := None\<rparr>) current True)))
     else reconcileFoundClient rule scopes now dryRun rc current repaired)"

text \<open>A client recreated under the same e-mail has a new traffic row, which the rule follows.\<close>

definition reconcileReplaced ::
  "Rule \<Rightarrow> ScopeRule list \<Rightarrow> int \<Rightarrow> bool \<Rightarrow> RuleClient \<Rightarrow> ReconcileResult tx" where
  "reconcileReplaced rule scopes now dryRun rc =
    bind_tx (optional (ClientTrafficByEmail (rc_email rc))) (\<lambda>replaced.
    case replaced of
      None \<Rightarrow>
        bind_tx (markRuleClientMissing (r_id rule) rc now dryRun) (\<lambda>_.
        orphanRule rule now dryRun (''traffic id '' @ itoa (rc_traffic_id rc) @ '' is missing''))
    | Some replacement \<Rightarrow>
        if dryRun then return_tx (no_reconcile\<lparr>rr_reconciled := 1\<rparr>)
        else
          attempt (RelinkRuleClientByEmail (r_id rule) (rc_traffic_id rc) now) (\<lambda>link.
          case link of
            Inl _ \<Rightarrow>
              bind_tx (markRuleClientMissing (r_id rule) rc now dryRun) (\<lambda>_.
              orphanRule rule now dryRun (''traffic id '' @ itoa (rc_traffic_id rc) @
                '' could not follow email '' @ rc_email rc))
          | Inr relinked \<Rightarrow>
              bind_tx (AddEvent (Some (r_id rule)) EventClientRelinked (''traffic id '' @ itoa (rc_traffic_id rc) @
                '' relinked to traffic id '' @ itoa (rc_traffic_id relinked) @ '' email '' @ rc_email relinked) now) (\<lambda>_.
              reconcileWithCurrent rule scopes now dryRun relinked replacement True)))"

definition reconcileSingleRule :: "Rule \<Rightarrow> ScopeRule list \<Rightarrow> int \<Rightarrow> bool \<Rightarrow> ReconcileResult tx" where
  "reconcileSingleRule rule scopes now dryRun =
    bind_tx (RuleClientsForRule (r_id rule)) (\<lambda>clients.
    case clients of
      [] \<Rightarrow> orphanRule rule now dryRun ''active rule has no materialized clients''
    | [rc] \<Rightarrow>
        bind_tx (optional (ClientTrafficByID (rc_traffic_id rc))) (\<lambda>current.
        case current of
          None \<Rightarrow> reconcileReplaced rule scopes now dryRun rc
        | Some c \<Rightarrow> reconcileWithCurrent rule scopes now dryRun rc c False)
    | _ \<Rightarrow>
        bind_tx (orphanRule rule now dryRun (''active single-user rule has '' @
          itoa (int (length clients)) @ '' materialized clients'')) (\<lambda>result.
        return_tx (result\<lparr>rr_conflicts := 1\<rparr>)))"

section \<open>Policies\<close>

definition resolvePolicyTraffic :: "int \<Rightarrow> string \<Rightarrow> ClientTraffic tx" where
  "resolvePolicyTraffic trafficID email =
    attempt (ClientTrafficByID trafficID) (\<lambda>r.
    case r of
      Inr current \<Rightarrow> if ct_email current = email then return_tx current else ClientTrafficByEmail email
    | Inl err \<Rightarrow> if errors_is err ErrNotFound then ClientTrafficByEmail email else fail_tx err)"

definition policy_selected :: "ReconcileRequest \<Rightarrow> string \<Rightarrow> bool tx" where
  "policy_selected req email =
    (case rq_inbound_id req of None \<Rightarrow> return_tx True | Some i \<Rightarrow> ClientIsInboundMember email i)"

definition repair_exclude :: "ReconcileRequest \<Rightarrow> int \<Rightarrow> ExcludePolicy \<Rightarrow> int \<Rightarrow> int tx" where
  "repair_exclude req now p repaired =
    bind_tx (optional (resolvePolicyTraffic (ep_traffic_id p) (ep_email p))) (\<lambda>resolved.
    case resolved of
      None \<Rightarrow> return_tx repaired
    | Some current \<Rightarrow>
        bind_tx (policy_selected req (ep_email p)) (\<lambda>selected.
        if \<not> selected then return_tx repaired
        else if ct_id current = ep_traffic_id p \<and> ct_inbound_id current = ep_inbound_id p then return_tx repaired
        else if rq_dry_run req then return_tx (repaired + 1)
        else bind_tx (RelinkExcludeRow p current now) (\<lambda>_. return_tx (repaired + 1))))"

definition repair_override :: "ReconcileRequest \<Rightarrow> int \<Rightarrow> OverridePolicy \<Rightarrow> int \<Rightarrow> int tx" where
  "repair_override req now p repaired =
    bind_tx (optional (resolvePolicyTraffic (op_traffic_id p) (op_email p))) (\<lambda>resolved.
    case resolved of
      None \<Rightarrow> return_tx repaired
    | Some current \<Rightarrow>
        bind_tx (policy_selected req (op_email p)) (\<lambda>selected.
        if \<not> selected then return_tx repaired
        else if ct_id current = op_traffic_id p \<and> ct_inbound_id current = op_inbound_id p then return_tx repaired
        else if rq_dry_run req then return_tx (repaired + 1)
        else bind_tx (RelinkOverrideRow p current now) (\<lambda>_. return_tx (repaired + 1))))"

definition reconcilePolicies :: "ReconcileRequest \<Rightarrow> int \<Rightarrow> int tx" where
  "reconcilePolicies req now =
    bind_tx ListActiveExcludes (\<lambda>excludes.
    bind_tx ListActiveOverrides (\<lambda>overrides.
    bind_tx (for_each excludes (repair_exclude req now) 0) (\<lambda>repaired.
    for_each overrides (repair_override req now) repaired)))"

section \<open>The whole pass\<close>

definition add_step :: "ReconcileResult \<Rightarrow> ReconcileResult \<Rightarrow> ReconcileResult" where
  "add_step result step = result\<lparr>rr_checked := rr_checked result + 1,
     rr_reconciled := rr_reconciled result + rr_reconciled step,
     rr_orphaned := rr_orphaned result + rr_orphaned step,
     rr_disabled_clients := rr_disabled_clients result + rr_disabled_clients step,
     rr_superseded := rr_superseded result + rr_superseded step,
     rr_conflicts := rr_conflicts result + rr_conflicts step\<rparr>"

definition ReconcileTx :: "int \<Rightarrow> ReconcileRequest \<Rightarrow> ReconcileResult tx" where
  "ReconcileTx now req =
    (if now \<le> 0 then fail_tx (ErrText ''reconcile now must be positive'')
     else
       bind_tx (ListRulesInStates (rq_inbound_id req) [StateActive]) (\<lambda>rules.
       bind_tx ListActivePersistentScopes (\<lambda>scopes.
       bind_tx (for_each rules (\<lambda>rule result.
         if r_scope rule \<noteq> None then return_tx result
         else bind_tx (reconcileSingleRule rule scopes now (rq_dry_run req)) (\<lambda>step.
           return_tx (add_step result step))) no_reconcile) (\<lambda>result.
       bind_tx (reconcilePolicies req now) (\<lambda>repaired.
       return_tx (result\<lparr>rr_policies_repaired := repaired\<rparr>))))))"

definition Reconcile :: "ReconcileRequest \<Rightarrow> int \<Rightarrow> ReconcileResult tx" where
  "Reconcile req now = WithImmediateTx (ReconcileTx now req)"

end
