(* ===== verification/XF_Bulk.thy ===== *)
theory XF_Bulk
  imports XF_Reconcile
begin

text \<open>
  \<open>engine/bulk.go\<close>: the commands over many clients or rules. Go returns the partly counted result
  beside an error; every caller discards it then, so here an error has no result.
\<close>

record EnableAllRequest =
  ea_factor :: string
  ea_inbound_id :: "int option"
  ea_limited_only :: bool
  ea_include_disabled_clients :: bool
  ea_once :: bool
  ea_name :: string

record BulkResult =
  br_matched :: int
  br_changed :: int
  br_adopted :: int
  br_skipped_existing :: int
  br_conflicts :: int
  br_missing :: int
  br_mode :: string

definition no_bulk :: "string \<Rightarrow> BulkResult" where
  "no_bulk mode = \<lparr>br_matched = 0, br_changed = 0, br_adopted = 0, br_skipped_existing = 0, br_conflicts = 0,
     br_missing = 0, br_mode = mode\<rparr>"

definition BulkResult_Summary :: "BulkResult \<Rightarrow> string" where
  "BulkResult_Summary r = (if br_mode r \<noteq> [] then ''mode='' @ br_mode r @ '' '' else []) @
     ''matched='' @ itoa (br_matched r) @ '' changed='' @ itoa (br_changed r) @ '' adopted='' @ itoa (br_adopted r) @
     '' skipped='' @ itoa (br_skipped_existing r) @ '' conflicts='' @ itoa (br_conflicts r) @
     '' missing='' @ itoa (br_missing r)"

section \<open>Enabling\<close>

definition scopedRuleInboundID :: "int option \<Rightarrow> int" where
  "scopedRuleInboundID inboundID = (case inboundID of None \<Rightarrow> 0 | Some i \<Rightarrow> i)"

fun rejectDuplicateClientIDs :: "ClientTraffic list \<Rightarrow> int list \<Rightarrow> error option" where
  "rejectDuplicateClientIDs [] seen = None"
| "rejectDuplicateClientIDs (c # cs) seen =
    (if ct_id c \<in> set seen
     then Some (ConflictError (''duplicate selected client traffic id '' @ itoa (ct_id c)))
     else rejectDuplicateClientIDs cs (ct_id c # seen))"

definition many_rules_error :: "int \<Rightarrow> error" where
  "many_rules_error trafficID =
    ConflictError (''multiple active or paused rules already target traffic id '' @ itoa trafficID)"

definition request_scope :: "EnableAllRequest \<Rightarrow> int \<Rightarrow> bool \<Rightarrow> int \<Rightarrow> Scope" where
  "request_scope req ruleID once now = \<lparr>sc_rule_id = ruleID, sc_inbound_id = ea_inbound_id req,
     sc_limited_only = ea_limited_only req, sc_include_disabled_clients = ea_include_disabled_clients req,
     sc_once = once, sc_created_at = now, sc_updated_at = now\<rparr>"

text \<open>\<open>CreateRule\<close>, \<open>CreateScope\<close> and the event, as both kinds of scope begin.\<close>

definition create_scope_rule :: "EnableAllRequest \<Rightarrow> int \<Rightarrow> bool \<Rightarrow> string \<Rightarrow> int \<Rightarrow> int tx" where
  "create_scope_rule req factorPPM once message now =
    bind_tx (CreateRule (new_rule (trim_space (ea_name req)) (scopedRuleInboundID (ea_inbound_id req)) []
      factorPPM now)) (\<lambda>ruleID.
    bind_tx (CreateScope (request_scope req ruleID once now)) (\<lambda>_.
    bind_tx (AddEvent (Some ruleID) EventRuleEnabled message now) (\<lambda>_.
    return_tx ruleID)))"

definition snapshot_select :: "ClientTraffic \<Rightarrow> ClientTraffic list \<times> BulkResult \<Rightarrow> (ClientTraffic list \<times> BulkResult) tx" where
  "snapshot_select client = (\<lambda>(targets, result).
    bind_tx (RulesForTrafficInStates (ct_id client) [StateActive, StatePaused]) (\<lambda>rules.
    case rules of
      [] \<Rightarrow> return_tx (targets @ [client], result)
    | [_] \<Rightarrow> return_tx (targets, result\<lparr>br_skipped_existing := br_skipped_existing result + 1\<rparr>)
    | _ \<Rightarrow> fail_tx (many_rules_error (ct_id client))))"

definition enableAllSnapshot ::
  "EnableAllRequest \<Rightarrow> int \<Rightarrow> ClientTraffic list \<Rightarrow> int \<Rightarrow> BulkResult \<Rightarrow> BulkResult tx" where
  "enableAllSnapshot req factorPPM clients now result0 =
    bind_tx (for_each clients snapshot_select ([], result0)) (\<lambda>(targets, result).
    if targets = [] then return_tx result
    else
      bind_tx (create_scope_rule req factorPPM True ''snapshot scope enabled by enable-all'' now) (\<lambda>ruleID.
      for_each targets (\<lambda>client result.
        bind_tx (CreateRuleClient (new_rule_client ruleID client now)) (\<lambda>_.
        return_tx (result\<lparr>br_changed := br_changed result + 1\<rparr>))) result))"

text \<open>A scope just created carries a rule with the four fields that matter.\<close>

definition created_scope :: "EnableAllRequest \<Rightarrow> int \<Rightarrow> int \<Rightarrow> int \<Rightarrow> ScopeRule" where
  "created_scope req factorPPM ruleID now = \<lparr>sc_rule_id = ruleID, sc_inbound_id = ea_inbound_id req,
     sc_limited_only = ea_limited_only req, sc_include_disabled_clients = ea_include_disabled_clients req,
     sc_once = False, sc_created_at = now, sc_updated_at = now,
     sc_rule = \<lparr>r_id = ruleID, r_name = [], r_inbound_id = scopedRuleInboundID (ea_inbound_id req), r_email = [],
       r_factor_ppm = factorPPM, r_state = StateActive, r_created_at = 0, r_updated_at = 0,
       r_activated_at = None, r_paused_at = None, r_disabled_at = None, r_client_count = 0,
       r_effective_client_count = 0, r_scope = None\<rparr>\<rparr>"

definition enroll_candidate :: "ScopeRule \<Rightarrow> int \<Rightarrow> ClientTraffic \<Rightarrow> BulkResult \<Rightarrow> BulkResult tx" where
  "enroll_candidate scope now client result =
    bind_tx (RuleClientExists (sc_rule_id scope) (ct_id client)) (\<lambda>exists.
    let skipped = result\<lparr>br_skipped_existing := br_skipped_existing result + 1\<rparr> in
    if exists then return_tx skipped
    else
      bind_tx (RulesForTrafficInStates (ct_id client) [StateActive, StatePaused]) (\<lambda>rules.
      case rules of
        [] \<Rightarrow>
          bind_tx (CreateRuleClient (new_rule_client (sc_rule_id scope) client now)) (\<lambda>_.
          return_tx (result\<lparr>br_changed := br_changed result + 1\<rparr>))
      | [rule] \<Rightarrow>
          bind_tx (RuleHasScope (r_id rule)) (\<lambda>hasScope.
          if hasScope then
            bind_tx (AddEvent (Some (sc_rule_id scope)) EventScopeSkip
              (''traffic id '' @ itoa (ct_id client) @ '' skipped; active scope rule '' @ itoa (r_id rule) @
               '' already targets it'') now) (\<lambda>_.
            return_tx (result\<lparr>br_conflicts := br_conflicts result + 1\<rparr>))
          else if r_state rule \<noteq> StateActive then
            bind_tx (AddEvent (Some (r_id rule)) EventRuleSkip ''rule is not active'' now) (\<lambda>_.
            return_tx skipped)
          else
            bind_tx (adoptSingleRuleIntoScope scope rule client now) (\<lambda>(adopted, reason).
            if adopted then return_tx (result\<lparr>br_adopted := br_adopted result + 1\<rparr>)
            else
              bind_tx (if reason \<noteq> [] then AddEvent (Some (r_id rule)) EventRuleSkip reason now
                       else return_tx ()) (\<lambda>_.
              return_tx skipped)))
      | _ \<Rightarrow> fail_tx (many_rules_error (ct_id client))))"

definition enableAllPersistent ::
  "EnableAllRequest \<Rightarrow> int \<Rightarrow> ClientTraffic list \<Rightarrow> int \<Rightarrow> BulkResult \<Rightarrow> BulkResult tx" where
  "enableAllPersistent req factorPPM clients now result =
    bind_tx (optional (FindActivePersistentScope factorPPM (ea_inbound_id req) (ea_limited_only req)
      (ea_include_disabled_clients req))) (\<lambda>existing.
    bind_tx (case existing of
        Some scope \<Rightarrow> return_tx scope
      | None \<Rightarrow>
          bind_tx (create_scope_rule req factorPPM False ''persistent scope enabled by enable-all'' now) (\<lambda>ruleID.
          return_tx (created_scope req factorPPM ruleID now))) (\<lambda>scope.
    for_each clients (enroll_candidate scope now) result))"

definition EnableAll_body :: "EnableAllRequest \<Rightarrow> int \<Rightarrow> int \<Rightarrow> BulkResult tx" where
  "EnableAll_body req factorPPM now =
    bind_tx (ListClientCandidates \<lparr>cf_inbound_id = ea_inbound_id req, cf_limited_only = ea_limited_only req,
      cf_include_disabled_clients = ea_include_disabled_clients req\<rparr>) (\<lambda>clients.
    if clients = [] then fail_tx (ErrWrap [] ErrNotFound '': enable-all found no matching clients'')
    else case rejectDuplicateClientIDs clients [] of
      Some err \<Rightarrow> fail_tx err
    | None \<Rightarrow>
        let result = (no_bulk (if ea_once req then ''snapshot'' else ''persistent''))
              \<lparr>br_matched := int (length clients)\<rparr> in
        if ea_once req then enableAllSnapshot req factorPPM clients now result
        else
          bind_tx (enableAllPersistent req factorPPM clients now result) (\<lambda>result.
          bind_tx (ReconcileTx now \<lparr>rq_inbound_id = ea_inbound_id req, rq_dry_run = False\<rparr>) (\<lambda>reconciled.
          return_tx (result\<lparr>br_adopted := br_adopted result + rr_superseded reconciled\<rparr>))))"

definition EnableAll :: "EnableAllRequest \<Rightarrow> int \<Rightarrow> BulkResult tx" where
  "EnableAll req now =
    from_result (ParseFactor (ea_factor req)) (\<lambda>factorPPM.
    WithImmediateTx (EnableAll_body req factorPPM now))"

section \<open>Disabling, pausing, resuming\<close>

definition bulk_step :: "rule_state \<Rightarrow> int \<Rightarrow> Rule \<Rightarrow> BulkResult \<Rightarrow> BulkResult tx" where
  "bulk_step to now rule result =
    bind_tx (case to of
        StateDisabled \<Rightarrow> bind_tx (SetRuleDisabled (r_id rule) now) (\<lambda>_.
          AddEvent (Some (r_id rule)) EventRuleDisabled ''rule disabled by disable-all'' now)
      | StatePaused \<Rightarrow> bind_tx (SetRulePaused (r_id rule) now) (\<lambda>_.
          AddEvent (Some (r_id rule)) EventRulePaused ''rule paused by pause-all'' now)
      | _ \<Rightarrow> fail_tx (unsupported_state to)) (\<lambda>_.
    return_tx (result\<lparr>br_changed := br_changed result + 1\<rparr>))"

definition bulkTransition :: "int option \<Rightarrow> string \<Rightarrow> rule_state list \<Rightarrow> rule_state \<Rightarrow> int \<Rightarrow> BulkResult tx" where
  "bulkTransition inboundID command states to now = WithImmediateTx (
    bind_tx (ListRulesInStates inboundID states) (\<lambda>rules.
    if rules = [] then fail_tx (ErrWrap [] ErrNotFound ('': '' @ command @ '' found no matching rules''))
    else for_each rules (bulk_step to now) ((no_bulk [])\<lparr>br_matched := int (length rules)\<rparr>)))"

definition DisableAll :: "int option \<Rightarrow> int \<Rightarrow> BulkResult tx" where
  "DisableAll inboundID now = bulkTransition inboundID ''disable-all'' [StateActive, StatePaused] StateDisabled now"

definition PauseAll :: "int option \<Rightarrow> int \<Rightarrow> BulkResult tx" where
  "PauseAll inboundID now = bulkTransition inboundID ''pause-all'' [StateActive] StatePaused now"

definition resume_step :: "int \<Rightarrow> Rule \<Rightarrow> BulkResult \<Rightarrow> BulkResult tx" where
  "resume_step now rule result =
    bind_tx (optional (ActiveConflictForRule (r_id rule))) (\<lambda>conflict.
    case conflict of
      Some (c, trafficID) \<Rightarrow>
        bind_tx (AddEvent (Some (r_id rule)) EventRuleResumed
          (''resume skipped; '' @ targets_message (r_id c) trafficID) now) (\<lambda>_.
        return_tx (result\<lparr>br_conflicts := br_conflicts result + 1\<rparr>))
    | None \<Rightarrow>
        bind_tx (RefreshRuleClientBaselinesCount (r_id rule) now) (\<lambda>count.
        if count = 0 \<and> r_scope rule = None
        then return_tx (result\<lparr>br_missing := br_missing result + 1\<rparr>)
        else
          bind_tx (SetRuleActive (r_id rule) now) (\<lambda>_.
          bind_tx (AddEvent (Some (r_id rule)) EventRuleResumed ''rule resumed by resume-all'' now) (\<lambda>_.
          return_tx (result\<lparr>br_changed := br_changed result + 1\<rparr>)))))"

definition ResumeAll :: "int option \<Rightarrow> int \<Rightarrow> BulkResult tx" where
  "ResumeAll inboundID now = WithImmediateTx (
    bind_tx (ListRulesInStates inboundID [StatePaused]) (\<lambda>rules.
    if rules = [] then fail_tx (ErrWrap [] ErrNotFound '': resume-all found no matching paused rules'')
    else for_each rules (resume_step now) ((no_bulk [])\<lparr>br_matched := int (length rules)\<rparr>)))"

end
