(* ===== verification/XF_PolicyOps.thy ===== *)
theory XF_PolicyOps
  imports XF_Engine
begin

text \<open>
  \<open>engine/excludes.go\<close> and \<open>engine/overrides.go\<close>: the commands that set and remove the two kinds of
  client policies. Lifting or changing a policy refreshes the client's baselines, so that traffic
  that was counted under the old policy is not factored under the new one.
\<close>

record PolicyRequest =
  pq_email :: string
  pq_inbound_id :: "int option"
  pq_factor :: string
  pq_note :: string

definition required_inbound :: "int option \<Rightarrow> error + int" where
  "required_inbound i = (case i of None \<Rightarrow> Inl (ErrText ''inbound id is required'') | Some n \<Rightarrow> Inr n)"

definition policy_message :: "string \<Rightarrow> int \<Rightarrow> string \<Rightarrow> int \<Rightarrow> int \<Rightarrow> string \<Rightarrow> string" where
  "policy_message kind policyID action trafficID inboundID email =
    kind @ '' policy '' @ itoa policyID @ '' '' @ action @ '' for traffic id '' @ itoa trafficID @
    '' inbound '' @ itoa inboundID @ '' email '' @ email"

text \<open>A client with no row for that traffic id and e-mail has no baseline to refresh.\<close>

definition refresh_if_present :: "ClientTraffic \<Rightarrow> int \<Rightarrow> unit tx" where
  "refresh_if_present client now =
    bind_tx (optional (RefreshActiveRuleClientBaselinesForTraffic (ct_id client) (ct_email client) now)) (\<lambda>_.
    return_tx ())"

section \<open>Excludes\<close>

definition Exclude_body :: "PolicyRequest \<Rightarrow> string \<Rightarrow> int \<Rightarrow> int \<Rightarrow> ExcludePolicy tx" where
  "Exclude_body req email inboundID now =
    bind_tx (described ''find client'' (FindClient email (Some inboundID))) (\<lambda>client.
    bind_tx (UpsertExclude \<lparr>ep_id = 0, ep_traffic_id = ct_id client, ep_inbound_id = ct_inbound_id client,
      ep_email = ct_email client, ep_state = StateActive, ep_note = trim_space (pq_note req), ep_created_at = now,
      ep_updated_at = now, ep_activated_at = Some now, ep_disabled_at = None\<rparr>) (\<lambda>p.
    bind_tx (AddEvent None EventExcludeEnable
      (policy_message ''exclude'' (ep_id p) ''enabled'' (ep_traffic_id p) (ep_inbound_id p) (ep_email p)) now) (\<lambda>_.
    return_tx p)))"

definition Exclude :: "PolicyRequest \<Rightarrow> int \<Rightarrow> ExcludePolicy tx" where
  "Exclude req now =
    from_result (normalizeEmail (pq_email req)) (\<lambda>email.
    from_result (required_inbound (pq_inbound_id req)) (\<lambda>inboundID.
    WithImmediateTx (Exclude_body req email inboundID now)))"

definition Unexclude_body :: "string \<Rightarrow> int \<Rightarrow> int \<Rightarrow> ExcludePolicy tx" where
  "Unexclude_body email inboundID now =
    bind_tx (described ''find client'' (FindClient email (Some inboundID))) (\<lambda>client.
    bind_tx (described ''find exclude policy''
      (attempt (FindActiveExcludeForClient (ct_id client) (ct_email client)) (\<lambda>r.
       case r of
         Inr p \<Rightarrow> return_tx p
       | Inl err \<Rightarrow> if errors_is err ErrNotFound then FindActiveExcludeByEmail (ct_email client)
                    else fail_tx err))) (\<lambda>p.
    bind_tx (DisableExclude (ep_id p) now) (\<lambda>_.
    bind_tx (refresh_if_present client now) (\<lambda>_.
    bind_tx (AddEvent None EventExcludeDisable
      (policy_message ''exclude'' (ep_id p) ''disabled'' (ep_traffic_id p) (ep_inbound_id p) (ep_email p)) now) (\<lambda>_.
    FindExcludeByID (ep_id p))))))"

definition Unexclude :: "PolicyRequest \<Rightarrow> int \<Rightarrow> ExcludePolicy tx" where
  "Unexclude req now =
    from_result (normalizeEmail (pq_email req)) (\<lambda>email.
    from_result (required_inbound (pq_inbound_id req)) (\<lambda>inboundID.
    WithImmediateTx (Unexclude_body email inboundID now)))"

section \<open>Overrides\<close>

definition Override_body :: "PolicyRequest \<Rightarrow> string \<Rightarrow> int \<Rightarrow> int \<Rightarrow> int \<Rightarrow> OverridePolicy tx" where
  "Override_body req email inboundID factorPPM now =
    bind_tx (described ''find client'' (FindClient email (Some inboundID))) (\<lambda>client.
    bind_tx (UpsertOverride \<lparr>op_id = 0, op_traffic_id = ct_id client, op_inbound_id = ct_inbound_id client,
      op_email = ct_email client, op_factor_ppm = factorPPM, op_state = StateActive,
      op_note = trim_space (pq_note req), op_created_at = now, op_updated_at = now,
      op_activated_at = Some now, op_disabled_at = None\<rparr>) (\<lambda>(p, updated).
    bind_tx (refresh_if_present client now) (\<lambda>_.
    bind_tx (AddEvent None (if updated then EventOverrideUpdate else EventOverrideEnable)
      (policy_message ''override'' (op_id p) (if updated then ''updated'' else ''enabled'') (op_traffic_id p)
        (op_inbound_id p) (op_email p) @ '' factor '' @ FormatFactor (op_factor_ppm p)) now) (\<lambda>_.
    return_tx p))))"

definition Override :: "PolicyRequest \<Rightarrow> int \<Rightarrow> OverridePolicy tx" where
  "Override req now =
    from_result (normalizeEmail (pq_email req)) (\<lambda>email.
    from_result (required_inbound (pq_inbound_id req)) (\<lambda>inboundID.
    from_result (ParseFactor (pq_factor req)) (\<lambda>factorPPM.
    WithImmediateTx (Override_body req email inboundID factorPPM now))))"

definition RemoveOverride_body :: "string \<Rightarrow> int \<Rightarrow> int \<Rightarrow> OverridePolicy tx" where
  "RemoveOverride_body email inboundID now =
    bind_tx (described ''find client'' (FindClient email (Some inboundID))) (\<lambda>client.
    bind_tx (described ''find override policy''
      (attempt (FindActiveOverrideForClient (ct_id client) (ct_email client)) (\<lambda>r.
       case r of
         Inr p \<Rightarrow> return_tx p
       | Inl err \<Rightarrow> if errors_is err ErrNotFound then FindActiveOverrideByEmail (ct_email client)
                    else fail_tx err))) (\<lambda>p.
    bind_tx (DisableOverride (op_id p) now) (\<lambda>_.
    bind_tx (refresh_if_present client now) (\<lambda>_.
    bind_tx (AddEvent None EventOverrideDisable
      (policy_message ''override'' (op_id p) ''disabled'' (op_traffic_id p) (op_inbound_id p) (op_email p)) now) (\<lambda>_.
    FindOverrideByID (op_id p))))))"

definition RemoveOverride :: "PolicyRequest \<Rightarrow> int \<Rightarrow> OverridePolicy tx" where
  "RemoveOverride req now =
    from_result (normalizeEmail (pq_email req)) (\<lambda>email.
    from_result (required_inbound (pq_inbound_id req)) (\<lambda>inboundID.
    WithImmediateTx (RemoveOverride_body email inboundID now)))"

end
