(* ===== verification/XF_Decision.thy ===== *)
theory XF_Decision
  imports XF_Types "HOL-Library.Product_Lexorder"
begin

text \<open>
  \<open>internal/policy/decision.go\<close>: from the active targets, excludes and overrides to one decision per
  client. Candidates are grouped by traffic id, stably sorted by precedence and rule id, and the
  first one wins; two candidates of the same highest precedence are an error.
\<close>

section \<open>Data\<close>

datatype SourceType =
    SourceNone | SourceExclude | SourceUserOverride | SourceSingleRule | SourceInboundScope
  | SourceGlobalScope | SourceSnapshot

fun source_name :: "SourceType \<Rightarrow> string" where
  "source_name SourceNone = ''none''"
| "source_name SourceExclude = ''exclude''"
| "source_name SourceUserOverride = ''user_override''"
| "source_name SourceSingleRule = ''single_rule''"
| "source_name SourceInboundScope = ''inbound_scope''"
| "source_name SourceGlobalScope = ''global_scope''"
| "source_name SourceSnapshot = ''snapshot_scope''"

record Match =
  m_source :: SourceType
  m_rule_id :: int
  m_inbound_id :: int
  m_email :: string
  m_factor_ppm :: int
  m_reason :: string

record Candidate =
  c_target :: "ActiveRuleClient option"
  c_source :: SourceType
  c_rule_id :: int
  c_traffic_id :: int
  c_inbound_id :: int
  c_email :: string
  c_factor_ppm :: int
  c_reason :: string

record Decision =
  d_traffic_id :: int
  d_inbound_id :: int
  d_email :: string
  d_source :: SourceType
  d_source_rule_id :: int
  d_factor_ppm :: int
  d_target :: "ActiveRuleClient option"
  d_matched :: "Match list"
  d_reason :: string
  d_suppressed :: "ActiveRuleClient list"

section \<open>Candidates\<close>

definition classifyTarget :: "ActiveRuleClient \<Rightarrow> SourceType \<times> string" where
  "classifyTarget target =
    (case r_scope (arc_rule target) of
       None \<Rightarrow> (SourceSingleRule, ''single-user rule'')
     | Some scope \<Rightarrow>
         if sc_once scope then (SourceSnapshot, ''snapshot scope'')
         else if sc_inbound_id scope \<noteq> None then (SourceInboundScope, ''inbound persistent scope'')
         else (SourceGlobalScope, ''global persistent scope''))"

fun precedence :: "SourceType \<Rightarrow> int" where
  "precedence SourceExclude = 100"
| "precedence SourceUserOverride = 90"
| "precedence SourceSingleRule = 80"
| "precedence SourceInboundScope = 70"
| "precedence SourceSnapshot = 65"
| "precedence SourceGlobalScope = 60"
| "precedence SourceNone = 0"

text \<open>Sources are ordered by what decides over what: no two have the same precedence.\<close>

instantiation SourceType :: linorder
begin

definition less_eq_SourceType :: "SourceType \<Rightarrow> SourceType \<Rightarrow> bool" where
  "less_eq_SourceType a b \<longleftrightarrow> precedence a \<le> precedence b"

definition less_SourceType :: "SourceType \<Rightarrow> SourceType \<Rightarrow> bool" where
  "less_SourceType a b \<longleftrightarrow> precedence a < precedence b"

instance
proof
  fix a b c :: SourceType
  show "a < b \<longleftrightarrow> a \<le> b \<and> \<not> b \<le> a" "a \<le> a" "a \<le> b \<or> b \<le> a"
    by (auto simp: less_eq_SourceType_def less_SourceType_def)
  show "a \<le> c" if "a \<le> b" "b \<le> c" using that by (simp add: less_eq_SourceType_def)
  show "a = b" if "a \<le> b" "b \<le> a" using that by (cases a; cases b) (simp_all add: less_eq_SourceType_def)
qed

end

definition rule_candidate :: "ActiveRuleClient \<Rightarrow> Candidate" where
  "rule_candidate target = \<lparr>c_target = Some target, c_source = fst (classifyTarget target),
     c_rule_id = r_id (arc_rule target), c_traffic_id = rc_traffic_id (arc_client target),
     c_inbound_id = rc_inbound_id (arc_client target), c_email = rc_email (arc_client target),
     c_factor_ppm = r_factor_ppm (arc_rule target), c_reason = snd (classifyTarget target)\<rparr>"

definition ActiveRuleCandidates :: "ActiveRuleClient list \<Rightarrow> Candidate list" where
  "ActiveRuleCandidates targets = map rule_candidate targets"

definition target_key :: "ActiveRuleClient \<Rightarrow> int \<times> string" where
  "target_key t = (rc_traffic_id (arc_client t), rc_email (arc_client t))"

definition exclude_candidate :: "ExcludePolicy \<Rightarrow> Candidate" where
  "exclude_candidate p = \<lparr>c_target = None, c_source = SourceExclude, c_rule_id = ep_id p,
     c_traffic_id = ep_traffic_id p, c_inbound_id = ep_inbound_id p, c_email = ep_email p,
     c_factor_ppm = 0, c_reason = ''exclude policy''\<rparr>"

definition ExcludeCandidatesForActiveTargets ::
  "ExcludePolicy list \<Rightarrow> ActiveRuleClient list \<Rightarrow> Candidate list" where
  "ExcludeCandidatesForActiveTargets excludes targets =
    map exclude_candidate
      (filter (\<lambda>p. (ep_traffic_id p, ep_email p) \<in> set (map target_key targets)) excludes)"

definition override_candidate :: "ActiveRuleClient option \<Rightarrow> string \<Rightarrow> OverridePolicy \<Rightarrow> Candidate" where
  "override_candidate target reason p = \<lparr>c_target = target, c_source = SourceUserOverride,
     c_rule_id = op_id p, c_traffic_id = op_traffic_id p, c_inbound_id = op_inbound_id p,
     c_email = op_email p, c_factor_ppm = op_factor_ppm p, c_reason = reason\<rparr>"

text \<open>The Go map keeps the last target written under a key.\<close>

definition target_for_key :: "ActiveRuleClient list \<Rightarrow> int \<times> string \<Rightarrow> ActiveRuleClient option" where
  "target_for_key targets key = first_of (filter (\<lambda>t. target_key t = key) (rev targets))"

definition with_factor :: "int \<Rightarrow> ActiveRuleClient \<Rightarrow> ActiveRuleClient" where
  "with_factor ppm t = t\<lparr>arc_rule := (arc_rule t)\<lparr>r_factor_ppm := ppm\<rparr>\<rparr>"

definition OverrideCandidatesForActiveTargets ::
  "OverridePolicy list \<Rightarrow> ActiveRuleClient list \<Rightarrow> Candidate list" where
  "OverrideCandidatesForActiveTargets overrides targets =
    concat (map (\<lambda>p.
      case target_for_key targets (op_traffic_id p, op_email p) of
        None \<Rightarrow> []
      | Some t \<Rightarrow> [override_candidate (Some (with_factor (op_factor_ppm p) t)) ''user override policy'' p])
      overrides)"

definition exactPolicyMatch :: "ClientTraffic \<Rightarrow> int \<Rightarrow> string \<Rightarrow> bool" where
  "exactPolicyMatch client trafficID email \<longleftrightarrow> ct_id client = trafficID \<and> ct_email client = email"

definition ClientCandidates ::
  "ClientTraffic \<Rightarrow> ActiveRuleClient list \<Rightarrow> ExcludePolicy list \<Rightarrow> OverridePolicy list \<Rightarrow> Candidate list" where
  "ClientCandidates client targets excludes overrides =
    (let matchingTargets = filter (\<lambda>t. rc_traffic_id (arc_client t) = ct_id client \<and>
             rc_email (arc_client t) = ct_email client) targets;
         overrideCandidates = OverrideCandidatesForActiveTargets overrides matchingTargets;
         excludeCandidates = ExcludeCandidatesForActiveTargets excludes matchingTargets
     in ActiveRuleCandidates matchingTargets @ overrideCandidates @ excludeCandidates @
        (if excludeCandidates = []
         then (case first_of (filter (\<lambda>p. exactPolicyMatch client (ep_traffic_id p) (ep_email p)) excludes) of
                 None \<Rightarrow> [] | Some p \<Rightarrow> [exclude_candidate p])
         else []) @
        (if overrideCandidates = []
         then (case first_of (filter (\<lambda>p. exactPolicyMatch client (op_traffic_id p) (op_email p)) overrides) of
                 None \<Rightarrow> []
               | Some p \<Rightarrow> [override_candidate None ''user override policy without active rule target'' p])
         else []))"

section \<open>Decisions\<close>

definition materializedKey :: "ActiveRuleClient \<Rightarrow> int \<times> int" where
  "materializedKey t = (rc_rule_id (arc_client t), rc_traffic_id (arc_client t))"

definition sameMaterializedTarget :: "ActiveRuleClient option \<Rightarrow> ActiveRuleClient \<Rightarrow> bool" where
  "sameMaterializedTarget left right =
    (case left of None \<Rightarrow> False | Some l \<Rightarrow> materializedKey l = materializedKey right)"

definition match_of :: "Candidate \<Rightarrow> Match" where
  "match_of c = \<lparr>m_source = c_source c, m_rule_id = c_rule_id c, m_inbound_id = c_inbound_id c,
     m_email = c_email c, m_factor_ppm = c_factor_ppm c, m_reason = c_reason c\<rparr>"

text \<open>The loop over the losers: each materialized target once, the winner's own not at all.\<close>

fun suppress :: "ActiveRuleClient option \<Rightarrow> Candidate list \<Rightarrow> (int \<times> int) list \<Rightarrow> ActiveRuleClient list" where
  "suppress winner [] seen = []"
| "suppress winner (c # cs) seen =
    (case c_target c of
       None \<Rightarrow> suppress winner cs seen
     | Some t \<Rightarrow>
         if sameMaterializedTarget winner t \<or> materializedKey t \<in> set seen then suppress winner cs seen
         else t # suppress winner cs (materializedKey t # seen))"

text \<open>\<open>sort.SliceStable\<close>: precedence downwards, then rule id upwards.\<close>

definition candidate_order :: "Candidate \<Rightarrow> int \<times> int" where
  "candidate_order c = (- precedence (c_source c), c_rule_id c)"

definition ambiguous_error :: "int \<Rightarrow> SourceType \<Rightarrow> error" where
  "ambiguous_error trafficID source = ErrWrap [] ErrAmbiguousEffectiveTarget
     ('': traffic id '' @ itoa trafficID @ '' has multiple '' @ source_name source @ '' candidates'')"

definition decision_of :: "Candidate \<Rightarrow> Candidate list \<Rightarrow> Decision" where
  "decision_of winner losers = \<lparr>d_traffic_id = c_traffic_id winner, d_inbound_id = c_inbound_id winner,
     d_email = c_email winner, d_source = c_source winner, d_source_rule_id = c_rule_id winner,
     d_factor_ppm = c_factor_ppm winner, d_target = c_target winner,
     d_matched = map match_of (winner # losers), d_reason = c_reason winner,
     d_suppressed = suppress (c_target winner) losers []\<rparr>"

text \<open>
  \<open>decideOne\<close> is only called on a group that exists, so never on an empty one; there the Go code
  would panic on \<open>candidates[0]\<close>, which the model shows as an error of its own.
\<close>

definition decideOne :: "int \<Rightarrow> Candidate list \<Rightarrow> error + Decision" where
  "decideOne trafficID candidates =
    (case sort_key candidate_order candidates of
       [] \<Rightarrow> Inl (ErrText ''index out of range'')
     | [winner] \<Rightarrow> Inr (decision_of winner [])
     | winner # second # rest \<Rightarrow>
         if precedence (c_source winner) = precedence (c_source second)
         then Inl (ambiguous_error trafficID (c_source winner))
         else Inr (decision_of winner (second # rest)))"

fun decide_each :: "int list \<Rightarrow> Candidate list \<Rightarrow> error + Decision list" where
  "decide_each [] cs = Inr []"
| "decide_each (i # ids) cs =
    (case decideOne i (filter (\<lambda>c. c_traffic_id c = i) cs) of
       Inl e \<Rightarrow> Inl e
     | Inr d \<Rightarrow> (case decide_each ids cs of Inl e \<Rightarrow> Inl e | Inr ds \<Rightarrow> Inr (d # ds)))"

definition Decide :: "Candidate list \<Rightarrow> error + Decision list" where
  "Decide candidates = decide_each (sort (remdups (map c_traffic_id candidates))) candidates"

definition DecideClient :: "ClientTraffic \<Rightarrow> Candidate list \<Rightarrow> error + Decision" where
  "DecideClient client candidates =
    (if candidates = []
     then Inr \<lparr>d_traffic_id = ct_id client, d_inbound_id = ct_inbound_id client, d_email = ct_email client,
         d_source = SourceNone, d_source_rule_id = 0, d_factor_ppm = 0, d_target = None, d_matched = [],
         d_reason = ''no active matching rule, scope, override, or exclude'', d_suppressed = []\<rparr>
     else decideOne (ct_id client) candidates)"

section \<open>The winner\<close>

text \<open>
  \<open>beats c cs\<close>: \<open>c\<close> is in \<open>cs\<close> and every other candidate there has a lower precedence. It does not
  mention an order, so a decision does not depend on the order the rows were read in.
\<close>

definition rank :: "Candidate \<Rightarrow> int" where
  "rank c = precedence (c_source c)"

definition beats :: "Candidate \<Rightarrow> Candidate list \<Rightarrow> bool" where
  "beats c cs \<longleftrightarrow> c \<in> set cs \<and> filter (\<lambda>x. rank c \<le> rank x) cs = [c]"

text \<open>So \<open>w\<close> wins when it is the one candidate of the strongest source.\<close>

lemma beats_Max: "beats w cs \<longleftrightarrow> filter (\<lambda>x. c_source x = Max (c_source ` set cs)) cs = [w]"
proof -
  have top: "filter (\<lambda>x. c_source x = Max (c_source ` set cs)) cs = filter (\<lambda>x. rank y \<le> rank x) cs"
    if y: "y \<in> set cs" "c_source y = Max (c_source ` set cs)" for y
  proof (rule filter_cong [OF refl])
    fix x
    assume "x \<in> set cs"
    then have "c_source x \<le> c_source y" using y by simp
    then show "c_source x = Max (c_source ` set cs) \<longleftrightarrow> rank y \<le> rank x"
      using y(2) by (auto simp: rank_def less_eq_SourceType_def [symmetric])
  qed
  show ?thesis
  proof
    assume w: "beats w cs"
    then have mem: "w \<in> set cs" and only: "filter (\<lambda>x. rank w \<le> rank x) cs = [w]" by (simp_all add: beats_def)
    have "c_source x \<le> c_source w" if x: "x \<in> set cs" for x
    proof (cases "rank w \<le> rank x")
      case True
      with x have "x \<in> set (filter (\<lambda>x. rank w \<le> rank x) cs)" by simp
      with only show ?thesis by simp
    qed (simp add: rank_def less_eq_SourceType_def)
    then have "c_source w = Max (c_source ` set cs)" using mem by (intro Max_eqI [symmetric]) auto
    with top [OF mem] only show "filter (\<lambda>x. c_source x = Max (c_source ` set cs)) cs = [w]" by simp
  next
    assume only: "filter (\<lambda>x. c_source x = Max (c_source ` set cs)) cs = [w]"
    then have "w \<in> set (filter (\<lambda>x. c_source x = Max (c_source ` set cs)) cs)" by simp
    then have w: "w \<in> set cs" "c_source w = Max (c_source ` set cs)" by simp_all
    with top [OF w] only show "beats w cs" by (simp add: beats_def)
  qed
qed

lemma beats_source: "beats w cs \<Longrightarrow> c_source w = Max (c_source ` set cs)"
proof -
  assume "beats w cs"
  then have "w \<in> set (filter (\<lambda>x. c_source x = Max (c_source ` set cs)) cs)" by (simp add: beats_Max)
  then show ?thesis by simp
qed

lemma candidate_order_le: "candidate_order a \<le> candidate_order b \<Longrightarrow> rank b \<le> rank a"
  by (auto simp: candidate_order_def rank_def less_eq_prod_def)

lemma sorted_candidates_rank:
  "sorted (map candidate_order (w # cs)) \<Longrightarrow> c \<in> set cs \<Longrightarrow> rank c \<le> rank w"
  by (simp add: candidate_order_le)

lemma length_filter_sort_key [simp]: "length (filter p (sort_key f xs)) = length (filter p xs)"
  by (metis filter_sort length_sort)

lemma filter_singleton_sort: "filter p (sort_key f xs) = [x] \<longleftrightarrow> filter p xs = [x]"
proof
  assume s: "filter p (sort_key f xs) = [x]"
  then have "set (filter p xs) = {x}" by (metis filter_sort list.set(1) list.simps(15) set_sort)
  moreover have "length (filter p xs) = 1" using s by (metis One_nat_def length_filter_sort_key length_Cons list.size(3))
  ultimately show "filter p xs = [x]"
    by (cases "filter p xs") auto
qed (simp add: filter_sort)

lemma decideOne_Inr:
  assumes "cs \<noteq> []"
  shows "decideOne i cs = Inr d \<longleftrightarrow>
    (\<exists>w losers. sort_key candidate_order cs = w # losers \<and> beats w cs \<and> d = decision_of w losers)"
proof -
  obtain w losers where s: "sort_key candidate_order cs = w # losers"
    using assms by (metis length_0_conv length_sort neq_Nil_conv)
  have srt: "sorted (map candidate_order (w # losers))" using sorted_sort_key [of candidate_order cs] s by simp
  have mem: "w \<in> set cs" using s by (metis list.set_intros(1) set_sort)
  have "beats w cs \<longleftrightarrow> filter (\<lambda>x. rank w \<le> rank x) (w # losers) = [w]"
    using mem by (simp add: beats_def s [symmetric] filter_singleton_sort)
  also have "\<dots> \<longleftrightarrow> (\<forall>x \<in> set losers. rank x < rank w)"
    by (auto simp: filter_empty_conv not_le)
  also have "\<dots> \<longleftrightarrow> (case losers of [] \<Rightarrow> True | x # _ \<Rightarrow> rank w \<noteq> rank x)"
  proof (cases losers)
    case (Cons x rest)
    with srt have "rank x \<le> rank w" and "\<forall>y \<in> set rest. rank y \<le> rank x"
      by (auto intro: candidate_order_le)
    with Cons show ?thesis by (auto; fastforce)
  qed simp
  finally show ?thesis
    using s by (auto simp: decideOne_def rank_def split: list.splits)
qed

lemma decideOne_ambiguous:
  assumes "cs \<noteq> []" and "\<not> (\<exists>w. beats w cs)"
  shows "\<exists>s. decideOne i cs = Inl (ambiguous_error i s)"
proof -
  have "\<nexists>d. decideOne i cs = Inr d" using decideOne_Inr [OF assms(1)] assms(2) by blast
  moreover have "sort_key candidate_order cs \<noteq> []" using assms(1) by (metis length_0_conv length_sort)
  ultimately show ?thesis by (auto simp: decideOne_def split: list.splits if_splits)
qed

lemma beats_decideOne:
  assumes "beats w cs"
  shows "\<exists>losers. sort_key candidate_order cs = w # losers \<and> decideOne i cs = Inr (decision_of w losers)"
proof -
  have ne: "cs \<noteq> []" using assms by (auto simp: beats_def)
  then obtain v losers where s: "sort_key candidate_order cs = v # losers"
    by (metis length_0_conv length_sort neq_Nil_conv)
  have srt: "sorted (map candidate_order (v # losers))" using sorted_sort_key [of candidate_order cs] s by simp
  have "w \<in> set (v # losers)" using assms s by (metis beats_def set_sort)
  then have "rank w \<le> rank v" using sorted_candidates_rank [OF srt] by auto
  moreover have "v \<in> set cs" using s by (metis list.set_intros(1) set_sort)
  ultimately have "v \<in> set (filter (\<lambda>x. rank w \<le> rank x) cs)" by simp
  with assms have "v = w" by (simp add: beats_def)
  with s assms decideOne_Inr [OF ne] show ?thesis by blast
qed

section \<open>What is suppressed\<close>

definition target_keys :: "Candidate list \<Rightarrow> (int \<times> int) list" where
  "target_keys cs = concat (map (\<lambda>c. case c_target c of None \<Rightarrow> [] | Some t \<Rightarrow> [materializedKey t]) cs)"

definition own_key :: "ActiveRuleClient option \<Rightarrow> (int \<times> int) list" where
  "own_key w = (case w of None \<Rightarrow> [] | Some t \<Rightarrow> [materializedKey t])"

lemma target_keys_simps [simp]:
  "target_keys [] = []"
  "target_keys (c # cs) = own_key (c_target c) @ target_keys cs"
  by (simp_all add: target_keys_def own_key_def)

lemma own_key_simps [simp]: "own_key None = []" "own_key (Some t) = [materializedKey t]"
  by (simp_all add: own_key_def)

lemma sameMaterializedTarget_own_key:
  "sameMaterializedTarget w t \<longleftrightarrow> materializedKey t \<in> set (own_key w)"
  by (auto simp: sameMaterializedTarget_def split: option.split)

lemma suppress_keys:
  "materializedKey ` set (suppress winner cs seen) =
     set (target_keys cs) - set (own_key winner) - set seen"
  by (induction winner cs seen rule: suppress.induct)
    (auto simp: sameMaterializedTarget_own_key split: option.splits)

lemma suppress_distinct: "distinct (map materializedKey (suppress winner cs seen))"
proof (induction winner cs seen rule: suppress.induct)
  case (2 winner c cs seen)
  then show ?case
  proof (cases "c_target c")
    case (Some t)
    have "materializedKey t \<notin> materializedKey ` set (suppress winner cs (materializedKey t # seen))"
      by (simp add: suppress_keys)
    with 2 Some show ?thesis by auto
  qed simp
qed simp

section \<open>All decisions\<close>

definition candidates_of :: "int \<Rightarrow> Candidate list \<Rightarrow> Candidate list" where
  "candidates_of i cs = filter (\<lambda>c. c_traffic_id c = i) cs"

text \<open>\<open>decided w i d\<close>: the decision on client \<open>i\<close> carries what the winner \<open>w\<close> says.\<close>

definition decided :: "Candidate \<Rightarrow> int \<Rightarrow> Decision \<Rightarrow> bool" where
  "decided w i d \<longleftrightarrow> d_traffic_id d = i \<and> d_inbound_id d = c_inbound_id w \<and> d_email d = c_email w \<and>
     d_source d = c_source w \<and> d_source_rule_id d = c_rule_id w \<and> d_factor_ppm d = c_factor_ppm w \<and>
     d_target d = c_target w \<and> d_reason d = c_reason w"

lemma beats_in: "beats w cs \<Longrightarrow> w \<in> set cs"
  by (simp add: beats_def)

lemma decided_decision_of: "c_traffic_id w = i \<Longrightarrow> decided w i (decision_of w losers)"
  by (simp add: decided_def decision_of_def)

lemma decide_each_Inl:
  "decide_each ids cs = Inl e \<Longrightarrow> \<exists>i \<in> set ids. decideOne i (candidates_of i cs) = Inl e"
  by (induction ids) (auto simp: candidates_of_def split: sum.splits)

lemma candidates_of_nonempty: "i \<in> set (map c_traffic_id cs) \<Longrightarrow> candidates_of i cs \<noteq> []"
  by (auto simp: candidates_of_def filter_empty_conv)

lemma decideOne_decision:
  assumes "i \<in> set (map c_traffic_id cs)" and "decideOne i (candidates_of i cs) = Inr d"
  shows "\<exists>w losers. beats w (candidates_of i cs) \<and> sort_key candidate_order (candidates_of i cs) = w # losers \<and>
    d = decision_of w losers \<and> decided w i d"
proof -
  obtain w losers where w: "sort_key candidate_order (candidates_of i cs) = w # losers" "beats w (candidates_of i cs)"
    "d = decision_of w losers"
    using decideOne_Inr [OF candidates_of_nonempty [OF assms(1)]] assms(2) by blast
  then have "c_traffic_id w = i" using beats_in [OF w(2)] by (simp add: candidates_of_def)
  with w decided_decision_of show ?thesis by blast
qed

lemma decideOne_id:
  "i \<in> set (map c_traffic_id cs) \<Longrightarrow> decideOne i (candidates_of i cs) = Inr d \<Longrightarrow> d_traffic_id d = i"
  using decideOne_decision by (auto simp: decided_def)

lemma decide_each_Inr:
  "decide_each ids cs = Inr ds \<Longrightarrow> set ids \<subseteq> set (map c_traffic_id cs) \<Longrightarrow>
    map d_traffic_id ds = ids \<and>
    (\<forall>d \<in> set ds. decideOne (d_traffic_id d) (candidates_of (d_traffic_id d) cs) = Inr d)"
proof (induction ids arbitrary: ds)
  case (Cons i ids)
  from Cons.prems(1) obtain d ds' where one: "decideOne i (candidates_of i cs) = Inr d"
    and rest: "decide_each ids cs = Inr ds'" and ds: "ds = d # ds'"
    by (auto simp: candidates_of_def split: sum.splits)
  have "d_traffic_id d = i" using Cons.prems(2) by (intro decideOne_id [OF _ one]) simp
  with Cons.IH [OF rest] Cons.prems(2) one show ?case by (simp add: ds)
qed simp

lemma Decide_Inr:
  assumes "Decide cs = Inr ds"
  shows "map d_traffic_id ds = sort (remdups (map c_traffic_id cs))"
    and "\<And>d. d \<in> set ds \<Longrightarrow> \<exists>w losers. beats w (candidates_of (d_traffic_id d) cs) \<and>
      sort_key candidate_order (candidates_of (d_traffic_id d) cs) = w # losers \<and> d = decision_of w losers \<and>
      decided w (d_traffic_id d) d"
proof -
  have each: "decide_each (sort (remdups (map c_traffic_id cs))) cs = Inr ds" using assms by (simp add: Decide_def)
  note facts = decide_each_Inr [OF each]
  show ids: "map d_traffic_id ds = sort (remdups (map c_traffic_id cs))" using facts by simp
  fix d
  assume d: "d \<in> set ds"
  then have "d_traffic_id d \<in> set (map d_traffic_id ds)" by simp
  then have "d_traffic_id d \<in> set (map c_traffic_id cs)" unfolding ids by simp
  then show "\<exists>w losers. beats w (candidates_of (d_traffic_id d) cs) \<and>
      sort_key candidate_order (candidates_of (d_traffic_id d) cs) = w # losers \<and> d = decision_of w losers \<and>
      decided w (d_traffic_id d) d"
    using facts d by (intro decideOne_decision) auto
qed

text \<open>
  C13. \<open>Decide\<close> is total and picks the one candidate of the strongest source. Either there is one decision per client that has
  candidates, in the order of their ids, each carrying its winner's source, which is the strongest of the client's,
  and the winner's rule, factor and target; or the result is the ambiguity error of a client for which not exactly one
  candidate has the strongest source.
\<close>

theorem Decide_strict_best:
  "case Decide cs of
     Inr ds \<Rightarrow> map d_traffic_id ds = sort (remdups (map c_traffic_id cs)) \<and>
       (\<forall>d \<in> set ds. \<exists>w. beats w (candidates_of (d_traffic_id d) cs) \<and> decided w (d_traffic_id d) d \<and>
         d_source d = Max (c_source ` set (candidates_of (d_traffic_id d) cs)))
   | Inl e \<Rightarrow> \<exists>i s. i \<in> set (map c_traffic_id cs) \<and> e = ambiguous_error i s \<and>
       length (filter (\<lambda>c. c_source c = Max (c_source ` set (candidates_of i cs))) (candidates_of i cs)) \<noteq> 1"
proof (cases "Decide cs")
  case (Inr ds)
  show ?thesis
    unfolding Inr sum.case using Decide_Inr(1) [OF Inr] Decide_Inr(2) [OF Inr] beats_source by (metis decided_def)
next
  case (Inl e)
  then obtain i where i: "i \<in> set (map c_traffic_id cs)" and one: "decideOne i (candidates_of i cs) = Inl e"
    by (auto simp: Decide_def dest!: decide_each_Inl)
  then have tie: "\<nexists>w. beats w (candidates_of i cs)"
    using beats_decideOne by (metis Inl_Inr_False)
  then have "length (filter (\<lambda>c. c_source c = Max (c_source ` set (candidates_of i cs))) (candidates_of i cs)) \<noteq> 1"
    by (auto simp: beats_Max length_Suc_conv)
  with tie i one Inl decideOne_ambiguous [OF candidates_of_nonempty [OF i], of i] show ?thesis by auto
qed

text \<open>
  C25. Nothing escapes a decision: the suppressed targets of a client are exactly the rule clients named by
  its candidates, each once, except the winner's own. The daemon moves the baselines of just these.
\<close>

theorem Decide_suppresses_losers:
  assumes "Decide cs = Inr ds" and "d \<in> set ds"
  shows "distinct (map materializedKey (d_suppressed d)) \<and>
    set (map materializedKey (d_suppressed d)) =
      set (target_keys (candidates_of (d_traffic_id d) cs)) - set (own_key (d_target d))"
proof -
  obtain w losers where w: "sort_key candidate_order (candidates_of (d_traffic_id d) cs) = w # losers"
    and d: "d = decision_of w losers"
    using Decide_Inr(2) [OF assms] by blast
  have keys: "set (target_keys xs) = (\<Union>c \<in> set xs. set (own_key (c_target c)))" for xs
    by (induction xs) auto
  have "set (candidates_of (d_traffic_id d) cs) = insert w (set losers)"
    by (metis w list.simps(15) set_sort)
  then show ?thesis
    by (simp add: d decision_of_def suppress_distinct suppress_keys keys) auto
qed

section \<open>A concrete client\<close>

text \<open>A client under a single-user rule, a global scope and an exclude.\<close>

definition sample_rc :: "int \<Rightarrow> RuleClient" where
  "sample_rc ruleID = \<lparr>rc_rule_id = ruleID, rc_traffic_id = 7, rc_inbound_id = 1, rc_email = ''a@b'', rc_last_up = 0,
     rc_last_down = 0, rc_rem_up = 0, rc_rem_down = 0, rc_missing_at = None, rc_updated_at = 10\<rparr>"

definition sample_active :: "int \<Rightarrow> Scope option \<Rightarrow> ActiveRuleClient" where
  "sample_active ruleID scope = \<lparr>arc_rule = \<lparr>r_id = ruleID, r_name = [], r_inbound_id = 1, r_email = ''a@b'',
       r_factor_ppm = 1500000, r_state = StateActive, r_created_at = 10, r_updated_at = 10, r_activated_at = Some 10,
       r_paused_at = None, r_disabled_at = None, r_client_count = 0, r_effective_client_count = 0, r_scope = scope\<rparr>,
     arc_client = sample_rc ruleID\<rparr>"

definition sample_scope :: "int \<Rightarrow> Scope" where
  "sample_scope ruleID = \<lparr>sc_rule_id = ruleID, sc_inbound_id = None, sc_limited_only = False,
     sc_include_disabled_clients = False, sc_once = False, sc_created_at = 10, sc_updated_at = 10\<rparr>"

definition sample_exclude :: ExcludePolicy where
  "sample_exclude = \<lparr>ep_id = 4, ep_traffic_id = 7, ep_inbound_id = 1, ep_email = ''a@b'', ep_state = StateActive,
     ep_note = [], ep_created_at = 10, ep_updated_at = 10, ep_activated_at = Some 10, ep_disabled_at = None\<rparr>"

definition sample_candidates :: "Candidate list" where
  "sample_candidates = map rule_candidate [sample_active 1 None, sample_active 2 (Some (sample_scope 2))] @
     [exclude_candidate sample_exclude]"

lemmas sample_decision_defs = sample_candidates_def sample_active_def sample_scope_def sample_exclude_def sample_rc_def
  rule_candidate_def exclude_candidate_def classifyTarget_def

lemma sample_decision:
  "Decide sample_candidates = Inr [decision_of (exclude_candidate sample_exclude)
     (map rule_candidate [sample_active 1 None, sample_active 2 (Some (sample_scope 2))])]"
  by (simp add: Decide_def decideOne_def sample_decision_defs candidate_order_def less_eq_prod_def)

theorem Decide_strict_best_witness:
  "\<exists>d. Decide sample_candidates = Inr [d] \<and> d_traffic_id d = 7 \<and>
    (\<exists>w. beats w (candidates_of 7 sample_candidates) \<and> decided w 7 d)"
proof -
  let ?d = "decision_of (exclude_candidate sample_exclude)
     (map rule_candidate [sample_active 1 None, sample_active 2 (Some (sample_scope 2))])"
  have "d_traffic_id ?d = 7" by (simp add: decision_of_def sample_decision_defs)
  then show ?thesis
    using Decide_strict_best [of sample_candidates] sample_decision by auto
qed

theorem Decide_suppresses_losers_witness:
  "\<exists>d. Decide sample_candidates = Inr [d] \<and> set (map materializedKey (d_suppressed d)) = {(1, 7), (2, 7)}"
proof -
  let ?d = "decision_of (exclude_candidate sample_exclude)
     (map rule_candidate [sample_active 1 None, sample_active 2 (Some (sample_scope 2))])"
  have "set (map materializedKey (d_suppressed ?d)) = {(1, 7), (2, 7)}"
    using Decide_suppresses_losers [OF sample_decision, of ?d]
    by (simp add: decision_of_def candidates_of_def sample_decision_defs materializedKey_def insert_commute)
  with sample_decision show ?thesis by blast
qed

end
