(* ===== verification/XF_Daemon.thy ===== *)
theory XF_Daemon
  imports XF_Reconcile XF_Decision
begin

text \<open>
  \<open>daemon/tick.go\<close> and \<open>daemon/run.go\<close>: one poll. In one transaction the daemon refuses a managed
  panel, reconciles, enrolls clients into persistent scopes, decides which rule each client is under,
  and for each decision reads the client's counters, compares them with the baseline of the last
  tick, adds the extra traffic the factor asks for and records the new baseline.
\<close>

section \<open>Results\<close>

record TickResult =
  tk_active_clients :: int
  tk_reconciled :: int
  tk_enrolled :: int
  tk_enroll_skipped :: int
  tk_applied :: int
  tk_baselined :: int
  tk_rebaselined :: int
  tk_missing :: int
  tk_deferred :: int

definition HasWork :: "TickResult \<Rightarrow> bool" where
  "HasWork r \<longleftrightarrow> 0 < tk_reconciled r \<or> 0 < tk_enrolled r \<or> 0 < tk_enroll_skipped r \<or> 0 < tk_applied r \<or>
     0 < tk_baselined r \<or> 0 < tk_rebaselined r \<or> 0 < tk_missing r \<or> 0 < tk_deferred r"

definition Summary :: "TickResult \<Rightarrow> string" where
  "Summary r = ''active='' @ itoa (tk_active_clients r) @ '' reconciled='' @ itoa (tk_reconciled r) @
     '' enrolled='' @ itoa (tk_enrolled r) @ '' enroll_skipped='' @ itoa (tk_enroll_skipped r) @
     '' applied='' @ itoa (tk_applied r) @ '' baselined='' @ itoa (tk_baselined r) @
     '' rebaselined='' @ itoa (tk_rebaselined r) @ '' missing='' @ itoa (tk_missing r) @
     '' deferred='' @ itoa (tk_deferred r)"

record targetResult =
  tg_applied :: int
  tg_baselined :: int
  tg_rebaselined :: int
  tg_missing :: int
  tg_deferred :: int

definition no_target_result :: targetResult where
  "no_target_result = \<lparr>tg_applied = 0, tg_baselined = 0, tg_rebaselined = 0, tg_missing = 0, tg_deferred = 0\<rparr>"

section \<open>Counter arithmetic\<close>

text \<open>\<open>calculateExtra\<close> multiplies in \<open>big.Int\<close>, so only the quotient can leave the range.\<close>

definition calculateExtra :: "int \<Rightarrow> int \<Rightarrow> int \<Rightarrow> error + int \<times> int" where
  "calculateExtra delta factorExtra remainder =
    (if delta < 0 \<or> factorExtra < 0 \<or> remainder < 0 then Inl (ErrText ''invalid factor input'')
     else
       let v = delta * factorExtra + remainder;
           quotient = go_div v FactorScale; modulo = go_mod v FactorScale
       in if \<not> in_i64 quotient then Inl (ErrText ''factor result overflow'')
          else Inr (quotient, modulo))"

definition counterDelta :: "int \<Rightarrow> int \<Rightarrow> error + int \<times> bool" where
  "counterDelta current last_seen =
    (if current < 0 \<or> last_seen < 0 then Inl (ErrText ''counter value is negative'')
     else if current < last_seen then Inr (0, True)
     else Inr (wrap64 (current - last_seen), False))"

definition safeAdd :: "int \<Rightarrow> int \<Rightarrow> error + int" where
  "safeAdd a b =
    (if 0 < b \<and> wrap64 (MaxInt64 - b) < a then Inl (ErrText ''counter overflow'')
     else if b < 0 \<and> a < wrap64 (MinInt64 - b) then Inl (ErrText ''counter overflow'')
     else Inr (wrap64 (a + b)))"

section \<open>One target\<close>

definition baseline :: "ActiveRuleClient \<Rightarrow> ClientTraffic \<Rightarrow> int \<Rightarrow> int \<Rightarrow> int \<Rightarrow> RuleClient" where
  "baseline target current remUp remDown now =
    \<lparr>rc_rule_id = rc_rule_id (arc_client target), rc_traffic_id = rc_traffic_id (arc_client target),
     rc_inbound_id = 0, rc_email = [], rc_last_up = ct_up current, rc_last_down = ct_down current,
     rc_rem_up = remUp, rc_rem_down = remDown, rc_missing_at = None, rc_updated_at = now\<rparr>"

definition markMissing :: "ActiveRuleClient \<Rightarrow> int \<Rightarrow> targetResult tx" where
  "markMissing target now =
    (let rc = arc_client target in
     bind_tx (MarkRuleClientMissing (rc_rule_id rc) (rc_traffic_id rc) now) (\<lambda>_.
     bind_tx (if rc_missing_at rc = None
         then AddEvent (Some (r_id (arc_rule target))) EventClientMissing (missing_message (rc_traffic_id rc)) now
         else return_tx ()) (\<lambda>_.
     return_tx (no_target_result\<lparr>tg_missing := 1\<rparr>))))"

definition rebaseline :: "ActiveRuleClient \<Rightarrow> ClientTraffic \<Rightarrow> int \<Rightarrow> targetResult tx" where
  "rebaseline target current now =
    bind_tx (UpdateRuleClientBaseline (baseline target current 0 0 now)) (\<lambda>_.
    bind_tx (AddEvent (Some (r_id (arc_rule target))) EventClientReset
      (''traffic id '' @ itoa (rc_traffic_id (arc_client target)) @ '' counters decreased; baseline refreshed'') now) (\<lambda>_.
    return_tx (no_target_result\<lparr>tg_rebaselined := 1\<rparr>)))"

text \<open>
  \<open>beforeCounterUpdate\<close> is nil outside the tests, which set it to race with the update; here it is
  an argument.
\<close>

type_synonym hook = "ActiveRuleClient \<Rightarrow> ClientTraffic \<Rightarrow> unit tx"

definition no_hook :: hook where
  "no_hook target current = return_tx ()"

definition applied_message :: "ActiveRuleClient \<Rightarrow> int \<Rightarrow> int \<Rightarrow> string" where
  "applied_message target extraUp extraDown =
    ''traffic id '' @ itoa (rc_traffic_id (arc_client target)) @ '' inbound '' @
    itoa (rc_inbound_id (arc_client target)) @ '' email '' @ rc_email (arc_client target) @
    '' extra_up='' @ itoa extraUp @ '' extra_down='' @ itoa extraDown"

text \<open>The update itself: compare-and-swap of the counters, the new baseline, the audit event.\<close>

definition applyExtra ::
  "hook \<Rightarrow> ActiveRuleClient \<Rightarrow> ClientTraffic \<Rightarrow> int \<times> int \<Rightarrow> int \<times> int \<Rightarrow> int \<Rightarrow> targetResult tx" where
  "applyExtra hook target current up down now =
    from_result (safeAdd (ct_up current) (fst up)) (\<lambda>newUp.
    from_result (safeAdd (ct_down current) (fst down)) (\<lambda>newDown.
    bind_tx (hook target current) (\<lambda>_.
    bind_tx (UpdateClientCountersCAS current newUp newDown) (\<lambda>swapped.
    if \<not> swapped then fail_tx ErrRace
    else
      bind_tx (UpdateRuleClientBaseline ((baseline target current (snd up) (snd down) now)
        \<lparr>rc_last_up := newUp, rc_last_down := newDown\<rparr>)) (\<lambda>_.
      bind_tx (AddEvent (Some (r_id (arc_rule target))) EventTrafficApply
        (applied_message target (fst up) (fst down)) now) (\<lambda>_.
      return_tx (no_target_result\<lparr>tg_applied := 1\<rparr>)))))))"

text \<open>The client's row is there, has the target's e-mail and its counters have not decreased.\<close>

definition tickDeltas ::
  "hook \<Rightarrow> ActiveRuleClient \<Rightarrow> ClientTraffic \<Rightarrow> int \<Rightarrow> int \<Rightarrow> int \<Rightarrow> targetResult tx" where
  "tickDeltas hook target current rawUpDelta rawDownDelta now =
    (let rc = arc_client target; factor = r_factor_ppm (arc_rule target) in
     if factor = FactorScale then
       (if ct_up current = rc_last_up rc \<and> ct_down current = rc_last_down rc \<and> rc_missing_at rc = None \<and>
           rc_rem_up rc = 0 \<and> rc_rem_down rc = 0
        then return_tx no_target_result
        else
          bind_tx (UpdateRuleClientBaseline (baseline target current 0 0 now)) (\<lambda>_.
          return_tx (no_target_result\<lparr>tg_baselined := 1\<rparr>)))
     else if rawUpDelta = 0 \<and> rawDownDelta = 0 then return_tx no_target_result
     else
       let factorExtra = wrap64 (factor - FactorScale) in
       from_result (calculateExtra rawUpDelta factorExtra (rc_rem_up rc)) (\<lambda>up.
       from_result (calculateExtra rawDownDelta factorExtra (rc_rem_down rc)) (\<lambda>down.
       if fst up = 0 \<and> fst down = 0 then
         bind_tx (UpdateRuleClientBaseline (baseline target current (snd up) (snd down) now)) (\<lambda>_.
         return_tx (no_target_result\<lparr>tg_baselined := 1\<rparr>))
       else applyExtra hook target current up down now)))"

definition tickCurrent :: "hook \<Rightarrow> ActiveRuleClient \<Rightarrow> ClientTraffic \<Rightarrow> int \<Rightarrow> targetResult tx" where
  "tickCurrent hook target current now =
    (if rc_missing_at (arc_client target) \<noteq> None then
       bind_tx (UpdateRuleClientBaseline (baseline target current 0 0 now)) (\<lambda>_.
       bind_tx (AddEvent (Some (r_id (arc_rule target))) EventClientReset
         (''traffic id '' @ itoa (rc_traffic_id (arc_client target)) @ '' returned; baseline refreshed'') now) (\<lambda>_.
       return_tx (no_target_result\<lparr>tg_rebaselined := 1\<rparr>)))
     else
       from_result (counterDelta (ct_up current) (rc_last_up (arc_client target))) (\<lambda>(rawUpDelta, upDecreased).
       from_result (counterDelta (ct_down current) (rc_last_down (arc_client target))) (\<lambda>(rawDownDelta, downDecreased).
       if upDecreased \<or> downDecreased then rebaseline target current now
       else tickDeltas hook target current rawUpDelta rawDownDelta now)))"

definition tickTarget :: "hook \<Rightarrow> ActiveRuleClient \<Rightarrow> int \<Rightarrow> targetResult tx" where
  "tickTarget hook target now =
    attempt (LockClientTraffic (rc_traffic_id (arc_client target))) (\<lambda>r.
    case r of
      Inl err \<Rightarrow>
        if errors_is err ErrNotFound then markMissing target now
        else if errors_is err ErrLocked then return_tx (no_target_result\<lparr>tg_deferred := 1\<rparr>)
        else fail_tx err
    | Inr current \<Rightarrow>
        if ct_email current \<noteq> rc_email (arc_client target) then markMissing target now
        else if ct_inbound_id current \<noteq> rc_inbound_id (arc_client target) then
          bind_tx (AdoptRuleClientInbound (rc_rule_id (arc_client target)) (rc_traffic_id (arc_client target))
            (ct_inbound_id current) now) (\<lambda>_.
          tickCurrent hook
            (target\<lparr>arc_client := (arc_client target)\<lparr>rc_inbound_id := ct_inbound_id current\<rparr>\<rparr>) current now)
        else tickCurrent hook target current now)"

definition refreshSuppressedBaseline :: "int \<Rightarrow> ActiveRuleClient \<Rightarrow> unit \<Rightarrow> unit tx" where
  "refreshSuppressedBaseline now target _ =
    (let rc = arc_client target in
     attempt (ClientTrafficByID (rc_traffic_id rc)) (\<lambda>r.
     case r of
       Inl err \<Rightarrow> if errors_is err ErrNotFound then bind_tx (markMissing target now) (\<lambda>_. return_tx ())
                  else fail_tx err
     | Inr current \<Rightarrow>
         if ct_email current \<noteq> rc_email rc then bind_tx (markMissing target now) (\<lambda>_. return_tx ())
         else
           bind_tx (if ct_inbound_id current \<noteq> rc_inbound_id rc
               then AdoptRuleClientInbound (rc_rule_id rc) (rc_traffic_id rc) (ct_inbound_id current) now
               else return_tx ()) (\<lambda>_.
           UpdateRuleClientBaseline (baseline target current 0 0 now))))"

section \<open>Enrolling clients\<close>

definition enroll_step ::
  "ScopeRule \<Rightarrow> int \<Rightarrow> ClientTraffic \<Rightarrow> int list \<times> int \<times> int \<Rightarrow> (int list \<times> int \<times> int) tx" where
  "enroll_step scope now client = (\<lambda>(seen, enrolled, skipped).
    if ct_id client \<in> set seen then
      bind_tx (AddEvent (Some (sc_rule_id scope)) EventScopeSkip
        (''traffic id '' @ itoa (ct_id client) @ '' skipped; duplicate candidate'') now) (\<lambda>_.
      return_tx (seen, enrolled, skipped + 1))
    else
      let seen = ct_id client # seen in
      bind_tx (RuleClientExists (sc_rule_id scope) (ct_id client)) (\<lambda>exists.
      if exists then return_tx (seen, enrolled, skipped)
      else
        bind_tx (optional (ActiveRuleForTrafficExcept (ct_id client) (sc_rule_id scope))) (\<lambda>conflict.
        case conflict of
          Some c \<Rightarrow>
            bind_tx (AddEventOnce (sc_rule_id scope) EventScopeSkip
              (''traffic id '' @ itoa (ct_id client) @ '' skipped; active rule '' @ itoa (r_id c) @
               '' already targets it'') now) (\<lambda>recorded.
            return_tx (seen, enrolled, if recorded then skipped + 1 else skipped))
        | None \<Rightarrow>
            bind_tx (CreateRuleClient (new_rule_client (sc_rule_id scope) client now)) (\<lambda>_.
            bind_tx (AddEvent (Some (sc_rule_id scope)) EventScopeEnroll
              (''traffic id '' @ itoa (ct_id client) @ '' auto-enrolled email='' @ ct_email client @
               '' inbound='' @ itoa (ct_inbound_id client)) now) (\<lambda>_.
            return_tx (seen, enrolled + 1, skipped))))))"

definition enroll_scope :: "int \<Rightarrow> ScopeRule \<Rightarrow> int \<times> int \<Rightarrow> (int \<times> int) tx" where
  "enroll_scope now scope counts =
    bind_tx (ListClientCandidates \<lparr>cf_inbound_id = sc_inbound_id scope, cf_limited_only = sc_limited_only scope,
      cf_include_disabled_clients = sc_include_disabled_clients scope\<rparr>) (\<lambda>clients.
    bind_tx (for_each clients (enroll_step scope now) ([], fst counts, snd counts)) (\<lambda>(_, enrolled, skipped).
    return_tx (enrolled, skipped)))"

definition reconcileScopes :: "int \<Rightarrow> (int \<times> int) tx" where
  "reconcileScopes now =
    bind_tx ListActivePersistentScopes (\<lambda>scopes. for_each scopes (enroll_scope now) (0, 0))"

section \<open>One tick\<close>

definition add_target :: "TickResult \<Rightarrow> targetResult \<Rightarrow> TickResult" where
  "add_target result step = result\<lparr>tk_active_clients := tk_active_clients result + 1,
     tk_applied := tk_applied result + tg_applied step, tk_baselined := tk_baselined result + tg_baselined step,
     tk_rebaselined := tk_rebaselined result + tg_rebaselined step,
     tk_missing := tk_missing result + tg_missing step, tk_deferred := tk_deferred result + tg_deferred step\<rparr>"

definition decision_step :: "hook \<Rightarrow> int \<Rightarrow> Decision \<Rightarrow> TickResult \<Rightarrow> TickResult tx" where
  "decision_step hook now decision result =
    bind_tx (case d_target decision of
        None \<Rightarrow> return_tx result
      | Some target \<Rightarrow> bind_tx (tickTarget hook target now) (\<lambda>step. return_tx (add_target result step))) (\<lambda>result.
    bind_tx (for_each (d_suppressed decision) (refreshSuppressedBaseline now) ()) (\<lambda>_.
    return_tx result))"

definition tick_candidates ::
  "ActiveRuleClient list \<Rightarrow> ExcludePolicy list \<Rightarrow> OverridePolicy list \<Rightarrow> Candidate list" where
  "tick_candidates targets excludes overrides =
    ActiveRuleCandidates targets @ OverrideCandidatesForActiveTargets overrides targets @
    ExcludeCandidatesForActiveTargets excludes targets"

definition decide_all :: "Decision list tx" where
  "decide_all =
    bind_tx ListActiveRuleClients (\<lambda>targets.
    bind_tx ListActiveExcludes (\<lambda>excludes.
    bind_tx ListActiveOverrides (\<lambda>overrides.
    case Decide (tick_candidates targets excludes overrides) of
      Inr decisions \<Rightarrow> return_tx decisions
    | Inl err \<Rightarrow>
        if errors_is err ErrAmbiguousEffectiveTarget then fail_tx (ConflictError (error_text err))
        else fail_tx err)))"

record TickConfig =
  tc_factor_on_managed_node :: bool
  tc_auto_cleanup :: bool
  tc_retention :: RetentionConfig

definition Tick_body :: "TickConfig \<Rightarrow> hook \<Rightarrow> int \<Rightarrow> TickResult tx" where
  "Tick_body cfg hook clock_ms =
    (let now = clock_ms div 1000 in
     bind_tx (if tc_factor_on_managed_node cfg then return_tx ()
         else bind_tx (PanelRole_tx clock_ms) (\<lambda>role.
           if pr_managed role then fail_tx ErrManagedPanel else return_tx ())) (\<lambda>_.
     bind_tx (ReconcileTx now \<lparr>rq_inbound_id = None, rq_dry_run = False\<rparr>) (\<lambda>reconciled.
     bind_tx (reconcileScopes now) (\<lambda>(enrolled, skipped).
     bind_tx decide_all (\<lambda>decisions.
     for_each decisions (decision_step hook now)
       \<lparr>tk_active_clients = 0, tk_reconciled = rr_reconciled reconciled, tk_enrolled = enrolled,
        tk_enroll_skipped = skipped, tk_applied = 0, tk_baselined = 0, tk_rebaselined = 0, tk_missing = 0,
        tk_deferred = 0\<rparr>)))))"

text \<open>What a runner prints, on its output and its error stream.\<close>

datatype log_line = Out string | Err string

definition cleanup_work :: "CleanupResult \<Rightarrow> bool" where
  "cleanup_work r \<longleftrightarrow> 0 < cr_missing_clients_pruned r \<or> 0 < cr_disabled_rules_pruned r \<or>
     0 < cr_disabled_scopes_pruned r \<or> 0 < cr_inactive_excludes_pruned r \<or>
     0 < cr_inactive_overrides_pruned r \<or> 0 < cr_audit_events_pruned r"

definition cleanup_line :: "CleanupResult \<Rightarrow> string" where
  "cleanup_line r = ''cleanup: missing_clients_pruned='' @ itoa (cr_missing_clients_pruned r) @
     '' disabled_rules_pruned='' @ itoa (cr_disabled_rules_pruned r) @
     '' disabled_scopes_pruned='' @ itoa (cr_disabled_scopes_pruned r) @
     '' inactive_excludes_pruned='' @ itoa (cr_inactive_excludes_pruned r) @
     '' inactive_overrides_pruned='' @ itoa (cr_inactive_overrides_pruned r) @
     '' audit_events_pruned='' @ itoa (cr_audit_events_pruned r) @ '' vacuum_run=false''"

text \<open>\<open>cleanupDurationSeconds\<close> of the daemon is \<open>cleanupSeconds\<close> of the engine, line for line.\<close>

definition cleanupDurationSeconds :: "int \<Rightarrow> int" where
  "cleanupDurationSeconds d = (let seconds = go_div d 1000000000 in if seconds \<le> 0 then 1 else seconds)"

definition runAutoCleanup :: "TickConfig \<Rightarrow> int \<Rightarrow> log_line list tx" where
  "runAutoCleanup cfg now =
    (if \<not> tc_auto_cleanup cfg then return_tx []
     else
       attempt (AutoCleanup \<lparr>co_now = now,
           co_missing_client_grace = cleanupDurationSeconds (rt_missing_client_grace (tc_retention cfg)),
           co_disabled_rule_retention = cleanupDurationSeconds (rt_disabled_rule_retention (tc_retention cfg)),
           co_audit_retention = cleanupDurationSeconds (rt_audit_retention (tc_retention cfg)),
           co_dry_run = False\<rparr>) (\<lambda>r.
       return_tx (case r of
           Inl err \<Rightarrow> [Err (''cleanup: error: '' @ error_text err)]
         | Inr (result, did_run) \<Rightarrow> if did_run \<and> cleanup_work result then [Out (cleanup_line result)] else [])))"

definition Tick :: "TickConfig \<Rightarrow> hook \<Rightarrow> int \<Rightarrow> (TickResult \<times> log_line list) tx" where
  "Tick cfg hook clock_ms =
    attempt (WithImmediateTx (Tick_body cfg hook clock_ms)) (\<lambda>r.
    case r of
      Inl err \<Rightarrow> fail_tx (ErrWrap ''tick aborted and transaction rolled back: '' err [])
    | Inr result \<Rightarrow>
        bind_tx (runAutoCleanup cfg (clock_ms div 1000)) (\<lambda>log. return_tx (result, log)))"

text \<open>\<open>runTick\<close>: \<open>lastTickError\<close> in and out, and what is printed.\<close>

definition runTick :: "TickConfig \<Rightarrow> hook \<Rightarrow> int \<Rightarrow> string \<Rightarrow> World \<Rightarrow> (string \<times> log_line list) \<times> World" where
  "runTick cfg hook clock_ms lastTickError w =
    (case Tick cfg hook clock_ms w of
       (Inl err, w') \<Rightarrow>
         (let message = error_text err in
          if message \<noteq> lastTickError then ((message, [Err (''tick: error: '' @ message)]), w')
          else ((lastTickError, []), w'))
     | (Inr (result, log), w') \<Rightarrow>
         (([], log @ (if lastTickError \<noteq> [] then [Out ''tick: recovered''] else []) @
             (if HasWork result then [Out (''tick: '' @ Summary result)] else [])), w'))"

end
