(* ===== verification/XF_Frame.thy ===== *)
theory XF_Frame
  imports XF_Bulk XF_PolicyOps XF_Daemon
begin

text \<open>
  Who writes what. No command and no clean-up writes the panel's tables; the daemon's tick writes the
  two counters of \<open>client_traffics\<close> and nothing else there; dry runs write nothing at all.
\<close>

section \<open>Views of the database\<close>

definition panel :: "Database \<Rightarrow> TrafficRow list \<times> (int \<times> string) list \<times> (int \<times> int) list \<times> enable_value list \<times> int list" where
  "panel d = (t_client_traffics d, t_clients d, t_client_inbounds d, t_nodes d, t_client_global_traffics d)"

definition identity_of :: "TrafficRow \<Rightarrow> int \<times> int \<times> enable_value \<times> string \<times> int" where
  "identity_of t = (tr_id t, tr_inbound_id t, tr_enable t, tr_email t, tr_total t)"

text \<open>Everything of the panel but the counters.\<close>

definition panel_identity :: "Database \<Rightarrow> (int \<times> int \<times> enable_value \<times> string \<times> int) list \<times> (int \<times> string) list \<times>
    (int \<times> int) list \<times> enable_value list \<times> int list" where
  "panel_identity d = (map identity_of (t_client_traffics d), t_clients d, t_client_inbounds d, t_nodes d,
     t_client_global_traffics d)"

lemma panel_simps [simp]:
  "panel (d\<lparr>t_rules := a\<rparr>) = panel d" "panel (d\<lparr>t_rule_clients := b\<rparr>) = panel d"
  "panel (d\<lparr>t_scopes := c\<rparr>) = panel d" "panel (d\<lparr>t_excludes := e\<rparr>) = panel d"
  "panel (d\<lparr>t_overrides := f\<rparr>) = panel d" "panel (d\<lparr>t_events := g\<rparr>) = panel d"
  "panel (d\<lparr>t_meta := h\<rparr>) = panel d" "panel (d\<lparr>t_seq_rules := s\<rparr>) = panel d"
  "panel (d\<lparr>t_seq_excludes := s\<rparr>) = panel d" "panel (d\<lparr>t_seq_overrides := s\<rparr>) = panel d"
  "panel (d\<lparr>t_seq_events := s\<rparr>) = panel d" "panel (contents d) = panel d"
  by (simp_all add: panel_def contents_def)

lemma panel_identity_simps [simp]:
  "panel_identity (d\<lparr>t_rules := a\<rparr>) = panel_identity d" "panel_identity (d\<lparr>t_rule_clients := b\<rparr>) = panel_identity d"
  "panel_identity (d\<lparr>t_scopes := c\<rparr>) = panel_identity d" "panel_identity (d\<lparr>t_excludes := e\<rparr>) = panel_identity d"
  "panel_identity (d\<lparr>t_overrides := f\<rparr>) = panel_identity d" "panel_identity (d\<lparr>t_events := g\<rparr>) = panel_identity d"
  "panel_identity (d\<lparr>t_meta := h\<rparr>) = panel_identity d" "panel_identity (d\<lparr>t_seq_rules := s\<rparr>) = panel_identity d"
  "panel_identity (d\<lparr>t_seq_excludes := s\<rparr>) = panel_identity d"
  "panel_identity (d\<lparr>t_seq_overrides := s\<rparr>) = panel_identity d"
  "panel_identity (d\<lparr>t_seq_events := s\<rparr>) = panel_identity d" "panel_identity (contents d) = panel_identity d"
  by (simp_all add: panel_identity_def contents_def)

text \<open>Keeping the panel is the stronger of the two.\<close>

lemma keeps_panel_identity: "keeps panel m \<Longrightarrow> keeps panel_identity m"
  by (auto simp: keeps_def panel_def panel_identity_def)

section \<open>Programs that keep a view of the panel\<close>

lemma keeps_described [keeps_intro]: "keeps k m \<Longrightarrow> keeps k (described a m)"
  unfolding described_def by (intro keeps_intro)

lemma keeps_optional [keeps_intro]: "keeps k m \<Longrightarrow> keeps k (optional m)"
  unfolding optional_def by (intro keeps_intro)

lemma keeps_from_result [keeps_intro]: "(\<And>x. keeps k (f x)) \<Longrightarrow> keeps k (from_result r f)"
  unfolding from_result_def by (intro keeps_intro)

lemma keeps_panel_tx [keeps_intro]: "keeps panel m \<Longrightarrow> keeps panel (WithImmediateTx m)"
  by (rule keeps_WithImmediateTx) simp_all

lemma keeps_GetMetaInt64 [keeps_intro]: "keeps k (GetMetaInt64 key)"
  unfolding GetMetaInt64_def by (rule keeps_with_driver, rule keeps_statement) (auto split: option.splits sum.splits prod.splits)

lemma keeps_panel_cleanup [keeps_intro]:
  "keeps panel (SetMetaInt64 key v)" "keeps panel (Cleanup_tx opts)"
  unfolding SetMetaInt64_def upsert_meta_def Cleanup_tx_def markMismatchedRuleClients_def mark_step_def
    pruneMissingRuleClients_def pruneDisabledRules_def delete_rule_def pruneInactiveExcludes_def
    pruneInactiveOverrides_def pruneAuditEvents_def Let_def
  by (intro keeps_intro; simp)+

lemma keeps_panel_rules [keeps_intro]:
  "keeps panel (Enable req now)" "keeps panel (transition sel ss to now)" "keeps panel (Disable sel now)"
  "keeps panel (Pause sel now)" "keeps panel (Resume sel now)"
  unfolding Enable_def Enable_body_def Disable_def Pause_def transition_def transition_body_def Resume_def Resume_body_def
  by (intro keeps_intro; simp)+

lemma keeps_panel_reconcile [keeps_intro]: "keeps panel (ReconcileTx now req)"
proof -
  have adopt: "keeps panel (adoptSingleRuleIntoScope s r c now)" for s r c
    unfolding adoptSingleRuleIntoScope_def by (intro keeps_intro; simp)
  have supersede: "keeps panel (adoptOrSupersede s r c now dry)" for s r c dry
    unfolding adoptOrSupersede_def by (intro keeps_intro adopt; simp)
  have scope: "keeps panel (compatibleScopeForClient ss r c)" for ss r c
    by (induction ss r c rule: compatibleScopeForClient.induct)
      (auto simp: scopeMatchesClient_def simp del: return_tx_run intro!: keeps_intro)
  have orphan: "keeps panel (orphanRule r now dry why)" for r dry why
    unfolding orphanRule_def by (intro keeps_intro; simp)
  have missing: "keeps panel (markRuleClientMissing i rc now dry)" for i rc dry
    unfolding markRuleClientMissing_def by (intro keeps_intro; simp)
  have current: "keeps panel (reconcileWithCurrent r ss now dry rc c rep)" for r ss dry rc c rep
    unfolding reconcileWithCurrent_def reconcileFoundClient_def
    by (intro keeps_intro supersede scope orphan missing; simp)
  have single: "keeps panel (reconcileSingleRule r ss now dry)" for r ss dry
    unfolding reconcileSingleRule_def reconcileReplaced_def by (intro keeps_intro orphan missing current; simp)
  have policies: "keeps panel (reconcilePolicies req now)" for req
    unfolding reconcilePolicies_def repair_exclude_def repair_override_def resolvePolicyTraffic_def policy_selected_def
    by (intro keeps_intro; simp)
  show ?thesis
    unfolding ReconcileTx_def by (intro keeps_intro single policies; simp)
qed

lemma keeps_panel_bulk [keeps_intro]:
  "keeps panel (EnableAll erq now)" "keeps panel (DisableAll inb now)" "keeps panel (PauseAll inb now)"
  "keeps panel (ResumeAll inb now)" "keeps panel (Reconcile req now)"
proof -
  have adopt: "keeps panel (adoptSingleRuleIntoScope s r c now)" for s r c
    unfolding adoptSingleRuleIntoScope_def by (intro keeps_intro; simp)
  show "keeps panel (EnableAll erq now)"
    unfolding EnableAll_def EnableAll_body_def enableAllSnapshot_def enableAllPersistent_def snapshot_select_def
      enroll_candidate_def create_scope_rule_def Let_def
    by (intro keeps_intro adopt; simp)
  show "keeps panel (DisableAll inb now)" "keeps panel (PauseAll inb now)"
    unfolding DisableAll_def PauseAll_def bulkTransition_def bulk_step_def by (intro keeps_intro; simp)+
  show "keeps panel (ResumeAll inb now)"
    unfolding ResumeAll_def resume_step_def by (intro keeps_intro; simp)
  show "keeps panel (Reconcile req now)"
    unfolding Reconcile_def by (intro keeps_intro)
qed

lemma keeps_panel_policies [keeps_intro]:
  "keeps panel (Exclude req now)" "keeps panel (Unexclude req now)" "keeps panel (Override req now)"
  "keeps panel (RemoveOverride req now)"
  unfolding Exclude_def Exclude_body_def Unexclude_def Unexclude_body_def Override_def Override_body_def
    RemoveOverride_def RemoveOverride_body_def refresh_if_present_def
  by (intro keeps_intro; simp)+

lemma keeps_panel_store_cleanup [keeps_intro]:
  "keeps panel (Cleanup opts)" "keeps panel (AutoCleanup opts)" "keeps panel Vacuum"
  "keeps panel (engine_Cleanup cfg dry old vac now)"
  unfolding engine_Cleanup_def Cleanup_def AutoCleanup_def auto_cleanup_body_def Vacuum_def Let_def
  by (intro keeps_intro)+

section \<open>The tick\<close>

lemma identity_of_counters [simp]: "identity_of (t\<lparr>tr_up := u, tr_down := v\<rparr>) = identity_of t"
  by (simp add: identity_of_def)

lemma keeps_identity_CAS: "keeps panel_identity (UpdateClientCountersCAS c u v)"
  unfolding UpdateClientCountersCAS_def
  by (intro keeps_intro) (auto simp: panel_identity_def intro!: map_update_where_keep)

lemma keeps_markMissing: "keeps panel (markMissing target now)"
  unfolding markMissing_def by (intro keeps_intro; simp)

lemma keeps_suppressed: "keeps panel (refreshSuppressedBaseline now target u)"
  unfolding refreshSuppressedBaseline_def by (intro keeps_intro keeps_markMissing; simp)

lemma keeps_identity_tickTarget: "keeps panel_identity (tickTarget no_hook target now)"
  unfolding tickTarget_def tickCurrent_def tickDeltas_def applyExtra_def rebaseline_def no_hook_def
  by (intro keeps_intro keeps_identity_CAS keeps_panel_identity [OF keeps_markMissing]; simp)

lemma keeps_reconcileScopes: "keeps panel (reconcileScopes now)"
  unfolding reconcileScopes_def enroll_scope_def enroll_step_def by (intro keeps_intro; simp)

lemma keeps_decide_all: "keeps k decide_all"
  unfolding decide_all_def by (intro keeps_intro)

lemma keeps_identity_decision: "keeps panel_identity (decision_step no_hook now d r)"
  unfolding decision_step_def
  by (intro keeps_intro keeps_identity_tickTarget keeps_panel_identity [OF keeps_suppressed])

lemma keeps_identity_Tick: "keeps panel_identity (Tick cfg no_hook clock)"
proof -
  have body: "keeps panel_identity (Tick_body cfg no_hook clock)"
    unfolding Tick_body_def
    by (intro keeps_intro keeps_identity_decision keeps_decide_all keeps_panel_identity [OF keeps_reconcileScopes]
        keeps_panel_identity [OF keeps_panel_reconcile])
  have auto: "keeps panel_identity (runAutoCleanup cfg now)" for now
    unfolding runAutoCleanup_def
    by (intro keeps_intro keeps_panel_identity [OF keeps_panel_store_cleanup(2)])
  show ?thesis
    unfolding Tick_def by (intro keeps_intro auto keeps_WithImmediateTx body) simp
qed

section \<open>Dry runs\<close>

lemma keeps_all_WithImmediateTx:
  assumes "keeps (\<lambda>d. d) fn"
  shows "keeps (\<lambda>d. d) (WithImmediateTx fn)"
proof -
  have restored: "w_db (rollback w w1) = w_db w" if "w_db w1 = w_db w" for w w1
    using that by (simp add: rollback_def)
  have "keeps (\<lambda>d. d) (run_body a fn)" for a
    by (rule keepsI) (auto simp: run_body_def restored split: prod.splits sum.splits if_splits
        dest!: conn_call_db keepsD [OF assms])
  then show ?thesis
    unfolding WithImmediateTx_def by (intro keeps_intro)
qed

lemma keeps_all_cleanup:
  "keeps (\<lambda>d. d) (markMismatchedRuleClients now True)" "keeps (\<lambda>d. d) (pruneMissingRuleClients c now True)"
  "keeps (\<lambda>d. d) (pruneDisabledRules c now True)" "keeps (\<lambda>d. d) (pruneInactiveExcludes c now True)"
  "keeps (\<lambda>d. d) (pruneInactiveOverrides c now True)" "keeps (\<lambda>d. d) (pruneAuditEvents c True)"
  unfolding markMismatchedRuleClients_def mark_step_def pruneMissingRuleClients_def pruneDisabledRules_def
    pruneInactiveExcludes_def pruneInactiveOverrides_def pruneAuditEvents_def if_True simp_thms
  by (intro keeps_intro)+

lemma keeps_all_Cleanup_tx: "co_dry_run opts \<Longrightarrow> keeps (\<lambda>d. d) (Cleanup_tx opts)"
  unfolding Cleanup_tx_def Let_def
  by (simp only: simp_thms) (intro keeps_intro keeps_all_cleanup)

lemma keeps_all_ReconcileTx:
  assumes "rq_dry_run req"
  shows "keeps (\<lambda>d. d) (ReconcileTx now req)"
proof -
  have supersede: "keeps (\<lambda>d. d) (adoptOrSupersede s r c now True)" for s r c
    unfolding adoptOrSupersede_def if_True by (intro keeps_intro)
  have scope: "keeps (\<lambda>d. d) (compatibleScopeForClient ss r c)" for ss r c
    by (induction ss r c rule: compatibleScopeForClient.induct)
      (auto simp: scopeMatchesClient_def simp del: return_tx_run intro!: keeps_intro)
  have orphan: "keeps (\<lambda>d. d) (orphanRule r now True why)" for r why
    unfolding orphanRule_def if_True by (intro keeps_intro)
  have missing: "keeps (\<lambda>d. d) (markRuleClientMissing i rc now True)" for i rc
    unfolding markRuleClientMissing_def simp_thms if_True by (intro keeps_intro)
  have current: "keeps (\<lambda>d. d) (reconcileWithCurrent r ss now True rc c rep)" for r ss rc c rep
    unfolding reconcileWithCurrent_def reconcileFoundClient_def simp_thms if_True if_False
    by (intro keeps_intro supersede scope orphan missing)
  have single: "keeps (\<lambda>d. d) (reconcileSingleRule r ss now True)" for r ss
    unfolding reconcileSingleRule_def reconcileReplaced_def if_True by (intro keeps_intro orphan missing current)
  have policies: "keeps (\<lambda>d. d) (reconcilePolicies req now)"
    unfolding reconcilePolicies_def repair_exclude_def repair_override_def resolvePolicyTraffic_def policy_selected_def
    using assms by (simp only: if_True) (intro keeps_intro)
  show ?thesis
    unfolding ReconcileTx_def using assms by (simp only:) (intro keeps_intro single policies)
qed

lemma keeps_snd: "keeps k m \<Longrightarrow> k (w_db (snd (m w))) = k (w_db w)"
  by (cases "m w") (auto dest: keepsD)

text \<open>
  A dry run of \<open>Reconcile\<close> or \<open>Cleanup\<close> leaves every table and every identifier sequence exactly
  as it was, whether it succeeds or fails and whatever the database driver does.
\<close>

theorem dry_runs_write_nothing:
  "w_db (snd (Reconcile \<lparr>rq_inbound_id = inb, rq_dry_run = True\<rparr> now w)) = w_db w \<and>
   w_db (snd (Cleanup (opts\<lparr>co_dry_run := True\<rparr>) w)) = w_db w"
  unfolding Reconcile_def Cleanup_def
  by (intro conjI keeps_snd [where k = "\<lambda>d. d"] keeps_all_WithImmediateTx keeps_all_ReconcileTx keeps_all_Cleanup_tx) simp_all

end
