(* ===== verification/XF_Metering.thy ===== *)
theory XF_Metering
  imports XF_Frame
begin

text \<open>
  What the daemon charges. The arithmetic of one counter is stated as a locale, \<open>metered\<close>, whose
  laws \<open>calculateExtra\<close> satisfies; \<open>tickTarget\<close> is then shown to be that meter, run on the two counters
  of a client's row and on its baseline, and nothing else.
\<close>

section \<open>Arithmetic\<close>

lemma FactorScale_pos [simp]: "0 < FactorScale" "FactorScale \<noteq> 0" "0 \<le> FactorScale"
  by (simp_all add: FactorScale_def)

lemma div_mod_split:
  fixes b q r v :: int
  assumes "0 < b"
  shows "v div b = q \<and> v mod b = r \<longleftrightarrow> q * b + r = v \<and> 0 \<le> r \<and> r < b"
  using assms int_div_pos_eq [of v b q r] int_mod_pos_eq [of v b q r] by (auto simp: mult.commute [of b q])

lemma calculateExtra_eq:
  "calculateExtra delta x remainder =
    (if delta < 0 \<or> x < 0 \<or> remainder < 0 then Inl (ErrText ''invalid factor input'')
     else if MaxInt64 < (delta * x + remainder) div FactorScale then Inl (ErrText ''factor result overflow'')
     else Inr ((delta * x + remainder) div FactorScale, (delta * x + remainder) mod FactorScale))"
proof (cases "delta < 0 \<or> x < 0 \<or> remainder < 0")
  case False
  define v where "v = delta * x + remainder"
  have v: "0 \<le> v" using False by (simp add: v_def)
  then have "0 \<le> v div FactorScale" by (simp add: pos_imp_zdiv_nonneg_iff)
  with v False show ?thesis
    by (simp add: calculateExtra_def v_def [symmetric] Let_def go_div_nonneg go_mod_nonneg in_i64_def
        MinInt64_def not_le)
qed (simp add: calculateExtra_def)

text \<open>
  C28. The extra traffic of one counter is exact: \<open>calculateExtra\<close> succeeds precisely when its inputs are
  not negative and the whole part fits an \<open>int64\<close> (the product itself may not), and then what it hands
  out and what it keeps for the next tick add up to \<open>delta * factorExtra + remainder\<close> millionths, with
  less than one byte kept.
\<close>

theorem calculateExtra_exact:
  "calculateExtra delta x remainder = Inr (extra, left) \<longleftrightarrow>
    0 \<le> delta \<and> 0 \<le> x \<and> 0 \<le> remainder \<and> extra \<le> MaxInt64 \<and>
    extra * FactorScale + left = delta * x + remainder \<and> 0 \<le> left \<and> left < FactorScale"
proof -
  let ?v = "delta * x + remainder"
  have "?v div FactorScale = extra \<and> ?v mod FactorScale = left \<longleftrightarrow>
      extra * FactorScale + left = ?v \<and> 0 \<le> left \<and> left < FactorScale"
    by (rule div_mod_split) simp
  then show ?thesis by (auto simp: calculateExtra_eq not_less)
qed

lemma counterDelta_ok: "0 \<le> l \<Longrightarrow> l \<le> c \<Longrightarrow> in_i64 c \<Longrightarrow> counterDelta c l = Inr (c - l, False)"
  by (simp add: counterDelta_def in_i64_bounds)

lemma counterDelta_decreased: "0 \<le> c \<Longrightarrow> c < l \<Longrightarrow> counterDelta c l = Inr (0, True)"
  by (simp add: counterDelta_def)

lemma safeAdd_ok: "0 \<le> a \<Longrightarrow> 0 \<le> b \<Longrightarrow> a + b \<le> MaxInt64 \<Longrightarrow> safeAdd a b = Inr (a + b)"
  by (simp add: safeAdd_def in_i64_bounds MaxInt64_def)

lemma safeAdd_overflow:
  "0 \<le> a \<Longrightarrow> in_i64 a \<Longrightarrow> in_i64 b \<Longrightarrow> MaxInt64 < a + b \<Longrightarrow> safeAdd a b = Inl (ErrText ''counter overflow'')"
  by (simp add: safeAdd_def in_i64_bounds MaxInt64_def)

text \<open>
  \<open>safeAdd\<close> is addition that reports overflow instead of wrapping: on \<open>int64\<close> arguments it returns the
  mathematical sum exactly when that sum is an \<open>int64\<close>, and an error otherwise.
\<close>

theorem safeAdd_exact:
  assumes "in_i64 a" and "in_i64 b"
  shows "safeAdd a b = (if in_i64 (a + b) then Inr (a + b) else Inl (ErrText ''counter overflow''))"
proof -
  have "wrap64 (MaxInt64 - b) = MaxInt64 - b" if "0 < b"
    using that assms by (simp add: in_i64_bounds MaxInt64_def)
  moreover have "wrap64 (MinInt64 - b) = MinInt64 - b" if "b < 0"
    using that assms by (simp add: in_i64_bounds MinInt64_def)
  ultimately show ?thesis
    using assms by (auto simp: safeAdd_def in_i64_def MaxInt64_def MinInt64_def)
qed

section \<open>The meter of one counter\<close>

text \<open>
  A metered counter has the value the panel shows, the value at the last tick and the millionths not
  yet handed out. \<open>extra x delta rem\<close> is what one tick hands out and keeps; the two laws say that
  nothing is lost and that what is kept is less than one unit of \<open>scale\<close>.
\<close>

record Counter =
  cn_value :: int
  cn_last :: int
  cn_rem :: int

definition use_counter :: "int \<Rightarrow> Counter \<Rightarrow> Counter" where
  "use_counter d c = c\<lparr>cn_value := cn_value c + d\<rparr>"

locale metered =
  fixes extra :: "int \<Rightarrow> int \<Rightarrow> int \<Rightarrow> int \<times> int" and scale :: int
  assumes scale_pos: "0 < scale"
    and conserved: "0 \<le> delta \<Longrightarrow> 0 \<le> x \<Longrightarrow> 0 \<le> r \<Longrightarrow> extra delta x r = (e, r') \<Longrightarrow> e * scale + r' = delta * x + r"
    and kept: "0 \<le> delta \<Longrightarrow> 0 \<le> x \<Longrightarrow> 0 \<le> r \<Longrightarrow> extra delta x r = (e, r') \<Longrightarrow> 0 \<le> r' \<and> r' < scale"
begin

definition poll :: "int \<Rightarrow> Counter \<Rightarrow> Counter" where
  "poll x c = (let (e, r) = extra (cn_value c - cn_last c) x (cn_rem c)
     in \<lparr>cn_value = cn_value c + e, cn_last = cn_value c + e, cn_rem = r\<rparr>)"

definition settled :: "Counter \<Rightarrow> bool" where
  "settled c \<longleftrightarrow> cn_value c = cn_last c \<and> 0 \<le> cn_rem c \<and> cn_rem c < scale"

lemma poll_parts:
  assumes "cn_last c \<le> cn_value c" and "0 \<le> x" and "0 \<le> cn_rem c"
  shows "cn_value (poll x c) = cn_value c + ((cn_value c - cn_last c) * x + cn_rem c) div scale"
    and "cn_rem (poll x c) = ((cn_value c - cn_last c) * x + cn_rem c) mod scale"
    and "cn_last (poll x c) = cn_value (poll x c)"
proof -
  obtain e r where er: "extra (cn_value c - cn_last c) x (cn_rem c) = (e, r)" by fastforce
  with conserved [of "cn_value c - cn_last c" x "cn_rem c" e r] kept [of "cn_value c - cn_last c" x "cn_rem c" e r] assms
  have v: "e * scale + r = (cn_value c - cn_last c) * x + cn_rem c" and "0 \<le> r" and "r < scale" by auto
  then have "((cn_value c - cn_last c) * x + cn_rem c) div scale = e"
    and "((cn_value c - cn_last c) * x + cn_rem c) mod scale = r"
    using scale_pos by (auto simp flip: v)
  then show "cn_value (poll x c) = cn_value c + ((cn_value c - cn_last c) * x + cn_rem c) div scale"
    and "cn_rem (poll x c) = ((cn_value c - cn_last c) * x + cn_rem c) mod scale"
    and "cn_last (poll x c) = cn_value (poll x c)"
    by (simp_all add: poll_def er)
qed

lemma poll_settled: "cn_last c \<le> cn_value c \<Longrightarrow> 0 \<le> x \<Longrightarrow> 0 \<le> cn_rem c \<Longrightarrow> settled (poll x c)"
  using scale_pos by (simp add: settled_def poll_parts)

lemma poll_idle: "settled c \<Longrightarrow> 0 \<le> x \<Longrightarrow> poll x c = c"
  by (rule Counter.equality) (simp_all add: settled_def poll_parts)

text \<open>However the traffic is cut into polls, the total is charged once and exactly.\<close>

lemma polls_total:
  assumes "settled c" and "0 \<le> x" and "\<forall>d \<in> set ds. 0 \<le> d"
  shows "settled (fold (\<lambda>d. poll x \<circ> use_counter d) ds c)"
    and "cn_value (fold (\<lambda>d. poll x \<circ> use_counter d) ds c) * scale + cn_rem (fold (\<lambda>d. poll x \<circ> use_counter d) ds c) =
      (cn_value c + sum_list ds) * scale + sum_list ds * x + cn_rem c"
proof -
  have "settled (fold (\<lambda>d. poll x \<circ> use_counter d) ds c) \<and>
      cn_value (fold (\<lambda>d. poll x \<circ> use_counter d) ds c) * scale + cn_rem (fold (\<lambda>d. poll x \<circ> use_counter d) ds c) =
      (cn_value c + sum_list ds) * scale + sum_list ds * x + cn_rem c"
    using assms
  proof (induction ds arbitrary: c)
    case (Cons d ds)
    define c' where "c' = poll x (use_counter d c)"
    have pre: "cn_last (use_counter d c) \<le> cn_value (use_counter d c)" "0 \<le> cn_rem (use_counter d c)"
      using Cons.prems by (auto simp: use_counter_def settled_def)
    then have "settled c'" using Cons.prems by (simp add: c'_def poll_settled)
    moreover have "cn_value c' * scale + cn_rem c' = (cn_value c + d) * scale + d * x + cn_rem c"
      using Cons.prems pre
      by (simp add: c'_def poll_parts use_counter_def settled_def algebra_simps minus_mod_eq_mult_div [symmetric])
    ultimately show ?case using Cons.IH [of c'] Cons.prems by (simp add: c'_def [symmetric] algebra_simps)
  qed simp
  then show "settled (fold (\<lambda>d. poll x \<circ> use_counter d) ds c)"
    and "cn_value (fold (\<lambda>d. poll x \<circ> use_counter d) ds c) * scale + cn_rem (fold (\<lambda>d. poll x \<circ> use_counter d) ds c) =
      (cn_value c + sum_list ds) * scale + sum_list ds * x + cn_rem c" by auto
qed

end

text \<open>The whole and the rest that \<open>calculateExtra\<close> computes, before its range check.\<close>

definition extra_of :: "int \<Rightarrow> int \<Rightarrow> int \<Rightarrow> int \<times> int" where
  "extra_of delta x r = ((delta * x + r) div FactorScale, (delta * x + r) mod FactorScale)"

lemma calculateExtra_extra_of:
  "calculateExtra delta x r = Inr p \<Longrightarrow> extra_of delta x r = p"
  by (auto simp: calculateExtra_eq extra_of_def split: if_splits)

interpretation meter: metered extra_of FactorScale
  by unfold_locales (auto simp: extra_of_def)


section \<open>The two counters of a client\<close>

text \<open>
  What a tick makes of one counter: \<open>rebase\<close> says that the baseline is taken anew (the client was
  missing, or a counter decreased); a factor of 1 charges nothing and keeps nothing.
\<close>

definition charge :: "bool \<Rightarrow> int \<Rightarrow> Counter \<Rightarrow> Counter" where
  "charge rebase ppm c =
    (if rebase \<or> ppm = FactorScale then \<lparr>cn_value = cn_value c, cn_last = cn_value c, cn_rem = 0\<rparr>
     else
       let v = (cn_value c - cn_last c) * (ppm - FactorScale) + cn_rem c in
       \<lparr>cn_value = cn_value c + v div FactorScale, cn_last = cn_value c + v div FactorScale,
        cn_rem = v mod FactorScale\<rparr>)"

lemma charge_poll: "ppm \<noteq> FactorScale \<Longrightarrow> charge False ppm c = meter.poll (ppm - FactorScale) c"
  by (simp add: charge_def meter.poll_def extra_of_def Let_def)

definition up_counter :: "TrafficRow \<Rightarrow> RuleClient \<Rightarrow> Counter" where
  "up_counter t rc = \<lparr>cn_value = tr_up t, cn_last = rc_last_up rc, cn_rem = rc_rem_up rc\<rparr>"

definition down_counter :: "TrafficRow \<Rightarrow> RuleClient \<Rightarrow> Counter" where
  "down_counter t rc = \<lparr>cn_value = tr_down t, cn_last = rc_last_down rc, cn_rem = rc_rem_down rc\<rparr>"

definition rebases :: "TrafficRow \<Rightarrow> RuleClient \<Rightarrow> bool" where
  "rebases t rc \<longleftrightarrow> rc_missing_at rc \<noteq> None \<or> tr_up t < rc_last_up rc \<or> tr_down t < rc_last_down rc"

definition new_up :: "ActiveRuleClient \<Rightarrow> TrafficRow \<Rightarrow> Counter" where
  "new_up target t = charge (rebases t (arc_client target)) (r_factor_ppm (arc_rule target))
     (up_counter t (arc_client target))"

definition new_down :: "ActiveRuleClient \<Rightarrow> TrafficRow \<Rightarrow> Counter" where
  "new_down target t = charge (rebases t (arc_client target)) (r_factor_ppm (arc_rule target))
     (down_counter t (arc_client target))"

text \<open>
  The target's rows in the database (its baseline as it was read, but perhaps with a later time
  stamp), and the ranges an \<open>int64\<close> column of counters has.
\<close>

definition own_row :: "ActiveRuleClient \<Rightarrow> TrafficRow \<Rightarrow> bool" where
  "own_row target s \<longleftrightarrow> tr_id s = rc_traffic_id (arc_client target)"

definition own_baseline :: "ActiveRuleClient \<Rightarrow> RuleClient \<Rightarrow> bool" where
  "own_baseline target = is_rc (rc_rule_id (arc_client target)) (rc_traffic_id (arc_client target))"

definition tracked :: "Database \<Rightarrow> ActiveRuleClient \<Rightarrow> TrafficRow \<Rightarrow> bool" where
  "tracked d target t \<longleftrightarrow> filter (own_row target) (t_client_traffics d) = [t] \<and>
     (\<exists>u. filter (own_baseline target) (t_rule_clients d) = [(arc_client target)\<lparr>rc_updated_at := u\<rparr>]) \<and>
     tr_email t = rc_email (arc_client target)"

definition billable :: "ActiveRuleClient \<Rightarrow> TrafficRow \<Rightarrow> bool" where
  "billable target t \<longleftrightarrow>
     0 \<le> tr_up t \<and> 0 \<le> tr_down t \<and> in_i64 (tr_up t) \<and> in_i64 (tr_down t) \<and>
     0 \<le> rc_last_up (arc_client target) \<and> 0 \<le> rc_last_down (arc_client target) \<and>
     0 \<le> rc_rem_up (arc_client target) \<and> rc_rem_up (arc_client target) < FactorScale \<and>
     0 \<le> rc_rem_down (arc_client target) \<and> rc_rem_down (arc_client target) < FactorScale \<and>
     FactorScale \<le> r_factor_ppm (arc_rule target) \<and> in_i64 (r_factor_ppm (arc_rule target)) \<and>
     cn_value (new_up target t) \<le> MaxInt64 \<and> cn_value (new_down target t) \<le> MaxInt64"

definition available :: "World \<Rightarrow> int \<Rightarrow> bool" where
  "available w trafficID \<longleftrightarrow> healthy w \<and> (w_driver w = DriverPostgres \<longrightarrow> trafficID \<notin> set (w_locked w))"

text \<open>Everything outside the counters, the baselines and the audit log.\<close>

definition rest_of :: "Database \<Rightarrow> Database" where
  "rest_of d = d\<lparr>t_client_traffics := [], t_rule_clients := [], t_events := [], t_seq_events := 0\<rparr>"

definition polled :: "ActiveRuleClient \<Rightarrow> TrafficRow \<Rightarrow> Database \<Rightarrow> Database \<Rightarrow> bool" where
  "polled target t d d' \<longleftrightarrow>
    (let t' = t\<lparr>tr_up := cn_value (new_up target t), tr_down := cn_value (new_down target t)\<rparr>;
         rc = arc_client target in
     t_client_traffics d' = update_where (own_row target) (\<lambda>_. t') (t_client_traffics d) \<and>
     rest_of d' = rest_of d \<and>
     (\<exists>rc'. t_rule_clients d' = update_where (own_baseline target) (\<lambda>_. rc') (t_rule_clients d) \<and>
        up_counter t' rc' = new_up target t \<and> down_counter t' rc' = new_down target t \<and>
        rc_missing_at rc' = None \<and> rc_rule_id rc' = rc_rule_id rc \<and> rc_traffic_id rc' = rc_traffic_id rc \<and>
        rc_email rc' = rc_email rc \<and> rc_inbound_id rc' = tr_inbound_id t))"

section \<open>Evaluating the statements\<close>

lemma rest_of_event [simp]: "rest_of (insert_event r e m now d) = rest_of d"
  by (simp add: rest_of_def insert_event_def Let_def)

lemma rest_of_updates [simp]:
  "rest_of (d\<lparr>t_rule_clients := v\<rparr>) = rest_of d" "rest_of (d\<lparr>t_client_traffics := u\<rparr>) = rest_of d"
  by (simp_all add: rest_of_def)

lemma LockClientTraffic_run:
  assumes "available w (rc_traffic_id (arc_client target))" and "tracked (w_db w) target t"
  shows "LockClientTraffic (rc_traffic_id (arc_client target)) w = (Inr (scan_client (w_driver w) t), w)"
proof -
  have t: "filter (own_row target) (t_client_traffics (w_db w)) = [t]" using assms(2) by (simp add: tracked_def)
  have none: "filter (\<lambda>s. tr_id s = rc_traffic_id (arc_client target) \<and> tr_id s \<notin> set skip) (t_client_traffics (w_db w)) = [t]"
    if "rc_traffic_id (arc_client target) \<notin> set skip" for skip
  proof -
    have "(\<lambda>s. tr_id s = rc_traffic_id (arc_client target) \<and> tr_id s \<notin> set skip) = own_row target"
      using that by (auto simp: own_row_def)
    then show ?thesis using t by simp
  qed
  then show ?thesis
    using assms(1) none [of "[]"]
    by (auto simp: LockClientTraffic_def clientTrafficByID_def available_def tx_simps)
qed

lemma CAS_run:
  assumes "healthy w" and "filter (own_row target) (t_client_traffics (w_db w)) = [t]"
  shows "UpdateClientCountersCAS (scan_client dr t) u v w =
    (Inr True, w\<lparr>w_db := (w_db w)\<lparr>t_client_traffics :=
       update_where (own_row target) (\<lambda>_. t\<lparr>tr_up := u, tr_down := v\<rparr>) (t_client_traffics (w_db w))\<rparr>\<rparr>)"
proof -
  let ?rows = "t_client_traffics (w_db w)"
  have row: "own_row target t" and only: "\<And>s. s \<in> set ?rows \<Longrightarrow> own_row target s \<Longrightarrow> s = t"
    using filter_only_in [OF assms(2)] filter_only [OF assms(2)] by auto
  have same: "cas_match (scan_client dr t) s \<longleftrightarrow> own_row target s" if "s \<in> set ?rows" for s
    using that row only by (auto simp: cas_match_def own_row_def)
  then have "filter (cas_match (scan_client dr t)) ?rows = [t]"
    using assms(2) by (simp cong: filter_cong)
  moreover have "update_where (cas_match (scan_client dr t)) f ?rows = update_where (own_row target) f ?rows" for f
    using same by (simp add: update_where_def)
  ultimately show ?thesis
    using assms update_where_only [OF assms(2), of "\<lambda>t. t\<lparr>tr_up := u, tr_down := v\<rparr>"]
    by (simp add: UpdateClientCountersCAS_def tx_simps)
qed

lemma from_result_run [tx_simps]:
  "from_result (Inr x) k w = k x w" "from_result (Inl e) k w = (Inl e, w)"
  by (simp_all add: from_result_def)

lemma charge_facts:
  assumes "0 \<le> cn_value c" and "0 \<le> cn_rem c" and "FactorScale \<le> ppm"
    and "rebase \<or> cn_last c \<le> cn_value c"
  shows "cn_value c \<le> cn_value (charge rebase ppm c)" and "cn_last (charge rebase ppm c) = cn_value (charge rebase ppm c)"
    and "0 \<le> cn_rem (charge rebase ppm c)" and "cn_rem (charge rebase ppm c) < FactorScale"
proof -
  have "0 \<le> ((cn_value c - cn_last c) * (ppm - FactorScale) + cn_rem c) div FactorScale" if "cn_last c \<le> cn_value c"
    using that assms by (simp add: pos_imp_zdiv_nonneg_iff)
  then show "cn_value c \<le> cn_value (charge rebase ppm c)" "cn_last (charge rebase ppm c) = cn_value (charge rebase ppm c)"
    "0 \<le> cn_rem (charge rebase ppm c)" "cn_rem (charge rebase ppm c) < FactorScale"
    using assms(4) by (auto simp: charge_def Let_def)
qed

lemma polledI:
  assumes "tracked d target t"
    and "t_client_traffics d' = update_where (own_row target)
      (\<lambda>_. t\<lparr>tr_up := cn_value (new_up target t), tr_down := cn_value (new_down target t)\<rparr>) (t_client_traffics d)"
    and "rest_of d' = rest_of d"
    and "t_rule_clients d' = update_where (own_baseline target) f (t_rule_clients d)"
    and "\<And>u. let rc = arc_client target; rc' = f (rc\<lparr>rc_updated_at := u\<rparr>) in
      rc_rule_id rc' = rc_rule_id rc \<and> rc_traffic_id rc' = rc_traffic_id rc \<and> rc_email rc' = rc_email rc \<and>
      rc_inbound_id rc' = tr_inbound_id t \<and> rc_missing_at rc' = None \<and>
      rc_last_up rc' = cn_last (new_up target t) \<and> rc_rem_up rc' = cn_rem (new_up target t) \<and>
      rc_last_down rc' = cn_last (new_down target t) \<and> rc_rem_down rc' = cn_rem (new_down target t)"
  shows "polled target t d d'"
proof -
  obtain u where "filter (own_baseline target) (t_rule_clients d) = [(arc_client target)\<lparr>rc_updated_at := u\<rparr>]"
    using assms(1) by (auto simp: tracked_def)
  from update_where_only [OF this, of f] assms(1-4) assms(5) [of u] show ?thesis
    unfolding polled_def Let_def
    by (intro conjI exI [of _ "f ((arc_client target)\<lparr>rc_updated_at := u\<rparr>)"])
      (auto simp: up_counter_def down_counter_def)
qed

lemma UpdateRuleClientBaseline_run [tx_simps]:
  "healthy w \<Longrightarrow> UpdateRuleClientBaseline rc w = (Inr (), w\<lparr>w_db := (w_db w)\<lparr>t_rule_clients :=
     update_where (is_rc (rc_rule_id rc) (rc_traffic_id rc))
       (\<lambda>old. old\<lparr>rc_last_up := rc_last_up rc, rc_last_down := rc_last_down rc, rc_rem_up := rc_rem_up rc,
          rc_rem_down := rc_rem_down rc, rc_missing_at := None, rc_updated_at := rc_updated_at rc\<rparr>)
       (t_rule_clients (w_db w))\<rparr>\<rparr>)"
  by (simp add: UpdateRuleClientBaseline_def tx_simps)

definition record_baseline :: "Counter \<Rightarrow> Counter \<Rightarrow> int \<Rightarrow> RuleClient \<Rightarrow> RuleClient" where
  "record_baseline u v now rc = rc\<lparr>rc_last_up := cn_last u, rc_last_down := cn_last v, rc_rem_up := cn_rem u,
     rc_rem_down := cn_rem v, rc_missing_at := None, rc_updated_at := now\<rparr>"

lemma polled_record:
  assumes "tracked d target t" and "rc_inbound_id (arc_client target) = tr_inbound_id t"
    and "t_client_traffics d' = update_where (own_row target)
      (\<lambda>_. t\<lparr>tr_up := cn_value (new_up target t), tr_down := cn_value (new_down target t)\<rparr>) (t_client_traffics d)"
    and "rest_of d' = rest_of d"
    and "t_rule_clients d' = update_where (own_baseline target) (record_baseline (new_up target t) (new_down target t) now)
      (t_rule_clients d)"
  shows "polled target t d d'"
  by (rule polledI [OF assms(1,3,4,5)]) (simp add: record_baseline_def assms(2) Let_def)

text \<open>Nothing was charged: the row keeps its counters.\<close>

lemma polled_record_same:
  assumes "tracked d target t" and "rc_inbound_id (arc_client target) = tr_inbound_id t"
    and "cn_value (new_up target t) = tr_up t" and "cn_value (new_down target t) = tr_down t"
    and "t_client_traffics d' = t_client_traffics d" and "rest_of d' = rest_of d"
    and "t_rule_clients d' = update_where (own_baseline target) (record_baseline (new_up target t) (new_down target t) now)
      (t_rule_clients d)"
  shows "polled target t d d'"
proof (rule polled_record [OF assms(1,2) _ assms(6,7)])
  have "t\<lparr>tr_up := cn_value (new_up target t), tr_down := cn_value (new_down target t)\<rparr> = t"
    by (simp add: assms(3,4))
  then show "t_client_traffics d' = update_where (own_row target)
      (\<lambda>_. t\<lparr>tr_up := cn_value (new_up target t), tr_down := cn_value (new_down target t)\<rparr>) (t_client_traffics d)"
    using assms(1,5) update_where_same [of "own_row target" "t_client_traffics d" t] by (simp add: tracked_def)
qed

lemma polled_unchanged:
  assumes "tracked d target t" and "rc_inbound_id (arc_client target) = tr_inbound_id t"
    and "up_counter t (arc_client target) = new_up target t" and "down_counter t (arc_client target) = new_down target t"
    and "rc_missing_at (arc_client target) = None"
  shows "polled target t d d"
proof (rule polledI [OF assms(1), where f = "\<lambda>x. x"])
  have "cn_value (new_up target t) = tr_up t" "cn_value (new_down target t) = tr_down t"
    by (simp_all add: assms(3,4) [symmetric] up_counter_def down_counter_def)
  then have "t\<lparr>tr_up := cn_value (new_up target t), tr_down := cn_value (new_down target t)\<rparr> = t" by simp
  then show "t_client_traffics d = update_where (own_row target)
      (\<lambda>_. t\<lparr>tr_up := cn_value (new_up target t), tr_down := cn_value (new_down target t)\<rparr>) (t_client_traffics d)"
    using assms(1) update_where_same [of "own_row target" "t_client_traffics d" t] by (simp add: tracked_def)
qed (simp_all add: assms(2,5) assms(3,4) [symmetric] up_counter_def down_counter_def update_where_def Let_def)

lemma baseline_simps [simp]:
  "rc_rule_id (baseline target c u v now) = rc_rule_id (arc_client target)"
  "rc_traffic_id (baseline target c u v now) = rc_traffic_id (arc_client target)"
  "rc_last_up (baseline target c u v now) = ct_up c" "rc_last_down (baseline target c u v now) = ct_down c"
  "rc_rem_up (baseline target c u v now) = u" "rc_rem_down (baseline target c u v now) = v"
  "rc_updated_at (baseline target c u v now) = now"
  by (simp_all add: baseline_def)

lemma write_baseline:
  assumes "healthy w" and "cn_last u = ct_up c" and "cn_last v = ct_down c"
  shows "UpdateRuleClientBaseline (baseline target c (cn_rem u) (cn_rem v) now) w =
    (Inr (), w\<lparr>w_db := (w_db w)\<lparr>t_rule_clients :=
       update_where (own_baseline target) (record_baseline u v now) (t_rule_clients (w_db w))\<rparr>\<rparr>)"
  using assms by (simp add: tx_simps own_baseline_def record_baseline_def [abs_def])

lemma db_inject [simp]: "w\<lparr>w_db := a\<rparr> = w\<lparr>w_db := b\<rparr> \<longleftrightarrow> a = b"
  by (metis World.select_convs(1) World.surjective World.update_convs(1))

lemma applyExtra_meter:
  assumes h: "healthy w" and tr: "tracked (w_db w) target t" and inb: "rc_inbound_id (arc_client target) = tr_inbound_id t"
    and new: "cn_value (new_up target t) = tr_up t + fst up" "cn_last (new_up target t) = tr_up t + fst up"
      "cn_rem (new_up target t) = snd up" "cn_value (new_down target t) = tr_down t + fst down"
      "cn_last (new_down target t) = tr_down t + fst down" "cn_rem (new_down target t) = snd down"
    and range: "0 \<le> tr_up t" "0 \<le> tr_down t" "0 \<le> fst up" "0 \<le> fst down"
      "tr_up t + fst up \<le> MaxInt64" "tr_down t + fst down \<le> MaxInt64"
  shows "\<exists>res d'. applyExtra no_hook target (scan_client dr t) up down now w = (Inr res, w\<lparr>w_db := d'\<rparr>) \<and>
    polled target t (w_db w) d'"
proof -
  let ?d1 = "(w_db w)\<lparr>t_client_traffics := update_where (own_row target)
    (\<lambda>_. t\<lparr>tr_up := tr_up t + fst up, tr_down := tr_down t + fst down\<rparr>) (t_client_traffics (w_db w))\<rparr>"
  let ?d2 = "?d1\<lparr>t_rule_clients := update_where (own_baseline target)
    (record_baseline (new_up target t) (new_down target t) now) (t_rule_clients (w_db w))\<rparr>"
  let ?d3 = "insert_event (Some (r_id (arc_rule target))) EventTrafficApply
    (applied_message target (fst up) (fst down)) now ?d2"
  have "filter (own_row target) (t_client_traffics (w_db w)) = [t]" using tr by (simp add: tracked_def)
  from CAS_run [OF h this] have "applyExtra no_hook target (scan_client dr t) up down now w =
      (Inr (no_target_result\<lparr>tg_applied := 1\<rparr>), w\<lparr>w_db := ?d3\<rparr>)"
    using h range by (simp add: applyExtra_def tx_simps safeAdd_ok no_hook_def own_baseline_def
        record_baseline_def [abs_def] new)
  moreover have "polled target t (w_db w) ?d3"
    by (rule polled_record [OF tr inb]) (simp_all add: new)
  ultimately show ?thesis by blast
qed

text \<open>A step that writes the new baselines without touching the counters.\<close>

lemma same_counters:
  assumes "tracked (w_db w) target t" and "rc_inbound_id (arc_client target) = tr_inbound_id t"
    and "cn_value (new_up target t) = tr_up t" and "cn_value (new_down target t) = tr_down t"
    and "\<exists>res d'. m w = (Inr res, w\<lparr>w_db := d'\<rparr>) \<and> t_client_traffics d' = t_client_traffics (w_db w) \<and>
      rest_of d' = rest_of (w_db w) \<and> t_rule_clients d' = update_where (own_baseline target)
        (record_baseline (new_up target t) (new_down target t) now) (t_rule_clients (w_db w))"
  shows "\<exists>res d'. m w = (Inr res, w\<lparr>w_db := d'\<rparr>) \<and> polled target t (w_db w) d'"
  using assms polled_record_same [OF assms(1-4)] by metis

lemma rebase_run:
  assumes b: "billable target t" and r: "rebases t (arc_client target)" and m: "rc_missing_at (arc_client target) = None"
  shows "tickCurrent no_hook target (scan_client dr t) now w = rebaseline target (scan_client dr t) now w"
proof (cases "tr_up t < rc_last_up (arc_client target)")
  case up: True
  then show ?thesis
    using m b by (cases "tr_down t < rc_last_down (arc_client target)")
      (simp_all add: tickCurrent_def billable_def counterDelta_decreased counterDelta_ok tx_simps)
next
  case False
  then show ?thesis
    using m b r by (simp add: tickCurrent_def billable_def counterDelta_decreased counterDelta_ok tx_simps rebases_def)
qed

lemma rebase_meter:
  assumes h: "healthy w" and tr: "tracked (w_db w) target t" and b: "billable target t"
    and inb: "rc_inbound_id (arc_client target) = tr_inbound_id t" and r: "rebases t (arc_client target)"
  shows "\<exists>res d'. tickCurrent no_hook target (scan_client dr t) now w = (Inr res, w\<lparr>w_db := d'\<rparr>) \<and>
    polled target t (w_db w) d'"
proof -
  let ?u = "\<lparr>cn_value = tr_up t, cn_last = tr_up t, cn_rem = 0\<rparr>"
  let ?v = "\<lparr>cn_value = tr_down t, cn_last = tr_down t, cn_rem = 0\<rparr>"
  have new: "new_up target t = ?u" "new_down target t = ?v"
    using r by (simp_all add: new_up_def new_down_def charge_def up_counter_def down_counter_def)
  note wr = write_baseline [OF h, of ?u "scan_client dr t" ?v target now, simplified]
  show ?thesis
  proof (cases "rc_missing_at (arc_client target) = None")
    case False
    show ?thesis
      by (rule same_counters [OF tr inb, where now = now]) (use False h new in \<open>simp_all add: tickCurrent_def wr tx_simps\<close>)
  next
    case True
    show ?thesis
      by (rule same_counters [OF tr inb, where now = now])
        (use rebase_run [OF b r True] h new in \<open>simp_all add: rebaseline_def wr tx_simps\<close>)
  qed
qed

text \<open>A counter that goes on, with factor 1 and with a greater one.\<close>

lemma plain_meter:
  assumes h: "healthy w" and tr: "tracked (w_db w) target t" and b: "billable target t"
    and inb: "rc_inbound_id (arc_client target) = tr_inbound_id t" and m: "rc_missing_at (arc_client target) = None"
    and f: "r_factor_ppm (arc_rule target) = FactorScale"
  shows "\<exists>res d'. tickDeltas no_hook target (scan_client dr t) (tr_up t - rc_last_up (arc_client target))
      (tr_down t - rc_last_down (arc_client target)) now w = (Inr res, w\<lparr>w_db := d'\<rparr>) \<and> polled target t (w_db w) d'"
proof -
  let ?rc = "arc_client target"
  let ?u = "\<lparr>cn_value = tr_up t, cn_last = tr_up t, cn_rem = 0\<rparr>"
  let ?v = "\<lparr>cn_value = tr_down t, cn_last = tr_down t, cn_rem = 0\<rparr>"
  have new: "new_up target t = ?u" "new_down target t = ?v"
    using f by (simp_all add: new_up_def new_down_def charge_def up_counter_def down_counter_def)
  note wr = write_baseline [OF h, of ?u "scan_client dr t" ?v target now, simplified]
  show ?thesis
  proof (cases "tr_up t = rc_last_up ?rc \<and> tr_down t = rc_last_down ?rc \<and> rc_rem_up ?rc = 0 \<and> rc_rem_down ?rc = 0")
    case idle: True
    have "polled target t (w_db w) (w_db w)"
      by (rule polled_unchanged [OF tr inb _ _ m]) (use idle new in \<open>simp_all add: up_counter_def down_counter_def\<close>)
    with idle f m show ?thesis
      by (intro exI [of _ no_target_result] exI [of _ "w_db w"]) (simp add: tickDeltas_def)
  next
    case busy: False
    show ?thesis
      by (rule same_counters [OF tr inb, where now = now]) (use h f m new busy in \<open>auto simp: tickDeltas_def Let_def wr tx_simps\<close>)
  qed
qed

lemma factor_new:
  assumes "\<not> rebases t (arc_client target)" and "r_factor_ppm (arc_rule target) \<noteq> FactorScale"
  defines "x \<equiv> r_factor_ppm (arc_rule target) - FactorScale"
  defines "up \<equiv> extra_of (tr_up t - rc_last_up (arc_client target)) x (rc_rem_up (arc_client target))"
    and "down \<equiv> extra_of (tr_down t - rc_last_down (arc_client target)) x (rc_rem_down (arc_client target))"
  shows "cn_value (new_up target t) = tr_up t + fst up" "cn_last (new_up target t) = tr_up t + fst up"
    "cn_rem (new_up target t) = snd up" "cn_value (new_down target t) = tr_down t + fst down"
    "cn_last (new_down target t) = tr_down t + fst down" "cn_rem (new_down target t) = snd down"
  using assms(1,2)
  by (simp_all add: new_up_def new_down_def charge_def up_counter_def down_counter_def extra_of_def Let_def up_def down_def x_def)

lemma factor_deltas:
  assumes b: "billable target t" and r: "\<not> rebases t (arc_client target)" and f: "r_factor_ppm (arc_rule target) \<noteq> FactorScale"
  defines "x \<equiv> r_factor_ppm (arc_rule target) - FactorScale"
  defines "du \<equiv> tr_up t - rc_last_up (arc_client target)" and "dd \<equiv> tr_down t - rc_last_down (arc_client target)"
  defines "up \<equiv> extra_of du x (rc_rem_up (arc_client target))" and "down \<equiv> extra_of dd x (rc_rem_down (arc_client target))"
  shows "0 \<le> fst up" "0 \<le> fst down" "tr_up t + fst up \<le> MaxInt64" "tr_down t + fst down \<le> MaxInt64"
    "tickDeltas no_hook target c du dd now =
      (if du = 0 \<and> dd = 0 then return_tx no_target_result
       else if fst up = 0 \<and> fst down = 0 then
         bind_tx (UpdateRuleClientBaseline (baseline target c (snd up) (snd down) now)) (\<lambda>_.
         return_tx (no_target_result\<lparr>tg_baselined := 1\<rparr>))
       else applyExtra no_hook target c up down now)"
proof -
  have le: "0 \<le> du" "0 \<le> dd" using r by (simp_all add: rebases_def du_def dd_def)
  have x: "wrap64 x = x" "0 \<le> x"
    using b by (simp_all add: billable_def in_i64_bounds FactorScale_def x_def)
  note new = factor_new [OF r f, folded x_def du_def dd_def, folded up_def down_def]
  show pos: "0 \<le> fst up" "0 \<le> fst down"
    using x le b by (simp_all add: extra_of_def billable_def pos_imp_zdiv_nonneg_iff up_def down_def)
  show sum: "tr_up t + fst up \<le> MaxInt64" "tr_down t + fst down \<le> MaxInt64"
    using b by (simp_all add: billable_def new)
  have "calculateExtra du x (rc_rem_up (arc_client target)) = Inr up" "calculateExtra dd x (rc_rem_down (arc_client target)) = Inr down"
    using b x le sum by (auto simp: calculateExtra_eq billable_def extra_of_def up_def down_def)
  then show "tickDeltas no_hook target c du dd now =
      (if du = 0 \<and> dd = 0 then return_tx no_target_result
       else if fst up = 0 \<and> fst down = 0 then
         bind_tx (UpdateRuleClientBaseline (baseline target c (snd up) (snd down) now)) (\<lambda>_.
         return_tx (no_target_result\<lparr>tg_baselined := 1\<rparr>))
       else applyExtra no_hook target c up down now)"
    using f x by (simp add: tickDeltas_def Let_def from_result_def x_def)
qed

lemma factor_meter:
  assumes h: "healthy w" and tr: "tracked (w_db w) target t" and b: "billable target t"
    and inb: "rc_inbound_id (arc_client target) = tr_inbound_id t" and r: "\<not> rebases t (arc_client target)"
    and f: "r_factor_ppm (arc_rule target) \<noteq> FactorScale"
  shows "\<exists>res d'. tickDeltas no_hook target (scan_client dr t) (tr_up t - rc_last_up (arc_client target))
      (tr_down t - rc_last_down (arc_client target)) now w = (Inr res, w\<lparr>w_db := d'\<rparr>) \<and> polled target t (w_db w) d'"
proof -
  let ?c = "scan_client dr t" and ?rc = "arc_client target" and ?x = "r_factor_ppm (arc_rule target) - FactorScale"
  let ?du = "tr_up t - rc_last_up ?rc" and ?dd = "tr_down t - rc_last_down ?rc"
  let ?up = "extra_of ?du ?x (rc_rem_up ?rc)" and ?down = "extra_of ?dd ?x (rc_rem_down ?rc)"
  have m: "rc_missing_at ?rc = None" using r by (simp add: rebases_def)
  note new = factor_new [OF r f] and facts = factor_deltas [OF b r f]
  note deltas = facts(5) [of ?c now]
  consider (idle) "?du = 0" "?dd = 0" | (small) "\<not> (?du = 0 \<and> ?dd = 0)" "fst ?up = 0" "fst ?down = 0"
    | (due) "\<not> (?du = 0 \<and> ?dd = 0)" "\<not> (fst ?up = 0 \<and> fst ?down = 0)" by blast
  then show ?thesis
  proof cases
    case idle
    have "polled target t (w_db w) (w_db w)"
      by (rule polled_unchanged [OF tr inb _ _ m]; rule Counter.equality)
        (use idle new b in \<open>simp_all add: up_counter_def down_counter_def extra_of_def billable_def\<close>)
    with deltas idle show ?thesis
      by (intro exI [of _ no_target_result] exI [of _ "w_db w"]) simp
  next
    case small
    have wr: "UpdateRuleClientBaseline (baseline target ?c (snd ?up) (snd ?down) now) w =
        (Inr (), w\<lparr>w_db := (w_db w)\<lparr>t_rule_clients := update_where (own_baseline target)
          (record_baseline (new_up target t) (new_down target t) now) (t_rule_clients (w_db w))\<rparr>\<rparr>)"
      unfolding new(3,6) [symmetric] by (rule write_baseline [OF h]) (simp_all add: new small)
    have "tickDeltas no_hook target ?c ?du ?dd now w = bind_tx (UpdateRuleClientBaseline
        (baseline target ?c (snd ?up) (snd ?down) now)) (\<lambda>_. return_tx (no_target_result\<lparr>tg_baselined := 1\<rparr>)) w"
      using small by (simp only: deltas if_False if_True simp_thms)
    then show ?thesis
      by (intro same_counters [OF tr inb, where now = now]) (simp_all add: new small bind_tx_run wr)
  next
    case due
    then have "tickDeltas no_hook target ?c ?du ?dd now w = applyExtra no_hook target ?c ?up ?down now w"
      by (simp only: deltas if_False simp_thms)
    with applyExtra_meter [OF h tr inb, of ?up ?down dr now] new facts(1-4) b show ?thesis by (auto simp: billable_def)
  qed
qed

lemma tickCurrent_meter:
  assumes h: "healthy w" and tr: "tracked (w_db w) target t" and b: "billable target t"
    and inb: "rc_inbound_id (arc_client target) = tr_inbound_id t"
  shows "\<exists>res d'. tickCurrent no_hook target (scan_client dr t) now w = (Inr res, w\<lparr>w_db := d'\<rparr>) \<and>
    polled target t (w_db w) d'"
proof (cases "rebases t (arc_client target)")
  case True
  then show ?thesis by (rule rebase_meter [OF assms])
next
  case False
  let ?rc = "arc_client target"
  from False have m: "rc_missing_at ?rc = None" "rc_last_up ?rc \<le> tr_up t" "rc_last_down ?rc \<le> tr_down t"
    by (simp_all add: rebases_def)
  then have "tickCurrent no_hook target (scan_client dr t) now w =
      tickDeltas no_hook target (scan_client dr t) (tr_up t - rc_last_up ?rc) (tr_down t - rc_last_down ?rc) now w"
    using b by (simp add: tickCurrent_def billable_def counterDelta_ok tx_simps)
  with plain_meter [OF assms m(1)] factor_meter [OF assms False] show ?thesis
    by (cases "r_factor_ppm (arc_rule target) = FactorScale") simp_all
qed

section \<open>One poll of a client\<close>

definition at_inbound :: "int \<Rightarrow> ActiveRuleClient \<Rightarrow> ActiveRuleClient" where
  "at_inbound i target = target\<lparr>arc_client := (arc_client target)\<lparr>rc_inbound_id := i\<rparr>\<rparr>"

lemma at_inbound_simps [simp]:
  "own_row (at_inbound i target) = own_row target" "own_baseline (at_inbound i target) = own_baseline target"
  "new_up (at_inbound i target) t = new_up target t" "new_down (at_inbound i target) t = new_down target t"
  "billable (at_inbound i target) t = billable target t"
  "arc_client (at_inbound i target) = (arc_client target)\<lparr>rc_inbound_id := i\<rparr>"
proof -
  show up: "new_up (at_inbound i target) t = new_up target t" and down: "new_down (at_inbound i target) t = new_down target t"
    by (simp_all add: new_up_def new_down_def at_inbound_def rebases_def up_counter_def down_counter_def)
  show "billable (at_inbound i target) t = billable target t"
    by (simp add: billable_def up down) (simp add: at_inbound_def)
qed (auto simp: at_inbound_def own_row_def own_baseline_def fun_eq_iff)

lemma tracked_at_inbound:
  assumes "tracked d target t"
  shows "tracked (d\<lparr>t_rule_clients := update_where (own_baseline target)
      (\<lambda>old. old\<lparr>rc_inbound_id := i, rc_updated_at := now\<rparr>) (t_rule_clients d)\<rparr>) (at_inbound i target) t"
proof -
  obtain u where u: "filter (own_baseline target) (t_rule_clients d) = [(arc_client target)\<lparr>rc_updated_at := u\<rparr>]"
    using assms by (auto simp: tracked_def)
  have "own_baseline target ((arc_client target)\<lparr>rc_inbound_id := i, rc_updated_at := now\<rparr>)"
    by (simp add: own_baseline_def is_rc_def)
  from filter_update_where_only [OF u this] have
    "filter (own_baseline target) (update_where (own_baseline target)
        (\<lambda>old. old\<lparr>rc_inbound_id := i, rc_updated_at := now\<rparr>) (t_rule_clients d)) =
      [(arc_client target)\<lparr>rc_inbound_id := i, rc_updated_at := now\<rparr>]"
    by (subst update_where_only [OF u]) simp
  with assms show ?thesis by (auto simp: tracked_def)
qed

lemma tickTarget_meter:
  assumes av: "available w (rc_traffic_id (arc_client target))" and tr: "tracked (w_db w) target t"
    and b: "billable target t"
  shows "\<exists>res d'. tickTarget no_hook target now w = (Inr res, w\<lparr>w_db := d'\<rparr>) \<and> polled target t (w_db w) d'"
proof -
  let ?c = "scan_client (w_driver w) t" and ?rc = "arc_client target"
  have h: "healthy w" using av by (simp add: available_def)
  have e: "tr_email t = rc_email ?rc" using tr by (simp add: tracked_def)
  show ?thesis
  proof (cases "tr_inbound_id t = rc_inbound_id ?rc")
    case True
    have "tickTarget no_hook target now w = tickCurrent no_hook target ?c now w"
      using True e by (simp add: tickTarget_def attempt_def LockClientTraffic_run [OF av tr])
    with tickCurrent_meter [OF h tr b, of "w_driver w" now] True show ?thesis by simp
  next
    case False
    let ?tg = "at_inbound (tr_inbound_id t) target"
    let ?d1 = "(w_db w)\<lparr>t_rule_clients := update_where (own_baseline target)
      (\<lambda>old. old\<lparr>rc_inbound_id := tr_inbound_id t, rc_updated_at := now\<rparr>) (t_rule_clients (w_db w))\<rparr>"
    have "tickTarget no_hook target now w = tickCurrent no_hook ?tg ?c now (w\<lparr>w_db := ?d1\<rparr>)"
      using False e h by (simp add: tickTarget_def attempt_def LockClientTraffic_run [OF av tr] bind_tx_run
          AdoptRuleClientInbound_def update_rule_clients_run at_inbound_def own_baseline_def)
    moreover obtain res d' where "tickCurrent no_hook ?tg ?c now (w\<lparr>w_db := ?d1\<rparr>) = (Inr res, w\<lparr>w_db := d'\<rparr>)"
      and "polled ?tg t ?d1 d'"
      using tickCurrent_meter [of "w\<lparr>w_db := ?d1\<rparr>" ?tg t "w_driver w" now] h tracked_at_inbound [OF tr] b by auto
    moreover have "update_where (own_baseline target) (\<lambda>_. rc') (t_rule_clients ?d1) =
        update_where (own_baseline target) (\<lambda>_. rc') (t_rule_clients (w_db w))" for rc'
      by simp (rule update_where_twice, simp add: own_baseline_def is_rc_def)
    with \<open>polled ?tg t ?d1 d'\<close> have "polled target t (w_db w) d'"
      by (simp add: polled_def Let_def)
    ultimately show ?thesis by auto
  qed
qed

text \<open>
  C3. Refinement: when the client's row can be read and its counters fit, one \<open>tickTarget\<close> makes exactly
  the step \<open>charge\<close> on the up and down counters, writes the result to the client's row and to the
  baseline, follows the row to its current inbound, and touches no other row and no other table but
  the audit log.
\<close>

theorem tickTarget_refines_meter:
  assumes av: "available w (rc_traffic_id (arc_client target))" and tr: "tracked (w_db w) target t"
    and b: "billable target t"
  shows "\<exists>res d'. tickTarget no_hook target now w = (Inr res, w\<lparr>w_db := d'\<rparr>) \<and> polled target t (w_db w) d'"
  using assms by (rule tickTarget_meter)

section \<open>A concrete client\<close>

definition sample_row :: TrafficRow where
  "sample_row = \<lparr>tr_id = 7, tr_inbound_id = 1, tr_enable = EnableInt 1, tr_email = ''a@b'', tr_up = 1000,
     tr_down = 2000, tr_total = 0\<rparr>"

definition sample_rule :: RuleRow where
  "sample_rule = \<lparr>rr_id = 1, rr_name = None, rr_inbound_id = Some 1, rr_email = ''a@b'', rr_factor_ppm = 1500000,
     rr_state = StateActive, rr_created_at = 10, rr_updated_at = 10, rr_activated_at = Some 10, rr_paused_at = None,
     rr_disabled_at = None\<rparr>"

definition sample_baseline :: RuleClient where
  "sample_baseline = \<lparr>rc_rule_id = 1, rc_traffic_id = 7, rc_inbound_id = 1, rc_email = ''a@b'', rc_last_up = 1000,
     rc_last_down = 2000, rc_rem_up = 0, rc_rem_down = 0, rc_missing_at = None, rc_updated_at = 10\<rparr>"

definition sample_target :: ActiveRuleClient where
  "sample_target = \<lparr>arc_rule = scanRule sample_rule, arc_client = sample_baseline\<rparr>"

definition sample_db :: Database where
  "sample_db = empty_db\<lparr>t_client_traffics := [sample_row], t_clients := [(1, ''a@b'')],
     t_client_inbounds := [(1, 1)], t_rules := [sample_rule], t_rule_clients := [sample_baseline],
     t_seq_rules := 1\<rparr>"

lemmas sample_defs = sample_row_def sample_rule_def sample_baseline_def sample_target_def sample_db_def empty_db_def

theorem tickTarget_refines_meter_witness:
  "\<exists>res d'. tickTarget no_hook sample_target 100 (sqlite_world [] sample_db) = (Inr res, sqlite_world [] d') \<and>
    polled sample_target sample_row sample_db d'"
proof -
  have "billable sample_target sample_row"
    by (simp add: billable_def new_up_def new_down_def charge_def rebases_def up_counter_def down_counter_def sample_defs
        FactorScale_def MaxInt64_def in_i64_bounds)
  moreover have "tracked sample_db sample_target sample_row"
    by (auto simp: tracked_def sample_defs own_row_def own_baseline_def is_rc_def intro: exI [of _ 10])
  ultimately show ?thesis
    using tickTarget_refines_meter [of "sqlite_world [] sample_db" sample_target sample_row 100]
    by (auto simp: available_def)
qed

text \<open>
  A client whose row the panel has locked (PostgreSQL) is left for the next tick: the tick reports
  it as deferred and writes nothing.
\<close>

theorem locked_client_is_deferred:
  assumes "healthy w" and "w_driver w = DriverPostgres"
    and "rc_traffic_id (arc_client target) \<in> set (w_locked w)"
    and "\<exists>s \<in> set (t_client_traffics (w_db w)). own_row target s"
  shows "tickTarget hook target now w = (Inr (no_target_result\<lparr>tg_deferred := 1\<rparr>), w)"
proof -
  let ?tid = "rc_traffic_id (arc_client target)"
  have "filter (\<lambda>s. tr_id s = ?tid \<and> tr_id s \<notin> set (w_locked w)) (t_client_traffics (w_db w)) = []"
    using assms(3) by (auto simp: filter_empty_conv)
  moreover obtain t ts where "filter (\<lambda>s. tr_id s = ?tid) (t_client_traffics (w_db w)) = t # ts"
    using assms(4) by (metis (mono_tags, lifting) filter_empty_conv neq_Nil_conv own_row_def)
  ultimately have "LockClientTraffic ?tid w = (Inl ErrLocked, w)"
    using assms(1,2) by (simp add: LockClientTraffic_def clientTrafficByID_def tx_simps)
  then show ?thesis by (simp add: tickTarget_def attempt_def)
qed

end
