(* ===== verification/XF_Billing.thy ===== *)
theory XF_Billing
  imports XF_Metering
begin

text \<open>
  What a client is charged over time: through any sequence of polls the counters end at the exact
  amount owed, and a tick without new traffic charges nothing.
\<close>

section \<open>A client's traffic over many polls\<close>

definition panel_adds :: "ActiveRuleClient \<Rightarrow> int \<times> int \<Rightarrow> Database \<Rightarrow> Database" where
  "panel_adds target used d = d\<lparr>t_client_traffics := update_where (own_row target)
     (\<lambda>t. t\<lparr>tr_up := tr_up t + fst used, tr_down := tr_down t + snd used\<rparr>) (t_client_traffics d)\<rparr>"

text \<open>The next tick reads the baseline anew.\<close>

definition reread :: "Database \<Rightarrow> ActiveRuleClient \<Rightarrow> ActiveRuleClient" where
  "reread d target = (case first_of (filter (own_baseline target) (t_rule_clients d)) of
     None \<Rightarrow> target | Some rc \<Rightarrow> target\<lparr>arc_client := rc\<rparr>)"

fun poll_run :: "ActiveRuleClient \<Rightarrow> int \<Rightarrow> (int \<times> int) list \<Rightarrow> World \<Rightarrow> World" where
  "poll_run target now [] w = w"
| "poll_run target now (used # us) w =
    (let w' = snd (tickTarget no_hook target now (w\<lparr>w_db := panel_adds target used (w_db w)\<rparr>))
     in poll_run (reread (w_db w') target) now us w')"

definition settled_target :: "World \<Rightarrow> ActiveRuleClient \<Rightarrow> TrafficRow \<Rightarrow> bool" where
  "settled_target w target t \<longleftrightarrow>
    available w (rc_traffic_id (arc_client target)) \<and>
    filter (own_row target) (t_client_traffics (w_db w)) = [t] \<and>
    filter (own_baseline target) (t_rule_clients (w_db w)) = [arc_client target] \<and>
    tr_email t = rc_email (arc_client target) \<and> rc_missing_at (arc_client target) = None \<and>
    meter.settled (up_counter t (arc_client target)) \<and> meter.settled (down_counter t (arc_client target)) \<and>
    0 \<le> tr_up t \<and> 0 \<le> tr_down t \<and>
    FactorScale < r_factor_ppm (arc_rule target) \<and> in_i64 (r_factor_ppm (arc_rule target))"

text \<open>The counter after \<open>used\<close> more units, factored once: the whole part of the exact amount.\<close>

definition owed :: "int \<Rightarrow> Counter \<Rightarrow> int \<Rightarrow> int" where
  "owed ppm c used = cn_value c + used + (used * (ppm - FactorScale) + cn_rem c) div FactorScale"

lemma owed_eq: "owed ppm c used = ((cn_value c + used) * FactorScale + used * (ppm - FactorScale) + cn_rem c) div FactorScale"
proof -
  have "(cn_value c + used) * FactorScale + used * (ppm - FactorScale) + cn_rem c =
      (used * (ppm - FactorScale) + cn_rem c) + (cn_value c + used) * FactorScale" by simp
  moreover have "(used * (ppm - FactorScale) + cn_rem c + (cn_value c + used) * FactorScale) div FactorScale =
      cn_value c + used + (used * (ppm - FactorScale) + cn_rem c) div FactorScale"
    by (rule div_mult_self1) simp
  ultimately show ?thesis by (simp only: owed_def)
qed

lemma owed_nothing: "meter.settled c \<Longrightarrow> owed ppm c 0 = cn_value c"
  by (simp add: owed_def meter.settled_def)

lemma owed_step:
  assumes "meter.settled c" and "0 \<le> u" and "FactorScale < ppm"
  defines "c' \<equiv> charge False ppm (use_counter u c)"
  shows "owed ppm c' v = owed ppm c (u + v)" and "meter.settled c'" and "cn_value c' = owed ppm c u"
    and "cn_value c \<le> cn_value c'"
proof -
  have c': "c' = fold (\<lambda>d. meter.poll (ppm - FactorScale) \<circ> use_counter d) [u] c"
    using assms(3) by (simp add: c'_def charge_poll)
  have x: "0 \<le> ppm - FactorScale" using assms(3) by simp
  note total = meter.polls_total [of c "ppm - FactorScale" "[u]", folded c', OF assms(1) x]
  then show s: "meter.settled c'" using assms(2) by simp
  have eq: "cn_value c' * FactorScale + cn_rem c' = (cn_value c + u) * FactorScale + u * (ppm - FactorScale) + cn_rem c"
    using total(2) assms(2) by simp
  have "(cn_value c' + z) * FactorScale + z * (ppm - FactorScale) + cn_rem c' =
      (cn_value c + (u + z)) * FactorScale + (u + z) * (ppm - FactorScale) + cn_rem c" for z
    using eq by (simp add: algebra_simps)
  then have owed: "owed ppm c' z = owed ppm c (u + z)" for z by (simp only: owed_eq)
  show "owed ppm c' v = owed ppm c (u + v)" by (rule owed)
  have "cn_value c' = owed ppm c' 0" using s by (simp add: owed_nothing)
  with owed [of 0] show "cn_value c' = owed ppm c u" by simp
  moreover have "0 \<le> (u * (ppm - FactorScale) + cn_rem c) div FactorScale"
    using assms by (simp add: pos_imp_zdiv_nonneg_iff meter.settled_def)
  ultimately show "cn_value c \<le> cn_value c'" using assms(2) by (simp add: owed_def)
qed

lemma owed_mono: "u \<le> v \<Longrightarrow> FactorScale \<le> ppm \<Longrightarrow> owed ppm c u \<le> owed ppm c v"
  unfolding owed_def by (intro add_mono zdiv_mono1 mult_right_mono) auto


text \<open>What the next tick finds: the new row, and a baseline that goes with it.\<close>

definition billed :: "ActiveRuleClient \<Rightarrow> TrafficRow \<Rightarrow> TrafficRow" where
  "billed target t = t\<lparr>tr_up := cn_value (new_up target t), tr_down := cn_value (new_down target t)\<rparr>"

lemma after_poll:
  assumes row: "filter (own_row target) (t_client_traffics d) = [t]"
    and base: "filter (own_baseline target) (t_rule_clients d) = [rc]" and pl: "polled target t d d'"
  obtains rc' where "reread d' target = target\<lparr>arc_client := rc'\<rparr>"
    "own_row (target\<lparr>arc_client := rc'\<rparr>) = own_row target" "own_baseline (target\<lparr>arc_client := rc'\<rparr>) = own_baseline target"
    "filter (own_row target) (t_client_traffics d') = [billed target t]"
    "filter (own_baseline target) (t_rule_clients d') = [rc']"
    "up_counter (billed target t) rc' = new_up target t" "down_counter (billed target t) rc' = new_down target t"
    "rc_missing_at rc' = None" "rc_email rc' = rc_email (arc_client target)"
    "rc_traffic_id rc' = rc_traffic_id (arc_client target)" "rc_inbound_id rc' = tr_inbound_id t"
proof -
  let ?rc = "arc_client target"
  from pl obtain rc' where t': "t_client_traffics d' = update_where (own_row target) (\<lambda>_. billed target t) (t_client_traffics d)"
    and rc': "t_rule_clients d' = update_where (own_baseline target) (\<lambda>_. rc') (t_rule_clients d)"
    and cs: "up_counter (billed target t) rc' = new_up target t" "down_counter (billed target t) rc' = new_down target t"
    and f: "rc_missing_at rc' = None" "rc_rule_id rc' = rc_rule_id ?rc" "rc_traffic_id rc' = rc_traffic_id ?rc"
      "rc_email rc' = rc_email ?rc" "rc_inbound_id rc' = tr_inbound_id t"
    by (auto simp: polled_def Let_def billed_def)
  have own: "own_row target (billed target t)" "own_baseline target rc'"
    using filter_only_in [OF row] by (simp_all add: own_row_def own_baseline_def is_rc_def f billed_def)
  have rows: "filter (own_row target) (t_client_traffics d') = [billed target t]"
    "filter (own_baseline target) (t_rule_clients d') = [rc']"
    by (simp_all only: t' rc' filter_update_where_only [OF row own(1)] filter_update_where_only [OF base own(2)])
  show thesis
    by (rule that [of rc']) (use rows in \<open>simp_all add: reread_def cs f own_row_def [abs_def] own_baseline_def\<close>)
qed

text \<open>The client after the panel has counted more traffic: ready for a poll, with the charge still to come.\<close>

definition row_adds :: "int \<times> int \<Rightarrow> TrafficRow \<Rightarrow> TrafficRow" where
  "row_adds used t = t\<lparr>tr_up := tr_up t + fst used, tr_down := tr_down t + snd used\<rparr>"

lemma used_client:
  assumes st: "settled_target w target t" and pos: "0 \<le> fst used" "0 \<le> snd used"
  defines "d \<equiv> panel_adds target used (w_db w)" and "ppm \<equiv> r_factor_ppm (arc_rule target)"
  shows "filter (own_row target) (t_client_traffics d) = [row_adds used t]"
    and "filter (own_baseline target) (t_rule_clients d) = [arc_client target]" and "tracked d target (row_adds used t)"
    and "new_up target (row_adds used t) = charge False ppm (use_counter (fst used) (up_counter t (arc_client target)))"
    and "new_down target (row_adds used t) = charge False ppm (use_counter (snd used) (down_counter t (arc_client target)))"
proof -
  let ?rc = "arc_client target"
  from st have base: "filter (own_baseline target) (t_rule_clients (w_db w)) = [?rc]"
    and row: "filter (own_row target) (t_client_traffics (w_db w)) = [t]" by (simp_all add: settled_target_def)
  have own: "own_row target (row_adds used t)" using filter_only_in [OF row] by (simp add: own_row_def row_adds_def)
  have "t_client_traffics d = update_where (own_row target) (\<lambda>_. row_adds used t) (t_client_traffics (w_db w))"
    by (simp add: panel_adds_def d_def row_adds_def) (subst update_where_only [OF row], simp)
  then show row': "filter (own_row target) (t_client_traffics d) = [row_adds used t]"
    by (simp only: filter_update_where_only [OF row own])
  show base': "filter (own_baseline target) (t_rule_clients d) = [?rc]" using base by (simp add: panel_adds_def d_def)
  have "tr_email (row_adds used t) = rc_email ?rc" using st by (simp add: settled_target_def row_adds_def)
  then show "tracked d target (row_adds used t)"
    unfolding tracked_def base' row' by (auto intro: exI [of _ "rc_updated_at ?rc"])
  have "up_counter (row_adds used t) ?rc = use_counter (fst used) (up_counter t ?rc)"
    "down_counter (row_adds used t) ?rc = use_counter (snd used) (down_counter t ?rc)" "\<not> rebases (row_adds used t) ?rc"
    using st pos by (auto simp: up_counter_def down_counter_def use_counter_def rebases_def settled_target_def
      meter.settled_def row_adds_def)
  then show "new_up target (row_adds used t) = charge False ppm (use_counter (fst used) (up_counter t ?rc))"
    "new_down target (row_adds used t) = charge False ppm (use_counter (snd used) (down_counter t ?rc))"
    by (simp_all add: new_up_def new_down_def ppm_def)
qed

lemma settled_poll:
  assumes st: "settled_target w target t" and pos: "0 \<le> fst used" "0 \<le> snd used"
    and fits: "owed (r_factor_ppm (arc_rule target)) (up_counter t (arc_client target)) (fst used) \<le> MaxInt64"
      "owed (r_factor_ppm (arc_rule target)) (down_counter t (arc_client target)) (snd used) \<le> MaxInt64"
  shows "\<exists>d' t' rc'.
    snd (tickTarget no_hook target now (w\<lparr>w_db := panel_adds target used (w_db w)\<rparr>)) = w\<lparr>w_db := d'\<rparr> \<and>
    reread d' target = target\<lparr>arc_client := rc'\<rparr> \<and>
    settled_target (w\<lparr>w_db := d'\<rparr>) (target\<lparr>arc_client := rc'\<rparr>) t' \<and>
    own_row (target\<lparr>arc_client := rc'\<rparr>) = own_row target \<and>
    up_counter t' rc' = charge False (r_factor_ppm (arc_rule target)) (use_counter (fst used) (up_counter t (arc_client target))) \<and>
    down_counter t' rc' = charge False (r_factor_ppm (arc_rule target)) (use_counter (snd used) (down_counter t (arc_client target)))"
proof -
  let ?f = "r_factor_ppm (arc_rule target)" and ?rc = "arc_client target"
  let ?d = "panel_adds target used (w_db w)" and ?t = "row_adds used t"
  let ?u = "use_counter (fst used) (up_counter t ?rc)" and ?v = "use_counter (snd used) (down_counter t ?rc)"
  note ready = used_client [OF st pos] and new = used_client(4,5) [OF st pos]
  have set: "meter.settled (up_counter t ?rc)" "meter.settled (down_counter t ?rc)" "FactorScale < ?f"
    using st by (simp_all add: settled_target_def)
  note u = owed_step [OF set(1) pos(1) set(3)] and v = owed_step [OF set(2) pos(2) set(3)]
  have big: "tr_up t + fst used \<le> cn_value (charge False ?f ?u)" "tr_down t + snd used \<le> cn_value (charge False ?f ?v)"
    using charge_facts(1) [of ?u ?f False] charge_facts(1) [of ?v ?f False] st pos
    by (auto simp: up_counter_def down_counter_def use_counter_def settled_target_def meter.settled_def)
  have fit: "cn_value (new_up target ?t) \<le> MaxInt64" "cn_value (new_down target ?t) \<le> MaxInt64"
    unfolding new u(3) v(3) using fits by simp_all
  then have "tr_up t + fst used \<le> MaxInt64" "tr_down t + snd used \<le> MaxInt64" using big new by simp_all
  then have b: "billable target ?t"
    unfolding billable_def
    by (intro conjI fit) (use st pos set in \<open>auto simp: settled_target_def up_counter_def down_counter_def
      meter.settled_def in_i64_bounds MaxInt64_def row_adds_def\<close>)
  have av: "available (w\<lparr>w_db := ?d\<rparr>) (rc_traffic_id ?rc)" using st by (simp add: settled_target_def available_def)
  obtain res d' where run: "tickTarget no_hook target now (w\<lparr>w_db := ?d\<rparr>) = (Inr res, w\<lparr>w_db := d'\<rparr>)"
    and pl: "polled target ?t ?d d'"
    using tickTarget_meter [OF av _ b, of now] ready(3) by auto
  from after_poll [OF ready(1,2) pl] obtain rc' where rd: "reread d' target = target\<lparr>arc_client := rc'\<rparr>"
    and ids: "own_row (target\<lparr>arc_client := rc'\<rparr>) = own_row target" "own_baseline (target\<lparr>arc_client := rc'\<rparr>) = own_baseline target"
    and rows: "filter (own_row target) (t_client_traffics d') = [billed target ?t]" "filter (own_baseline target) (t_rule_clients d') = [rc']"
    and cs: "up_counter (billed target ?t) rc' = charge False ?f ?u" "down_counter (billed target ?t) rc' = charge False ?f ?v"
    and rcf: "rc_missing_at rc' = None" "rc_email rc' = rc_email ?rc" "rc_traffic_id rc' = rc_traffic_id ?rc"
    unfolding new by blast
  have "tr_email ?t = tr_email t" by (simp add: row_adds_def)
  then have "settled_target (w\<lparr>w_db := d'\<rparr>) (target\<lparr>arc_client := rc'\<rparr>) (billed target ?t)"
    using st pos big av rows u(2) v(2) by (simp add: settled_target_def ids rcf cs) (simp add: available_def billed_def new)
  then show ?thesis
    using run ids cs rd by (intro exI [of _ d'] exI [of _ "billed target ?t"] exI [of _ rc'] conjI) simp_all
qed

text \<open>
  C1. Billing is exact and independent of polling. Let the panel add traffic in any amounts, with a
  \<open>tickTarget\<close> after each: the client's counters end at their start plus what was used plus exactly the
  whole part of \<open>used * (factor - 1)\<close> and the earlier remainder. Nothing is lost between ticks, and
  extra traffic is never factored again.
\<close>

theorem billing_exact:
  assumes "settled_target w target t"
    and "\<forall>used \<in> set us. 0 \<le> fst used \<and> 0 \<le> snd used"
    and "owed (r_factor_ppm (arc_rule target)) (up_counter t (arc_client target)) (sum_list (map fst us)) \<le> MaxInt64"
    and "owed (r_factor_ppm (arc_rule target)) (down_counter t (arc_client target)) (sum_list (map snd us)) \<le> MaxInt64"
  shows "map (\<lambda>s. (tr_up s, tr_down s)) (filter (own_row target) (t_client_traffics (w_db (poll_run target now us w)))) =
    [(owed (r_factor_ppm (arc_rule target)) (up_counter t (arc_client target)) (sum_list (map fst us)),
      owed (r_factor_ppm (arc_rule target)) (down_counter t (arc_client target)) (sum_list (map snd us)))]"
  using assms
proof (induction us arbitrary: w t target)
  case Nil
  then show ?case by (simp add: settled_target_def owed_nothing) (simp add: up_counter_def down_counter_def)
next
  case (Cons used us)
  let ?f = "r_factor_ppm (arc_rule target)" and ?uc = "up_counter t (arc_client target)"
    and ?dc = "down_counter t (arc_client target)"
  have f: "FactorScale < ?f" and su: "meter.settled ?uc" "meter.settled ?dc"
    using Cons.prems(1) by (simp_all add: settled_target_def)
  have pos: "0 \<le> fst used" "0 \<le> snd used" "0 \<le> sum_list (map fst us)" "0 \<le> sum_list (map snd us)"
    using Cons.prems(2) by (auto intro!: sum_list_nonneg)
  have "owed ?f ?uc (fst used) \<le> MaxInt64" "owed ?f ?dc (snd used) \<le> MaxInt64"
    using Cons.prems(3,4) pos f owed_mono [of "fst used" "fst used + sum_list (map fst us)" ?f ?uc]
      owed_mono [of "snd used" "snd used + sum_list (map snd us)" ?f ?dc] by auto
  from settled_poll [OF Cons.prems(1) pos(1,2) this, of now] obtain d' t' rc' where
    step: "snd (tickTarget no_hook target now (w\<lparr>w_db := panel_adds target used (w_db w)\<rparr>)) = w\<lparr>w_db := d'\<rparr>"
    and rd: "reread d' target = target\<lparr>arc_client := rc'\<rparr>"
    and st': "settled_target (w\<lparr>w_db := d'\<rparr>) (target\<lparr>arc_client := rc'\<rparr>) t'"
    and own: "own_row (target\<lparr>arc_client := rc'\<rparr>) = own_row target"
    and cs: "up_counter t' rc' = charge False ?f (use_counter (fst used) ?uc)"
      "down_counter t' rc' = charge False ?f (use_counter (snd used) ?dc)" by blast
  have owed: "owed ?f (up_counter t' rc') z = owed ?f ?uc (fst used + z)"
    "owed ?f (down_counter t' rc') z = owed ?f ?dc (snd used + z)" for z
    unfolding cs by (rule owed_step(1) [OF su(1) pos(1) f], rule owed_step(1) [OF su(2) pos(2) f])
  show ?case
    using Cons.IH [OF st'] Cons.prems(2-4) by (simp add: own owed rd step Let_def)
qed

lemma sample_settled: "settled_target (sqlite_world [] sample_db) sample_target sample_row"
  unfolding settled_target_def meter.settled_def
  by (simp add: available_def sample_defs own_row_def own_baseline_def is_rc_def up_counter_def down_counter_def
      FactorScale_def in_i64_bounds)

theorem billing_exact_witness:
  "map (\<lambda>s. (tr_up s, tr_down s)) (filter (own_row sample_target) (t_client_traffics (w_db
      (poll_run sample_target 100 [(3, 0), (0, 1), (4, 2)] (sqlite_world [] sample_db))))) = [(1010, 2004)]"
  using billing_exact [OF sample_settled, of "[(3, 0), (0, 1), (4, 2)]" 100]
  by (simp add: owed_def sample_defs up_counter_def down_counter_def FactorScale_def MaxInt64_def)

section \<open>Ticking twice\<close>

lemma charge_settled:
  assumes "cn_value c = cn_last c" and "0 \<le> cn_rem c" and "cn_rem c < FactorScale"
  shows "cn_value (charge rebase ppm c) = cn_value c"
  using assms by (simp add: charge_def Let_def)

lemma reread_simps:
  "filter (own_baseline target) (t_rule_clients d) = [rc] \<Longrightarrow> reread d target = target\<lparr>arc_client := rc\<rparr>"
  by (simp add: reread_def)

lemma new_facts:
  assumes "billable target t"
  shows "cn_value (new_up target t) = cn_last (new_up target t)" "0 \<le> cn_rem (new_up target t)"
    "cn_rem (new_up target t) < FactorScale" "cn_value (new_up target t) \<le> MaxInt64" "tr_up t \<le> cn_value (new_up target t)"
    "0 \<le> cn_value (new_up target t)"
    "cn_value (new_down target t) = cn_last (new_down target t)" "0 \<le> cn_rem (new_down target t)"
    "cn_rem (new_down target t) < FactorScale" "cn_value (new_down target t) \<le> MaxInt64"
    "tr_down t \<le> cn_value (new_down target t)" "0 \<le> cn_value (new_down target t)"
proof -
  let ?rc = "arc_client target" and ?f = "r_factor_ppm (arc_rule target)" and ?r = "rebases t (arc_client target)"
  have f: "FactorScale \<le> ?f" using assms by (simp add: billable_def)
  have pre: "?r \<or> cn_last (up_counter t ?rc) \<le> cn_value (up_counter t ?rc)"
    "?r \<or> cn_last (down_counter t ?rc) \<le> cn_value (down_counter t ?rc)"
    by (auto simp: rebases_def up_counter_def down_counter_def)
  have range: "0 \<le> cn_value (up_counter t ?rc)" "0 \<le> cn_rem (up_counter t ?rc)"
    "0 \<le> cn_value (down_counter t ?rc)" "0 \<le> cn_rem (down_counter t ?rc)"
    using assms by (simp_all add: billable_def up_counter_def down_counter_def)
  note up = charge_facts [OF range(1,2) f pre(1), folded new_up_def]
    and down = charge_facts [OF range(3,4) f pre(2), folded new_down_def]
  show "cn_value (new_up target t) \<le> MaxInt64" "cn_value (new_down target t) \<le> MaxInt64"
    using assms by (simp_all add: billable_def)
  show "cn_value (new_up target t) = cn_last (new_up target t)" "0 \<le> cn_rem (new_up target t)"
    "cn_rem (new_up target t) < FactorScale" "cn_value (new_down target t) = cn_last (new_down target t)"
    "0 \<le> cn_rem (new_down target t)" "cn_rem (new_down target t) < FactorScale"
    using up down by simp_all
  show "tr_up t \<le> cn_value (new_up target t)" "tr_down t \<le> cn_value (new_down target t)"
    using up(1) down(1) by (simp_all add: up_counter_def down_counter_def)
  then show "0 \<le> cn_value (new_up target t)" "0 \<le> cn_value (new_down target t)"
    using assms by (simp_all add: billable_def)
qed

lemma billable_again:
  assumes b: "billable target t" and cs: "up_counter (billed target t) rc = new_up target t" "down_counter (billed target t) rc = new_down target t"
  shows "billed (target\<lparr>arc_client := rc\<rparr>) (billed target t) = billed target t"
    and "billable (target\<lparr>arc_client := rc\<rparr>) (billed target t)"
proof -
  let ?tg = "target\<lparr>arc_client := rc\<rparr>"
  note n = new_facts [OF b]
  have "cn_value (charge r m (up_counter (billed target t) rc)) = cn_value (new_up target t)"
    "cn_value (charge r m (down_counter (billed target t) rc)) = cn_value (new_down target t)" for r m
    unfolding cs by (rule charge_settled; rule n)+
  then have same: "cn_value (new_up ?tg (billed target t)) = cn_value (new_up target t)"
    "cn_value (new_down ?tg (billed target t)) = cn_value (new_down target t)"
    unfolding new_up_def [of ?tg "billed target t"] new_down_def [of ?tg "billed target t"] by simp_all
  then show "billed ?tg (billed target t) = billed target t" by (simp add: billed_def)
  have fields: "rc_last_up rc = cn_last (new_up target t)" "rc_rem_up rc = cn_rem (new_up target t)"
    "rc_last_down rc = cn_last (new_down target t)" "rc_rem_down rc = cn_rem (new_down target t)"
    using arg_cong [OF cs(1), of cn_last] arg_cong [OF cs(1), of cn_rem] arg_cong [OF cs(2), of cn_last]
      arg_cong [OF cs(2), of cn_rem] by (simp_all add: up_counter_def down_counter_def)
  have "FactorScale \<le> r_factor_ppm (arc_rule target)" "in_i64 (r_factor_ppm (arc_rule target))"
    using b by (simp_all add: billable_def)
  then show "billable ?tg (billed target t)"
    unfolding billable_def same using n by (simp add: fields) (simp add: billed_def in_i64_nonneg)
qed

text \<open>
  C14. No compounding: when nothing has been used since, the next tick of the same client changes no
  counter at all, whatever the first tick did (charged, took a new baseline, followed the client to
  another inbound).
\<close>

theorem second_tick_charges_nothing:
  assumes "available w (rc_traffic_id (arc_client target))" and "tracked (w_db w) target t" and "billable target t"
    and "tickTarget no_hook target now w = (Inr res, w')"
  shows "\<exists>res' d'. tickTarget no_hook (reread (w_db w') target) now' w' = (Inr res', w'\<lparr>w_db := d'\<rparr>) \<and>
    t_client_traffics d' = t_client_traffics (w_db w')"
proof -
  obtain d' where w': "w' = w\<lparr>w_db := d'\<rparr>" and pl: "polled target t (w_db w) (w_db w')"
    using tickTarget_meter [OF assms(1-3), of now] assms(4) by auto
  from assms(2) obtain rc0 where "filter (own_row target) (t_client_traffics (w_db w)) = [t]"
    "filter (own_baseline target) (t_rule_clients (w_db w)) = [rc0]" by (auto simp: tracked_def)
  from after_poll [OF this pl] obtain rc' where rd: "reread (w_db w') target = target\<lparr>arc_client := rc'\<rparr>"
    and ids: "own_row (target\<lparr>arc_client := rc'\<rparr>) = own_row target" "own_baseline (target\<lparr>arc_client := rc'\<rparr>) = own_baseline target"
    and rows: "filter (own_row target) (t_client_traffics (w_db w')) = [billed target t]"
      "filter (own_baseline target) (t_rule_clients (w_db w')) = [rc']"
    and cs: "up_counter (billed target t) rc' = new_up target t" "down_counter (billed target t) rc' = new_down target t"
    and f: "rc_missing_at rc' = None" "rc_email rc' = rc_email (arc_client target)"
      "rc_traffic_id rc' = rc_traffic_id (arc_client target)" by blast
  note again = billable_again [OF assms(3) cs]
  have "tracked (w_db w') (target\<lparr>arc_client := rc'\<rparr>) (billed target t)"
    unfolding tracked_def ids rows using assms(2)
    by (intro conjI exI [of _ "rc_updated_at rc'"]) (simp_all add: tracked_def f billed_def)
  moreover have "available w' (rc_traffic_id (arc_client (target\<lparr>arc_client := rc'\<rparr>)))"
    using assms(1) w' by (simp add: available_def f)
  ultimately obtain res' d2 where run: "tickTarget no_hook (reread (w_db w') target) now' w' = (Inr res', w'\<lparr>w_db := d2\<rparr>)"
    and pl2: "polled (target\<lparr>arc_client := rc'\<rparr>) (billed target t) (w_db w') d2"
    using tickTarget_meter [OF _ _ again(2), of w' now'] rd by auto
  have "t_client_traffics d2 = update_where (own_row target) (\<lambda>_. billed target t) (t_client_traffics (w_db w'))"
    using pl2 again(1) unfolding polled_def ids Let_def billed_def [symmetric] by simp
  then have "t_client_traffics d2 = t_client_traffics (w_db w')" by (simp only: update_where_same [OF rows(1)])
  with run show ?thesis by blast
qed

text \<open>The client of the samples after three bytes up and one down.\<close>

definition busy_row :: TrafficRow where
  "busy_row = sample_row\<lparr>tr_up := 1003, tr_down := 2001\<rparr>"

definition busy_db :: Database where
  "busy_db = sample_db\<lparr>t_client_traffics := [busy_row]\<rparr>"

lemma busy_ready:
  "available (sqlite_world [] busy_db) (rc_traffic_id (arc_client sample_target))"
  "tracked (w_db (sqlite_world [] busy_db)) sample_target busy_row" "billable sample_target busy_row"
proof -
  show "billable sample_target busy_row"
    by (simp add: billable_def new_up_def new_down_def charge_def rebases_def up_counter_def down_counter_def sample_defs
        busy_row_def FactorScale_def MaxInt64_def in_i64_bounds)
  show "tracked (w_db (sqlite_world [] busy_db)) sample_target busy_row"
    by (auto simp: tracked_def sample_defs busy_row_def busy_db_def own_row_def own_baseline_def is_rc_def
        intro: exI [of _ 10])
qed (simp add: available_def)

theorem second_tick_charges_nothing_witness:
  "\<exists>res w' res' d'. tickTarget no_hook sample_target 100 (sqlite_world [] busy_db) = (Inr res, w') \<and>
    tickTarget no_hook (reread (w_db w') sample_target) 105 w' = (Inr res', w'\<lparr>w_db := d'\<rparr>) \<and>
    t_client_traffics d' = t_client_traffics (w_db w')"
proof -
  obtain res w' where run: "tickTarget no_hook sample_target 100 (sqlite_world [] busy_db) = (Inr res, w')"
    using tickTarget_meter [OF busy_ready, of 100] by auto
  from second_tick_charges_nothing [OF busy_ready run, of 105] run show ?thesis by blast
qed

end
