(* ===== verification/XF_Tick.thy ===== *)
theory XF_Tick
  imports XF_Billing
begin

text \<open>
  The whole tick: it is atomic, refuses a managed panel, never lowers a counter, leaves excluded clients
  alone, and enrolls clients with the counters they have at that moment.
\<close>

section \<open>Atomicity and the managed panel\<close>

lemma aborted_tx: "WithImmediateTx fn w = (Inl e, w') \<Longrightarrow> contents (w_db w') = contents (w_db w)"
  by (auto simp: WithImmediateTx_def bind_tx_def with_driver_def
      split: prod.splits sum.splits if_splits dest!: conn_call_db dest: run_body_err)

lemma runAutoCleanup_returns: "\<exists>log. fst (runAutoCleanup cfg now w) = Inr log"
  by (auto simp: runAutoCleanup_def attempt_def split: prod.split)

lemma Tick_Inl:
  assumes "Tick cfg hook clock w = (Inl e, w')"
  shows "\<exists>e0. WithImmediateTx (Tick_body cfg hook clock) w = (Inl e0, w') \<and>
    e = ErrWrap ''tick aborted and transaction rolled back: '' e0 []"
proof (cases "WithImmediateTx (Tick_body cfg hook clock) w")
  case (Pair r w1)
  show ?thesis
  proof (cases r)
    case (Inl e0)
    with Pair assms show ?thesis by (auto simp: Tick_def attempt_def)
  next
    case (Inr res)
    obtain log w2 where "runAutoCleanup cfg (clock div 1000) w1 = (Inr log, w2)"
      using runAutoCleanup_returns by (metis fst_conv surj_pair)
    with Pair Inr assms show ?thesis by (simp add: Tick_def attempt_def bind_tx_def)
  qed
qed

text \<open>
  A tick that fails has changed nothing: whatever made it fail (an overflow, a lost race, an ambiguous
  decision, a refused statement or commit, a managed panel), no table differs afterwards, and the
  error says that the transaction was rolled back.
\<close>

theorem failed_tick_changes_nothing:
  assumes "Tick cfg hook clock w = (Inl e, w')"
  shows "contents (w_db w') = contents (w_db w) \<and>
    (\<exists>e0. e = ErrWrap ''tick aborted and transaction rolled back: '' e0 [])"
  using Tick_Inl [OF assms] aborted_tx by blast

lemma managed_tick:
  assumes "healthy w" and "\<not> tc_factor_on_managed_node cfg"
    and "''client_global_traffics'' \<in> set (t_tables (w_db w))"
    and "\<exists>u \<in> set (t_client_global_traffics (w_db w)). clock_ms - managedPanelWindow \<le> u"
  shows "Tick cfg hook clock_ms w =
    (Inl (ErrWrap ''tick aborted and transaction rolled back: '' ErrManagedPanel []), w)"
proof -
  have "list_ex (\<lambda>u. clock_ms - managedPanelWindow \<le> u) (t_client_global_traffics (w_db w))"
    using assms(4) by (simp add: list_ex_iff)
  then have "\<exists>n. PanelRole_tx clock_ms w = (Inr \<lparr>pr_nodes = n, pr_managed = True\<rparr>, w)"
    using assms(1,3) by (auto simp: PanelRole_tx_def tx_simps)
  then have "Tick_body cfg hook clock_ms w = (Inl ErrManagedPanel, w)"
    using assms(2) by (auto simp: Tick_body_def Let_def bind_tx_def)
  moreover have "rollback w w = w" using assms(1) by (simp add: rollback_def healthy_def)
  ultimately have "WithImmediateTx (Tick_body cfg hook clock_ms) w = (Inl ErrManagedPanel, w)"
    using WithImmediateTx_err [OF assms(1)] by metis
  then show ?thesis by (simp add: Tick_def attempt_def)
qed

text \<open>
  On a panel that a master has been managing within the last 24 hours the tick refuses to run, unless
  configured otherwise, and changes nothing: otherwise the same traffic would be factored twice.
\<close>

theorem managed_panel_is_refused:
  assumes "healthy w" and "\<not> tc_factor_on_managed_node cfg"
    and "''client_global_traffics'' \<in> set (t_tables (w_db w))"
    and "\<exists>u \<in> set (t_client_global_traffics (w_db w)). clock_ms - managedPanelWindow \<le> u"
  shows "Tick cfg hook clock_ms w =
    (Inl (ErrWrap ''tick aborted and transaction rolled back: '' ErrManagedPanel []), w)"
  using assms by (rule managed_tick)

section \<open>Counters never decrease\<close>

definition in_range :: "Database \<Rightarrow> bool" where
  "in_range d \<longleftrightarrow> (\<forall>t \<in> set (t_client_traffics d). in_i64 (tr_up t) \<and> in_i64 (tr_down t))"

definition row_grows :: "TrafficRow \<Rightarrow> TrafficRow \<Rightarrow> bool" where
  "row_grows t t' \<longleftrightarrow> identity_of t' = identity_of t \<and> tr_up t \<le> tr_up t' \<and> tr_down t \<le> tr_down t'"

definition grown :: "Database \<Rightarrow> Database \<Rightarrow> bool" where
  "grown d d' \<longleftrightarrow> (in_range d \<longrightarrow> in_range d' \<and> list_all2 row_grows (t_client_traffics d) (t_client_traffics d'))"

lemma row_grows_refl: "row_grows t t"
  by (simp add: row_grows_def)

lemma grown_same: "t_client_traffics d' = t_client_traffics d \<Longrightarrow> grown d d'"
  by (simp add: grown_def in_range_def list_all2_same row_grows_refl)

lemma grown_trans: "grown d1 d2 \<Longrightarrow> grown d2 d3 \<Longrightarrow> grown d1 d3"
  unfolding grown_def
  by (auto intro: list_all2_trans [of row_grows row_grows row_grows] simp: row_grows_def)

interpretation growth: stable_relation grown
  by unfold_locales (auto intro: grown_same grown_trans)

abbreviation grows :: "'a tx \<Rightarrow> bool" where
  "grows m \<equiv> growth.under (\<lambda>_. True) m"

lemma keeps_grows: "keeps panel m \<Longrightarrow> grows m"
  by (erule growth.under_keeps) (simp add: panel_def grown_same)

lemma grows_CAS:
  assumes "in_i64 (ct_up c) \<Longrightarrow> ct_up c \<le> u" and "in_i64 (ct_down c) \<Longrightarrow> ct_down c \<le> v" and "in_i64 u" and "in_i64 v"
  shows "grows (UpdateClientCountersCAS c u v)"
proof -
  let ?f = "\<lambda>d. (length (filter (cas_match c) (t_client_traffics d)),
        d\<lparr>t_client_traffics := update_where (cas_match c) (\<lambda>t. t\<lparr>tr_up := u, tr_down := v\<rparr>) (t_client_traffics d)\<rparr>)"
  have step: "grown d (snd (?f d))" for d
    using assms
    by (auto simp: grown_def in_range_def update_where_def list.rel_map(2) row_grows_def identity_of_def cas_match_def
        intro!: list.rel_refl_strong)
  have "grows (ExecContext (\<lambda>d. Inr (?f d)))"
    using step by (intro growth.moves_ExecContext) auto
  then show ?thesis
    unfolding UpdateClientCountersCAS_def by (intro moves_intro)
qed

lemma grows_applyExtra:
  assumes "0 \<le> fst up" "in_i64 (fst up)" "0 \<le> fst down" "in_i64 (fst down)"
  shows "grows (applyExtra no_hook target c up down now)"
proof -
  have range: "in_i64 s" if "safeAdd a b = Inr s" for a b s
    using that by (auto simp: safeAdd_def split: if_splits)
  have le: "in_i64 a \<Longrightarrow> a \<le> s" if "safeAdd a b = Inr s" "0 \<le> b" "in_i64 b" for a b s
    using that by (auto simp: safeAdd_def MaxInt64_def in_i64_bounds split: if_splits)
  have base: "grows (UpdateRuleClientBaseline rc)" "grows (AddEvent r e m now)" for rc r e m
    by (rule keeps_grows, intro keeps_intro; simp)+
  show ?thesis
    unfolding applyExtra_def no_hook_def from_result_def
    by (auto split: sum.split simp del: return_tx_run fail_tx_run intro!: moves_intro grows_CAS base
        intro: le range dest: le [OF _ assms(1,2)] le [OF _ assms(3,4)])
qed

lemma calculateExtra_range: "calculateExtra a x r = Inr p \<Longrightarrow> 0 \<le> fst p \<and> in_i64 (fst p)"
  by (auto simp: calculateExtra_eq in_i64_nonneg pos_imp_zdiv_nonneg_iff split: if_splits)

lemma grows_tickTarget: "grows (tickTarget no_hook target now)"
proof -
  have base: "grows (UpdateRuleClientBaseline rc)" "grows (AddEvent r e m now)" "grows (AdoptRuleClientInbound a b i now)"
    "grows (LockClientTraffic t)" "grows (markMissing tg now)" for rc r e m a b i t tg
    by (rule keeps_grows, intro keeps_intro keeps_markMissing; simp)+
  have deltas: "grows (tickDeltas no_hook tg c a b now)" for tg c a b
    unfolding tickDeltas_def Let_def from_result_def
    by (auto split: sum.split simp del: return_tx_run fail_tx_run intro!: moves_intro base grows_applyExtra
        dest: calculateExtra_range)
  have current: "grows (tickCurrent no_hook tg c now)" for tg c
    unfolding tickCurrent_def rebaseline_def from_result_def
    by (intro moves_intro base deltas)
  show ?thesis
    unfolding tickTarget_def
    by (intro moves_intro base current)
qed

lemma grows_Tick: "grows (Tick cfg no_hook clock)"
proof -
  have body: "grows (Tick_body cfg no_hook clock)"
    unfolding Tick_body_def decision_step_def
    by (intro moves_intro grows_tickTarget keeps_grows [OF keeps_suppressed] keeps_grows [OF readers_keep(9)]
        keeps_grows [OF keeps_panel_reconcile] keeps_grows [OF keeps_reconcileScopes] keeps_grows [OF keeps_decide_all])
  have clean: "grows (runAutoCleanup cfg now)" for now
    unfolding runAutoCleanup_def by (rule keeps_grows, intro keeps_intro)
  show ?thesis
    unfolding Tick_def by (intro moves_intro clean growth.under_WithImmediateTx body) (auto intro: grown_same)
qed

text \<open>
  C16. What a tick does to the panel's own data: on a panel whose counters are \<open>int64\<close> values, no row of
  \<open>client_traffics\<close> appears, disappears or changes its id, inbound, enable flag, e-mail or total, and no
  counter ever decreases, whether the tick succeeds or fails.
\<close>

theorem tick_only_raises_counters:
  assumes "in_range (w_db w)"
  shows "list_all2 row_grows (t_client_traffics (w_db w)) (t_client_traffics (w_db (snd (Tick cfg no_hook clock w))))"
  using growth.underD [OF grows_Tick, of w cfg clock] assms by (simp add: grown_def)

section \<open>Other clients\<close>

text \<open>The rows of one traffic id.\<close>

definition rows_of :: "int \<Rightarrow> Database \<Rightarrow> TrafficRow list" where
  "rows_of i d = filter (\<lambda>s. tr_id s = i) (t_client_traffics d)"

lemma rows_of_simps [simp]:
  "rows_of i (d\<lparr>t_rule_clients := b\<rparr>) = rows_of i d" "rows_of i (d\<lparr>t_events := g\<rparr>) = rows_of i d"
  "rows_of i (d\<lparr>t_seq_events := s\<rparr>) = rows_of i d"
  by (simp_all add: rows_of_def)

lemma clientTrafficByID_id: "clientTrafficByID skip t w = (Inr c, w') \<Longrightarrow> ct_id c = t"
  by (auto simp: clientTrafficByID_def with_driver_def bind_tx_Inr found_Inr dest!: query_row_Inr
      first_of_in_set [OF sym])

lemma LockClientTraffic_id: "LockClientTraffic t w = (Inr c, w') \<Longrightarrow> ct_id c = t"
  by (auto simp: LockClientTraffic_def with_driver_def with_locked_def attempt_def bind_tx_def
      split: if_splits prod.splits sum.splits dest: clientTrafficByID_id)

lemma keeps_rows_CAS: "ct_id c \<noteq> i \<Longrightarrow> keeps (rows_of i) (UpdateClientCountersCAS c u v)"
  unfolding UpdateClientCountersCAS_def
  by (intro keeps_intro) (auto simp: rows_of_def cas_match_def intro!: filter_update_where_other)

lemma keeps_rows_base:
  "keeps (rows_of i) (markMissing target now)" "keeps (rows_of i) (refreshSuppressedBaseline now target u)"
  unfolding refreshSuppressedBaseline_def markMissing_def by (intro keeps_intro; simp)+

lemma keeps_rows_current:
  assumes "ct_id c \<noteq> i"
  shows "keeps (rows_of i) (tickCurrent no_hook target c now)"
  unfolding tickCurrent_def tickDeltas_def applyExtra_def rebaseline_def no_hook_def
  by (intro keeps_intro keeps_rows_CAS assms; simp)

lemma keeps_rows_tickTarget:
  assumes "rc_traffic_id (arc_client target) \<noteq> i"
  shows "keeps (rows_of i) (tickTarget no_hook target now)"
proof (rule keepsI)
  fix w r w'
  assume run: "tickTarget no_hook target now w = (r, w')"
  obtain res w1 where lock: "LockClientTraffic (rc_traffic_id (arc_client target)) w = (res, w1)" by fastforce
  then have same: "rows_of i (w_db w1) = rows_of i (w_db w)" by (rule keepsD [OF readers_keep(4)])
  show "rows_of i (w_db w') = rows_of i (w_db w)"
  proof (cases res)
    case (Inl e)
    with run lock same show ?thesis
      by (auto simp: tickTarget_def attempt_def split: if_splits dest!: keepsD [OF keeps_rows_base(1) [of i]])
  next
    case (Inr c)
    with lock assms have "ct_id c \<noteq> i" by (auto dest: LockClientTraffic_id)
    then have "keeps (rows_of i) (if ct_email c \<noteq> rc_email (arc_client target) then markMissing target now
        else if ct_inbound_id c \<noteq> rc_inbound_id (arc_client target) then
          bind_tx (AdoptRuleClientInbound (rc_rule_id (arc_client target)) (rc_traffic_id (arc_client target))
            (ct_inbound_id c) now) (\<lambda>_.
          tickCurrent no_hook
            (target\<lparr>arc_client := (arc_client target)\<lparr>rc_inbound_id := ct_inbound_id c\<rparr>\<rparr>) c now)
        else tickCurrent no_hook target c now)"
      by (intro keeps_intro keeps_rows_base keeps_rows_current; simp)
    from keepsD [OF this, of w1 r w'] run lock Inr same show ?thesis
      by (simp add: tickTarget_def attempt_def)
  qed
qed

lemma keeps_rows_decisions:
  assumes "\<forall>d \<in> set ds. case d_target d of None \<Rightarrow> True | Some t \<Rightarrow> rc_traffic_id (arc_client t) \<noteq> i"
  shows "keeps (rows_of i) (for_each ds (decision_step no_hook now) acc)"
  using assms
proof (induction ds arbitrary: acc)
  case (Cons d ds)
  have "keeps (rows_of i) (decision_step no_hook now d acc)"
    unfolding decision_step_def
    using Cons.prems by (cases "d_target d") (auto simp del: return_tx_run intro!: keeps_intro keeps_rows_base keeps_rows_tickTarget)
  with Cons show ?case by (auto intro: keeps_intro)
qed (simp add: keeps_return)

lemma tick_candidate_target:
  assumes "c \<in> set (tick_candidates targets excludes overrides)" and "c_target c = Some t"
  shows "rc_traffic_id (arc_client t) = c_traffic_id c"
  using assms
  by (auto simp: tick_candidates_def ActiveRuleCandidates_def rule_candidate_def ExcludeCandidatesForActiveTargets_def
      exclude_candidate_def OverrideCandidatesForActiveTargets_def override_candidate_def with_factor_def
      target_for_key_def target_key_def split: option.splits dest!: first_of_SomeD [OF sym])

lemma tick_decision_target:
  assumes "Decide (tick_candidates targets excludes overrides) = Inr ds" and "d \<in> set ds" and "d_target d = Some t"
  shows "rc_traffic_id (arc_client t) = d_traffic_id d"
proof -
  obtain w where "beats w (candidates_of (d_traffic_id d) (tick_candidates targets excludes overrides))"
    and "decided w (d_traffic_id d) d"
    using Decide_Inr(2) [OF assms(1,2)] by blast
  with assms(3) tick_candidate_target [of w targets excludes overrides t] show ?thesis
    by (auto simp: candidates_of_def decided_def dest!: beats_in)
qed

lemma exclude_decision:
  assumes dec: "Decide (tick_candidates targets excludes overrides) = Inr ds" and d: "d \<in> set ds"
    and p: "p \<in> set excludes" and t: "t \<in> set targets" and key: "target_key t = (ep_traffic_id p, ep_email p)"
    and i: "d_traffic_id d = ep_traffic_id p"
  shows "d_source d = SourceExclude \<and> d_target d = None"
proof -
  let ?cs = "candidates_of (ep_traffic_id p) (tick_candidates targets excludes overrides)"
  obtain w where w: "beats w ?cs" and dd: "decided w (ep_traffic_id p) d"
    using Decide_Inr(2) [OF dec d] i by auto
  have "exclude_candidate p \<in> set ?cs"
    using p t key by (auto simp: candidates_of_def tick_candidates_def ExcludeCandidatesForActiveTargets_def exclude_candidate_def
        image_iff intro!: bexI [of _ t])
  moreover have "rank c \<le> rank (exclude_candidate p)" for c
    by (cases "c_source c") (simp_all add: rank_def exclude_candidate_def)
  ultimately have "w = exclude_candidate p"
    using w by (metis (mono_tags, lifting) beats_def filter_only filter_only_in)
  with dd show ?thesis by (simp add: decided_def exclude_candidate_def)
qed

text \<open>
  C15. An excluded client is not charged: when the client of an active exclude has an active rule, whatever
  the other rules, scopes and overrides say, the loop over the tick's decisions leaves the client's
  row alone, however it ends.
\<close>

theorem excluded_client_is_not_charged:
  assumes "Decide (tick_candidates targets excludes overrides) = Inr ds"
    and "p \<in> set excludes" and "t \<in> set targets" and "target_key t = (ep_traffic_id p, ep_email p)"
  shows "rows_of (ep_traffic_id p) (w_db (snd (for_each ds (decision_step no_hook now) result w))) =
    rows_of (ep_traffic_id p) (w_db w)"
proof -
  have "\<forall>d \<in> set ds. case d_target d of None \<Rightarrow> True | Some t \<Rightarrow> rc_traffic_id (arc_client t) \<noteq> ep_traffic_id p"
    using exclude_decision [OF assms(1) _ assms(2-4)] tick_decision_target [OF assms(1)]
    by (auto split: option.split)
  from keepsD [OF keeps_rows_decisions [OF this, of now result], of w] show ?thesis
    by (cases "for_each ds (decision_step no_hook now) result w") auto
qed

section \<open>Concrete ticks\<close>

definition tick_config :: TickConfig where
  "tick_config = \<lparr>tc_factor_on_managed_node = False, tc_auto_cleanup = False,
     tc_retention = \<lparr>rt_missing_client_grace = 30000000000, rt_disabled_rule_retention = 604800000000000,
       rt_audit_retention = 2592000000000000\<rparr>\<rparr>"

definition managed_world :: World where
  "managed_world = sqlite_world [] (sample_db\<lparr>t_tables := [''client_global_traffics''], t_client_global_traffics := [5000]\<rparr>)"

lemma managed_world_facts:
  "healthy managed_world" "''client_global_traffics'' \<in> set (t_tables (w_db managed_world))"
  "\<exists>u \<in> set (t_client_global_traffics (w_db managed_world)). 100000 - managedPanelWindow \<le> u"
  "\<not> tc_factor_on_managed_node tick_config"
  by (simp_all add: managed_world_def managedPanelWindow_def tick_config_def)

theorem managed_panel_is_refused_witness:
  "Tick tick_config no_hook 100000 managed_world =
    (Inl (ErrWrap ''tick aborted and transaction rolled back: '' ErrManagedPanel []), managed_world)"
  by (rule managed_panel_is_refused) (rule managed_world_facts)+

theorem tick_only_raises_counters_witness:
  "list_all2 row_grows [busy_row] (t_client_traffics (w_db (snd (Tick tick_config no_hook 100000 (sqlite_world [] busy_db)))))"
  using tick_only_raises_counters [of "sqlite_world [] busy_db" tick_config 100000]
  by (simp add: in_range_def busy_db_def busy_row_def in_i64_bounds)

definition empty_result :: TickResult where
  "empty_result = \<lparr>tk_active_clients = 0, tk_reconciled = 0, tk_enrolled = 0, tk_enroll_skipped = 0, tk_applied = 0,
     tk_baselined = 0, tk_rebaselined = 0, tk_missing = 0, tk_deferred = 0\<rparr>"

theorem excluded_client_is_not_charged_witness:
  "rows_of 7 (w_db (snd (for_each [decision_of (exclude_candidate sample_exclude)
      (map rule_candidate [sample_active 1 None, sample_active 2 (Some (sample_scope 2))])]
      (decision_step no_hook 100) empty_result (sqlite_world [] busy_db)))) = [busy_row]"
proof -
  let ?targets = "[sample_active 1 None, sample_active 2 (Some (sample_scope 2))]"
  have "tick_candidates ?targets [sample_exclude] [] = sample_candidates"
    by (simp add: tick_candidates_def sample_candidates_def ActiveRuleCandidates_def OverrideCandidatesForActiveTargets_def
        ExcludeCandidatesForActiveTargets_def target_key_def sample_active_def sample_rc_def sample_exclude_def)
  then have "Decide (tick_candidates ?targets [sample_exclude] []) = Inr [decision_of (exclude_candidate sample_exclude)
      (map rule_candidate ?targets)]"
    by (simp only: sample_decision)
  from excluded_client_is_not_charged [OF this, of sample_exclude "sample_active 1 None" 100 empty_result "sqlite_world [] busy_db"]
  show ?thesis
    by (simp add: target_key_def sample_active_def sample_rc_def sample_exclude_def rows_of_def busy_db_def busy_row_def
        sample_row_def)
qed

end
