(* ===== verification/XF_Schema.thy ===== *)
theory XF_Schema
  imports XF_Tick
begin

text \<open>
  What holds of every database the program has written: identifiers are unique and below their
  sequence, keys are unique, rule clients and scopes belong to a rule, factors are at least 1 and
  remainders below 1. The constraints the tables declare (\<open>store/migrations.go\<close>) and the ones they leave
  to the program, as one predicate \<open>schema\<close>; every statement keeps it.
\<close>

section \<open>The predicate\<close>

definition numbered :: "('r \<Rightarrow> int) \<Rightarrow> int \<Rightarrow> 'r list \<Rightarrow> bool" where
  "numbered ident seq rows \<longleftrightarrow> 0 \<le> seq \<and> distinct (map ident rows) \<and> (\<forall>r \<in> set rows. 0 < ident r \<and> ident r \<le> seq)"

definition valid_factor :: "int \<Rightarrow> bool" where
  "valid_factor p \<longleftrightarrow> FactorScale \<le> p \<and> p \<le> MaxInt64"

definition valid_remainder :: "int \<Rightarrow> bool" where
  "valid_remainder n \<longleftrightarrow> 0 \<le> n \<and> n < FactorScale"

definition rule_ids :: "Database \<Rightarrow> int set" where
  "rule_ids d = rr_id ` set (t_rules d)"

definition valid_rule_client :: "int set \<Rightarrow> RuleClient \<Rightarrow> bool" where
  "valid_rule_client ids rc \<longleftrightarrow> rc_rule_id rc \<in> ids \<and> valid_remainder (rc_rem_up rc) \<and> valid_remainder (rc_rem_down rc)"

definition rules_ok :: "Database \<Rightarrow> bool" where
  "rules_ok d \<longleftrightarrow> numbered rr_id (t_seq_rules d) (t_rules d) \<and>
     (\<forall>r \<in> set (t_rules d). valid_factor (rr_factor_ppm r)) \<and>
     distinct (map sc_rule_id (t_scopes d)) \<and> (\<forall>s \<in> set (t_scopes d). sc_rule_id s \<in> rule_ids d)"

definition rule_clients_ok :: "Database \<Rightarrow> bool" where
  "rule_clients_ok d \<longleftrightarrow> distinct (map rc_order (t_rule_clients d)) \<and>
     (\<forall>rc \<in> set (t_rule_clients d). valid_rule_client (rule_ids d) rc)"

definition policies_ok :: "Database \<Rightarrow> bool" where
  "policies_ok d \<longleftrightarrow> numbered ep_id (t_seq_excludes d) (t_excludes d) \<and> distinct (map ep_tuple (t_excludes d)) \<and>
     numbered op_id (t_seq_overrides d) (t_overrides d) \<and> distinct (map op_tuple (t_overrides d)) \<and>
     (\<forall>p \<in> set (t_overrides d). valid_factor (op_factor_ppm p))"

definition schema :: "Database \<Rightarrow> bool" where
  "schema d \<longleftrightarrow> rules_ok d \<and> rule_clients_ok d \<and> policies_ok d \<and> numbered ev_id (t_seq_events d) (t_events d) \<and>
     distinct (map fst (t_meta d))"

text \<open>Each part of the schema looks at its own tables only.\<close>

lemma schema_frame [simp]:
  "rule_ids (d\<lparr>t_rule_clients := b\<rparr>) = rule_ids d"
  "rule_ids (d\<lparr>t_scopes := c\<rparr>) = rule_ids d" "rule_ids (d\<lparr>t_excludes := e\<rparr>) = rule_ids d"
  "rule_ids (d\<lparr>t_overrides := f\<rparr>) = rule_ids d" "rule_ids (d\<lparr>t_events := g\<rparr>) = rule_ids d"
  "rule_ids (d\<lparr>t_meta := h\<rparr>) = rule_ids d" "rule_ids (d\<lparr>t_seq_rules := s\<rparr>) = rule_ids d"
  "rule_ids (d\<lparr>t_seq_excludes := s\<rparr>) = rule_ids d"
  "rule_ids (d\<lparr>t_seq_overrides := s\<rparr>) = rule_ids d"
  "rule_ids (d\<lparr>t_seq_events := s\<rparr>) = rule_ids d"
  "rules_ok (d\<lparr>t_rule_clients := b\<rparr>) = rules_ok d"
  "rules_ok (d\<lparr>t_excludes := e\<rparr>) = rules_ok d"
  "rules_ok (d\<lparr>t_overrides := f\<rparr>) = rules_ok d" "rules_ok (d\<lparr>t_events := g\<rparr>) = rules_ok d"
  "rules_ok (d\<lparr>t_meta := h\<rparr>) = rules_ok d"
  "rules_ok (d\<lparr>t_seq_excludes := s\<rparr>) = rules_ok d"
  "rules_ok (d\<lparr>t_seq_overrides := s\<rparr>) = rules_ok d"
  "rules_ok (d\<lparr>t_seq_events := s\<rparr>) = rules_ok d"
  "rule_clients_ok (d\<lparr>t_scopes := c\<rparr>) = rule_clients_ok d"
  "rule_clients_ok (d\<lparr>t_excludes := e\<rparr>) = rule_clients_ok d"
  "rule_clients_ok (d\<lparr>t_overrides := f\<rparr>) = rule_clients_ok d"
  "rule_clients_ok (d\<lparr>t_events := g\<rparr>) = rule_clients_ok d"
  "rule_clients_ok (d\<lparr>t_meta := h\<rparr>) = rule_clients_ok d"
  "rule_clients_ok (d\<lparr>t_seq_rules := s\<rparr>) = rule_clients_ok d"
  "rule_clients_ok (d\<lparr>t_seq_excludes := s\<rparr>) = rule_clients_ok d"
  "rule_clients_ok (d\<lparr>t_seq_overrides := s\<rparr>) = rule_clients_ok d"
  "rule_clients_ok (d\<lparr>t_seq_events := s\<rparr>) = rule_clients_ok d"
  "policies_ok (d\<lparr>t_rules := a\<rparr>) = policies_ok d"
  "policies_ok (d\<lparr>t_rule_clients := b\<rparr>) = policies_ok d"
  "policies_ok (d\<lparr>t_scopes := c\<rparr>) = policies_ok d"
  "policies_ok (d\<lparr>t_events := g\<rparr>) = policies_ok d"
  "policies_ok (d\<lparr>t_meta := h\<rparr>) = policies_ok d"
  "policies_ok (d\<lparr>t_seq_rules := s\<rparr>) = policies_ok d"
  "policies_ok (d\<lparr>t_seq_events := s\<rparr>) = policies_ok d"
  by (simp_all add: rule_ids_def rules_ok_def rule_clients_ok_def policies_ok_def)

lemma schema_empty: "schema empty_db"
  by (simp add: schema_def rules_ok_def rule_clients_ok_def policies_ok_def numbered_def rule_ids_def empty_db_def)

section \<open>Keys\<close>

lemma numbered_later: "numbered ident seq rows \<Longrightarrow> seq \<le> seq' \<Longrightarrow> numbered ident seq' rows"
  by (fastforce simp: numbered_def)

lemma numbered_filter: "numbered ident seq rows \<Longrightarrow> numbered ident seq (filter p rows)"
  by (auto simp: numbered_def intro: distinct_map_filter)

lemma numbered_insert:
  "numbered ident seq rows \<Longrightarrow> ident r = seq + 1 \<Longrightarrow> numbered ident (seq + 1) (rows @ [r])"
  by (force simp: numbered_def)

lemma numbered_update:
  assumes "numbered ident seq rows" and "\<And>r. ident (f r) = ident r"
  shows "numbered ident seq (update_where p f rows)"
proof -
  have "map ident (update_where p f rows) = map ident rows"
    by (rule map_update_where_keep) (rule assms(2))
  moreover have "\<forall>r \<in> set (update_where p f rows). \<exists>r0 \<in> set rows. ident r = ident r0"
    by (auto simp: set_update_where assms(2))
  ultimately show ?thesis using assms(1) by (force simp: numbered_def)
qed

lemma ids_update: "(\<And>r. ident (f r) = ident r) \<Longrightarrow> ident ` set (update_where p f rows) = ident ` set rows"
  by (metis list.set_map map_update_where_keep)

lemma ball_update: "(\<forall>r \<in> set (update_where p f rows). P r) \<longleftrightarrow> (\<forall>r \<in> set rows. P (if p r then f r else r))"
  by (auto simp: update_where_def)

text \<open>Moving one row of a unique key to a key nobody has.\<close>

lemma distinct_rekey:
  assumes "distinct (map key rows)" and "\<And>r. r \<in> set rows \<Longrightarrow> p r \<Longrightarrow> key r = k"
    and "\<And>r. r \<in> set rows \<Longrightarrow> p r \<Longrightarrow> key (f r) = k'" and "k' \<notin> key ` set rows"
  shows "distinct (map key (update_where p f rows))"
  using assms
proof (induction rows)
  case (Cons r rows)
  have others: "\<And>s. s \<in> set rows \<Longrightarrow> p r \<Longrightarrow> \<not> p s" using Cons.prems(1,2) by force
  have rest: "distinct (map key (update_where p f rows))" using Cons by simp
  show ?case
  proof (cases "p r")
    case True
    then have "update_where p f rows = rows" using others by (intro update_where_id) auto
    with True Cons.prems show ?thesis by simp
  next
    case False
    have "key r \<noteq> key s" if "s \<in> set (update_where p f rows)" for s
      using that Cons.prems by (force simp: set_update_where)
    with False rest show ?thesis by auto
  qed
qed simp


section \<open>Shared guards\<close>

context stable_relation
begin

lemma under_described [moves_intro]:
  "stable C \<Longrightarrow> under C m \<Longrightarrow> under C (described a m)"
  unfolding described_def by (intro under_attempt under_branches moves_fail under_return)

lemma moves_optional:
  assumes "moves C m Q"
  shows "moves C (optional m) (\<lambda>r d. \<forall>x. r = Some x \<longrightarrow> Q x d)"
proof (rule movesI)
  fix w r w'
  assume C: "C (w_db w)" and run: "optional m w = (r, w')"
  obtain r1 w1 where m: "m w = (r1, w1)" by fastforce
  then have "w' = w1" and "\<And>x. r = Inr (Some x) \<Longrightarrow> r1 = Inr x"
    using run by (auto simp: optional_def attempt_def split: sum.splits if_splits)
  with m C movesD [OF assms C m] moves_resultD [OF assms C]
  show "R (w_db w) (w_db w') \<and> (\<forall>y. r = Inr y \<longrightarrow> (\<forall>x. y = Some x \<longrightarrow> Q x (w_db w')))" by blast
qed

lemma under_optional [moves_intro]: "under C m \<Longrightarrow> under C (optional m)"
  by (rule under_moves [OF moves_optional])

text \<open>The usual operand of a guard: one row, or that there is none.\<close>

lemma moves_optional_row:
  assumes "\<And>d. C d \<Longrightarrow> Q (q d) d"
  shows "moves C (optional (bind_tx (QueryRowContext q) found)) Q"
proof (rule movesI)
  fix w r w'
  assume C: "C (w_db w)" and run: "optional (bind_tx (QueryRowContext q) found) w = (r, w')"
  obtain r1 w1 where row: "QueryRowContext q w = (r1, w1)" by fastforce
  have same: "w_db w1 = w_db w" using keepsD [OF keeps_query_row row, of "\<lambda>d. d"] .
  have "w' = w1 \<and> (\<forall>x. r = Inr x \<longrightarrow> r1 = Inr x)"
    using run row
    by (auto simp: optional_def attempt_def bind_tx_def found_def QueryRowContext_def statement_def refuse_def Let_def
        split: sum.splits if_splits option.splits list.splits)
  with same query_row_Inr row assms C
  show "R (w_db w) (w_db w') \<and> (\<forall>x. r = Inr x \<longrightarrow> Q x (w_db w'))" by (metis reflexive)
qed

lemma moves_from_result [moves_intro]: "(\<And>x. r = Inr x \<Longrightarrow> moves C (f x) Q) \<Longrightarrow> moves C (from_result r f) Q"
  unfolding from_result_def by (cases r) (simp_all add: moves_fail del: fail_tx_run)

end

section \<open>Two relations\<close>

text \<open>
  \<open>trimmed\<close>: the schema still holds, no sequence went back, and the rules that are new have identifiers no
  rule has had. \<open>evolves\<close>: besides, no rule has gone. Only a clean-up deletes rules. A failed transaction may leave higher sequences behind.
\<close>

definition later :: "Database \<Rightarrow> Database \<Rightarrow> bool" where
  "later d d' \<longleftrightarrow> t_seq_rules d \<le> t_seq_rules d' \<and> t_seq_excludes d \<le> t_seq_excludes d' \<and>
     t_seq_overrides d \<le> t_seq_overrides d' \<and> t_seq_events d \<le> t_seq_events d' \<and>
     (\<forall>i \<in> rule_ids d'. i \<in> rule_ids d \<or> t_seq_rules d < i)"

definition trimmed :: "Database \<Rightarrow> Database \<Rightarrow> bool" where
  "trimmed d d' \<longleftrightarrow> (schema d \<longrightarrow> schema d' \<and> later d d')"

definition evolves :: "Database \<Rightarrow> Database \<Rightarrow> bool" where
  "evolves d d' \<longleftrightarrow> (schema d \<longrightarrow> schema d' \<and> later d d' \<and> rule_ids d \<subseteq> rule_ids d')"

lemma later_trans: "later d1 d2 \<Longrightarrow> later d2 d3 \<Longrightarrow> later d1 d3"
  by (force simp: later_def)

lemma later_refl: "later d d"
  by (simp add: later_def)

interpretation trim: stable_relation trimmed
  by unfold_locales (auto simp: trimmed_def later_refl intro: later_trans)

interpretation evo: stable_relation evolves
  by unfold_locales (auto simp: evolves_def later_refl intro: later_trans)

lemma evolves_trimmed: "evo.moves C m Q \<Longrightarrow> trim.moves C m Q"
  by (auto simp: evo.moves_def trim.moves_def evolves_def trimmed_def)

text \<open>A database with the schema that knows the rules \<open>S\<close>.\<close>

definition known :: "int set \<Rightarrow> Database \<Rightarrow> bool" where
  "known S d \<longleftrightarrow> schema d \<and> S \<subseteq> rule_ids d"

lemma stable_known [moves_intro]: "evo.stable (known S)"
  by (auto simp: evo.stable_def known_def evolves_def)

lemma stable_trimmed [moves_intro]: "trim.stable (known {})"
  by (auto simp: trim.stable_def known_def trimmed_def)

lemma known_any:
  "evo.under (known {}) m \<Longrightarrow> evo.under C m" "trim.under (known {}) m \<Longrightarrow> trim.under C m"
  by (auto simp: evo.moves_def trim.moves_def known_def evolves_def trimmed_def)

lemma known_mono: "evo.moves (known S) m Q \<Longrightarrow> S \<subseteq> T \<Longrightarrow> evo.moves (known T) m Q"
  by (erule evo.moves_conseq) (auto simp: known_def)

lemma schema_seqs:
  "schema d \<Longrightarrow> later d d1 \<Longrightarrow> schema (d\<lparr>t_seq_rules := t_seq_rules d1, t_seq_excludes := t_seq_excludes d1,
        t_seq_overrides := t_seq_overrides d1, t_seq_events := t_seq_events d1\<rparr>)"
  by (auto simp: schema_def rules_ok_def policies_ok_def later_def intro: numbered_later)

lemma transaction_keeps_schema:
  "evo.under (known {}) fn \<Longrightarrow> evo.under C (WithImmediateTx fn)"
  "trim.under (known {}) fn \<Longrightarrow> trim.under C (WithImmediateTx fn)"
  by (rule evo.under_any [OF evo.under_WithImmediateTx [OF known_any(1)]]
      trim.under_any [OF trim.under_WithImmediateTx [OF known_any(2)]];
      auto simp: evolves_def trimmed_def later_def rule_ids_def intro: schema_seqs)+

section \<open>Statements\<close>

text \<open>What the schema speaks of; a statement that leaves it alone is harmless.\<close>

definition metadata :: "Database \<Rightarrow> (RuleRow list \<times> RuleClient list \<times> Scope list) \<times>
    (ExcludePolicy list \<times> OverridePolicy list \<times> EventRow list \<times> (string \<times> string \<times> int) list) \<times> int \<times> int \<times> int \<times> int" where
  "metadata d = ((t_rules d, t_rule_clients d, t_scopes d), (t_excludes d, t_overrides d, t_events d, t_meta d),
     t_seq_rules d, t_seq_excludes d, t_seq_overrides d, t_seq_events d)"

lemma metadata_evolves: "metadata d' = metadata d \<Longrightarrow> evolves d d'"
  by (auto simp: metadata_def evolves_def later_def schema_def rules_ok_def rule_clients_ok_def policies_ok_def rule_ids_def)

lemma evo_keeps: "keeps metadata m \<Longrightarrow> evo.under C m"
  by (erule evo.under_keeps) (rule metadata_evolves)

lemma evolves_rules:
  assumes "\<And>r. rr_id (f r) = rr_id r" and "\<And>r. rr_factor_ppm (f r) = rr_factor_ppm r"
  shows "evolves d (d\<lparr>t_rules := update_where p f (t_rules d)\<rparr>)"
  by (simp add: evolves_def later_def schema_def rules_ok_def rule_clients_ok_def rule_ids_def assms ids_update ball_update
      numbered_update)

lemma evo_update_rule:
  "(\<And>r. rr_id (f r) = rr_id r) \<Longrightarrow> (\<And>r. rr_factor_ppm (f r) = rr_factor_ppm r) \<Longrightarrow> evo.under C (update_rule i f)"
  unfolding update_rule_def by (intro evo.moves_exec_tx conjI evolves_rules) simp_all

lemma evo_set_rule [moves_intro]:
  "evo.under C (SetRuleDisabled i now)" "evo.under C (SetRuleMerged i now)" "evo.under C (SetRuleOrphaned i now)"
  "evo.under C (SetRulePaused i now)" "evo.under C (SetRuleActive i now)"
  unfolding SetRuleDisabled_def SetRuleMerged_def SetRuleOrphaned_def SetRulePaused_def SetRuleActive_def
  by (rule evo_update_rule; simp)+

lemma evo_event [moves_intro]: "evo.under C (AddEvent r e m now)"
  unfolding AddEvent_def
  by (rule evo.moves_exec_tx) (simp add: evolves_def later_def schema_def insert_event_def Let_def numbered_insert)

lemma evo_event_once [moves_intro]: "evo.stable C \<Longrightarrow> evo.under C (AddEventOnce r e m now)"
  unfolding AddEventOnce_def by (intro moves_intro evo.moves_query_row) simp_all


lemma evolves_insert_rule:
  assumes "valid_factor (r_factor_ppm rule)" and "known S d" and "insert_rule rule d = (i, d')"
  shows "known (insert i S) d' \<and> evolves d d'"
proof -
  let ?row = "\<lparr>rr_id = t_seq_rules d + 1, rr_name = nullif_empty (r_name rule),
        rr_inbound_id = Some (r_inbound_id rule), rr_email = r_email rule,
        rr_factor_ppm = r_factor_ppm rule, rr_state = r_state rule,
        rr_created_at = r_created_at rule, rr_updated_at = r_updated_at rule,
        rr_activated_at = r_activated_at rule, rr_paused_at = None, rr_disabled_at = None\<rparr>"
  have d': "i = t_seq_rules d + 1" "d' = d\<lparr>t_seq_rules := t_seq_rules d + 1, t_rules := t_rules d @ [?row]\<rparr>"
    using assms(3) by (auto simp: insert_rule_def Let_def)
  have "numbered rr_id (t_seq_rules d) (t_rules d) \<Longrightarrow> numbered rr_id (t_seq_rules d + 1) (t_rules d @ [?row])"
    by (rule numbered_insert) simp_all
  moreover have "rule_ids d' = insert i (rule_ids d)" by (auto simp: d' rule_ids_def)
  ultimately show ?thesis
    using assms(1,2)
    by (auto simp: known_def evolves_def later_def schema_def rules_ok_def rule_clients_ok_def valid_rule_client_def d')
qed

lemma evo_create_rule:
  assumes "valid_factor (r_factor_ppm rule)"
  shows "evo.moves (known S) (CreateRule rule) (\<lambda>i. known (insert i S))"
  unfolding CreateRule_def insertReturningID_def
  by (intro moves_intro evo.moves_statement evo.moves_ExecContext) (use evolves_insert_rule [OF assms] in auto)

lemma evo_create_scope: "evo.under (known {sc_rule_id scope}) (CreateScope scope)"
proof (unfold CreateScope_def, rule evo.moves_ExecContext)
  fix d x d'
  assume "known {sc_rule_id scope} d"
    and "(if list_ex (\<lambda>s. sc_rule_id s = sc_rule_id scope) (t_scopes d)
      then Inl (unique_violation ''xui_factor_scopes.rule_id'')
      else Inr ((), d\<lparr>t_scopes := t_scopes d @ [scope]\<rparr>)) = Inr (x, d')"
  then have "d' = d\<lparr>t_scopes := t_scopes d @ [scope]\<rparr>" "sc_rule_id scope \<in> rule_ids d"
    "sc_rule_id scope \<notin> sc_rule_id ` set (t_scopes d)"
    by (auto simp: known_def list_ex_iff split: if_splits)
  then show "evolves d d' \<and> True"
    by (simp add: evolves_def later_def schema_def rules_ok_def)
qed

lemma evo_insert_rule_client:
  assumes "known {rc_rule_id rc} d" and "insert_rule_client rc d = Inr (x, d')"
    and "valid_remainder (rc_rem_up rc)" and "valid_remainder (rc_rem_down rc)"
  shows "evolves d d'"
proof -
  have "d' = d\<lparr>t_rule_clients := t_rule_clients d @ [rc]\<rparr>" "rc_order rc \<notin> rc_order ` set (t_rule_clients d)"
    "rc_rule_id rc \<in> rule_ids d"
    using assms(1,2) by (auto simp: insert_rule_client_def known_def list_ex_iff rc_order_def split: if_splits)
  with assms(3,4) show ?thesis
    by (simp add: evolves_def later_def schema_def rule_clients_ok_def valid_rule_client_def)
qed

lemma evo_create_rule_client: "evo.under (known {rc_rule_id rc}) (CreateRuleClient rc)"
  unfolding CreateRuleClient_def
  by (rule evo.moves_ExecContext)
    (simp add: evo_insert_rule_client [of "rc\<lparr>rc_rem_up := 0, rc_rem_down := 0, rc_missing_at := None\<rparr>"] valid_remainder_def)

lemma evo_copy_rule_client: "evo.under (known {i}) (CopyRuleClient j i t)"
proof -
  have "evolves d d'" if "known {i} d" "insert_rule_client (rc\<lparr>rc_rule_id := i\<rparr>) d = Inr (x, d')" "rc \<in> set (t_rule_clients d)"
    for d d' x rc
    using that by (intro evo_insert_rule_client [of "rc\<lparr>rc_rule_id := i\<rparr>" d x d'])
      (auto simp: known_def schema_def rule_clients_ok_def valid_rule_client_def)
  then show ?thesis
    unfolding CopyRuleClient_def
    by (intro evo.moves_ExecContext) (auto simp: evo.reflexive split: option.splits dest: first_of_SomeD)
qed

text \<open>An update of rule clients that keeps their keys.\<close>

lemma evolves_rule_clients:
  assumes "\<And>rc. rc \<in> set (t_rule_clients d) \<Longrightarrow> p rc \<Longrightarrow> rc_order (f rc) = rc_order rc"
    and "\<And>rc. rc \<in> set (t_rule_clients d) \<Longrightarrow> p rc \<Longrightarrow> valid_rule_client (rule_ids d) rc \<Longrightarrow> valid_rule_client (rule_ids d) (f rc)"
  shows "evolves d (d\<lparr>t_rule_clients := update_where p f (t_rule_clients d)\<rparr>)"
proof -
  have "map rc_order (update_where p f (t_rule_clients d)) = map rc_order (t_rule_clients d)"
    by (rule map_update_where_keep) (rule assms(1))
  with assms(2) show ?thesis
    by (simp add: evolves_def later_def schema_def rule_clients_ok_def ball_update)
qed

lemma evo_rule_clients [moves_intro]:
  "evo.under C (MarkRuleClientMissing r t now)" "evo.under C (AdoptRuleClientInbound r t i now)"
  unfolding MarkRuleClientMissing_def AdoptRuleClientInbound_def update_rule_clients_def
  by (rule evo.moves_exec_tx, rule conjI, rule evolves_rule_clients;
      auto simp: rc_order_def valid_rule_client_def)+

lemma evo_baseline:
  "valid_remainder (rc_rem_up rc) \<Longrightarrow> valid_remainder (rc_rem_down rc) \<Longrightarrow> evo.under C (UpdateRuleClientBaseline rc)"
  unfolding UpdateRuleClientBaseline_def update_rule_clients_def
  by (rule evo.moves_exec_tx, rule conjI, rule evolves_rule_clients;
      auto simp: rc_order_def valid_rule_client_def)

lemma refresh_row_simps [simp]:
  "rc_rule_id (refresh_row now c rc) = rc_rule_id rc" "rc_traffic_id (refresh_row now c rc) = rc_traffic_id rc"
  "rc_email (refresh_row now c rc) = rc_email rc" "rc_rem_up (refresh_row now c rc) = 0" "rc_rem_down (refresh_row now c rc) = 0"
  by (simp_all add: refresh_row_def)

lemma evo_refresh [moves_intro]:
  "evo.stable C \<Longrightarrow> evo.under C (RefreshActiveRuleClientBaselinesForTraffic t e now)"
  "evo.stable C \<Longrightarrow> evo.under C (RefreshRuleClientBaselinesCount r now)"
  "evo.stable C \<Longrightarrow> evo.under C (RefreshRuleClientBaselines r now)"
proof -
  have row: "evo.under C (update_rule_clients p (\<lambda>old. (refresh_row now c old)\<lparr>rc_email := e'\<rparr>))" for C p c e'
    unfolding update_rule_clients_def
    by (rule evo.moves_exec_tx, rule conjI, rule evolves_rule_clients;
        auto simp: rc_order_def valid_rule_client_def valid_remainder_def)
  have all: "evolves d (d\<lparr>t_rule_clients := update_where p (refresh_row now c) (t_rule_clients d)\<rparr>)" for d p c
    by (rule evolves_rule_clients) (auto simp: rc_order_def valid_rule_client_def valid_remainder_def)
  show "evo.stable C \<Longrightarrow> evo.under C (RefreshActiveRuleClientBaselinesForTraffic t e now)"
    unfolding RefreshActiveRuleClientBaselinesForTraffic_def Let_def
    by (intro moves_intro evo.moves_ExecContext evo.under_reads readers_keep) (auto intro: all)
  show count: "evo.stable C \<Longrightarrow> evo.under C (RefreshRuleClientBaselinesCount r now)"
    unfolding RefreshRuleClientBaselinesCount_def by (intro moves_intro row evo.moves_query) simp_all
  show "evo.stable C \<Longrightarrow> evo.under C (RefreshRuleClientBaselines r now)"
    unfolding RefreshRuleClientBaselines_def by (intro moves_intro count)
qed


text \<open>Following a client to another traffic row changes a key, after checking that nobody has it.\<close>

lemma evo_relink:
  assumes "evo.stable C"
  shows "evo.under C (RelinkRuleClientByEmail r t now)"
proof -
  have step: "evolves d (d\<lparr>t_rule_clients := update_where
      (\<lambda>old. is_rc r t old \<and> \<not> list_ex (is_rc r (ct_id c)) (t_rule_clients d))
      (\<lambda>old. (refresh_row now c old)\<lparr>rc_traffic_id := ct_id c\<rparr>) (t_rule_clients d)\<rparr>)" (is "evolves d (?new d c)") for d c
  proof (cases "list_ex (is_rc r (ct_id c)) (t_rule_clients d)")
    case True
    then show ?thesis by (simp add: update_where_id evo.reflexive)
  next
    case False
    then have "(r, ct_id c) \<notin> rc_order ` set (t_rule_clients d)"
      by (auto simp: list_ex_iff is_rc_def rc_order_def)
    then have "distinct (map rc_order (t_rule_clients d)) \<Longrightarrow> distinct (map rc_order (t_rule_clients (?new d c)))"
      by (simp, intro distinct_rekey [where k = "(r, t)" and k' = "(r, ct_id c)"]) (auto simp: is_rc_def rc_order_def)
    then show ?thesis
      by (simp add: evolves_def later_def schema_def rule_clients_ok_def ball_update valid_rule_client_def valid_remainder_def)
  qed
  show ?thesis
    unfolding RelinkRuleClientByEmail_def Let_def
    by (intro moves_intro assms evo.moves_ExecContext evo.under_reads rule_readers_keep readers_keep) (use step in auto)
qed

section \<open>Policies and metadata values\<close>

lemma evo_write_excludes:
  assumes "numbered ep_id (t_seq_excludes d) (t_excludes d) \<Longrightarrow> numbered ep_id (t_seq_excludes d) rows"
    and "write_excludes rows d = Inr (x, d')"
  shows "evolves d d'"
  using assms by (auto simp: write_excludes_def evolves_def later_def schema_def policies_ok_def split: if_splits)

lemma evo_write_overrides:
  assumes "numbered op_id (t_seq_overrides d) (t_overrides d) \<Longrightarrow> numbered op_id (t_seq_overrides d) rows"
    and "schema d \<Longrightarrow> \<forall>p \<in> set rows. valid_factor (op_factor_ppm p)" and "write_overrides rows d = Inr (x, d')"
  shows "evolves d d'"
  using assms by (auto simp: write_overrides_def evolves_def later_def schema_def policies_ok_def split: if_splits)

lemma evo_update_exclude: "(\<And>p. ep_id (f p) = ep_id p) \<Longrightarrow> evo.under C (update_exclude i f)"
  unfolding update_exclude_def
  by (rule evo.moves_ExecContext) (auto intro: evo_write_excludes numbered_update)

lemma evo_update_override:
  "(\<And>p. op_id (f p) = op_id p) \<Longrightarrow> (\<And>p. valid_factor (op_factor_ppm p) \<Longrightarrow> valid_factor (op_factor_ppm (f p))) \<Longrightarrow>
    evo.under C (update_override i f)"
  unfolding update_override_def
  by (rule evo.moves_ExecContext)
    (auto elim!: evo_write_overrides [rotated 2] intro!: numbered_update
      simp: set_update_where schema_def policies_ok_def)

lemma evo_insert_exclude [moves_intro]: "evo.under C (insertReturningID (insert_exclude p))"
proof -
  have "evolves d d'" if "insert_exclude p d = Inr (x, d')" for d x d'
    using that
    by (auto simp: insert_exclude_def write_excludes_def Let_def evolves_def later_def schema_def policies_ok_def
        numbered_insert [where ident = ep_id] split: if_splits)
  then show ?thesis
    unfolding insertReturningID_def by (intro moves_intro evo.moves_statement evo.moves_ExecContext) auto
qed

lemma evo_insert_override:
  assumes "valid_factor (op_factor_ppm p)"
  shows "evo.under C (insertReturningID (insert_override p))"
proof -
  have "evolves d d'" if "insert_override p d = Inr (x, d')" for d x d'
    using that assms
    by (auto simp: insert_override_def write_overrides_def Let_def evolves_def later_def schema_def policies_ok_def
        numbered_insert [where ident = op_id] split: if_splits)
  then show ?thesis
    unfolding insertReturningID_def by (intro moves_intro evo.moves_statement evo.moves_ExecContext) auto
qed

lemma evo_policy_readers [moves_intro]:
  "evo.under C (findExcludeForUpsert t e)" "evo.under C (findOverrideForUpsert t e)" "evo.under C (FindExcludeByID i)"
  "evo.under C (FindOverrideByID i)"
  unfolding FindExcludeByID_def FindOverrideByID_def by (rule evo_keeps, intro keeps_intro)+

lemma evo_upsert_exclude [moves_intro]: "evo.stable C \<Longrightarrow> evo.under C (UpsertExclude p)"
  unfolding UpsertExclude_def by (intro moves_intro evo_update_exclude) simp_all

lemma evo_upsert_override:
  "evo.stable C \<Longrightarrow> valid_factor (op_factor_ppm p) \<Longrightarrow> evo.under C (UpsertOverride p)"
  unfolding UpsertOverride_def by (intro moves_intro evo_update_override evo_insert_override) simp_all

lemma evo_disable_policy [moves_intro]:
  "evo.under C (DisableExclude i now)" "evo.under C (DisableOverride i now)"
  unfolding DisableExclude_def DisableOverride_def by (intro evo_update_exclude evo_update_override; simp)+

lemma evo_relink_exclude [moves_intro]: "evo.stable C \<Longrightarrow> evo.under C (RelinkExcludeRow p c now)"
  unfolding RelinkExcludeRow_def by (intro moves_intro evo_update_exclude evo.moves_query_row) simp_all

lemma evo_relink_override:
  "evo.stable C \<Longrightarrow> valid_factor (op_factor_ppm p) \<Longrightarrow> evo.under C (RelinkOverrideRow p c now)"
  unfolding RelinkOverrideRow_def by (intro moves_intro evo_update_override evo.moves_query_row) simp_all

lemma evo_set_meta [moves_intro]: "evo.under C (SetMetaInt64 key v)"
proof -
  have "map fst (update_where (\<lambda>(k, _, _). k = key) (\<lambda>_. (key, u)) m) = map fst m" for u :: "string \<times> int" and m
    by (rule map_update_where_keep) auto
  then show ?thesis
    unfolding SetMetaInt64_def
    by (intro evo.moves_exec_tx) (auto simp: upsert_meta_def evolves_def later_def schema_def list_ex_iff)
qed

section \<open>Deletions\<close>

lemma trim_prunes [moves_intro]:
  "trim.under C (exec_tx (\<lambda>d. d\<lparr>t_rule_clients := filter p (t_rule_clients d)\<rparr>))"
  "trim.under C (exec_tx (\<lambda>d. d\<lparr>t_scopes := filter q (t_scopes d)\<rparr>))"
  "trim.under C (exec_tx (\<lambda>d. d\<lparr>t_excludes := filter e (t_excludes d)\<rparr>))"
  "trim.under C (exec_tx (\<lambda>d. d\<lparr>t_overrides := filter f (t_overrides d)\<rparr>))"
  "trim.under C (exec_tx (\<lambda>d. d\<lparr>t_events := filter g (t_events d)\<rparr>))"
  by (rule trim.moves_exec_tx, auto simp: trimmed_def later_def schema_def rules_ok_def rule_clients_ok_def
      policies_ok_def intro: distinct_map_filter numbered_filter)+

text \<open>A rule is deleted after its clients and its scope.\<close>

lemma trim_delete_rule [moves_intro]: "trim.under (known {}) (delete_rule i)"
proof -
  let ?no_clients = "\<lambda>_ d. \<forall>rc \<in> set (t_rule_clients d). rc_rule_id rc \<noteq> i"
  let ?no_scope = "\<lambda>_ d. (\<forall>rc \<in> set (t_rule_clients d). rc_rule_id rc \<noteq> i) \<and> (\<forall>s \<in> set (t_scopes d). sc_rule_id s \<noteq> i)"
  have "trim.moves C (exec_tx (\<lambda>d. d\<lparr>t_rule_clients := filter (\<lambda>rc. rc_rule_id rc \<noteq> i) (t_rule_clients d)\<rparr>)) ?no_clients" for C
    by (rule trim.moves_exec_tx)
      (auto simp: trimmed_def later_def schema_def rule_clients_ok_def intro: distinct_map_filter)
  moreover have "trim.moves (?no_clients x) (exec_tx (\<lambda>d. d\<lparr>t_scopes := filter (\<lambda>s. sc_rule_id s \<noteq> i) (t_scopes d)\<rparr>)) ?no_scope"
    for x :: unit
    by (rule trim.moves_exec_tx)
      (auto simp: trimmed_def later_def schema_def rules_ok_def intro: distinct_map_filter)
  moreover have ids: "rr_id ` {r \<in> set rs. rr_id r \<noteq> i} = rr_id ` set rs - {i}" for rs by auto
  have "trim.under (?no_scope x) (exec_tx (\<lambda>d. d\<lparr>t_rules := filter (\<lambda>r. rr_id r \<noteq> i) (t_rules d)\<rparr>))"
    for x :: unit
    by (rule trim.moves_exec_tx)
      (auto simp: trimmed_def later_def schema_def rules_ok_def rule_clients_ok_def valid_rule_client_def rule_ids_def
        ids intro: distinct_map_filter numbered_filter)
  ultimately show ?thesis unfolding delete_rule_def by (rule trim.moves_bind [OF _ trim.moves_bind])
qed

end
