(* ===== verification/XF_System.thy ===== *)
theory XF_System
  imports XF_Schema
begin

text \<open>
  The commands, the tick and the clean-up keep the schema, whatever they return and whatever the
  driver does; the system as a step relation, and what every reachable database satisfies.
\<close>

section \<open>Rule commands\<close>

lemmas evo_readers [moves_intro] = readers_keep [THEN evo.under_reads] rule_readers_keep [THEN evo.under_reads]
  exclude_finders_keep [THEN evo.under_reads] override_finders_keep [THEN evo.under_reads]

lemma evo_new_rule:
  "valid_factor (r_factor_ppm rule) \<Longrightarrow> (\<And>i. evo.moves (known (insert i S)) (f i) Q) \<Longrightarrow>
    evo.moves (known S) (bind_tx (CreateRule rule) f) Q"
  by (rule evo.moves_bind [OF evo_create_rule])

lemma new_rule_simps [simp]:
  "r_factor_ppm (new_rule n i e f now) = f" "rc_rule_id (new_rule_client i c now) = i"
  by (simp_all add: new_rule_def new_rule_client_def)

lemma evo_member_of_rule:
  "rc_rule_id rc \<in> S \<Longrightarrow> evo.under (known S) (CreateRuleClient rc)"
  "sc_rule_id scope \<in> S \<Longrightarrow> evo.under (known S) (CreateScope scope)"
  "i \<in> S \<Longrightarrow> evo.under (known S) (CopyRuleClient j i t)"
  by (rule known_mono [OF evo_create_rule_client] known_mono [OF evo_create_scope] known_mono [OF evo_copy_rule_client];
      simp)+

lemma ParseFactor_valid: "ParseFactor s = Inr p \<Longrightarrow> valid_factor p"
  by (auto simp: valid_factor_def in_i64_def dest: ParseFactor_in_range)

lemma evo_rule_commands:
  "evo.under C (Enable req now)" "evo.under C (Disable sel now)" "evo.under C (Pause sel now)" "evo.under C (Resume sel now)"
  unfolding Enable_def Enable_body_def Disable_def Pause_def transition_def transition_body_def Resume_def Resume_body_def
  by (intro moves_intro transaction_keeps_schema evo_new_rule evo_member_of_rule; auto dest: ParseFactor_valid)+


section \<open>Policy commands\<close>

lemma evo_policy_commands:
  "evo.under C (Exclude req now)" "evo.under C (Unexclude req now)" "evo.under C (Override req now)"
  "evo.under C (RemoveOverride req now)"
  unfolding Exclude_def Exclude_body_def Unexclude_def Unexclude_body_def Override_def Override_body_def
    RemoveOverride_def RemoveOverride_body_def refresh_if_present_def
  by (intro moves_intro transaction_keeps_schema evo_upsert_override; simp; auto dest: ParseFactor_valid)+

section \<open>Reconciliation\<close>

lemma evo_adopt:
  "sc_rule_id scope \<in> S \<Longrightarrow> evo.under (known S) (adoptSingleRuleIntoScope scope rule c now)"
  unfolding adoptSingleRuleIntoScope_def by (intro moves_intro evo_member_of_rule)

lemma evo_adopt_or_supersede:
  "sc_rule_id scope \<in> S \<Longrightarrow> evo.under (known S) (adoptOrSupersede scope rule c now dry)"
  unfolding adoptOrSupersede_def by (intro moves_intro evo_adopt)

lemma evo_compatible_scope:
  "evo.stable C \<Longrightarrow> evo.moves C (compatibleScopeForClient scopes rule c) (\<lambda>r _. \<forall>s. r = Some s \<longrightarrow> s \<in> set scopes)"
proof (induction scopes)
  case (Cons s ss)
  have rest: "evo.moves C (compatibleScopeForClient ss rule c) (\<lambda>r _. \<forall>x. r = Some x \<longrightarrow> x \<in> set (s # ss))"
    by (rule evo.moves_conseq [OF Cons.IH [OF Cons.prems]]) auto
  have "evo.under C (scopeMatchesClient s rule c)"
    unfolding scopeMatchesClient_def by (intro moves_intro Cons.prems)
  then show ?case
    unfolding compatibleScopeForClient.simps
    by (intro moves_intro Cons.prems rest evo.moves_return) auto
qed (auto intro: evo.moves_return simp del: return_tx_run)

lemma evo_found_client:
  assumes "\<forall>s \<in> set scopes. sc_rule_id s \<in> S"
  shows "evo.under (known S) (reconcileFoundClient rule scopes now dry rc c rep)"
proof -
  have orphan: "evo.under (known S) (orphanRule rule now dry why)" for why
    unfolding orphanRule_def by (intro moves_intro)
  have adopt: "evo.under (known S) (case scope of None \<Rightarrow> return_tx False | Some s \<Rightarrow> adoptOrSupersede s rule c now dry)"
    if "\<forall>s. scope = Some s \<longrightarrow> s \<in> set scopes" for scope
    using that assms by (auto simp del: return_tx_run split: option.split intro!: evo.under_return evo_adopt_or_supersede)
  show ?thesis
    unfolding reconcileFoundClient_def
    by (rule evo.under_bind; (rule evo.under_bind_value [OF _ evo_compatible_scope])?;
        (intro moves_intro orphan adopt)?; simp)
qed

lemma evo_reconcile_rule:
  assumes "\<forall>s \<in> set scopes. sc_rule_id s \<in> S"
  shows "evo.under (known S) (reconcileSingleRule rule scopes now dry)"
proof -
  have orphan: "evo.under (known S) (orphanRule r now dry why)" for r why
    unfolding orphanRule_def by (intro moves_intro)
  have mark: "evo.under (known S) (markRuleClientMissing i rc now dry)" for i rc
    unfolding markRuleClientMissing_def by (intro moves_intro)
  have current: "evo.under (known S) (reconcileWithCurrent rule scopes now dry rc c rep)" for rc c rep
    unfolding reconcileWithCurrent_def
    by (intro moves_intro orphan mark evo_baseline evo_found_client assms) (simp_all add: valid_remainder_def FactorScale_def)
  show ?thesis
    unfolding reconcileSingleRule_def reconcileReplaced_def
    by (intro moves_intro orphan mark current evo_relink)
qed


lemma scope_rules_rule: "s \<in> set (scope_rules p d) \<Longrightarrow> sc_rule_id s \<in> rule_ids d"
  unfolding scope_rules_def rule_ids_def by (force intro: rev_image_eqI)

lemma evo_active_scopes:
  "evo.moves (known S) ListActivePersistentScopes (\<lambda>ss. known (sc_rule_id ` set ss))"
  unfolding ListActivePersistentScopes_def
  by (rule evo.moves_query) (auto simp: known_def dest: scope_rules_rule)

lemma evo_active_overrides:
  "evo.moves (known S) ListActiveOverrides (\<lambda>ps _. \<forall>p \<in> set ps. valid_factor (op_factor_ppm p))"
  unfolding ListActiveOverrides_def
  by (rule evo.moves_query) (auto simp: known_def schema_def policies_ok_def active_overrides_def)

lemma evo_policies: "evo.under (known S) (reconcilePolicies req now)"
proof -
  have resolve: "evo.under (known S) (resolvePolicyTraffic t e)" "evo.under (known S) (policy_selected req e)" for t e
    unfolding resolvePolicyTraffic_def policy_selected_def by (intro moves_intro)+
  have exclude: "evo.under (known S) (repair_exclude req now p n)" for p n
    unfolding repair_exclude_def by (intro moves_intro resolve)
  have override: "evo.under (known S) (repair_override req now p n)" if "valid_factor (op_factor_ppm p)" for p n
    unfolding repair_override_def by (intro moves_intro resolve evo_relink_override that)
  show ?thesis
    unfolding reconcilePolicies_def
    by (rule evo.under_bind, intro moves_intro, intro moves_intro,
        rule evo.under_bind_value [OF _ evo_active_overrides], intro moves_intro,
        intro moves_intro exclude evo.under_for_each override) auto
qed

lemma evo_ReconcileTx: "evo.under (known S) (ReconcileTx now req)"
proof -
  have rest: "evo.under (known S) (bind_tx ListActivePersistentScopes (\<lambda>scopes.
      bind_tx (for_each rules (\<lambda>rule result.
        if r_scope rule \<noteq> None then return_tx result
        else bind_tx (reconcileSingleRule rule scopes now (rq_dry_run req)) (\<lambda>step.
          return_tx (add_step result step))) no_reconcile) (\<lambda>result.
      bind_tx (reconcilePolicies req now) (\<lambda>repaired.
      return_tx (result\<lparr>rr_policies_repaired := repaired\<rparr>)))))" for rules
    by (rule evo.moves_bind [OF evo_active_scopes]) (intro moves_intro evo_policies evo_reconcile_rule; simp)
  show ?thesis
    unfolding ReconcileTx_def
    by (rule evo.under_branches(1), rule evo.moves_fail, rule evo.under_bind [OF stable_known _ rest], intro evo_readers)
qed

lemma evo_Reconcile: "evo.under C (Reconcile req now)"
  unfolding Reconcile_def by (intro transaction_keeps_schema evo_ReconcileTx)

section \<open>Bulk commands\<close>

lemma evo_create_scope_rule:
  "valid_factor p \<Longrightarrow> evo.moves (known S) (create_scope_rule req p once msg now) (\<lambda>i. known {i})"
  unfolding create_scope_rule_def
  by (rule evo_new_rule; (intro moves_intro evo_member_of_rule evo.moves_return)?)
    (auto simp: request_scope_def known_def)

lemma evo_snapshot: "valid_factor p \<Longrightarrow> evo.under (known {}) (enableAllSnapshot req p clients now result)"
proof -
  assume p: "valid_factor p"
  have select: "evo.under (known {}) (snapshot_select c acc)" for c acc
    unfolding snapshot_select_def by (intro moves_intro)
  have create: "evo.under (known {i}) (CreateRuleClient (new_rule_client i c now))" for i c
    by (intro evo_member_of_rule) simp
  have scope: "evo.under (known {}) (bind_tx (create_scope_rule req p True msg now) (\<lambda>i. for_each targets
      (\<lambda>c r. bind_tx (CreateRuleClient (new_rule_client i c now)) (\<lambda>_. return_tx (h r))) r))" for msg targets h r
    by (rule evo.moves_bind [OF evo_create_scope_rule [OF p]], intro moves_intro create)
  show ?thesis
    unfolding enableAllSnapshot_def
  proof (rule evo.under_bind [OF stable_known])
    show "evo.under (known {}) (for_each clients snapshot_select ([], result))" by (intro moves_intro select)
  qed (auto simp del: return_tx_run split: prod.split intro!: evo.under_return scope)
qed

lemma evo_enroll_candidate: "sc_rule_id scope \<in> S \<Longrightarrow> evo.under (known S) (enroll_candidate scope now c result)"
  unfolding enroll_candidate_def by (intro moves_intro evo_adopt evo_member_of_rule; simp)

lemma evo_find_scope: "evo.moves (known {}) (FindActivePersistentScope p i l b) (\<lambda>s. known {sc_rule_id s})"
  unfolding FindActivePersistentScope_def
  by (rule evo.moves_bind [where Q' = "\<lambda>r d. \<forall>s. r = Some s \<longrightarrow> known {sc_rule_id s} d"],
      rule evo.moves_query, auto simp: known_def intro!: evo.moves_found
        dest!: first_of_in_set dest: scope_rules_rule)

lemma evo_persistent:
  assumes "valid_factor p"
  shows "evo.under (known {}) (enableAllPersistent req p clients now result)"
proof -
  let ?scope = "\<lambda>existing. case existing of Some scope \<Rightarrow> return_tx scope
      | None \<Rightarrow> bind_tx (create_scope_rule req p False ''persistent scope enabled by enable-all'' now) (\<lambda>ruleID.
          return_tx (created_scope req p ruleID now))"
  have scope: "evo.moves (\<lambda>d. known {} d \<and> (\<forall>s. existing = Some s \<longrightarrow> known {sc_rule_id s} d)) (?scope existing)
      (\<lambda>s. known {sc_rule_id s})" for existing
  proof (cases existing)
    case None
    have "evo.moves (known {}) (?scope None) (\<lambda>s. known {sc_rule_id s})"
      by (simp del: return_tx_run, rule evo.moves_bind [OF evo_create_scope_rule [OF assms]], rule evo.moves_return)
        (simp add: created_scope_def)
    then show ?thesis unfolding None by (rule evo.moves_conseq) auto
  qed (auto simp del: return_tx_run intro: evo.moves_return)
  have loop: "evo.under (known {sc_rule_id s}) (for_each clients (enroll_candidate s now) result)" for s
    by (intro moves_intro evo_enroll_candidate) simp
  show ?thesis
    unfolding enableAllPersistent_def
    by (rule evo.moves_bind [OF evo.moves_stable [OF stable_known evo.moves_optional [OF evo_find_scope]]],
        rule evo.moves_bind [OF scope loop])
qed

lemma evo_EnableAll: "evo.under C (EnableAll req now)"
  unfolding EnableAll_def EnableAll_body_def
  by (intro moves_intro transaction_keeps_schema evo_snapshot evo_persistent evo_ReconcileTx; auto dest: ParseFactor_valid)

lemma evo_bulk_transitions:
  "evo.under C (DisableAll inb now)" "evo.under C (PauseAll inb now)" "evo.under C (ResumeAll inb now)"
  unfolding DisableAll_def PauseAll_def bulkTransition_def bulk_step_def ResumeAll_def resume_step_def
  by (intro transaction_keeps_schema moves_intro)+

section \<open>The tick\<close>

lemma calculateExtra_remainder: "calculateExtra a x r = Inr p \<Longrightarrow> valid_remainder (snd p)"
  by (auto simp: calculateExtra_eq valid_remainder_def split: if_splits)

lemma baseline_remainders [simp]:
  "rc_rem_up (baseline t c u v now) = u" "rc_rem_down (baseline t c u v now) = v"
  by (simp_all add: baseline_def)

lemma valid_remainder_0 [simp]: "valid_remainder 0"
  by (simp add: valid_remainder_def FactorScale_def)

lemma evo_CAS [moves_intro]: "evo.under C (UpdateClientCountersCAS c u v)"
  by (rule evo_keeps, intro keeps_intro) (simp add: metadata_def)

lemma evo_markMissing [moves_intro]: "evo.stable C \<Longrightarrow> evo.under C (markMissing target now)"
  unfolding markMissing_def by (intro moves_intro)

lemma evo_tickTarget: "evo.stable C \<Longrightarrow> evo.under C (tickTarget no_hook target now)"
proof -
  assume C: "evo.stable C"
  have apply_extra: "evo.under C (applyExtra no_hook tg c up down now)"
    if "valid_remainder (snd up)" "valid_remainder (snd down)" for tg c up down
    unfolding applyExtra_def no_hook_def by (intro moves_intro C evo_baseline) (simp_all add: that)
  have deltas: "evo.under C (tickDeltas no_hook tg c a b now)" for tg c a b
    unfolding tickDeltas_def
    by (intro moves_intro C evo_baseline apply_extra) (auto dest: calculateExtra_remainder)
  have current: "evo.under C (tickCurrent no_hook tg c now)" for tg c
    unfolding tickCurrent_def rebaseline_def
    by (intro moves_intro C evo_baseline deltas) simp_all
  show ?thesis
    unfolding tickTarget_def by (intro moves_intro C current)
qed

lemma evo_suppressed: "evo.stable C \<Longrightarrow> evo.under C (refreshSuppressedBaseline now target u)"
  unfolding refreshSuppressedBaseline_def by (intro moves_intro evo_baseline) simp_all

lemma evo_reconcileScopes: "evo.under (known {}) (reconcileScopes now)"
proof -
  have step: "evo.under (known S) (enroll_step scope now c acc)" if "sc_rule_id scope \<in> S" for S scope c acc
    unfolding enroll_step_def using that by (intro moves_intro evo_member_of_rule; simp)
  show ?thesis
    unfolding reconcileScopes_def enroll_scope_def
    by (rule evo.moves_bind [OF evo_active_scopes], rule evo.under_for_each; intro moves_intro step) auto
qed


lemma evo_Tick_body: "evo.under (known {}) (Tick_body cfg no_hook clock)"
proof -
  have step: "evo.under (known {}) (decision_step no_hook now dec r)" for now dec r
    unfolding decision_step_def by (intro moves_intro evo_tickTarget evo_suppressed)
  have decide: "evo.under (known {}) decide_all"
    by (intro evo.under_reads keeps_decide_all)
  show ?thesis
    unfolding Tick_body_def by (intro moves_intro evo_ReconcileTx evo_reconcileScopes decide step)
qed

section \<open>Clean-up\<close>

lemma trim_Cleanup_tx: "trim.under (known {}) (Cleanup_tx opts)"
proof -
  have mark: "evo.under (known {}) (markMismatchedRuleClients now dry)" for now dry
    unfolding markMismatchedRuleClients_def mark_step_def by (intro moves_intro evo.moves_query) simp
  have event: "trim.under C (AddEvent r e m now)" for C r e m now
    by (rule evolves_trimmed [OF evo_event])
  show ?thesis
    unfolding Cleanup_tx_def pruneMissingRuleClients_def pruneDisabledRules_def pruneInactiveExcludes_def
      pruneInactiveOverrides_def pruneAuditEvents_def
    by (intro moves_intro evolves_trimmed [OF mark] event trim.moves_query trim.moves_query_row) simp_all
qed

lemma trim_AutoCleanup: "trim.under C (AutoCleanup opts)"
  unfolding AutoCleanup_def auto_cleanup_body_def
  by (intro moves_intro transaction_keeps_schema trim_Cleanup_tx evolves_trimmed [OF evo_set_meta]
      trim.under_reads keeps_GetMetaInt64)

lemma trim_Cleanup: "trim.under C (Cleanup opts)" "trim.under (\<lambda>_. True) (engine_Cleanup cfg dry old vac now)"
proof -
  show cleanup: "trim.under C (Cleanup opts)" for C opts
    unfolding Cleanup_def by (intro transaction_keeps_schema trim_Cleanup_tx)
  show "trim.under (\<lambda>_. True) (engine_Cleanup cfg dry old vac now)"
    unfolding engine_Cleanup_def Vacuum_def by (intro moves_intro cleanup)
qed

lemma trim_Tick: "trim.under (\<lambda>_. True) (Tick cfg no_hook clock)"
proof -
  have tick: "trim.under (\<lambda>_. True) (WithImmediateTx (Tick_body cfg no_hook clock))"
    by (rule evolves_trimmed, intro transaction_keeps_schema evo_Tick_body)
  show ?thesis
    unfolding Tick_def runAutoCleanup_def by (intro moves_intro tick trim_AutoCleanup)
qed


section \<open>The system\<close>

text \<open>
  What can happen to the database: an administrator runs a command, the daemon polls, or the panel (and
  whoever else owns its tables) changes the panel's tables at will, leaving \<open>int64\<close> counters. Commands
  may succeed, fail, or be cut off by the driver at any statement; \<open>clock\<close> is in milliseconds.
\<close>

datatype command =
    RunEnable EnableRequest
  | RunDisable RuleSelector
  | RunPause RuleSelector
  | RunResume RuleSelector
  | RunEnableAll EnableAllRequest
  | RunDisableAll "int option"
  | RunPauseAll "int option"
  | RunResumeAll "int option"
  | RunExclude PolicyRequest
  | RunUnexclude PolicyRequest
  | RunOverride PolicyRequest
  | RunRemoveOverride PolicyRequest
  | RunReconcile ReconcileRequest
  | RunCleanup RetentionConfig bool int bool
  | RunTick TickConfig

definition finish :: "'a tx \<Rightarrow> unit tx" where
  "finish m = bind_tx m (\<lambda>_. return_tx ())"

fun perform :: "command \<Rightarrow> int \<Rightarrow> unit tx" where
  "perform (RunEnable req) clock = finish (Enable req (clock div 1000))"
| "perform (RunDisable sel) clock = finish (Disable sel (clock div 1000))"
| "perform (RunPause sel) clock = finish (Pause sel (clock div 1000))"
| "perform (RunResume sel) clock = finish (Resume sel (clock div 1000))"
| "perform (RunEnableAll req) clock = finish (EnableAll req (clock div 1000))"
| "perform (RunDisableAll inb) clock = finish (DisableAll inb (clock div 1000))"
| "perform (RunPauseAll inb) clock = finish (PauseAll inb (clock div 1000))"
| "perform (RunResumeAll inb) clock = finish (ResumeAll inb (clock div 1000))"
| "perform (RunExclude req) clock = finish (Exclude req (clock div 1000))"
| "perform (RunUnexclude req) clock = finish (Unexclude req (clock div 1000))"
| "perform (RunOverride req) clock = finish (Override req (clock div 1000))"
| "perform (RunRemoveOverride req) clock = finish (RemoveOverride req (clock div 1000))"
| "perform (RunReconcile req) clock = finish (Reconcile req (clock div 1000))"
| "perform (RunCleanup cfg dry older vac) clock = finish (engine_Cleanup cfg dry older vac (clock div 1000))"
| "perform (RunTick cfg) clock = finish (Tick cfg no_hook clock)"

inductive step :: "Database \<Rightarrow> Database \<Rightarrow> bool" where
  command_step: "w_db w = d \<Longrightarrow> step d (w_db (snd (perform c clock w)))"
| panel_step: "metadata d' = metadata d \<Longrightarrow> in_range d' \<Longrightarrow> step d d'"

inductive_cases step_cases [elim]: "step d d'"

inductive reachable :: "Database \<Rightarrow> bool" where
  fresh: "metadata d = metadata empty_db \<Longrightarrow> in_range d \<Longrightarrow> reachable d"
| follow: "reachable d \<Longrightarrow> step d d' \<Longrightarrow> reachable d'"

lemma trim_finish: "trim.under (\<lambda>_. True) m \<Longrightarrow> trim.under (\<lambda>_. True) (finish m)"
  unfolding finish_def by (intro moves_intro)

lemma perform_trims: "trim.under (\<lambda>_. True) (perform c clock)"
  by (cases c)
    (simp_all add: trim_finish trim_Tick trim_Cleanup evolves_trimmed evo_rule_commands evo_bulk_transitions evo_EnableAll
      evo_policy_commands evo_Reconcile)

lemma step_trims: "step d d' \<Longrightarrow> trimmed d d'"
proof (induction rule: step.induct)
  case (command_step w d c clock)
  then show ?case using trim.underD [OF perform_trims, of w c clock] by simp
next
  case (panel_step d' d)
  then show ?case using metadata_evolves [of d' d] by (auto simp: evolves_def trimmed_def)
qed

lemma schema_reachable: "reachable d \<Longrightarrow> schema d"
proof (induction rule: reachable.induct)
  case (fresh d)
  then have "evolves empty_db d" by (intro metadata_evolves)
  then show ?case using schema_empty by (simp add: evolves_def)
next
  case (follow d d')
  then show ?case using step_trims [of d d'] by (simp add: trimmed_def)
qed

text \<open>
  C7. The main invariant. In every database the system can reach, from an empty one, by any sequence of
  commands, polls, clean-ups and panel changes, with the driver refusing any statements it likes:
  identifiers are positive, unique and not above their sequence, every key is unique, rule clients
  and scopes belong to a rule that exists, factors are at least 1 and fit an \<open>int64\<close>, and remainders
  are below 1.
\<close>

theorem reachable_schema:
  assumes "reachable d"
  shows "schema d"
  using assms by (rule schema_reachable)

text \<open>
  C12. Identifiers are never reused: a rule that a step adds to a reachable database has an identifier
  above the sequence of before, so above that of every rule there has ever been; the audit events
  and the rule clients of a rule that was pruned can never be taken for those of another.
\<close>

theorem rule_ids_are_fresh:
  assumes "reachable d" and "step d d'" and "i \<in> rule_ids d'" and "i \<notin> rule_ids d"
  shows "t_seq_rules d < i \<and> i \<le> t_seq_rules d' \<and> (\<forall>rc \<in> set (t_rule_clients d). rc_rule_id rc \<noteq> i)"
proof -
  have "schema d" and "schema d'" and "later d d'"
    using schema_reachable [OF assms(1)] step_trims [OF assms(2)] by (simp_all add: trimmed_def)
  moreover have "i \<le> t_seq_rules d'"
    using \<open>schema d'\<close> assms(3) by (auto simp: schema_def rules_ok_def numbered_def rule_ids_def)
  moreover have "rc_rule_id rc \<noteq> i" if "rc \<in> set (t_rule_clients d)" for rc
    using that \<open>schema d\<close> assms(4) by (auto simp: schema_def rule_clients_ok_def valid_rule_client_def)
  ultimately show ?thesis using assms(3,4) by (auto simp: later_def)
qed

section \<open>A run\<close>

text \<open>A panel with one client, and the database after a rule with factor 1.5 was enabled for it.\<close>

definition panel_db :: Database where
  "panel_db = empty_db\<lparr>t_client_traffics := [sample_row], t_clients := [(1, ''a@b'')], t_client_inbounds := [(1, 1)]\<rparr>"

definition enable_request :: EnableRequest where
  "enable_request = \<lparr>er_name = [], er_email = ''a@b'', er_inbound_id = Some 1, er_factor = ''1.5''\<rparr>"

definition enabled_db :: Database where
  "enabled_db = insert_event (Some 1) EventRuleEnabled ''rule enabled'' 10 (panel_db\<lparr>t_rules := [sample_rule],
     t_rule_clients := [sample_baseline], t_seq_rules := 1\<rparr>)"

lemmas run_defs = bind_tx_run attempt_run with_driver_run query_healthy query_row_healthy exec_healthy ExecContext_healthy
  statement_healthy found_run TableExists_healthy AddEvent_run update_rule_clients_run described_def optional_def
  from_result_run Let_def first_of_def insert_event_def

lemma enable_runs:
  "Enable enable_request 10 (sqlite_world [] panel_db) = (Inr (scanRule sample_rule), sqlite_world [] enabled_db)"
proof -
  have factor: "ParseFactor ''1.5'' = Inr 1500000" by (simp add: ParseFactor_eval)
  have "trim_space [] = []" by (simp add: trim_space_graphic graphic_def)
  then have "Enable_body enable_request ''a@b'' 1500000 10 (sqlite_world [] panel_db) =
      (Inr (scanRule sample_rule), sqlite_world [] enabled_db)"
    by (simp add: Enable_body_def run_defs FindClient_def ActiveRuleForTraffic_def rules_for_traffic_def in_inbound_def
        clientInboundMembership_def scan_client_def CreateRule_def insertReturningID_def insert_rule_def
        CreateRuleClient_def insert_rule_client_def new_rule_client_def GetRule_def new_rule_def nullif_empty_def
        enable_request_def panel_db_def enabled_db_def sample_defs)
  then show ?thesis
    by (simp add: WithImmediateTx_ok Enable_def factor normalizeEmail_def enable_request_def from_result_run trim_space_graphic graphic_def)
qed

text \<open>So that database is reachable.\<close>

lemma reachable_panel: "reachable panel_db"
  by (rule reachable.fresh) (simp_all add: panel_db_def metadata_def in_range_def in_i64_bounds sample_row_def)

lemma step_enable: "step panel_db enabled_db"
  using step.command_step [of "sqlite_world [] panel_db" panel_db "RunEnable enable_request" 10000]
  by (simp add: finish_def bind_tx_def enable_runs)

theorem reachable_schema_witness: "schema enabled_db"
  by (rule reachable_schema) (rule reachable.follow [OF reachable_panel step_enable])

theorem rule_ids_are_fresh_witness:
  "t_seq_rules panel_db < 1 \<and> 1 \<le> t_seq_rules enabled_db \<and> 1 \<in> rule_ids enabled_db"
proof -
  have ids: "1 \<in> rule_ids enabled_db" "1 \<notin> rule_ids panel_db"
    by (simp_all add: rule_ids_def enabled_db_def insert_event_def panel_db_def sample_defs)
  from rule_ids_are_fresh [OF reachable_panel step_enable ids] ids show ?thesis by simp
qed

end
