(* ===== verification/XF_Listings.thy ===== *)
theory XF_Listings
  imports XF_Policies
begin

text \<open>
  The read-only side of the store (\<open>ListRules\<close>, \<open>ListEvents\<close> and \<open>TrafficImpact\<close> of \<open>store/rules.go\<close>, the
  listings and counts of \<open>store/excludes.go\<close> and \<open>store/overrides.go\<close>, \<open>store/diagnostics.go\<close>,
  \<open>MetadataReady\<close>): queries on the database itself, outside a transaction.
\<close>

section \<open>Queries outside a transaction\<close>

definition read_db :: "(Database \<Rightarrow> 'a) \<Rightarrow> 'a tx" where
  "read_db q w = (Inr (q (w_db w)), w)"

text \<open>\<open>Store.queryContext\<close> and \<open>Store.queryRowContext\<close>, whose errors are not wrapped.\<close>

definition queryContext :: "(Database \<Rightarrow> 'a) \<Rightarrow> 'a tx" where
  "queryContext q = bind_tx (conn_call (\<lambda>e. e)) (\<lambda>_. read_db q)"

definition table_exists :: "string \<Rightarrow> bool tx" where
  "table_exists table =
    bind_tx (conn_call (wrapDatabaseError ''read database schema'')) (\<lambda>_.
    read_db (\<lambda>d. table \<in> set (t_tables d)))"

fun all_tables :: "(string \<Rightarrow> error \<Rightarrow> error) \<Rightarrow> string list \<Rightarrow> bool tx" where
  "all_tables wrap [] = return_tx True"
| "all_tables wrap (t # ts) =
    attempt (table_exists t) (\<lambda>r.
    case r of
      Inl err \<Rightarrow> fail_tx (wrap t err)
    | Inr ok \<Rightarrow> if ok then all_tables wrap ts else return_tx False)"

definition MetadataReady :: "bool tx" where
  "MetadataReady =
    all_tables (\<lambda>t err. ErrWrap (''check metadata table '' @ t @ '': '') err [])
      [''xui_factor_meta'', ''xui_factor_rules'', ''xui_factor_rule_clients'', ''xui_factor_scopes'', ''xui_factor_events'']"

section \<open>Rules\<close>

text \<open>The two conditions of \<open>ListRules\<close> on a joined row; \<open>NOT EXISTS\<close> another active scope on the client.\<close>

definition scoped_elsewhere :: "Database \<Rightarrow> int \<Rightarrow> int \<Rightarrow> bool" where
  "scoped_elsewhere d trafficID ruleID =
    list_ex (\<lambda>rc. rc_traffic_id rc = trafficID \<and>
      list_ex (\<lambda>r. rr_id r = rc_rule_id rc \<and> rr_state r = StateActive \<and> rr_id r \<noteq> ruleID \<and>
        scope_of d (rr_id r) \<noteq> None) (t_rules d)) (t_rule_clients d)"

definition scope_allows :: "driver \<Rightarrow> Scope option \<Rightarrow> TrafficRow \<Rightarrow> bool" where
  "scope_allows driver scope ct =
    (case scope of
       None \<Rightarrow> enableTrueExpr driver (tr_enable ct)
     | Some s \<Rightarrow> sc_include_disabled_clients s \<or> enableTrueExpr driver (tr_enable ct))"

definition baseValidity :: "driver \<Rightarrow> Database \<Rightarrow> RuleRow \<Rightarrow> RuleClient \<Rightarrow> TrafficRow \<Rightarrow> bool" where
  "baseValidity driver d r rc ct \<longleftrightarrow> rc_missing_at rc = None \<and> scope_allows driver (scope_of d (rr_id r)) ct \<and>
     (scope_of d (rr_id r) \<noteq> None \<or> \<not> scoped_elsewhere d (rc_traffic_id rc) (rr_id r))"

definition excluded_in :: "Database \<Rightarrow> int \<Rightarrow> string \<Rightarrow> bool" where
  "excluded_in d trafficID email = list_ex (\<lambda>p. ep_traffic_id p = trafficID \<and> ep_email p = email \<and>
     ep_state p = StateActive) (t_excludes d)"

definition overridden_in :: "Database \<Rightarrow> int \<Rightarrow> string \<Rightarrow> bool" where
  "overridden_in d trafficID email = list_ex (\<lambda>p. op_traffic_id p = trafficID \<and> op_email p = email \<and>
     op_state p = StateActive) (t_overrides d)"

definition effectiveValidity ::
  "bool \<Rightarrow> bool \<Rightarrow> driver \<Rightarrow> Database \<Rightarrow> RuleRow \<Rightarrow> RuleClient \<Rightarrow> TrafficRow \<Rightarrow> bool" where
  "effectiveValidity excludesReady overridesReady driver d r rc ct \<longleftrightarrow> baseValidity driver d r rc ct \<and>
     (excludesReady \<longrightarrow> \<not> excluded_in d (rc_traffic_id rc) (rc_email rc)) \<and>
     (overridesReady \<longrightarrow> \<not> overridden_in d (rc_traffic_id rc) (rc_email rc))"

text \<open>\<open>SUM(CASE WHEN p THEN 1 ELSE 0 END)\<close> over a rule's clients joined with their traffic rows.\<close>

definition client_sum :: "Database \<Rightarrow> (RuleClient \<Rightarrow> TrafficRow \<Rightarrow> bool) \<Rightarrow> RuleRow \<Rightarrow> int" where
  "client_sum d p r = int (length [rc. rc \<leftarrow> t_rule_clients d, ct \<leftarrow> t_client_traffics d,
     rc_rule_id rc = rr_id r \<and> tr_id ct = rc_traffic_id rc \<and> tr_email ct = rc_email rc \<and> p rc ct])"

text \<open>\<open>scanRuleRowsWithCountAndScope\<close>.\<close>

definition scanRuleWithCountAndScope :: "bool \<Rightarrow> bool \<Rightarrow> driver \<Rightarrow> Database \<Rightarrow> RuleRow \<Rightarrow> Rule" where
  "scanRuleWithCountAndScope excludesReady overridesReady driver d r =
    (scanRuleWithScope r (scope_of d (rr_id r)))
      \<lparr>r_client_count := client_sum d (baseValidity driver d r) r,
       r_effective_client_count := client_sum d (effectiveValidity excludesReady overridesReady driver d r) r\<rparr>"

definition ListRules :: "bool \<Rightarrow> Rule list tx" where
  "ListRules includeDisabled =
    bind_tx (table_exists ''xui_factor_excludes'') (\<lambda>excludesReady.
    bind_tx (table_exists ''xui_factor_overrides'') (\<lambda>overridesReady.
    with_driver (\<lambda>driver.
    bind_tx (queryContext (\<lambda>d. map (scanRuleWithCountAndScope excludesReady overridesReady driver d)
      (sort_key rr_id (filter (\<lambda>r. includeDisabled \<or> rr_state r \<in> {StateActive, StatePaused}) (t_rules d))))) (\<lambda>rules.
    return_tx (filter (\<lambda>r. includeDisabled \<or> r_scope r \<noteq> None \<or> r_effective_client_count r \<noteq> 0) rules)))))"

section \<open>Events\<close>

record Event =
  e_id :: int
  e_rule_id :: "int option"
  e_policy_id :: "int option"
  e_type :: event_type
  e_message :: string
  e_created_at :: int
  e_email :: string
  e_inbound_id :: "int option"

record EventFilter =
  ef_limit :: int
  ef_event_type :: string
  ef_email :: string
  ef_inbound_id :: "int option"
  ef_rule_id :: "int option"
  ef_policy_id :: "int option"
  ef_since :: "int option"

record TrafficImpact =
  ti_extra_bytes :: int
  ti_applications :: int
  ti_last_applied_at :: "int option"

definition punctuation :: string where "punctuation = '' ,.;:''"

text \<open>One word of \<open>hydrateEventFromMessage\<close>, with the words after it.\<close>

definition hydrate_word :: "string \<Rightarrow> string list \<Rightarrow> Event \<Rightarrow> Event" where
  "hydrate_word field rest ev =
    (let clean = trim_set punctuation field in
     if clean = ''policy'' \<and> rest \<noteq> [] then
       (case parse_int64 (trim_set punctuation (hd rest)) of None \<Rightarrow> ev | Some n \<Rightarrow> ev\<lparr>e_policy_id := Some n\<rparr>)
     else if clean = ''inbound'' \<and> rest \<noteq> [] then
       (case parse_int64 (trim_set punctuation (hd rest)) of None \<Rightarrow> ev | Some n \<Rightarrow> ev\<lparr>e_inbound_id := Some n\<rparr>)
     else if has_prefix ''inbound='' clean then
       (case parse_int64 (drop 8 clean) of None \<Rightarrow> ev | Some n \<Rightarrow> ev\<lparr>e_inbound_id := Some n\<rparr>)
     else if clean = ''email'' \<and> rest \<noteq> [] then ev\<lparr>e_email := trim_set punctuation (hd rest)\<rparr>
     else if has_prefix ''email='' clean then ev\<lparr>e_email := drop 6 clean\<rparr>
     else ev)"

fun hydrate_words :: "string list \<Rightarrow> Event \<Rightarrow> Event" where
  "hydrate_words [] ev = ev"
| "hydrate_words (w # ws) ev = hydrate_words ws (hydrate_word w ws ev)"

definition hydrateEventFromMessage :: "Event \<Rightarrow> Event" where
  "hydrateEventFromMessage ev = hydrate_words (str_fields (e_message ev)) ev"

definition saturatingAdd :: "int \<Rightarrow> int \<Rightarrow> int" where
  "saturatingAdd a b = (if 0 < b \<and> wrap64 (MaxInt64 - b) < a then MaxInt64 else wrap64 (a + b))"

text \<open>\<open>eventExtraBytes\<close>: \<open>None\<close> for a negative or unreadable amount and for a message without one.\<close>

fun extra_words :: "string list \<Rightarrow> int \<Rightarrow> bool \<Rightarrow> int \<times> bool" where
  "extra_words [] acc seen = (acc, seen)"
| "extra_words (w # ws) acc seen =
    (case cut_on CHR ''='' (trim_set punctuation w) of
       None \<Rightarrow> extra_words ws acc seen
     | Some (key, v) \<Rightarrow>
         if key \<noteq> ''extra_up'' \<and> key \<noteq> ''extra_down'' then extra_words ws acc seen
         else (case parse_int64 v of
             None \<Rightarrow> (0, False)
           | Some extra \<Rightarrow> if extra < 0 then (0, False) else extra_words ws (saturatingAdd acc extra) True))"

definition eventExtraBytes :: "string \<Rightarrow> int \<times> bool" where
  "eventExtraBytes message = extra_words (str_fields message) 0 False"

definition eventMatchesFilter :: "EventFilter \<Rightarrow> Event \<Rightarrow> bool" where
  "eventMatchesFilter flt ev \<longleftrightarrow>
    (trim_space (ef_email flt) \<noteq> [] \<longrightarrow> e_email ev = trim_space (ef_email flt)) \<and>
    (ef_inbound_id flt \<noteq> None \<longrightarrow> e_inbound_id ev = ef_inbound_id flt) \<and>
    (ef_policy_id flt \<noteq> None \<longrightarrow> e_policy_id ev = ef_policy_id flt)"

text \<open>The joined row: e-mail and inbound of the event's rule, the inbound of its scope first.\<close>

definition scan_event :: "Database \<Rightarrow> EventRow \<Rightarrow> Event" where
  "scan_event d e =
    (let rule = (case ev_rule_id e of None \<Rightarrow> None | Some i \<Rightarrow> first_of (filter (\<lambda>r. rr_id r = i) (t_rules d)));
         scope = (case rule of None \<Rightarrow> None | Some r \<Rightarrow> scope_of d (rr_id r));
         inbound = (case scope of None \<Rightarrow> None | Some s \<Rightarrow> sc_inbound_id s)
     in \<lparr>e_id = ev_id e, e_rule_id = ev_rule_id e, e_policy_id = None, e_type = ev_type e, e_message = ev_message e,
         e_created_at = ev_created_at e, e_email = (case rule of None \<Rightarrow> [] | Some r \<Rightarrow> rr_email r),
         e_inbound_id = (if inbound \<noteq> None then inbound
           else case rule of None \<Rightarrow> None | Some r \<Rightarrow> rr_inbound_id r)\<rparr>)"

definition event_where :: "EventFilter \<Rightarrow> EventRow \<Rightarrow> bool" where
  "event_where flt e \<longleftrightarrow>
    (trim_space (ef_event_type flt) \<noteq> [] \<longrightarrow> event_type_name (ev_type e) = trim_space (ef_event_type flt)) \<and>
    (ef_rule_id flt \<noteq> None \<longrightarrow> ev_rule_id e = ef_rule_id flt) \<and>
    (case ef_since flt of None \<Rightarrow> True | Some t \<Rightarrow> t \<le> ev_created_at e)"

definition limited :: "int \<Rightarrow> 'a list \<Rightarrow> 'a list" where
  "limited limit xs = (if 0 < limit then take (nat limit) xs else xs)"

definition ListEvents :: "EventFilter \<Rightarrow> Event list tx" where
  "ListEvents flt =
    (let limit = (if ef_limit flt = 0 then 50 else ef_limit flt);
         postFilter = (trim_space (ef_email flt) \<noteq> [] \<or> ef_inbound_id flt \<noteq> None \<or> ef_policy_id flt \<noteq> None)
     in bind_tx (queryContext (\<lambda>d.
          let rows = map (scan_event d) (rev (sort_key ev_id (filter (event_where flt) (t_events d))))
          in if postFilter then rows else limited limit rows)) (\<lambda>rows.
        let events = filter (eventMatchesFilter flt) (map hydrateEventFromMessage rows)
        in return_tx (if postFilter then limited limit events else events)))"

definition add_impact :: "Event \<Rightarrow> TrafficImpact \<Rightarrow> TrafficImpact" where
  "add_impact ev impact =
    (let counted = impact\<lparr>ti_applications := ti_applications impact + 1,
           ti_last_applied_at := (case ti_last_applied_at impact of
               None \<Rightarrow> Some (e_created_at ev)
             | Some t \<Rightarrow> if t < e_created_at ev then Some (e_created_at ev) else Some t)\<rparr>
     in case eventExtraBytes (e_message ev) of (extra, ok) \<Rightarrow>
          if \<not> ok \<or> extra \<le> 0 then counted
          else counted\<lparr>ti_extra_bytes := saturatingAdd (ti_extra_bytes impact) extra\<rparr>)"

definition TrafficImpact_tx :: "EventFilter \<Rightarrow> TrafficImpact tx" where
  "TrafficImpact_tx flt =
    bind_tx (ListEvents (flt\<lparr>ef_event_type := event_type_name EventTrafficApply, ef_limit := -1\<rparr>)) (\<lambda>events.
    return_tx (fold add_impact events \<lparr>ti_extra_bytes = 0, ti_applications = 0, ti_last_applied_at = None\<rparr>))"

section \<open>Policies\<close>

text \<open>
  The rows of one inbound: the membership of the client, or of the policy's own e-mail when its
  traffic row is gone, in which case the inbound stored with the policy counts too.
\<close>

definition policy_in_inbound :: "Database \<Rightarrow> int option \<Rightarrow> int \<Rightarrow> int \<Rightarrow> string \<Rightarrow> bool" where
  "policy_in_inbound d inboundID trafficID policyInbound email =
    (case inboundID of
       None \<Rightarrow> True
     | Some i \<Rightarrow> clientInboundMembership d email i \<or>
         (\<not> list_ex (\<lambda>ct. tr_id ct = trafficID \<and> tr_email ct = email) (t_client_traffics d) \<and> policyInbound = i))"

definition ListExcludes :: "bool \<Rightarrow> int option \<Rightarrow> ExcludePolicy list tx" where
  "ListExcludes includeInactive inboundID =
    bind_tx (table_exists ''xui_factor_excludes'') (\<lambda>exists.
    if \<not> exists then return_tx []
    else queryContext (\<lambda>d. sort_key (\<lambda>p. (ep_inbound_id p, ep_email p, ep_traffic_id p))
      (filter (\<lambda>p. (includeInactive \<or> ep_state p = StateActive) \<and>
         policy_in_inbound d inboundID (ep_traffic_id p) (ep_inbound_id p) (ep_email p)) (t_excludes d))))"

definition ListOverrides :: "bool \<Rightarrow> int option \<Rightarrow> OverridePolicy list tx" where
  "ListOverrides includeInactive inboundID =
    bind_tx (table_exists ''xui_factor_overrides'') (\<lambda>exists.
    if \<not> exists then return_tx []
    else queryContext (\<lambda>d. sort_key (\<lambda>p. (op_inbound_id p, op_email p, op_traffic_id p))
      (filter (\<lambda>p. (includeInactive \<or> op_state p = StateActive) \<and>
         policy_in_inbound d inboundID (op_traffic_id p) (op_inbound_id p) (op_email p)) (t_overrides d))))"

record PolicyCounts =
  pc_active :: int
  pc_inactive :: int

definition count_states :: "rule_state list \<Rightarrow> PolicyCounts" where
  "count_states states = \<lparr>pc_active = int (length (filter (\<lambda>s. s = StateActive) states)),
     pc_inactive = int (length (filter (\<lambda>s. s \<noteq> StateActive) states))\<rparr>"

definition CountExcludes :: "PolicyCounts tx" where
  "CountExcludes =
    bind_tx (table_exists ''xui_factor_excludes'') (\<lambda>exists.
    if \<not> exists then return_tx \<lparr>pc_active = 0, pc_inactive = 0\<rparr>
    else queryContext (\<lambda>d. count_states (map ep_state (t_excludes d))))"

definition CountOverrides :: "PolicyCounts tx" where
  "CountOverrides =
    bind_tx (table_exists ''xui_factor_overrides'') (\<lambda>exists.
    if \<not> exists then return_tx \<lparr>pc_active = 0, pc_inactive = 0\<rparr>
    else queryContext (\<lambda>d. count_states (map op_state (t_overrides d))))"

text \<open>Some active rule has this client as a target that the poll can charge.\<close>

definition override_has_target :: "driver \<Rightarrow> Database \<Rightarrow> OverridePolicy \<Rightarrow> bool" where
  "override_has_target driver d p =
    list_ex (\<lambda>rc. rc_traffic_id rc = op_traffic_id p \<and> rc_email rc = op_email p \<and> rc_missing_at rc = None \<and>
      list_ex (\<lambda>r. rr_id r = rc_rule_id rc \<and> rr_state r = StateActive \<and>
        list_ex (\<lambda>ct. tr_id ct = rc_traffic_id rc \<and> tr_email ct = rc_email rc \<and>
          scope_allows driver (scope_of d (rr_id r)) ct) (t_client_traffics d)) (t_rules d)) (t_rule_clients d)"

definition CountEffectiveOverrides :: "int tx" where
  "CountEffectiveOverrides =
    bind_tx (table_exists ''xui_factor_overrides'') (\<lambda>overridesReady.
    if \<not> overridesReady then return_tx 0
    else
      bind_tx (table_exists ''xui_factor_excludes'') (\<lambda>excludesReady.
      with_driver (\<lambda>driver.
      queryContext (\<lambda>d. int (length (remdups (map op_traffic_id (filter (\<lambda>p. op_state p = StateActive \<and>
        override_has_target driver d p \<and>
        (excludesReady \<longrightarrow> \<not> excluded_in d (op_traffic_id p) (op_email p))) (t_overrides d))))))))) "

section \<open>Diagnostics\<close>

record RuleCounts =
  rn_active :: int
  rn_paused :: int
  rn_disabled :: int

definition CountRules :: "RuleCounts tx" where
  "CountRules = queryContext (\<lambda>d.
    let count = (\<lambda>s. int (length (filter (\<lambda>r. rr_state r = s) (t_rules d))))
    in \<lparr>rn_active = count StateActive, rn_paused = count StatePaused, rn_disabled = count StateDisabled\<rparr>)"

definition CountActivePersistentScopes :: "int tx" where
  "CountActivePersistentScopes =
    queryContext (\<lambda>d. int (length (scope_rules (\<lambda>s r. \<not> sc_once s \<and> rr_state r = StateActive) d)))"

definition CountActiveRuleClients :: "int option \<Rightarrow> int tx" where
  "CountActiveRuleClients inboundID = queryContext (\<lambda>d.
    case inboundID of
      None \<Rightarrow> int (length [rc. rc \<leftarrow> t_rule_clients d, r \<leftarrow> t_rules d,
        rr_id r = rc_rule_id rc \<and> rr_state r = StateActive \<and> rc_missing_at rc = None])
    | Some i \<Rightarrow> int (length [rc. rc \<leftarrow> t_rule_clients d, r \<leftarrow> t_rules d, ct \<leftarrow> t_client_traffics d,
        rr_id r = rc_rule_id rc \<and> rr_state r = StateActive \<and> rc_missing_at rc = None \<and>
        tr_id ct = rc_traffic_id rc \<and> tr_email ct = rc_email rc \<and> clientInboundMembership d (tr_email ct) i]))"

section \<open>Reading changes nothing\<close>

lemma read_db_run [tx_simps]: "read_db q w = (Inr (q (w_db w)), w)"
  by (simp add: read_db_def)

lemma queryContext_run [tx_simps]: "healthy w \<Longrightarrow> queryContext q w = (Inr (q (w_db w)), w)"
  by (simp add: queryContext_def tx_simps)

lemma table_exists_run [tx_simps]: "healthy w \<Longrightarrow> table_exists t w = (Inr (t \<in> set (t_tables (w_db w))), w)"
  by (simp add: table_exists_def tx_simps)

lemma keeps_read_db [keeps_intro]: "keeps k (read_db q)"
  by (rule keepsI) (simp add: read_db_def)

lemma keeps_queryContext [keeps_intro]: "keeps k (queryContext q)" "keeps k (table_exists t)"
  unfolding queryContext_def table_exists_def by (intro keeps_intro)+

lemma keeps_all_tables [keeps_intro]: "keeps k (all_tables wrap ts)"
  by (induction ts) (simp_all only: all_tables.simps, intro keeps_intro, intro keeps_intro, assumption)

lemma listings_keep [keeps_intro]:
  "keeps k MetadataReady" "keeps k (ListRules b)" "keeps k (ListEvents flt)" "keeps k (TrafficImpact_tx flt)"
  "keeps k (ListExcludes b i)" "keeps k (ListOverrides b i)" "keeps k CountExcludes" "keeps k CountOverrides"
  "keeps k CountEffectiveOverrides" "keeps k CountRules" "keeps k CountActivePersistentScopes"
  "keeps k (CountActiveRuleClients i)"
  unfolding MetadataReady_def ListRules_def ListEvents_def TrafficImpact_tx_def ListExcludes_def ListOverrides_def
    CountExcludes_def CountOverrides_def CountEffectiveOverrides_def CountRules_def CountActivePersistentScopes_def
    CountActiveRuleClients_def Let_def
  by (intro keeps_intro)+

end
