(* ===== verification/XF_Effective.thy ===== *)
theory XF_Effective
  imports XF_Listings XF_Tick
begin

text \<open>
  \<open>engine/effective.go\<close> and \<open>engine/report.go\<close>: what the program tells about a client. \<open>Explain\<close> and
  \<open>ClientStatus\<close> decide one client at a time from the same candidates the poll uses; the theorems
  say when their answer is the poll's decision.
\<close>

section \<open>One client\<close>

definition targetAllowsClient :: "ActiveRuleClient \<Rightarrow> ClientTraffic \<Rightarrow> bool" where
  "targetAllowsClient target client =
    (case r_scope (arc_rule target) of
       None \<Rightarrow> ct_enable client = 1
     | Some s \<Rightarrow> sc_include_disabled_clients s \<or> ct_enable client = 1)"

definition validTargetsForClient :: "ClientTraffic \<Rightarrow> ActiveRuleClient list \<Rightarrow> ActiveRuleClient list" where
  "validTargetsForClient client targets =
    filter (\<lambda>t. rc_traffic_id (arc_client t) = ct_id client \<and> rc_email (arc_client t) = ct_email client \<and>
      rc_missing_at (arc_client t) = None \<and> targetAllowsClient t client) targets"

definition decideLoadedClient ::
  "ClientTraffic \<Rightarrow> ActiveRuleClient list \<Rightarrow> ExcludePolicy list \<Rightarrow> OverridePolicy list \<Rightarrow> error + Decision" where
  "decideLoadedClient client targets excludes overrides =
    (case DecideClient client (ClientCandidates client (validTargetsForClient client targets) excludes overrides) of
       Inr decision \<Rightarrow> Inr decision
     | Inl err \<Rightarrow> if errors_is err ErrAmbiguousEffectiveTarget then Inl (ConflictError (error_text err)) else Inl err)"

fun tables_exist :: "string list \<Rightarrow> bool tx" where
  "tables_exist [] = return_tx True"
| "tables_exist (t # ts) =
    bind_tx (TableExists t) (\<lambda>exists. if exists then tables_exist ts else return_tx False)"

definition effectiveInputs :: "(ActiveRuleClient list \<times> ExcludePolicy list \<times> OverridePolicy list) tx" where
  "effectiveInputs =
    bind_tx (tables_exist [''xui_factor_rules'', ''xui_factor_rule_clients'', ''xui_factor_scopes'']) (\<lambda>exists.
    if \<not> exists then return_tx ([], [], [])
    else
      bind_tx ListActiveRuleClients (\<lambda>targets.
      bind_tx (TableExists ''xui_factor_excludes'') (\<lambda>excludesReady.
      bind_tx (if excludesReady then ListActiveExcludes else return_tx []) (\<lambda>excludes.
      bind_tx (TableExists ''xui_factor_overrides'') (\<lambda>overridesReady.
      bind_tx (if overridesReady then ListActiveOverrides else return_tx []) (\<lambda>overrides.
      return_tx (targets, excludes, overrides)))))))"

definition effectiveDecisionForClient :: "ClientTraffic \<Rightarrow> Decision tx" where
  "effectiveDecisionForClient client =
    bind_tx effectiveInputs (\<lambda>(targets, excludes, overrides).
    from_result (decideLoadedClient client targets excludes overrides) return_tx)"

record ExplainRequest =
  xr_email :: string
  xr_inbound_id :: "int option"

record ExplainResult =
  xs_client :: ClientTraffic
  xs_decision :: Decision
  xs_baseline :: "RuleClient option"

definition Explain_body :: "string \<Rightarrow> int \<Rightarrow> ExplainResult tx" where
  "Explain_body email inboundID =
    bind_tx (described ''find client'' (FindClient email (Some inboundID))) (\<lambda>client.
    bind_tx (effectiveDecisionForClient client) (\<lambda>decision.
    return_tx \<lparr>xs_client = client, xs_decision = decision,
      xs_baseline = map_option arc_client (d_target decision)\<rparr>))"

definition Explain :: "ExplainRequest \<Rightarrow> ExplainResult tx" where
  "Explain req =
    from_result (normalizeEmail (xr_email req)) (\<lambda>email.
    case xr_inbound_id req of
      None \<Rightarrow> fail_tx (ErrText ''inbound id is required'')
    | Some inboundID \<Rightarrow> WithReadTx (Explain_body email inboundID))"

definition uses_factor :: "Decision \<Rightarrow> string" where
  "uses_factor d = ''future traffic uses factor '' @ FormatFactor (d_factor_ppm d)"

definition ExplainResultText :: "ExplainResult \<Rightarrow> string" where
  "ExplainResultText result =
    (case d_source (xs_decision result) of
       SourceExclude \<Rightarrow> ''future traffic is not factored while exclude is active''
     | SourceUserOverride \<Rightarrow>
         if d_target (xs_decision result) = None
         then ''override is active but no active rule or scope currently targets this client''
         else uses_factor (xs_decision result)
     | SourceNone \<Rightarrow> ''no active matching rule, scope, override, or exclude''
     | _ \<Rightarrow> uses_factor (xs_decision result))"

section \<open>All clients\<close>

definition DefaultClientStatusLimit :: int where "DefaultClientStatusLimit = 50"

record ClientEffectiveDecision =
  ce_client :: ClientTraffic
  ce_decision :: Decision

record ClientStatusResult =
  cs_clients :: "ClientEffectiveDecision list"
  cs_truncated :: bool
  cs_limit :: int

definition status_step ::
  "ActiveRuleClient list \<Rightarrow> ExcludePolicy list \<Rightarrow> OverridePolicy list \<Rightarrow>
    ClientTraffic \<Rightarrow> ClientEffectiveDecision list \<Rightarrow> ClientEffectiveDecision list tx" where
  "status_step targets excludes overrides client done =
    from_result (decideLoadedClient client targets excludes overrides) (\<lambda>decision.
    return_tx (done @ [\<lparr>ce_client = client, ce_decision = decision\<rparr>]))"

definition ClientStatus :: "int option \<Rightarrow> int \<Rightarrow> ClientStatusResult tx" where
  "ClientStatus inboundID limit =
    (if limit < 0 then fail_tx (ErrText ''client status limit must not be negative'')
     else WithReadTx (
       bind_tx (ListClientTraffics inboundID limit) (\<lambda>(clients, truncated).
       bind_tx effectiveInputs (\<lambda>(targets, excludes, overrides).
       bind_tx (for_each clients (status_step targets excludes overrides) []) (\<lambda>decided.
       return_tx \<lparr>cs_clients = decided, cs_truncated = truncated, cs_limit = limit\<rparr>)))))"

definition Status :: "bool \<Rightarrow> Rule list tx" where
  "Status includeDisabled = ListRules includeDisabled"

definition Excludes :: "bool \<Rightarrow> int option \<Rightarrow> ExcludePolicy list tx" where
  "Excludes includeInactive inboundID = ListExcludes includeInactive inboundID"

definition Overrides :: "bool \<Rightarrow> int option \<Rightarrow> OverridePolicy list tx" where
  "Overrides includeInactive inboundID = ListOverrides includeInactive inboundID"

text \<open>\<open>Audit\<close>: \<open>now\<close> and \<open>since\<close> in nanoseconds.\<close>

definition Audit :: "EventFilter \<Rightarrow> int \<Rightarrow> int \<Rightarrow> Event list tx" where
  "Audit req since now =
    ListEvents (req\<lparr>ef_event_type := trim_space (ef_event_type req), ef_email := trim_space (ef_email req),
      ef_since := (if 0 < since then Some ((now - since) div 1000000000) else None)\<rparr>)"

record EffectiveStatusResult =
  es_rules :: "Rule list"
  es_excludes :: "ExcludePolicy list"
  es_overrides :: "OverridePolicy list"
  es_scopes :: int
  es_factored :: int
  es_excluded :: int
  es_overridden :: int

definition scopeMatchesInbound :: "Scope \<Rightarrow> int option \<Rightarrow> bool" where
  "scopeMatchesInbound scope inboundID =
    (case inboundID of
       None \<Rightarrow> True
     | Some i \<Rightarrow> (case sc_inbound_id scope of None \<Rightarrow> True | Some j \<Rightarrow> j = i))"

definition active_scope :: "int option \<Rightarrow> Rule \<Rightarrow> bool" where
  "active_scope inboundID rule =
    (case r_scope rule of
       None \<Rightarrow> False
     | Some s \<Rightarrow> r_state rule = StateActive \<and> scopeMatchesInbound s inboundID)"

definition count_client :: "ClientEffectiveDecision \<Rightarrow> EffectiveStatusResult \<Rightarrow> EffectiveStatusResult" where
  "count_client client result =
    (let d = ce_decision client;
         factored = (\<lambda>r. if d_target d = None then r else r\<lparr>es_factored := es_factored r + 1\<rparr>)
     in case d_source d of
          SourceExclude \<Rightarrow> result\<lparr>es_excluded := es_excluded result + 1\<rparr>
        | SourceUserOverride \<Rightarrow> (factored result)\<lparr>es_overridden := es_overridden result + 1\<rparr>
        | SourceNone \<Rightarrow> result
        | _ \<Rightarrow> factored result)"

definition EffectiveStatus :: "int option \<Rightarrow> EffectiveStatusResult tx" where
  "EffectiveStatus inboundID =
    bind_tx (Status False) (\<lambda>rules.
    bind_tx (Excludes False inboundID) (\<lambda>excludes.
    bind_tx (Overrides False inboundID) (\<lambda>overrides.
    bind_tx (ClientStatus inboundID 0) (\<lambda>clients.
    return_tx (fold count_client (cs_clients clients)
      \<lparr>es_rules = rules, es_excludes = excludes, es_overrides = overrides,
       es_scopes = int (length (filter (active_scope inboundID) rules)),
       es_factored = 0, es_excluded = 0, es_overridden = 0\<rparr>)))))"

section \<open>The report\<close>

record ReportResult =
  rp_metadata_ready :: bool
  rp_active_scopes :: int
  rp_active_single_user_rules :: int
  rp_paused_rules :: int
  rp_disabled_rules :: int
  rp_active_excludes :: int
  rp_inactive_excludes :: int
  rp_active_overrides :: int
  rp_inactive_overrides :: int
  rp_factored :: int
  rp_excluded :: int
  rp_overridden :: int
  rp_no_factor :: int
  rp_active_rule_clients :: int
  rp_traffic_impact :: TrafficImpact

definition no_impact :: TrafficImpact where
  "no_impact = \<lparr>ti_extra_bytes = 0, ti_applications = 0, ti_last_applied_at = None\<rparr>"

definition empty_report :: ReportResult where
  "empty_report = \<lparr>rp_metadata_ready = False, rp_active_scopes = 0, rp_active_single_user_rules = 0,
     rp_paused_rules = 0, rp_disabled_rules = 0, rp_active_excludes = 0, rp_inactive_excludes = 0,
     rp_active_overrides = 0, rp_inactive_overrides = 0, rp_factored = 0, rp_excluded = 0, rp_overridden = 0,
     rp_no_factor = 0, rp_active_rule_clients = 0, rp_traffic_impact = no_impact\<rparr>"

definition reported :: "int option \<Rightarrow> Rule \<Rightarrow> bool" where
  "reported inboundID rule =
    (case r_scope rule of
       Some s \<Rightarrow> scopeMatchesInbound s inboundID
     | None \<Rightarrow> (case inboundID of None \<Rightarrow> True | Some i \<Rightarrow> r_inbound_id rule = i))"

definition count_rule :: "Rule \<Rightarrow> ReportResult \<Rightarrow> ReportResult" where
  "count_rule rule result =
    (case r_state rule of
       StateActive \<Rightarrow>
         if r_scope rule \<noteq> None then result\<lparr>rp_active_scopes := rp_active_scopes result + 1\<rparr>
         else result\<lparr>rp_active_single_user_rules := rp_active_single_user_rules result + 1\<rparr>
     | StatePaused \<Rightarrow> result\<lparr>rp_paused_rules := rp_paused_rules result + 1\<rparr>
     | _ \<Rightarrow> result\<lparr>rp_disabled_rules := rp_disabled_rules result + 1\<rparr>)"

definition count_inactive :: "rule_state list \<Rightarrow> int" where
  "count_inactive states = int (length (filter (\<lambda>s. s \<noteq> StateActive) states))"

definition no_filter :: "int option \<Rightarrow> EventFilter" where
  "no_filter inboundID = \<lparr>ef_limit = 0, ef_event_type = [], ef_email = [], ef_inbound_id = inboundID,
     ef_rule_id = None, ef_policy_id = None, ef_since = None\<rparr>"

definition inactive_policies :: "bool \<Rightarrow> int option \<Rightarrow> (int \<times> int) tx" where
  "inactive_policies includeAll inboundID =
    (if \<not> includeAll then return_tx (0, 0)
     else
       bind_tx (Excludes True inboundID) (\<lambda>excludes.
       bind_tx (Overrides True inboundID) (\<lambda>overrides.
       return_tx (count_inactive (map ep_state excludes), count_inactive (map op_state overrides)))))"

definition Report :: "int option \<Rightarrow> bool \<Rightarrow> ReportResult tx" where
  "Report inboundID includeAll =
    bind_tx MetadataReady (\<lambda>ready.
    if \<not> ready then return_tx empty_report
    else
      bind_tx (EffectiveStatus inboundID) (\<lambda>effective.
      bind_tx (if includeAll then Status True else return_tx (es_rules effective)) (\<lambda>rules.
      let counted = fold count_rule (filter (reported inboundID) rules)
            (empty_report\<lparr>rp_metadata_ready := True, rp_active_excludes := int (length (es_excludes effective)),
              rp_active_overrides := int (length (es_overrides effective)), rp_factored := es_factored effective,
              rp_excluded := es_excluded effective, rp_overridden := es_overridden effective\<rparr>) in
      bind_tx (ClientStatus inboundID 0) (\<lambda>clients.
      bind_tx (CountActiveRuleClients inboundID) (\<lambda>activeRuleClients.
      bind_tx (inactive_policies includeAll inboundID) (\<lambda>(inactiveExcludes, inactiveOverrides).
      bind_tx (TrafficImpact_tx (no_filter inboundID)) (\<lambda>impact.
      return_tx (counted\<lparr>rp_no_factor := int (length (filter (\<lambda>c. d_source (ce_decision c) = SourceNone) (cs_clients clients))),
        rp_active_rule_clients := activeRuleClients, rp_inactive_excludes := inactiveExcludes,
        rp_inactive_overrides := inactiveOverrides, rp_traffic_impact := impact\<rparr>))))))))"

end
