(* ===== verification/XF_Cli.thy ===== *)
theory XF_Cli
  imports XF_Duration XF_System XF_Effective
begin

text \<open>
  The command line of \<open>cli/cli.go\<close>: every argument parser. Each Go parser is the same loop over a switch
  whose cases are flags; here the loop is \<open>parse_flags\<close> and the switch is a list of flags in the order
  of the cases. A flag with a value is written \<open>--name value\<close> or \<open>--name=value\<close>.
\<close>

section \<open>The loop\<close>

datatype 'f flag = ValueFlag string "string \<Rightarrow> 'f \<Rightarrow> error + 'f" | SwitchFlag string "'f \<Rightarrow> 'f"

fun flag_name :: "'f flag \<Rightarrow> string" where
  "flag_name (ValueFlag n s) = n"
| "flag_name (SwitchFlag n s) = n"

fun accepts :: "string \<Rightarrow> 'f flag \<Rightarrow> bool" where
  "accepts a (ValueFlag n s) = (a = n \<or> has_prefix (n @ ''='') a)"
| "accepts a (SwitchFlag n s) = (a = n)"

text \<open>\<open>readFlagValue\<close> on the last argument.\<close>

definition requires_value :: "string \<Rightarrow> error" where
  "requires_value name = ErrText (name @ '' requires a value'')"

fun parse_flags :: "(string \<Rightarrow> error) \<Rightarrow> 'f flag list \<Rightarrow> string list \<Rightarrow> 'f \<Rightarrow> error + 'f" where
  "parse_flags unknown flags [] f = Inr f"
| "parse_flags unknown flags (a # rest) f =
    (case find (accepts a) flags of
       None \<Rightarrow> Inl (unknown a)
     | Some (SwitchFlag n s) \<Rightarrow> parse_flags unknown flags rest (s f)
     | Some (ValueFlag n s) \<Rightarrow>
         if a = n then
           (case rest of
              [] \<Rightarrow> Inl (requires_value n)
            | v # rest' \<Rightarrow> (case s v f of Inl e \<Rightarrow> Inl e | Inr f' \<Rightarrow> parse_flags unknown flags rest' f'))
         else (case s (drop (length n + 1) a) f of Inl e \<Rightarrow> Inl e | Inr f' \<Rightarrow> parse_flags unknown flags rest f'))"

definition unknown_argument :: "string \<Rightarrow> string \<Rightarrow> error" where
  "unknown_argument prefix arg = ErrText (prefix @ ''unknown argument '' @ quoted arg)"

section \<open>Values\<close>

definition positive_integer_error :: "string \<Rightarrow> error" where
  "positive_integer_error name = ErrText (name @ '' must be a positive integer'')"

definition parsePositiveInt64 :: "string \<Rightarrow> string \<Rightarrow> error + int" where
  "parsePositiveInt64 value name =
    (case parse_int64 value of
       None \<Rightarrow> Inl (positive_integer_error name)
     | Some n \<Rightarrow> if n \<le> 0 then Inl (positive_integer_error name) else Inr n)"

text \<open>\<open>strconv.Atoi\<close> on a 64-bit platform.\<close>

definition parsePositiveInt :: "string \<Rightarrow> string \<Rightarrow> error + int" where
  "parsePositiveInt value name =
    (case parse_int64 value of
       None \<Rightarrow> Inl (positive_integer_error name)
     | Some n \<Rightarrow> if n \<le> 0 then Inl (positive_integer_error name) else Inr n)"

text \<open>A flag that stores its text, and one that stores a positive integer.\<close>

definition text_flag :: "string \<Rightarrow> ((string \<Rightarrow> string) \<Rightarrow> 'f \<Rightarrow> 'f) \<Rightarrow> 'f flag" where
  "text_flag name update = ValueFlag name (\<lambda>v f. Inr (update (\<lambda>_. v) f))"

definition id_flag :: "string \<Rightarrow> ((int option \<Rightarrow> int option) \<Rightarrow> 'f \<Rightarrow> 'f) \<Rightarrow> 'f flag" where
  "id_flag name update = ValueFlag name (\<lambda>v f. map_sum id (\<lambda>n. update (\<lambda>_. Some n) f) (parsePositiveInt64 v name))"

definition switch :: "string \<Rightarrow> ((bool \<Rightarrow> bool) \<Rightarrow> 'f \<Rightarrow> 'f) \<Rightarrow> 'f flag" where
  "switch name update = SwitchFlag name (update (\<lambda>_. True))"

definition blank :: "string \<Rightarrow> bool" where
  "blank s \<longleftrightarrow> trim_space s = []"

text \<open>A check after the loop.\<close>

definition require :: "bool \<Rightarrow> string \<Rightarrow> 'f \<Rightarrow> error + 'f" where
  "require ok message f = (if ok then Inr f else Inl (ErrText message))"

lemma require_Inr [simp]: "require ok message f = Inr g \<longleftrightarrow> ok \<and> g = f"
  by (auto simp: require_def)

section \<open>Common flags\<close>

record commonOptions =
  co_config_path :: string
  co_database_path :: string

fun common_flags :: "string list \<Rightarrow> commonOptions \<Rightarrow> string list \<Rightarrow> error + commonOptions \<times> string list" where
  "common_flags [] opts rest = Inr (opts, rest)"
| "common_flags (arg # args) opts rest =
    (if arg = ''--config'' then
       (case args of
          [] \<Rightarrow> Inl (requires_value ''--config'')
        | v # args' \<Rightarrow> common_flags args' (opts\<lparr>co_config_path := v\<rparr>) rest)
     else if has_prefix ''--config='' arg then common_flags args (opts\<lparr>co_config_path := drop 9 arg\<rparr>) rest
     else if arg = ''--database'' then
       (case args of
          [] \<Rightarrow> Inl (requires_value ''--database'')
        | v # args' \<Rightarrow> common_flags args' (opts\<lparr>co_database_path := v\<rparr>) rest)
     else if has_prefix ''--database='' arg then common_flags args (opts\<lparr>co_database_path := drop 11 arg\<rparr>) rest
     else common_flags args opts (rest @ [arg]))"

definition parseCommonFlags :: "string list \<Rightarrow> error + commonOptions \<times> string list" where
  "parseCommonFlags args = common_flags args \<lparr>co_config_path = [], co_database_path = []\<rparr> []"

section \<open>One parser per command\<close>

record enableFlags =
  fe_email :: string
  fe_inbound_id :: "int option"
  fe_factor :: string
  fe_name :: string

definition enable_flags :: "enableFlags flag list" where
  "enable_flags = [text_flag ''--email'' fe_email_update, text_flag ''--factor'' fe_factor_update,
     text_flag ''--name'' fe_name_update, id_flag ''--inbound-id'' fe_inbound_id_update]"

definition no_enable_flags :: enableFlags where
  "no_enable_flags = \<lparr>fe_email = [], fe_inbound_id = None, fe_factor = [], fe_name = []\<rparr>"

definition parseEnableArgs :: "string list \<Rightarrow> error + enableFlags" where
  "parseEnableArgs args =
    bind_result (parse_flags (unknown_argument ''enable: '') enable_flags args no_enable_flags) (\<lambda>f.
    bind_result (require (\<not> blank (fe_email f)) ''enable: --email is required'' f) (\<lambda>f.
    require (\<not> blank (fe_factor f)) ''enable: --factor is required'' f))"

record enableAllFlags =
  fa_factor :: string
  fa_inbound_id :: "int option"
  fa_limited_only :: bool
  fa_include_disabled_clients :: bool
  fa_once :: bool
  fa_name :: string

definition enable_all_flags :: "enableAllFlags flag list" where
  "enable_all_flags = [text_flag ''--factor'' fa_factor_update, text_flag ''--name'' fa_name_update,
     id_flag ''--inbound-id'' fa_inbound_id_update, switch ''--limited-only'' fa_limited_only_update,
     switch ''--include-disabled-clients'' fa_include_disabled_clients_update, switch ''--once'' fa_once_update]"

definition no_enable_all_flags :: enableAllFlags where
  "no_enable_all_flags = \<lparr>fa_factor = [], fa_inbound_id = None, fa_limited_only = False,
     fa_include_disabled_clients = False, fa_once = False, fa_name = []\<rparr>"

definition parseEnableAllArgs :: "string list \<Rightarrow> error + enableAllFlags" where
  "parseEnableAllArgs args =
    bind_result (parse_flags (unknown_argument ''enable-all: '') enable_all_flags args no_enable_all_flags) (\<lambda>f.
    require (\<not> blank (fa_factor f)) ''enable-all: --factor is required'' f)"

text \<open>\<open>excludeFlags\<close> and \<open>overrideFlags\<close>; only \<open>exclude\<close> and \<open>override\<close> themselves take a note and a factor.\<close>

record excludeFlags =
  fx_email :: string
  fx_inbound_id :: "int option"
  fx_note :: string

definition exclude_flags :: "string \<Rightarrow> excludeFlags flag list" where
  "exclude_flags command = [text_flag ''--email'' fx_email_update, id_flag ''--inbound-id'' fx_inbound_id_update] @
     (if command = ''exclude'' then [text_flag ''--note'' fx_note_update] else [])"

definition parseExcludeSelectorArgs :: "string list \<Rightarrow> string \<Rightarrow> error + excludeFlags" where
  "parseExcludeSelectorArgs args command =
    bind_result (parse_flags (unknown_argument (command @ '': '')) (exclude_flags command) args
      \<lparr>fx_email = [], fx_inbound_id = None, fx_note = []\<rparr>) (\<lambda>f.
    bind_result (require (\<not> blank (fx_email f)) (command @ '': --email is required'') f) (\<lambda>f.
    require (fx_inbound_id f \<noteq> None) (command @ '': --inbound-id is required'') f))"

definition parseExcludeArgs :: "string list \<Rightarrow> error + excludeFlags" where
  "parseExcludeArgs args = parseExcludeSelectorArgs args ''exclude''"

record overrideFlags =
  fo_email :: string
  fo_inbound_id :: "int option"
  fo_factor :: string
  fo_note :: string

definition override_flags :: "string \<Rightarrow> overrideFlags flag list" where
  "override_flags command = [text_flag ''--email'' fo_email_update, id_flag ''--inbound-id'' fo_inbound_id_update] @
     (if command = ''override'' then [text_flag ''--factor'' fo_factor_update, text_flag ''--note'' fo_note_update] else [])"

definition parseOverrideSelectorArgs :: "string list \<Rightarrow> string \<Rightarrow> error + overrideFlags" where
  "parseOverrideSelectorArgs args command =
    bind_result (parse_flags (unknown_argument (command @ '': '')) (override_flags command) args
      \<lparr>fo_email = [], fo_inbound_id = None, fo_factor = [], fo_note = []\<rparr>) (\<lambda>f.
    bind_result (require (\<not> blank (fo_email f)) (command @ '': --email is required'') f) (\<lambda>f.
    require (fo_inbound_id f \<noteq> None) (command @ '': --inbound-id is required'') f))"

definition parseOverrideArgs :: "string list \<Rightarrow> error + overrideFlags" where
  "parseOverrideArgs args =
    bind_result (parseOverrideSelectorArgs args ''override'') (\<lambda>f.
    require (\<not> blank (fo_factor f)) ''override: --factor is required'' f)"

text \<open>\<open>excludesFlags\<close>, \<open>overridesFlags\<close> and \<open>reportFlags\<close>: an inbound and a switch.\<close>

record listFlags =
  fl_inbound_id :: "int option"
  fl_all :: bool

definition list_flags :: "listFlags flag list" where
  "list_flags = [switch ''--all'' fl_all_update, id_flag ''--inbound-id'' fl_inbound_id_update]"

definition no_list_flags :: listFlags where
  "no_list_flags = \<lparr>fl_inbound_id = None, fl_all = False\<rparr>"

definition parseExcludesArgs :: "string list \<Rightarrow> error + listFlags" where
  "parseExcludesArgs args = parse_flags (unknown_argument ''excludes: '') list_flags args no_list_flags"

definition parseOverridesArgs :: "string list \<Rightarrow> error + listFlags" where
  "parseOverridesArgs args = parse_flags (unknown_argument ''overrides: '') list_flags args no_list_flags"

definition parseReportArgs :: "string list \<Rightarrow> error + listFlags" where
  "parseReportArgs args = parse_flags (unknown_argument ''report: '') list_flags args no_list_flags"

record statusFlags =
  fs_include_disabled :: bool
  fs_effective :: bool
  fs_clients :: bool
  fs_inbound_id :: "int option"

definition status_flags :: "statusFlags flag list" where
  "status_flags = [switch ''--include-disabled'' fs_include_disabled_update, switch ''--all'' fs_include_disabled_update,
     switch ''--effective'' fs_effective_update, switch ''--clients'' fs_clients_update,
     id_flag ''--inbound-id'' fs_inbound_id_update]"

definition parseStatusArgs :: "string list \<Rightarrow> error + statusFlags" where
  "parseStatusArgs args =
    bind_result (parse_flags (unknown_argument ''status: '') status_flags args
      \<lparr>fs_include_disabled = False, fs_effective = False, fs_clients = False, fs_inbound_id = None\<rparr>) (\<lambda>f.
    bind_result (require (\<not> (fs_effective f \<and> fs_clients f)) ''status: --effective and --clients cannot be used together'' f) (\<lambda>f.
    require (fs_inbound_id f = None \<or> fs_effective f \<or> fs_clients f)
      ''status: --inbound-id requires --effective or --clients'' f))"

definition explain_flags :: "ExplainRequest flag list" where
  "explain_flags = [text_flag ''--email'' xr_email_update, id_flag ''--inbound-id'' xr_inbound_id_update]"

definition parseExplainArgs :: "string list \<Rightarrow> error + ExplainRequest" where
  "parseExplainArgs args =
    bind_result (parse_flags (unknown_argument ''explain: '') explain_flags args \<lparr>xr_email = [], xr_inbound_id = None\<rparr>) (\<lambda>f.
    bind_result (require (\<not> blank (xr_email f)) ''explain: --email is required'' f) (\<lambda>f.
    require (xr_inbound_id f \<noteq> None) ''explain: --inbound-id is required'' f))"

record auditFlags = EventFilter +
  fu_since :: int
  fu_since_text :: string
  fu_event_specified :: bool

definition normalizeAuditEventType :: "string \<Rightarrow> string" where
  "normalizeAuditEventType value =
    (if trim_space value = ''tick'' then event_type_name EventTrafficApply else trim_space value)"

definition audit_flags :: "fraction \<Rightarrow> auditFlags flag list" where
  "audit_flags frac =
    [ValueFlag ''--limit'' (\<lambda>v f. map_sum id (\<lambda>n. f\<lparr>ef_limit := n\<rparr>) (parsePositiveInt v ''--limit'')),
     ValueFlag ''--event'' (\<lambda>v f. Inr (f\<lparr>ef_event_type := normalizeAuditEventType v, fu_event_specified := True\<rparr>)),
     text_flag ''--email'' ef_email_update, id_flag ''--inbound-id'' ef_inbound_id_update,
     id_flag ''--rule-id'' ef_rule_id_update, id_flag ''--policy-id'' ef_policy_id_update,
     ValueFlag ''--since'' (\<lambda>v f. map_sum id (\<lambda>d. f\<lparr>fu_since := d, fu_since_text := v\<rparr>)
       (parseDurationFlag frac v ''audit: --since''))]"

definition parseAuditArgs :: "fraction \<Rightarrow> string list \<Rightarrow> error + auditFlags" where
  "parseAuditArgs frac args =
    bind_result (parse_flags (unknown_argument ''audit: '') (audit_flags frac) args
      \<lparr>ef_limit = 50, ef_event_type = [], ef_email = [], ef_inbound_id = None, ef_rule_id = None, ef_policy_id = None,
       ef_since = None, fu_since = 0, fu_since_text = [], fu_event_specified = False\<rparr>) (\<lambda>f.
    require (\<not> (fu_event_specified f \<and> ef_event_type f = [])) ''audit: --event is required'' f)"

record cleanupFlags =
  fc_dry_run :: bool
  fc_older_than :: int
  fc_vacuum :: bool

definition cleanup_flags :: "fraction \<Rightarrow> cleanupFlags flag list" where
  "cleanup_flags frac = [switch ''--dry-run'' fc_dry_run_update, switch ''--vacuum'' fc_vacuum_update,
     ValueFlag ''--older-than'' (\<lambda>v f. case ParseDuration frac v of
         None \<Rightarrow> Inl (ErrText ''cleanup: --older-than must be a positive duration'')
       | Some d \<Rightarrow> if d \<le> 0 then Inl (ErrText ''cleanup: --older-than must be a positive duration'')
                   else Inr (f\<lparr>fc_older_than := d\<rparr>))]"

definition parseCleanupArgs :: "fraction \<Rightarrow> string list \<Rightarrow> error + cleanupFlags" where
  "parseCleanupArgs frac args = parse_flags (unknown_argument ''cleanup: '') (cleanup_flags frac) args
     \<lparr>fc_dry_run = False, fc_older_than = 0, fc_vacuum = False\<rparr>"

definition reconcile_flags :: "ReconcileRequest flag list" where
  "reconcile_flags = [switch ''--dry-run'' rq_dry_run_update, id_flag ''--inbound-id'' rq_inbound_id_update]"

definition parseReconcileArgs :: "string list \<Rightarrow> error + ReconcileRequest" where
  "parseReconcileArgs args = parse_flags (unknown_argument ''reconcile: '') reconcile_flags args
     \<lparr>rq_inbound_id = None, rq_dry_run = False\<rparr>"

definition selector_flags :: "RuleSelector flag list" where
  "selector_flags = [text_flag ''--email'' rs_email_update, id_flag ''--inbound-id'' rs_inbound_id_update]"

definition parseSelectorArgs :: "string list \<Rightarrow> error + RuleSelector" where
  "parseSelectorArgs args =
    bind_result (parse_flags (unknown_argument []) selector_flags args \<lparr>rs_email = [], rs_inbound_id = None\<rparr>) (\<lambda>f.
    require (\<not> blank (rs_email f)) ''--email is required'' f)"

record BulkSelector =
  bs_inbound_id :: "int option"

definition bulk_selector_flags :: "BulkSelector flag list" where
  "bulk_selector_flags = [id_flag ''--inbound-id'' bs_inbound_id_update]"

definition parseBulkSelectorArgs :: "string list \<Rightarrow> error + BulkSelector" where
  "parseBulkSelectorArgs args = parse_flags (unknown_argument []) bulk_selector_flags args \<lparr>bs_inbound_id = None\<rparr>"

text \<open>\<open>factor 42\<close>, the program of the same name in coreutils.\<close>

definition IsPrimeFactorCall :: "string list \<Rightarrow> bool" where
  "IsPrimeFactorCall args = (case args of [] \<Rightarrow> False | a # _ \<Rightarrow> a \<noteq> [] \<and> list_all is_digit a)"

section \<open>Spellings\<close>

text \<open>
  An argument list as pairs of a flag and a value, or a switch, each pair in one of the two spellings, and
  what a list of flags makes of it.
\<close>

datatype item = Given bool string string | Flagged string

fun render :: "item list \<Rightarrow> string list" where
  "render [] = []"
| "render (Given joined n v # is) = (if joined then [n @ ''='' @ v] else [n, v]) @ render is"
| "render (Flagged n # is) = n # render is"

fun known_item :: "'f flag list \<Rightarrow> item \<Rightarrow> bool" where
  "known_item flags (Given joined n v) = list_ex (\<lambda>fl. case fl of ValueFlag m s \<Rightarrow> m = n | _ \<Rightarrow> False) flags"
| "known_item flags (Flagged n) = list_ex (\<lambda>fl. case fl of SwitchFlag m s \<Rightarrow> m = n | _ \<Rightarrow> False) flags"

fun apply_item :: "'f flag list \<Rightarrow> item \<Rightarrow> 'f \<Rightarrow> error + 'f" where
  "apply_item flags (Given joined n v) f =
    (case find (\<lambda>fl. flag_name fl = n) flags of Some (ValueFlag m s) \<Rightarrow> s v f | _ \<Rightarrow> Inr f)"
| "apply_item flags (Flagged n) f =
    (case find (\<lambda>fl. flag_name fl = n) flags of Some (SwitchFlag m s) \<Rightarrow> Inr (s f) | _ \<Rightarrow> Inr f)"

fun apply_items :: "'f flag list \<Rightarrow> item list \<Rightarrow> 'f \<Rightarrow> error + 'f" where
  "apply_items flags [] f = Inr f"
| "apply_items flags (i # is) f = bind_result (apply_item flags i f) (apply_items flags is)"

lemma known_item_in:
  "known_item flags (Given joined n v) \<Longrightarrow> \<exists>s. ValueFlag n s \<in> set flags"
  "known_item flags (Flagged n) \<Longrightarrow> \<exists>s. SwitchFlag n s \<in> set flags"
  by (induction flags) (auto split: flag.splits)

lemma prefix_name:
  "CHR ''='' \<notin> set m \<Longrightarrow> CHR ''='' \<notin> set n \<Longrightarrow> has_prefix (m @ ''='') (n @ CHR ''='' # v) \<longleftrightarrow> m = n"
proof
  assume names: "CHR ''='' \<notin> set m" "CHR ''='' \<notin> set n" and "has_prefix (m @ ''='') (n @ CHR ''='' # v)"
  then have "n @ CHR ''='' # v = m @ CHR ''='' # drop (length m + 1) (n @ CHR ''='' # v)"
    unfolding has_prefix_def by (metis append.assoc append_Cons append_Nil append_take_drop_id length_append_singleton Suc_eq_plus1)
  with cut_on_append [OF names(2), of v] cut_on_append [OF names(1)] show "m = n"
    by (metis fst_conv option.inject)
qed (simp add: has_prefix_def)

lemma no_name_prefix: "CHR ''='' \<notin> set n \<Longrightarrow> \<not> has_prefix (m @ ''='') n"
  unfolding has_prefix_def by (metis in_set_conv_decomp in_set_takeD)

text \<open>The one thing the parsers rely on: no two cases of the switch apply to the same argument.\<close>

locale flag_set =
  fixes flags :: "'f flag list"
  assumes distinct_names: "distinct (map flag_name flags)"
    and no_equals: "\<forall>fl \<in> set flags. CHR ''='' \<notin> set (flag_name fl)"
begin

lemma find_unique:
  assumes "fl \<in> set flags" and "\<And>fl'. fl' \<in> set flags \<Longrightarrow> p fl' \<longleftrightarrow> flag_name fl' = flag_name fl"
  shows "find p flags = Some fl"
proof -
  have "find p flags \<noteq> None" using assms by (auto simp: find_None_iff)
  then obtain fl' where fl': "find p flags = Some fl'" by blast
  then have "fl' \<in> set flags" "p fl'" by (auto simp: find_Some_iff)
  with assms distinct_map_eq [OF distinct_names] have "fl' = fl" by blast
  with fl' show ?thesis by simp
qed

lemma accepts_name: "fl \<in> set flags \<Longrightarrow> fl' \<in> set flags \<Longrightarrow> accepts (flag_name fl) fl' \<longleftrightarrow> flag_name fl' = flag_name fl"
  using no_equals no_name_prefix by (cases fl') auto

lemma find_name: "fl \<in> set flags \<Longrightarrow> find (accepts (flag_name fl)) flags = Some fl"
  by (rule find_unique) (simp_all add: accepts_name)

lemma find_self: "fl \<in> set flags \<Longrightarrow> find (\<lambda>fl'. flag_name fl' = flag_name fl) flags = Some fl"
  by (rule find_unique) simp_all

lemma find_joined:
  assumes "ValueFlag n s \<in> set flags"
  shows "find (accepts (n @ CHR ''='' # v)) flags = Some (ValueFlag n s)"
proof (rule find_unique [OF assms])
  fix fl' assume fl': "fl' \<in> set flags"
  have n: "CHR ''='' \<notin> set n" using assms no_equals by fastforce
  have m: "CHR ''='' \<notin> set (flag_name fl')" using fl' no_equals by blast
  then have "flag_name fl' \<noteq> n @ CHR ''='' # v" by auto
  show "accepts (n @ CHR ''='' # v) fl' \<longleftrightarrow> flag_name fl' = flag_name (ValueFlag n s)"
  proof (cases fl')
    case (ValueFlag m s')
    with m n prefix_name [of m n v] \<open>flag_name fl' \<noteq> _\<close> show ?thesis by auto
  next
    case (SwitchFlag m s')
    have "m \<noteq> n"
    proof
      assume "m = n"
      then have "SwitchFlag n s' = ValueFlag n s"
        using distinct_map_eq [OF distinct_names fl' assms] SwitchFlag by simp
      then show False by simp
    qed
    with SwitchFlag \<open>flag_name fl' \<noteq> _\<close> show ?thesis by auto
  qed
qed

text \<open>Both spellings of every pair mean the same.\<close>

lemma parse_render: "list_all (known_item flags) is \<Longrightarrow> parse_flags unknown flags (render is) f = apply_items flags is f"
proof (induction "is" arbitrary: f)
  case (Cons i "is")
  show ?case
  proof (cases i)
    case (Given joined n v)
    then obtain s where fl: "ValueFlag n s \<in> set flags"
      using Cons.prems known_item_in(1) [of flags joined n v] by auto
    have "n \<noteq> n @ CHR ''='' # v" by simp
    with Cons Given find_name [OF fl] find_self [OF fl] find_joined [OF fl] show ?thesis
      by (cases joined) (auto simp: bind_result_def split: sum.split)
  next
    case (Flagged n)
    then obtain s where fl: "SwitchFlag n s \<in> set flags"
      using Cons.prems known_item_in(2) [of flags n] by auto
    with Cons Flagged find_name [OF fl] find_self [OF fl] show ?thesis by auto
  qed
qed simp

end

lemmas flag_defs = text_flag_def id_flag_def switch_def

interpretation enable_cli: flag_set enable_flags
  by unfold_locales (simp_all add: enable_flags_def flag_defs)

interpretation enable_all_cli: flag_set enable_all_flags
  by unfold_locales (simp_all add: enable_all_flags_def flag_defs)

interpretation exclude_cli: flag_set "exclude_flags command" for command
  by unfold_locales (simp_all add: exclude_flags_def flag_defs)

interpretation override_cli: flag_set "override_flags command" for command
  by unfold_locales (auto simp: override_flags_def flag_defs)

interpretation list_cli: flag_set list_flags
  by unfold_locales (simp_all add: list_flags_def flag_defs)

interpretation status_cli: flag_set status_flags
  by unfold_locales (simp_all add: status_flags_def flag_defs)

interpretation explain_cli: flag_set explain_flags
  by unfold_locales (simp_all add: explain_flags_def flag_defs)

interpretation audit_cli: flag_set "audit_flags frac" for frac
  by unfold_locales (simp_all add: audit_flags_def flag_defs)

interpretation cleanup_cli: flag_set "cleanup_flags frac" for frac
  by unfold_locales (simp_all add: cleanup_flags_def flag_defs)

interpretation reconcile_cli: flag_set reconcile_flags
  by unfold_locales (simp_all add: reconcile_flags_def flag_defs)

interpretation selector_cli: flag_set selector_flags
  by unfold_locales (simp_all add: selector_flags_def flag_defs)

interpretation bulk_cli: flag_set bulk_selector_flags
  by unfold_locales (simp_all add: bulk_selector_flags_def flag_defs)

section \<open>Reading back\<close>

definition id_item :: "bool \<Rightarrow> int option \<Rightarrow> item list" where
  "id_item joined inbound = (case inbound of None \<Rightarrow> [] | Some i \<Rightarrow> [Given joined ''--inbound-id'' (itoa i)])"

definition switch_item :: "string \<Rightarrow> bool \<Rightarrow> item list" where
  "switch_item name b = (if b then [Flagged name] else [])"

definition valid_id :: "int option \<Rightarrow> bool" where
  "valid_id inbound \<longleftrightarrow> (case inbound of None \<Rightarrow> True | Some i \<Rightarrow> 0 < i \<and> i \<le> MaxInt64)"

definition enable_items :: "(nat \<Rightarrow> bool) \<Rightarrow> enableFlags \<Rightarrow> item list" where
  "enable_items joined f = [Given (joined 0) ''--email'' (fe_email f), Given (joined 1) ''--factor'' (fe_factor f),
     Given (joined 2) ''--name'' (fe_name f)] @ id_item (joined 3) (fe_inbound_id f)"

definition enable_all_items :: "(nat \<Rightarrow> bool) \<Rightarrow> enableAllFlags \<Rightarrow> item list" where
  "enable_all_items joined f = [Given (joined 0) ''--factor'' (fa_factor f), Given (joined 1) ''--name'' (fa_name f)] @
     id_item (joined 2) (fa_inbound_id f) @ switch_item ''--limited-only'' (fa_limited_only f) @
     switch_item ''--include-disabled-clients'' (fa_include_disabled_clients f) @ switch_item ''--once'' (fa_once f)"

definition exclude_items :: "(nat \<Rightarrow> bool) \<Rightarrow> excludeFlags \<Rightarrow> item list" where
  "exclude_items joined f = id_item (joined 0) (fx_inbound_id f) @
     [Given (joined 1) ''--email'' (fx_email f), Given (joined 2) ''--note'' (fx_note f)]"

definition override_items :: "(nat \<Rightarrow> bool) \<Rightarrow> overrideFlags \<Rightarrow> item list" where
  "override_items joined f = id_item (joined 0) (fo_inbound_id f) @ [Given (joined 1) ''--email'' (fo_email f),
     Given (joined 2) ''--factor'' (fo_factor f), Given (joined 3) ''--note'' (fo_note f)]"

lemma parse_id: "valid_id (Some i) \<Longrightarrow> parsePositiveInt64 (itoa i) name = Inr i"
  by (simp add: valid_id_def parsePositiveInt64_def parse_itoa in_i64_nonneg)

lemma id_item_simps [simp]:
  "id_item joined None = []"
  "id_item joined (Some i) = [Given joined ''--inbound-id'' (itoa i)]"
  by (simp_all add: id_item_def)

lemma switch_item_simps [simp]:
  "switch_item name False = []"
  "switch_item name True = [Flagged name]"
  by (simp_all add: switch_item_def)

lemmas find_flag = flag_defs apply_items.simps apply_item.simps find.simps flag_name.simps

lemma enable_reads_back:
  assumes "\<not> blank (fe_email f)" and "\<not> blank (fe_factor f)" and "valid_id (fe_inbound_id f)"
  shows "parseEnableArgs (render (enable_items joined f)) = Inr f"
proof -
  have known: "list_all (known_item enable_flags) (enable_items joined f)"
    by (cases "fe_inbound_id f") (simp_all add: enable_items_def enable_flags_def flag_defs)
  have "apply_items enable_flags (enable_items joined f) no_enable_flags = Inr f"
    using assms(3) unfolding enable_flags_def no_enable_flags_def enable_items_def
    by (cases f; cases "fe_inbound_id f") (simp_all add: find_flag parse_id)
  with assms(1,2) show ?thesis
    unfolding parseEnableArgs_def enable_cli.parse_render [OF known] by (simp add: require_def)
qed

lemma enable_all_reads_back:
  assumes "\<not> blank (fa_factor f)" and "valid_id (fa_inbound_id f)"
  shows "parseEnableAllArgs (render (enable_all_items joined f)) = Inr f"
proof -
  have known: "list_all (known_item enable_all_flags) (enable_all_items joined f)"
    by (cases "fa_inbound_id f"; cases "fa_limited_only f"; cases "fa_include_disabled_clients f"; cases "fa_once f")
      (simp_all add: enable_all_items_def enable_all_flags_def flag_defs)
  have "apply_items enable_all_flags (enable_all_items joined f) no_enable_all_flags = Inr f"
    using assms(2) unfolding enable_all_flags_def no_enable_all_flags_def enable_all_items_def
    by (cases f; cases "fa_inbound_id f"; cases "fa_limited_only f"; cases "fa_include_disabled_clients f"; cases "fa_once f")
      (simp_all add: find_flag parse_id)
  with assms(1) show ?thesis
    unfolding parseEnableAllArgs_def enable_all_cli.parse_render [OF known] by (simp add: require_def)
qed

lemma exclude_reads_back:
  assumes "\<not> blank (fx_email f)" and "fx_inbound_id f \<noteq> None" and "valid_id (fx_inbound_id f)"
  shows "parseExcludeArgs (render (exclude_items joined f)) = Inr f"
proof -
  have known: "list_all (known_item (exclude_flags ''exclude'')) (exclude_items joined f)"
    by (cases "fx_inbound_id f") (simp_all add: exclude_items_def exclude_flags_def flag_defs)
  have "apply_items (exclude_flags ''exclude'') (exclude_items joined f) \<lparr>fx_email = [], fx_inbound_id = None, fx_note = []\<rparr> = Inr f"
    using assms(3) unfolding exclude_flags_def exclude_items_def
    by (cases f; cases "fx_inbound_id f") (simp_all add: find_flag parse_id)
  with assms(1,2) show ?thesis
    unfolding parseExcludeArgs_def parseExcludeSelectorArgs_def exclude_cli.parse_render [OF known] by (simp add: require_def)
qed

lemma override_reads_back:
  assumes "\<not> blank (fo_email f)" and "\<not> blank (fo_factor f)" and "fo_inbound_id f \<noteq> None" and "valid_id (fo_inbound_id f)"
  shows "parseOverrideArgs (render (override_items joined f)) = Inr f"
proof -
  have known: "list_all (known_item (override_flags ''override'')) (override_items joined f)"
    by (cases "fo_inbound_id f") (simp_all add: override_items_def override_flags_def flag_defs)
  have "apply_items (override_flags ''override'') (override_items joined f)
      \<lparr>fo_email = [], fo_inbound_id = None, fo_factor = [], fo_note = []\<rparr> = Inr f"
    using assms(4) unfolding override_flags_def override_items_def
    by (cases f; cases "fo_inbound_id f") (simp_all add: find_flag parse_id)
  with assms(1-3) show ?thesis
    unfolding parseOverrideArgs_def parseOverrideSelectorArgs_def override_cli.parse_render [OF known] by (simp add: require_def)
qed

text \<open>
  C37. The arguments of the commands that create rules and policies are read back: whatever texts the flags
  carry (including texts that look like flags), and whichever of the spellings \<open>--name value\<close> and
  \<open>--name=value\<close> each flag uses, the parser returns the same flags, provided the required ones are
  not blank and the inbound is a positive int64.
\<close>

theorem arguments_read_back:
  assumes "\<not> blank (fe_email f)" and "\<not> blank (fe_factor f)" and "valid_id (fe_inbound_id f)"
    and "\<not> blank (fa_factor g)" and "valid_id (fa_inbound_id g)"
    and "\<not> blank (fx_email h)" and "fx_inbound_id h \<noteq> None" and "valid_id (fx_inbound_id h)"
    and "\<not> blank (fo_email k)" and "\<not> blank (fo_factor k)" and "fo_inbound_id k \<noteq> None" and "valid_id (fo_inbound_id k)"
  shows "parseEnableArgs (render (enable_items joined f)) = Inr f \<and>
    parseEnableAllArgs (render (enable_all_items joined g)) = Inr g \<and>
    parseExcludeArgs (render (exclude_items joined h)) = Inr h \<and>
    parseOverrideArgs (render (override_items joined k)) = Inr k"
  using assms by (simp add: enable_reads_back enable_all_reads_back exclude_reads_back override_reads_back)

theorem arguments_read_back_witness:
  "parseEnableArgs (render (enable_items (\<lambda>i. i = 1) \<lparr>fe_email = ''--name'', fe_inbound_id = Some 3, fe_factor = ''1.5'',
     fe_name = ''a=b''\<rparr>)) = Inr \<lparr>fe_email = ''--name'', fe_inbound_id = Some 3, fe_factor = ''1.5'', fe_name = ''a=b''\<rparr>"
proof -
  have "\<not> blank ''--name''" "\<not> blank ''1.5''" "\<not> blank ''2''" "\<not> blank ''u''" by code_simp+
  then show ?thesis
    using arguments_read_back [of "\<lparr>fe_email = ''--name'', fe_inbound_id = Some 3, fe_factor = ''1.5'', fe_name = ''a=b''\<rparr>"
        "\<lparr>fa_factor = ''2'', fa_inbound_id = None, fa_limited_only = True, fa_include_disabled_clients = False, fa_once = False,
          fa_name = []\<rparr>"
        "\<lparr>fx_email = ''u'', fx_inbound_id = Some 1, fx_note = []\<rparr>"
        "\<lparr>fo_email = ''u'', fo_inbound_id = Some 1, fo_factor = ''2'', fo_note = []\<rparr>" "\<lambda>i. i = 1"]
    by (simp add: valid_id_def MaxInt64_def)
qed

section \<open>What the parsers let through\<close>

definition accepted :: "('f \<Rightarrow> bool) \<Rightarrow> error + 'f \<Rightarrow> bool" where
  "accepted P r = (case r of Inl e \<Rightarrow> True | Inr f \<Rightarrow> P f)"

lemma accepted_simps [simp]: "accepted P (Inl e)" "accepted P (Inr f) = P f"
  by (simp_all add: accepted_def)

lemma accepted_bind: "accepted P r \<Longrightarrow> (\<And>f. P f \<Longrightarrow> accepted Q (k f)) \<Longrightarrow> accepted Q (bind_result r k)"
  by (cases r) simp_all

lemma accepted_require [simp]: "accepted P (require ok message f) \<longleftrightarrow> (ok \<longrightarrow> P f)"
  by (simp add: require_def)

text \<open>An invariant that every case of the switch keeps holds of the flags the loop returns.\<close>

fun flag_keeps :: "('f \<Rightarrow> bool) \<Rightarrow> 'f flag \<Rightarrow> bool" where
  "flag_keeps P (ValueFlag n s) = (\<forall>v f. P f \<longrightarrow> accepted P (s v f))"
| "flag_keeps P (SwitchFlag n s) = (\<forall>f. P f \<longrightarrow> P (s f))"

lemma parse_flags_invariant:
  assumes "\<And>fl. fl \<in> set flags \<Longrightarrow> flag_keeps P fl \<or> (\<exists>n s. fl = SwitchFlag n s \<and> n \<notin> set args)" and "P f"
  shows "accepted P (parse_flags unknown flags args f)"
  using assms
proof (induction "length args" arbitrary: args f rule: less_induct)
  case less
  show ?case
  proof (cases args)
    case (Cons a rest)
    show ?thesis
    proof (cases "find (accepts a) flags")
      case (Some fl)
      then have "fl \<in> set flags" "accepts a fl" by (auto simp: find_Some_iff)
      with less.prems(1) [of fl] Cons have keeps: "flag_keeps P fl" by auto
      have rest: "accepted P (parse_flags unknown flags r f')"
        if "length r < length args" "set r \<subseteq> set args" "P f'" for r f'
        using less.hyps [OF that(1) _ that(3)] less.prems(1) that(2) by blast
      show ?thesis
      proof (cases fl)
        case (ValueFlag n s)
        have step: "accepted P (case s v f of Inl e \<Rightarrow> Inl e | Inr f' \<Rightarrow> parse_flags unknown flags r f')"
          if "length r < length args" "set r \<subseteq> set args" for v r
        proof -
          have "accepted P (s v f)" using keeps ValueFlag less.prems(2) by simp
          with rest [OF that] show ?thesis by (cases "s v f") simp_all
        qed
        show ?thesis using Cons Some ValueFlag by (auto intro!: step split: list.split)
      next
        case (SwitchFlag n s)
        with keeps Cons Some less.prems(2) rest [of rest] show ?thesis by auto
      qed
    qed (simp add: Cons)
  qed (simp add: less.prems(2))
qed

lemma parse_flags_keeps:
  "list_all (flag_keeps P) flags \<Longrightarrow> P f \<Longrightarrow> accepted P (parse_flags unknown flags args f)"
  by (rule parse_flags_invariant) (auto simp: list_all_iff)

lemma parse_int64_range: "parse_int64 s = Some n \<Longrightarrow> n \<le> MaxInt64"
  by (simp add: parse_int64_def Let_def MaxInt64_def split: if_splits list.splits)

lemma parsePositiveInt64_range: "accepted (\<lambda>n. valid_id (Some n)) (parsePositiveInt64 v name)"
  by (auto simp: accepted_def parsePositiveInt64_def valid_id_def dest: parse_int64_range split: option.split)

lemma keeps_text: "(\<And>v f. P f \<Longrightarrow> P (update (\<lambda>_. v) f)) \<Longrightarrow> flag_keeps P (text_flag n update)"
  by (simp add: text_flag_def)

lemma keeps_id:
  assumes "\<And>i f. valid_id (Some i) \<Longrightarrow> P f \<Longrightarrow> P (update (\<lambda>_. Some i) f)"
  shows "flag_keeps P (id_flag n update)"
proof -
  have "accepted P (map_sum id (\<lambda>n. update (\<lambda>_. Some n) f) (parsePositiveInt64 v n))" if "P f" for v f
    using parsePositiveInt64_range [of v n] assms that by (cases "parsePositiveInt64 v n") auto
  then show ?thesis by (simp add: id_flag_def)
qed

lemma keeps_switch: "(\<And>f. P f \<Longrightarrow> P (update (\<lambda>_. True) f)) \<Longrightarrow> flag_keeps P (switch n update)"
  by (simp add: switch_def)

lemmas keeps = keeps_text keeps_id keeps_switch

lemma valid_id_None [simp]: "valid_id None"
  by (simp add: valid_id_def)

section \<open>Types of the accepted flags\<close>

definition enable_ok :: "enableFlags \<Rightarrow> bool" where
  "enable_ok f \<longleftrightarrow> \<not> blank (fe_email f) \<and> \<not> blank (fe_factor f) \<and> valid_id (fe_inbound_id f)"

definition enable_all_ok :: "enableAllFlags \<Rightarrow> bool" where
  "enable_all_ok f \<longleftrightarrow> \<not> blank (fa_factor f) \<and> valid_id (fa_inbound_id f)"

definition exclude_ok :: "excludeFlags \<Rightarrow> bool" where
  "exclude_ok f \<longleftrightarrow> \<not> blank (fx_email f) \<and> fx_inbound_id f \<noteq> None \<and> valid_id (fx_inbound_id f)"

definition override_ok :: "overrideFlags \<Rightarrow> bool" where
  "override_ok f \<longleftrightarrow> \<not> blank (fo_email f) \<and> \<not> blank (fo_factor f) \<and> fo_inbound_id f \<noteq> None \<and> valid_id (fo_inbound_id f)"

definition audit_ok :: "auditFlags \<Rightarrow> bool" where
  "audit_ok f \<longleftrightarrow> 0 < ef_limit f \<and> ef_limit f \<le> MaxInt64 \<and> 0 \<le> fu_since f \<and> fu_since f \<le> MaxInt64 \<and>
     (fu_since_text f = [] \<or> 0 < fu_since f) \<and> list_all valid_id [ef_inbound_id f, ef_rule_id f, ef_policy_id f]"

lemma enable_type: "accepted enable_ok (parseEnableArgs args)"
proof -
  have "list_all (flag_keeps (\<lambda>f. valid_id (fe_inbound_id f))) enable_flags"
    by (simp add: enable_flags_def keeps)
  from parse_flags_keeps [OF this] show ?thesis unfolding parseEnableArgs_def
    by (rule accepted_bind) (auto simp: no_enable_flags_def enable_ok_def require_def)
qed

lemma enable_all_type: "accepted enable_all_ok (parseEnableAllArgs args)"
proof -
  have "list_all (flag_keeps (\<lambda>f. valid_id (fa_inbound_id f))) enable_all_flags"
    by (simp add: enable_all_flags_def keeps)
  from parse_flags_keeps [OF this] show ?thesis unfolding parseEnableAllArgs_def
    by (rule accepted_bind) (auto simp: no_enable_all_flags_def enable_all_ok_def)
qed

lemma exclude_type: "accepted exclude_ok (parseExcludeArgs args)"
proof -
  have "list_all (flag_keeps (\<lambda>f. valid_id (fx_inbound_id f))) (exclude_flags command)" for command
    by (simp add: exclude_flags_def keeps)
  from parse_flags_keeps [OF this] show ?thesis unfolding parseExcludeArgs_def parseExcludeSelectorArgs_def
    by (rule accepted_bind) (auto simp: exclude_ok_def require_def)
qed

lemma override_type: "accepted override_ok (parseOverrideArgs args)"
proof -
  have "list_all (flag_keeps (\<lambda>f. valid_id (fo_inbound_id f))) (override_flags command)" for command
    by (simp add: override_flags_def keeps)
  from parse_flags_keeps [OF this] have "accepted (\<lambda>f. \<not> blank (fo_email f) \<and> fo_inbound_id f \<noteq> None \<and> valid_id (fo_inbound_id f))
      (parseOverrideSelectorArgs args ''override'')" unfolding parseOverrideSelectorArgs_def
    by (rule accepted_bind) (auto simp: require_def)
  then show ?thesis unfolding parseOverrideArgs_def
    by (rule accepted_bind) (auto simp: override_ok_def)
qed

lemma parseDurationFlag_type: "accepted (\<lambda>d. 0 < d \<and> d \<le> MaxInt64) (parseDurationFlag frac v name)"
proof -
  have "wrap64 x \<le> MaxInt64" for x using wrap64_in_range [of x] by (simp add: in_i64_def del: wrap64_in_range)
  then show ?thesis
    by (auto simp: accepted_def parseDurationFlag_def in_i64_def dest: ParseDuration_range split: sum.split option.splits if_splits)
qed

lemma audit_type: "accepted audit_ok (parseAuditArgs frac args)"
proof -
  have "accepted audit_ok (map_sum id (\<lambda>n. f\<lparr>ef_limit := n\<rparr>) (parsePositiveInt v ''--limit''))" if "audit_ok f" for v f
    using that by (auto simp: accepted_def audit_ok_def parsePositiveInt_def dest: parse_int64_range split: option.split)
  moreover have "accepted audit_ok (map_sum id (\<lambda>d. f\<lparr>fu_since := d, fu_since_text := v\<rparr>) (parseDurationFlag frac v ''audit: --since''))"
    if "audit_ok f" for v f
    using that parseDurationFlag_type [of frac v "''audit: --since''"]
    by (cases "parseDurationFlag frac v ''audit: --since''") (auto simp: audit_ok_def)
  moreover have "flag_keeps audit_ok (text_flag ''--email'' ef_email_update)"
    by (rule keeps) (simp add: audit_ok_def)
  moreover have "flag_keeps audit_ok (id_flag n ef_inbound_id_update)" "flag_keeps audit_ok (id_flag n ef_rule_id_update)"
    "flag_keeps audit_ok (id_flag n ef_policy_id_update)" for n
    by (rule keeps; simp add: audit_ok_def)+
  moreover have "audit_ok (f\<lparr>ef_event_type := normalizeAuditEventType v, fu_event_specified := True\<rparr>)" if "audit_ok f" for v f
    using that by (simp add: audit_ok_def)
  ultimately have "list_all (flag_keeps audit_ok) (audit_flags frac)"
    by (simp add: audit_flags_def)
  from parse_flags_keeps [OF this] show ?thesis unfolding parseAuditArgs_def
    by (rule accepted_bind) (auto simp: audit_ok_def MaxInt64_def)
qed

lemma cleanup_type: "accepted (\<lambda>f. 0 \<le> fc_older_than f \<and> fc_older_than f \<le> MaxInt64) (parseCleanupArgs frac args)"
  unfolding parseCleanupArgs_def
  by (rule parse_flags_keeps)
    (auto simp: cleanup_flags_def keeps accepted_def in_i64_def MaxInt64_def dest: ParseDuration_range split: option.splits)

text \<open>
  C36. Whatever the arguments, the parsers of \<open>enable\<close>, \<open>enable-all\<close>, \<open>exclude\<close>, \<open>override\<close>, \<open>audit\<close> and \<open>cleanup\<close> answer with
  an error or with flags of the right type: enable, exclude and override have an email that is not blank; enable,
  enable-all and override a factor that is not blank; an inbound, rule or policy id is absent or a positive int64, and
  exclude and override do have their inbound; the limit of \<open>audit\<close> is a positive int64. \<open>--since\<close> and \<open>--older-than\<close> are
  int64 numbers of nanoseconds, 0 when absent and not negative; a \<open>--since\<close> that is given is positive, though
  a number of days in it may have been reduced to 64 bits (C40).
\<close>

theorem accepted_arguments_are_typed:
  "accepted enable_ok (parseEnableArgs args) \<and> accepted enable_all_ok (parseEnableAllArgs args) \<and>
   accepted exclude_ok (parseExcludeArgs args) \<and> accepted override_ok (parseOverrideArgs args) \<and>
   accepted audit_ok (parseAuditArgs frac args) \<and>
   accepted (\<lambda>f. 0 \<le> fc_older_than f \<and> fc_older_than f \<le> MaxInt64) (parseCleanupArgs frac args)"
  by (simp add: enable_type enable_all_type exclude_type override_type audit_type cleanup_type)

end
