(* ===== verification/XF_Dialect.thy ===== *)
theory XF_Dialect
  imports XF_Listings
begin

text \<open>
  \<open>store/dialect.go\<close>: the placeholders of PostgreSQL, the statements of the migration per driver and the write
  probe. The rewriting of placeholders is shown equal to a description of the text position by position.
\<close>

section \<open>Placeholders\<close>

text \<open>The loop of \<open>rebindPostgres\<close>: the number of the next argument and whether a literal is open.\<close>

fun rebind_from :: "nat \<Rightarrow> bool \<Rightarrow> string \<Rightarrow> string" where
  "rebind_from arg inString [] = []"
| "rebind_from arg inString (ch # rest) =
    (if ch = CHR 39 then
       (case rest of
          c # rest' \<Rightarrow>
            if inString \<and> c = CHR 39 then CHR 39 # CHR 39 # rebind_from arg inString rest'
            else ch # rebind_from arg (\<not> inString) rest
        | [] \<Rightarrow> ch # rebind_from arg (\<not> inString) rest)
     else if ch = CHR ''?'' \<and> \<not> inString then CHR ''$'' # nat_digits arg @ rebind_from (arg + 1) inString rest
     else ch # rebind_from arg inString rest)"

definition rebindPostgres :: "string \<Rightarrow> string" where
  "rebindPostgres query = (if \<not> str_contains query ''?'' then query else rebind_from 1 False query)"

definition rebind :: "driver \<Rightarrow> string \<Rightarrow> string" where
  "rebind driver query = (if driver = DriverPostgres then rebindPostgres query else query)"

section \<open>Position by position\<close>

text \<open>
  A placeholder is a question mark outside a literal: with an even number of quotes before it in a text that starts
  outside, an odd number in one that starts inside.
\<close>

definition placeholder :: "bool \<Rightarrow> string \<Rightarrow> nat \<Rightarrow> bool" where
  "placeholder inString q i \<longleftrightarrow> q ! i = CHR ''?'' \<and> odd (count_list (take i q) CHR 39) = inString"

definition rebound :: "string \<Rightarrow> nat \<Rightarrow> string" where
  "rebound q i =
    (if placeholder False q i then CHR ''$'' # nat_digits (1 + length (filter (placeholder False q) [0..<i])) else [q ! i])"

fun described_from :: "nat \<Rightarrow> bool \<Rightarrow> string \<Rightarrow> string" where
  "described_from arg inString [] = []"
| "described_from arg inString (ch # rest) =
    (if ch = CHR ''?'' \<and> \<not> inString then CHR ''$'' # nat_digits arg @ described_from (arg + 1) inString rest
     else ch # described_from arg (inString \<noteq> (ch = CHR 39)) rest)"

text \<open>The branch for a doubled quote is the two single steps.\<close>

lemma rebind_from_described: "rebind_from arg inString q = described_from arg inString q"
  by (induction arg inString q rule: rebind_from.induct) (auto split: list.split)

lemma described_from_closed:
  "described_from arg inString q =
    concat (map (\<lambda>i. if placeholder inString q i
        then CHR ''$'' # nat_digits (arg + length (filter (placeholder inString q) [0..<i])) else [q ! i]) [0..<length q])"
proof (induction q arbitrary: arg inString)
  case (Cons ch rest)
  define nx where "nx = (inString \<noteq> (ch = CHR 39))"
  have shift: "placeholder inString (ch # rest) (Suc i) = placeholder nx rest i" for i
    by (auto simp: placeholder_def nx_def)
  have first: "placeholder inString (ch # rest) 0 = (ch = CHR ''?'' \<and> \<not> inString)"
    by (simp add: placeholder_def)
  have filt: "length (filter (placeholder inString (ch # rest)) [0..<Suc i]) =
      (if ch = CHR ''?'' \<and> \<not> inString then 1 else 0) + length (filter (placeholder nx rest) [0..<i])" for i
  proof -
    have "[0..<Suc i] = 0 # map Suc [0..<i]" by (simp add: upt_conv_Cons map_Suc_upt del: upt_Suc)
    then show ?thesis by (simp only: filter.simps first filter_map o_def shift length_map list.size split: if_split) simp
  qed
  have upt: "[0..<length (ch # rest)] = 0 # map Suc [0..<length rest]"
    by (simp add: upt_conv_Cons map_Suc_upt del: upt_Suc)
  show ?case
  proof (cases "ch = CHR ''?'' \<and> \<not> inString")
    case True
    then have "nx = inString" by (simp add: nx_def)
    with True show ?thesis
      unfolding upt list.map concat.simps map_map o_def shift filt first nth_Cons_Suc nth_Cons_0
      by (simp add: Cons.IH cong: if_cong)
  next
    case False
    then have "described_from arg inString (ch # rest) = ch # described_from arg nx rest"
      by (simp add: nx_def)
    with False show ?thesis
      unfolding upt list.map concat.simps map_map o_def shift filt first nth_Cons_Suc nth_Cons_0
      by (simp add: Cons.IH cong: if_cong) (use False in blast)
  qed
qed simp

text \<open>
  C35. On PostgreSQL every question mark outside the single-quoted literals, and no other, becomes \<open>$k\<close> with \<open>k\<close> its
  number, every other character is copied, and the literals are those an odd number of quotes opens: a doubled quote
  inside a literal does not close it.
\<close>

theorem rebind_positions: "rebindPostgres q = concat (map (rebound q) [0..<length q])"
proof (cases "str_contains q ''?''")
  case True
  have "described_from 1 False q = concat (map (rebound q) [0..<length q])"
    by (simp only: described_from_closed rebound_def [abs_def])
  with True show ?thesis by (simp add: rebindPostgres_def rebind_from_described)
next
  case False
  then have "CHR ''?'' \<notin> set q" by (induction q) auto
  then have "concat (map (rebound q) [0..<length q]) = concat (map (\<lambda>i. [q ! i]) [0..<length q])"
    by (intro arg_cong [of _ _ concat] map_cong) (auto simp: rebound_def placeholder_def in_set_conv_nth)
  also have "\<dots> = q" by (simp add: concat_map_singleton map_nth)
  finally show ?thesis using False by (simp add: rebindPostgres_def)
qed

section \<open>The statements of the migration\<close>

text \<open>\<open>strings.ReplaceAll\<close> with the number of characters of the last match still to skip.\<close>

fun replace_from :: "string \<Rightarrow> string \<Rightarrow> nat \<Rightarrow> string \<Rightarrow> string" where
  "replace_from old new skip [] = []"
| "replace_from old new (Suc skip) (c # cs) = replace_from old new skip cs"
| "replace_from old new 0 (c # cs) =
    (if has_prefix old (c # cs) then new @ replace_from old new (length old - 1) cs else c # replace_from old new 0 cs)"

definition ReplaceAll :: "string \<Rightarrow> string \<Rightarrow> string \<Rightarrow> string" where
  "ReplaceAll s old new = replace_from old new 0 s"

definition migrationIDPlaceholder :: string where "migrationIDPlaceholder = ''__ID_COLUMN__''"

definition sqliteIDColumn :: string where "sqliteIDColumn = ''id INTEGER PRIMARY KEY AUTOINCREMENT''"

definition postgresIDColumn :: string where
  "postgresIDColumn = ''id BIGINT GENERATED BY DEFAULT AS IDENTITY PRIMARY KEY''"

definition migrationStatements :: "string list \<Rightarrow> driver \<Rightarrow> string list" where
  "migrationStatements templates driver =
    map (\<lambda>s. ReplaceAll s migrationIDPlaceholder (if driver = DriverPostgres then postgresIDColumn else sqliteIDColumn)) templates"

section \<open>The write probe\<close>

definition probe_statement :: "bool \<Rightarrow> unit tx" where
  "probe_statement ready = statement (wrapDatabaseError ''database write probe'') (\<lambda>d.
     if ready then Inr ((), d)
     else if ''xui_factor_write_probe'' \<in> set (t_tables d)
     then Inl ''relation \"xui_factor_write_probe\" already exists''
     else Inr ((), d\<lparr>t_tables := t_tables d @ [''xui_factor_write_probe'']\<rparr>))"

definition ProbeWrite :: "unit tx" where
  "ProbeWrite =
    with_driver (\<lambda>driver.
    if driver \<noteq> DriverPostgres then return_tx ()
    else attempt MetadataReady (\<lambda>r.
      case r of
        Inl err \<Rightarrow> fail_tx (wrapDatabaseError ''database write probe'' err)
      | Inr ready \<Rightarrow>
          bind_tx (conn_call (wrapDatabaseError ''database write probe'')) (\<lambda>_.
          bind_tx (conn_call (wrapDatabaseError ''database write probe'')) (\<lambda>_.
          (\<lambda>w. case probe_statement ready w of (r, w') \<Rightarrow> (r, rollback w w'))))))"

end
