(* ===== verification/XF_Migrate.thy ===== *)
theory XF_Migrate
  imports XF_System XF_Dialect
begin

text \<open>
  Opening a database for the program: \<open>ValidateRequiredSchema\<close>, \<open>Migrate\<close> and \<open>EnsureReady\<close> of \<open>store/store.go\<close> with the
  statements of \<open>store/migrations.go\<close>. The columns the tables have are a map beside the database: the rows of the
  model always have the current columns, so adding or dropping one only changes the map.
\<close>

type_synonym columns = "string \<Rightarrow> string list"

section \<open>The panel's tables\<close>

text \<open>\<open>tableColumnsWith\<close> outside and inside a transaction.\<close>

definition table_columns :: "columns \<Rightarrow> string \<Rightarrow> string list tx" where
  "table_columns cols table =
    bind_tx (conn_call (wrapDatabaseError ''read table columns'')) (\<lambda>_. read_db (\<lambda>_. cols table))"

definition tableColumns :: "columns \<Rightarrow> string \<Rightarrow> string list tx" where
  "tableColumns cols table =
    statement (\<lambda>e. wrapDatabaseError ''read table columns'' (wrapDatabaseError ''query database'' e)) (\<lambda>d. Inr (cols table, d))"

definition schema_error :: "string \<Rightarrow> error" where
  "schema_error text = ErrWrap [] ErrSchema ('': '' @ text)"

definition required_columns :: "(string \<times> string list) list" where
  "required_columns =
    [(''client_traffics'', [''id'', ''inbound_id'', ''enable'', ''email'', ''up'', ''down'', ''total'']),
     (''clients'', [''id'', ''email'']), (''client_inbounds'', [''client_id'', ''inbound_id''])]"

fun check_tables :: "string list \<Rightarrow> unit tx" where
  "check_tables [] = return_tx ()"
| "check_tables (table # tables) =
    attempt (table_exists table) (\<lambda>r.
    case r of
      Inl err \<Rightarrow> fail_tx (schema_error (''check table '' @ table @ '': '' @ error_text err))
    | Inr exists \<Rightarrow>
        if exists then check_tables tables
        else fail_tx (schema_error (''missing table '' @ table @ '' (3x-ui 3.x database required)'')))"

fun check_columns :: "columns \<Rightarrow> (string \<times> string list) list \<Rightarrow> unit tx" where
  "check_columns cols [] = return_tx ()"
| "check_columns cols ((table, required) # rest) =
    attempt (table_columns cols table) (\<lambda>r.
    case r of
      Inl err \<Rightarrow> fail_tx (schema_error (''read '' @ table @ '' columns: '' @ error_text err))
    | Inr current \<Rightarrow>
        if table = ''client_traffics'' \<and> ''all_time'' \<in> set current
        then fail_tx (schema_error ''client_traffics.all_time found; upgrade 3x-ui to 3.x before running XuiFactor'')
        else case find (\<lambda>c. c \<notin> set current) required of
            Some c \<Rightarrow> fail_tx (schema_error (''missing '' @ table @ ''.'' @ c))
          | None \<Rightarrow> check_columns cols rest)"

definition ValidateRequiredSchema :: "columns \<Rightarrow> unit tx" where
  "ValidateRequiredSchema cols =
    bind_tx (check_tables [''client_traffics'', ''inbounds'', ''clients'', ''client_inbounds'']) (\<lambda>_.
    check_columns cols required_columns)"

section \<open>The metadata tables\<close>

text \<open>The tables with their columns, in the order of the statements.\<close>

definition migrationTableStatements :: "(string \<times> string list) list" where
  "migrationTableStatements =
    [(''xui_factor_meta'', [''key'', ''value'', ''updated_at'']),
     (''xui_factor_rules'', [''id'', ''name'', ''inbound_id'', ''email'', ''factor_ppm'', ''state'', ''created_at'',
        ''updated_at'', ''activated_at'', ''paused_at'', ''disabled_at'']),
     (''xui_factor_rule_clients'', [''rule_id'', ''traffic_id'', ''inbound_id'', ''email'', ''last_up'',
        ''last_down'', ''rem_up'', ''rem_down'', ''missing_since'', ''updated_at'']),
     (''xui_factor_scopes'', [''rule_id'', ''inbound_id'', ''limited_only'', ''include_disabled_clients'', ''once'',
        ''created_at'', ''updated_at'']),
     (''xui_factor_excludes'', [''id'', ''traffic_id'', ''inbound_id'', ''email'', ''state'', ''note'',
        ''created_at'', ''updated_at'', ''activated_at'', ''disabled_at'']),
     (''xui_factor_overrides'', [''id'', ''traffic_id'', ''inbound_id'', ''email'', ''factor_ppm'', ''state'',
        ''note'', ''created_at'', ''updated_at'', ''activated_at'', ''disabled_at'']),
     (''xui_factor_events'', [''id'', ''rule_id'', ''event_type'', ''message'', ''created_at''])]"

text \<open>A quoted literal of SQL.\<close>

definition literal :: "string \<Rightarrow> string" where
  "literal v = CHR 39 # v @ [CHR 39]"

text \<open>The columns a table of an earlier version may lack, each with the definition it is added with.\<close>

definition migrationColumns :: "(string \<times> (string \<times> string) list) list" where
  "migrationColumns =
    [(''xui_factor_meta'',
       [(''key'', ''key TEXT''),
        (''value'', ''value TEXT NOT NULL DEFAULT '' @ literal []),
        (''updated_at'', ''updated_at BIGINT NOT NULL DEFAULT 0'')]),
     (''xui_factor_rules'',
       [(''name'', ''name TEXT''),
        (''inbound_id'', ''inbound_id BIGINT''),
        (''email'', ''email TEXT NOT NULL DEFAULT '' @ literal []),
        (''factor_ppm'', ''factor_ppm BIGINT NOT NULL DEFAULT 1000000''),
        (''state'', ''state TEXT NOT NULL DEFAULT '' @ literal ''active''),
        (''created_at'', ''created_at BIGINT NOT NULL DEFAULT 0''),
        (''updated_at'', ''updated_at BIGINT NOT NULL DEFAULT 0''),
        (''activated_at'', ''activated_at BIGINT''),
        (''paused_at'', ''paused_at BIGINT''),
        (''disabled_at'', ''disabled_at BIGINT'')]),
     (''xui_factor_rule_clients'',
       [(''rule_id'', ''rule_id BIGINT NOT NULL DEFAULT 0''),
        (''traffic_id'', ''traffic_id BIGINT NOT NULL DEFAULT 0''),
        (''inbound_id'', ''inbound_id BIGINT NOT NULL DEFAULT 0''),
        (''email'', ''email TEXT NOT NULL DEFAULT '' @ literal []),
        (''last_up'', ''last_up BIGINT NOT NULL DEFAULT 0''),
        (''last_down'', ''last_down BIGINT NOT NULL DEFAULT 0''),
        (''rem_up'', ''rem_up BIGINT NOT NULL DEFAULT 0''),
        (''rem_down'', ''rem_down BIGINT NOT NULL DEFAULT 0''),
        (''missing_since'', ''missing_since BIGINT''),
        (''updated_at'', ''updated_at BIGINT NOT NULL DEFAULT 0'')]),
     (''xui_factor_scopes'',
       [(''rule_id'', ''rule_id BIGINT NOT NULL DEFAULT 0''),
        (''inbound_id'', ''inbound_id BIGINT''),
        (''limited_only'', ''limited_only BIGINT NOT NULL DEFAULT 0''),
        (''include_disabled_clients'', ''include_disabled_clients BIGINT NOT NULL DEFAULT 0''),
        (''once'', ''once BIGINT NOT NULL DEFAULT 0''),
        (''created_at'', ''created_at BIGINT NOT NULL DEFAULT 0''),
        (''updated_at'', ''updated_at BIGINT NOT NULL DEFAULT 0'')]),
     (''xui_factor_excludes'',
       [(''traffic_id'', ''traffic_id BIGINT NOT NULL DEFAULT 0''),
        (''inbound_id'', ''inbound_id BIGINT NOT NULL DEFAULT 0''),
        (''email'', ''email TEXT NOT NULL DEFAULT '' @ literal []),
        (''state'', ''state TEXT NOT NULL DEFAULT '' @ literal ''active''),
        (''note'', ''note TEXT''),
        (''created_at'', ''created_at BIGINT NOT NULL DEFAULT 0''),
        (''updated_at'', ''updated_at BIGINT NOT NULL DEFAULT 0''),
        (''activated_at'', ''activated_at BIGINT''),
        (''disabled_at'', ''disabled_at BIGINT'')]),
     (''xui_factor_overrides'',
       [(''traffic_id'', ''traffic_id BIGINT NOT NULL DEFAULT 0''),
        (''inbound_id'', ''inbound_id BIGINT NOT NULL DEFAULT 0''),
        (''email'', ''email TEXT NOT NULL DEFAULT '' @ literal []),
        (''factor_ppm'', ''factor_ppm BIGINT NOT NULL DEFAULT 1000000''),
        (''state'', ''state TEXT NOT NULL DEFAULT '' @ literal ''active''),
        (''note'', ''note TEXT''),
        (''created_at'', ''created_at BIGINT NOT NULL DEFAULT 0''),
        (''updated_at'', ''updated_at BIGINT NOT NULL DEFAULT 0''),
        (''activated_at'', ''activated_at BIGINT''),
        (''disabled_at'', ''disabled_at BIGINT'')]),
     (''xui_factor_events'',
       [(''rule_id'', ''rule_id BIGINT''),
        (''event_type'', ''event_type TEXT NOT NULL DEFAULT '' @ literal []),
        (''message'', ''message TEXT''),
        (''created_at'', ''created_at BIGINT NOT NULL DEFAULT 0'')])]"

definition migrationObsoleteColumns :: "(string \<times> string list) list" where
  "migrationObsoleteColumns = [(''xui_factor_rule_clients'', [''last_all_time'', ''rem_all_time''])]"

text \<open>The indexes: name, whether unique, table and columns.\<close>

definition migrationIndexStatements :: "(string \<times> bool \<times> string \<times> string list) list" where
  "migrationIndexStatements =
    [(''idx_xui_factor_rules_state'', False, ''xui_factor_rules'', [''state'']),
     (''idx_xui_factor_rules_target_state'', False, ''xui_factor_rules'', [''email'', ''inbound_id'', ''state'']),
     (''idx_xui_factor_rule_clients_traffic'', False, ''xui_factor_rule_clients'', [''traffic_id'']),
     (''idx_xui_factor_rule_clients_missing'', False, ''xui_factor_rule_clients'', [''missing_since'']),
     (''idx_xui_factor_scopes_inbound'', False, ''xui_factor_scopes'', [''inbound_id'']),
     (''idx_xui_factor_excludes_state'', False, ''xui_factor_excludes'', [''state'']),
     (''idx_xui_factor_excludes_identity'', True, ''xui_factor_excludes'', [''traffic_id'', ''inbound_id'',
        ''email'']),
     (''idx_xui_factor_excludes_target_state'', False, ''xui_factor_excludes'', [''traffic_id'', ''inbound_id'',
        ''email'', ''state'']),
     (''idx_xui_factor_excludes_inbound_state'', False, ''xui_factor_excludes'', [''inbound_id'', ''state'']),
     (''idx_xui_factor_overrides_state'', False, ''xui_factor_overrides'', [''state'']),
     (''idx_xui_factor_overrides_identity'', True, ''xui_factor_overrides'', [''traffic_id'', ''inbound_id'',
        ''email'']),
     (''idx_xui_factor_overrides_target_state'', False, ''xui_factor_overrides'', [''traffic_id'', ''inbound_id'',
        ''email'', ''state'']),
     (''idx_xui_factor_overrides_inbound_state'', False, ''xui_factor_overrides'', [''inbound_id'', ''state'']),
     (''idx_xui_factor_events_created'', False, ''xui_factor_events'', [''created_at'']),
     (''idx_xui_factor_events_type_created'', False, ''xui_factor_events'', [''event_type'', ''created_at'']),
     (''idx_xui_factor_events_rule_created'', False, ''xui_factor_events'', [''rule_id'', ''created_at''])]"

section \<open>The migration\<close>

definition create_table :: "string \<times> string list \<Rightarrow> columns \<Rightarrow> columns tx" where
  "create_table tab cols = (case tab of (table, names) \<Rightarrow>
    ExecContext (\<lambda>d.
      if table \<in> set (t_tables d) then Inr (cols, d)
      else Inr (cols(table := names), d\<lparr>t_tables := t_tables d @ [table]\<rparr>)))"

text \<open>One column of \<open>ensureMetadataColumns\<close> and of \<open>dropObsoleteMetadataColumns\<close>; \<open>current\<close> was read once per table.\<close>

definition add_column :: "string \<Rightarrow> string list \<Rightarrow> string \<times> string \<Rightarrow> columns \<Rightarrow> columns tx" where
  "add_column table current column cols = (case column of (name, ddl) \<Rightarrow>
    if name \<in> set current then return_tx cols
    else ExecContext (\<lambda>d. Inr (cols(table := cols table @ [name]), d)))"

definition drop_column :: "string \<Rightarrow> string list \<Rightarrow> string \<Rightarrow> columns \<Rightarrow> columns tx" where
  "drop_column table current name cols =
    (if name \<notin> set current then return_tx cols
     else ExecContext (\<lambda>d. Inr (cols(table := removeAll name (cols table)), d)))"

definition for_table :: "(string \<Rightarrow> string list \<Rightarrow> 'c \<Rightarrow> columns \<Rightarrow> columns tx) \<Rightarrow> string \<times> 'c list \<Rightarrow> columns \<Rightarrow> columns tx" where
  "for_table change tab cols = (case tab of (table, wanted) \<Rightarrow>
    bind_tx (TableExists table) (\<lambda>exists.
    if \<not> exists then return_tx cols
    else bind_tx (tableColumns cols table) (\<lambda>current. for_each wanted (change table current) cols)))"

definition ensureMetadataColumns :: "columns \<Rightarrow> columns tx" where
  "ensureMetadataColumns cols = for_each migrationColumns (for_table add_column) cols"

definition dropObsoleteMetadataColumns :: "columns \<Rightarrow> columns tx" where
  "dropObsoleteMetadataColumns cols = for_each migrationObsoleteColumns (for_table drop_column) cols"

text \<open>\<open>migrationPolicyDedupeStatements\<close>: of the active policies of a client only the newest stays active.\<close>

definition newest_ids :: "('r \<Rightarrow> int) \<Rightarrow> ('r \<Rightarrow> int \<times> string) \<Rightarrow> 'r list \<Rightarrow> int set" where
  "newest_ids ident key active = (\<lambda>r. Max (ident ` set (filter (\<lambda>s. key s = key r) active))) ` set active"

definition dedupe :: "('r \<Rightarrow> bool) \<Rightarrow> ('r \<Rightarrow> int) \<Rightarrow> ('r \<Rightarrow> int \<times> string) \<Rightarrow> ('r \<Rightarrow> 'r) \<Rightarrow> 'r list \<Rightarrow> 'r list" where
  "dedupe active ident key disable rows =
    (let keep = newest_ids ident key (filter active rows)
     in update_where (\<lambda>r. active r \<and> ident r \<notin> keep) disable rows)"

definition disable_exclude :: "int \<Rightarrow> ExcludePolicy \<Rightarrow> ExcludePolicy" where
  "disable_exclude now p = p\<lparr>ep_state := StateDisabled, ep_disabled_at := Some now, ep_updated_at := now\<rparr>"

definition disable_override :: "int \<Rightarrow> OverridePolicy \<Rightarrow> OverridePolicy" where
  "disable_override now p = p\<lparr>op_state := StateDisabled, op_disabled_at := Some now, op_updated_at := now\<rparr>"

definition exclude_client :: "ExcludePolicy \<Rightarrow> int \<times> string" where
  "exclude_client p = (ep_traffic_id p, ep_email p)"

definition override_client :: "OverridePolicy \<Rightarrow> int \<times> string" where
  "override_client p = (op_traffic_id p, op_email p)"

definition dedupe_excludes :: "int \<Rightarrow> Database \<Rightarrow> Database" where
  "dedupe_excludes now d = d\<lparr>t_excludes :=
     dedupe (\<lambda>p. ep_state p = StateActive) ep_id exclude_client (disable_exclude now) (t_excludes d)\<rparr>"

definition dedupe_overrides :: "int \<Rightarrow> Database \<Rightarrow> Database" where
  "dedupe_overrides now d = d\<lparr>t_overrides :=
     dedupe (\<lambda>p. op_state p = StateActive) op_id override_client (disable_override now) (t_overrides d)\<rparr>"

text \<open>\<open>backfillMetadataIdentity\<close>: \<open>COALESCE\<close> over the panel's row, the rule and the value itself.\<close>

definition coalesce :: "'a option list \<Rightarrow> 'a \<Rightarrow> 'a" where
  "coalesce xs x = (case dropWhile (\<lambda>y. y = None) xs of Some y # _ \<Rightarrow> y | _ \<Rightarrow> x)"

definition client_row :: "Database \<Rightarrow> int \<Rightarrow> TrafficRow option" where
  "client_row d i = first_of (filter (\<lambda>t. tr_id t = i) (t_client_traffics d))"

definition rule_row :: "Database \<Rightarrow> int \<Rightarrow> RuleRow option" where
  "rule_row d i = first_of (filter (\<lambda>r. rr_id r = i) (t_rules d))"

definition backfill_inbound :: "Database \<Rightarrow> Database" where
  "backfill_inbound d = d\<lparr>t_rule_clients := update_where (\<lambda>rc. rc_inbound_id rc = 0)
     (\<lambda>rc. rc\<lparr>rc_inbound_id := coalesce [map_option tr_inbound_id (client_row d (rc_traffic_id rc)),
        Option.bind (rule_row d (rc_rule_id rc)) rr_inbound_id] (rc_inbound_id rc)\<rparr>) (t_rule_clients d)\<rparr>"

definition backfill_email :: "Database \<Rightarrow> Database" where
  "backfill_email d = d\<lparr>t_rule_clients := update_where (\<lambda>rc. rc_email rc = [])
     (\<lambda>rc. rc\<lparr>rc_email := coalesce [map_option tr_email (client_row d (rc_traffic_id rc)),
        map_option rr_email (rule_row d (rc_rule_id rc))] (rc_email rc)\<rparr>) (t_rule_clients d)\<rparr>"

definition backfill_updated :: "Database \<Rightarrow> Database" where
  "backfill_updated d = d\<lparr>t_rule_clients := update_where (\<lambda>rc. rc_updated_at rc = 0)
     (\<lambda>rc. rc\<lparr>rc_updated_at := coalesce [map_option rr_updated_at (rule_row d (rc_rule_id rc))] (rc_updated_at rc)\<rparr>)
     (t_rule_clients d)\<rparr>"

definition backfillMetadataIdentity :: "unit tx" where
  "backfillMetadataIdentity =
    bind_tx (exec_tx backfill_inbound) (\<lambda>_. bind_tx (exec_tx backfill_email) (\<lambda>_. exec_tx backfill_updated))"

text \<open>A unique index is refused when rows already share its key.\<close>

definition create_index :: "string \<times> bool \<times> string \<times> string list \<Rightarrow> unit \<Rightarrow> unit tx" where
  "create_index idx u = (case idx of (name, unique, table, _) \<Rightarrow>
    ExecContext (\<lambda>d.
      if unique \<and> table = ''xui_factor_excludes'' \<and> \<not> distinct (map ep_tuple (t_excludes d)) \<or>
         unique \<and> table = ''xui_factor_overrides'' \<and> \<not> distinct (map op_tuple (t_overrides d))
      then Inl (unique_violation name) else Inr ((), d)))"

definition insert_version :: "int \<Rightarrow> Database \<Rightarrow> Database" where
  "insert_version now d =
    (if list_ex (\<lambda>(k, _, _). k = ''schema_version'') (t_meta d) then d
     else d\<lparr>t_meta := t_meta d @ [(''schema_version'', ''3'', now)]\<rparr>)"

definition update_version :: "int \<Rightarrow> Database \<Rightarrow> Database" where
  "update_version now d = d\<lparr>t_meta := update_where (\<lambda>(k, v, _). k = ''schema_version'' \<and> v \<noteq> ''3'')
     (\<lambda>(k, _, _). (k, ''3'', now)) (t_meta d)\<rparr>"

definition migration :: "'a tx \<Rightarrow> ('a \<Rightarrow> 'b tx) \<Rightarrow> 'b tx" where
  "migration m k = attempt m (\<lambda>r.
    case r of Inl err \<Rightarrow> fail_tx (ErrWrap ''run metadata migration: '' err []) | Inr x \<Rightarrow> k x)"

definition Migrate_body :: "columns \<Rightarrow> int \<Rightarrow> columns tx" where
  "Migrate_body cols now =
    migration (for_each migrationTableStatements create_table cols) (\<lambda>cols.
    migration (ensureMetadataColumns cols) (\<lambda>cols.
    migration (dropObsoleteMetadataColumns cols) (\<lambda>cols.
    migration (exec_tx (dedupe_excludes now)) (\<lambda>_.
    migration (exec_tx (dedupe_overrides now)) (\<lambda>_.
    migration backfillMetadataIdentity (\<lambda>_.
    migration (for_each migrationIndexStatements create_index ()) (\<lambda>_.
    migration (exec_tx (insert_version now)) (\<lambda>_.
    migration (exec_tx (update_version now)) (\<lambda>_.
    return_tx cols)))))))))"

definition Migrate :: "columns \<Rightarrow> int \<Rightarrow> columns tx" where
  "Migrate cols now = WithImmediateTx (Migrate_body cols now)"

definition EnsureReady :: "columns \<Rightarrow> int \<Rightarrow> columns tx" where
  "EnsureReady cols now = bind_tx (ValidateRequiredSchema cols) (\<lambda>_. Migrate cols now)"


section \<open>Removing duplicates\<close>

lemma newest_iff:
  assumes ids: "distinct (map ident rows)" and r: "r \<in> set rows"
  shows "ident r \<in> newest_ids ident key rows \<longleftrightarrow> (\<forall>s \<in> set rows. key s = key r \<longrightarrow> ident s \<le> ident r)"
proof
  assume "ident r \<in> newest_ids ident key rows"
  then obtain s where s: "s \<in> set rows" and max: "ident r = Max (ident ` {u \<in> set rows. key u = key s})"
    by (auto simp: newest_ids_def)
  then have "ident r \<in> ident ` {u \<in> set rows. key u = key s}"
    unfolding max by (intro Max_in) auto
  then obtain u where "u \<in> set rows" "key u = key s" "ident u = ident r" by auto
  with distinct_map_eq [OF ids _ r] have "key r = key s" by metis
  with max show "\<forall>v \<in> set rows. key v = key r \<longrightarrow> ident v \<le> ident r" by simp
next
  assume "\<forall>s \<in> set rows. key s = key r \<longrightarrow> ident s \<le> ident r"
  with r have "Max (ident ` {u \<in> set rows. key u = key r}) = ident r"
    by (intro Max_eqI) auto
  with r show "ident r \<in> newest_ids ident key rows" by (force simp: newest_ids_def)
qed

definition superseded :: "('r \<Rightarrow> bool) \<Rightarrow> ('r \<Rightarrow> int) \<Rightarrow> ('r \<Rightarrow> int \<times> string) \<Rightarrow> 'r list \<Rightarrow> 'r \<Rightarrow> bool" where
  "superseded active ident key rows r \<longleftrightarrow> active r \<and> (\<exists>s \<in> set rows. active s \<and> key s = key r \<and> ident r < ident s)"

lemma dedupe_closed:
  assumes "distinct (map ident rows)"
  shows "dedupe active ident key disable rows = map (\<lambda>r. if superseded active ident key rows r then disable r else r) rows"
proof -
  have "ident r \<in> newest_ids ident key (filter active rows) \<longleftrightarrow> (\<forall>s \<in> set rows. active s \<longrightarrow> key s = key r \<longrightarrow> ident s \<le> ident r)"
    if "r \<in> set rows" "active r" for r
    using newest_iff [OF distinct_map_filter [OF assms], of r active key] that by auto
  then show ?thesis by (auto simp: dedupe_def update_where_def superseded_def not_le)
qed

text \<open>Once the superseded rows are disabled none is left.\<close>

lemma dedupe_once:
  assumes ids: "distinct (map ident rows)" and "\<And>r. \<not> active (disable r)" and same: "\<And>r. ident (disable r) = ident r"
  shows "dedupe active ident key disable' (dedupe active ident key disable rows) = dedupe active ident key disable rows"
proof -
  let ?rows = "dedupe active ident key disable rows"
  have "map ident ?rows = map ident rows" by (simp add: dedupe_closed [OF ids] same)
  with ids have ids': "distinct (map ident ?rows)" by simp
  have "\<not> superseded active ident key ?rows r" if "r \<in> set ?rows" for r
    using that assms(2) by (force simp: dedupe_closed [OF ids] superseded_def split: if_splits)
  then show ?thesis by (simp add: dedupe_closed [OF ids'] map_idI)
qed

lemma dedupe_keeps:
  "(\<And>r. f (disable r) = f r) \<Longrightarrow> map f (dedupe active ident key disable rows) = map f rows"
  by (simp add: dedupe_def Let_def map_update_where_keep)


section \<open>The migration keeps the schema\<close>

lemma evolves_dedupe: "evolves d (dedupe_excludes now d)" "evolves d (dedupe_overrides now d)"
proof -
  let ?e = "\<lambda>rows. dedupe (\<lambda>p. ep_state p = StateActive) ep_id exclude_client (disable_exclude now) rows"
  let ?o = "\<lambda>rows. dedupe (\<lambda>p. op_state p = StateActive) op_id override_client (disable_override now) rows"
  have "map ep_tuple (?e rows) = map ep_tuple rows" for rows
    by (rule dedupe_keeps) (simp add: disable_exclude_def ep_tuple_def)
  moreover have "numbered ep_id seq (?e rows) = numbered ep_id seq rows" for seq rows
  proof -
    have ids: "map ep_id (?e rows) = map ep_id rows" by (rule dedupe_keeps) (simp add: disable_exclude_def)
    then have "ep_id ` set (?e rows) = ep_id ` set rows" by (metis list.set_map)
    with ids show ?thesis unfolding numbered_def by (metis (no_types, lifting) image_eqI imageE)
  qed
  ultimately show "evolves d (dedupe_excludes now d)"
    by (simp add: dedupe_excludes_def evolves_def later_def schema_def policies_ok_def rule_ids_def)
  have "map op_tuple (?o rows) = map op_tuple rows" "map op_factor_ppm (?o rows) = map op_factor_ppm rows" for rows
    by (rule dedupe_keeps, simp add: disable_override_def op_tuple_def)+
  moreover from this(2) have "(\<forall>p \<in> set (?o rows). valid_factor (op_factor_ppm p)) = (\<forall>p \<in> set rows. valid_factor (op_factor_ppm p))" for rows
    by (metis (no_types, lifting) in_set_conv_nth length_map nth_map)
  moreover have "numbered op_id seq (?o rows) = numbered op_id seq rows" for seq rows
  proof -
    have ids: "map op_id (?o rows) = map op_id rows" by (rule dedupe_keeps) (simp add: disable_override_def)
    then have "op_id ` set (?o rows) = op_id ` set rows" by (metis list.set_map)
    with ids show ?thesis unfolding numbered_def by (metis (no_types, lifting) image_eqI imageE)
  qed
  ultimately show "evolves d (dedupe_overrides now d)"
    by (simp add: dedupe_overrides_def evolves_def later_def schema_def policies_ok_def rule_ids_def)
qed

lemma evolves_filled:
  assumes "\<And>rc. rc_rule_id (f rc) = rc_rule_id rc" "\<And>rc. rc_traffic_id (f rc) = rc_traffic_id rc"
    and "\<And>rc. rc_rem_up (f rc) = rc_rem_up rc" "\<And>rc. rc_rem_down (f rc) = rc_rem_down rc"
  shows "evolves d (d\<lparr>t_rule_clients := update_where p f (t_rule_clients d)\<rparr>)"
proof -
  have "map rc_order (update_where p f rows) = map rc_order rows" for rows
    by (rule map_update_where_keep) (simp add: rc_order_def assms)
  then show ?thesis
    by (auto simp: evolves_def later_def schema_def rule_clients_ok_def ball_update valid_rule_client_def assms rule_ids_def rules_ok_def)
qed

lemma evolves_backfill: "evolves d (backfill_inbound d)" "evolves d (backfill_email d)" "evolves d (backfill_updated d)"
  unfolding backfill_inbound_def backfill_email_def backfill_updated_def by (rule evolves_filled; simp)+

lemma evolves_version: "evolves d (insert_version now d)" "evolves d (update_version now d)"
proof -
  have "map fst (update_where (\<lambda>(k, v, _). k = ''schema_version'' \<and> v \<noteq> ''3'') (\<lambda>(k, _, _). (k, ''3'', now)) rows) = map fst rows"
    for rows :: "(string \<times> string \<times> int) list"
    by (rule map_update_where_keep) auto
  then show "evolves d (update_version now d)"
    by (simp add: update_version_def evolves_def later_def schema_def rule_ids_def rules_ok_def rule_clients_ok_def policies_ok_def)
  show "evolves d (insert_version now d)"
    by (auto simp: insert_version_def evolves_def later_def schema_def rule_ids_def rules_ok_def rule_clients_ok_def policies_ok_def list_ex_iff)
qed

lemma evo_migration [moves_intro]:
  "evo.stable C \<Longrightarrow> evo.under C m \<Longrightarrow> (\<And>x. evo.under C (k x)) \<Longrightarrow> evo.under C (migration m k)"
  unfolding migration_def by (intro evo.under_attempt evo.under_branches evo.moves_fail)

lemma evo_statements [moves_intro]:
  "evo.under C (create_table tab cols)" "evo.under C (add_column table current column cols)"
  "evo.under C (drop_column table current name cols)" "evo.under C (create_index idx u)"
  "evo.under C (tableColumns cols table)"
  unfolding create_table_def add_column_def drop_column_def create_index_def tableColumns_def
  by (intro moves_intro evo.moves_ExecContext evo.moves_statement;
      auto simp: metadata_def intro!: metadata_evolves split: if_splits)+

lemma evo_for_table [moves_intro]:
  "evo.stable C \<Longrightarrow> (\<And>table current x cols. evo.under C (change table current x cols)) \<Longrightarrow> evo.under C (for_table change tab cols)"
  unfolding for_table_def TableExists_def by (intro moves_intro evo.moves_statement) (auto simp: metadata_evolves)

lemma evo_Migrate_body: "evo.stable C \<Longrightarrow> evo.under C (Migrate_body cols now)"
  unfolding Migrate_body_def ensureMetadataColumns_def dropObsoleteMetadataColumns_def backfillMetadataIdentity_def
  by (intro moves_intro evo.moves_exec_tx conjI evolves_dedupe evolves_backfill evolves_version) auto

lemma evo_Migrate: "evo.under C (Migrate cols now)"
  unfolding Migrate_def by (rule transaction_keeps_schema(1)) (intro evo_Migrate_body moves_intro)

section \<open>A migration without failures\<close>

definition migrated :: "int \<Rightarrow> Database \<Rightarrow> Database" where
  "migrated now d = update_version now (insert_version now (backfill_updated (backfill_email (backfill_inbound
     (dedupe_overrides now (dedupe_excludes now (d\<lparr>t_tables := foldl (\<lambda>ts (t, _). if t \<in> set ts then ts else ts @ [t])
        (t_tables d) migrationTableStatements\<rparr>)))))))"

lemma migration_run [tx_simps]:
  "migration m k w = (case m w of (Inl err, w') \<Rightarrow> (Inl (ErrWrap ''run metadata migration: '' err []), w') | (Inr x, w') \<Rightarrow> k x w')"
  by (simp add: migration_def attempt_run split: sum.split prod.split)

lemma create_tables_run:
  "healthy w \<Longrightarrow> \<exists>cols'. for_each tabs create_table cols w = (Inr cols', w\<lparr>w_db := (w_db w)\<lparr>t_tables :=
     foldl (\<lambda>ts (t, _). if t \<in> set ts then ts else ts @ [t]) (t_tables (w_db w)) tabs\<rparr>\<rparr>)"
proof (induction tabs arbitrary: w cols)
  case (Cons tab tabs)
  obtain t names where tab: "tab = (t, names)" by fastforce
  let ?w = "if t \<in> set (t_tables (w_db w)) then w else w\<lparr>w_db := (w_db w)\<lparr>t_tables := t_tables (w_db w) @ [t]\<rparr>\<rparr>"
  have "\<exists>cols1. create_table tab cols w = (Inr cols1, ?w)"
    using Cons.prems by (simp add: create_table_def tab tx_simps)
  then obtain cols1 where first: "create_table tab cols w = (Inr cols1, ?w)" by blast
  have "healthy ?w" using Cons.prems by (simp add: healthy_def)
  from Cons.IH [OF this, of cols1] first show ?case
    by (simp add: bind_tx_run tab split: if_splits)
qed (simp add: tx_simps)

lemma unchanged_loop:
  assumes "healthy w" and "\<And>x acc. x \<in> set xs \<Longrightarrow> \<exists>acc'. f x acc w = (Inr acc', w)"
  shows "\<exists>acc'. for_each xs f acc w = (Inr acc', w)"
  using assms(2)
proof (induction xs arbitrary: acc)
  case (Cons x xs)
  obtain acc1 where "f x acc w = (Inr acc1, w)" using Cons.prems by force
  moreover obtain acc2 where "for_each xs f acc1 w = (Inr acc2, w)" using Cons by force
  ultimately show ?case by (simp add: bind_tx_run)
qed simp

lemma for_table_run:
  assumes "healthy w" and "\<And>table current x cols. \<exists>cols'. change table current x cols w = (Inr cols', w)"
  shows "\<exists>cols'. for_table change tab cols w = (Inr cols', w)"
proof (cases tab)
  case (Pair table wanted)
  have "\<exists>cols'. for_each wanted (change table (cols table)) cols w = (Inr cols', w)"
    by (rule unchanged_loop [OF assms(1)]) (rule assms(2))
  then obtain cols' where "for_each wanted (change table (cols table)) cols w = (Inr cols', w)" ..
  then show ?thesis using assms(1) by (auto simp: for_table_def Pair tx_simps tableColumns_def)
qed

lemma columns_run:
  assumes "healthy w"
  shows "\<exists>cols'. ensureMetadataColumns cols w = (Inr cols', w)" and "\<exists>cols'. dropObsoleteMetadataColumns cols w = (Inr cols', w)"
proof -
  have "\<exists>cols'. add_column table current x cols w = (Inr cols', w)" "\<exists>cols'. drop_column table current n cols w = (Inr cols', w)"
    for table current x cols n
    using assms by (auto simp: add_column_def drop_column_def tx_simps split: prod.split)
  then show "\<exists>cols'. ensureMetadataColumns cols w = (Inr cols', w)" "\<exists>cols'. dropObsoleteMetadataColumns cols w = (Inr cols', w)"
    unfolding ensureMetadataColumns_def dropObsoleteMetadataColumns_def
    by (intro unchanged_loop [OF assms] for_table_run [OF assms]; blast)+
qed

lemma indexes_run:
  assumes "healthy w" and "policies_ok (w_db w)"
  shows "for_each idxs create_index () w = (Inr (), w)"
proof -
  have "\<exists>acc'. create_index idx u w = (Inr acc', w)" for idx u
    using assms by (auto simp: create_index_def tx_simps policies_ok_def split: prod.split)
  then have "\<exists>acc'. for_each idxs create_index () w = (Inr acc', w)"
    by (rule unchanged_loop [OF assms(1)])
  then show ?thesis by auto
qed


lemma schema_tables: "schema (d\<lparr>t_tables := ts\<rparr>) = schema d"
  by (simp add: schema_def rules_ok_def rule_clients_ok_def policies_ok_def rule_ids_def)

lemma healthy_db [simp]: "healthy (w\<lparr>w_db := d\<rparr>) = healthy w"
  by (simp add: healthy_def)

lemma evolves_schema: "evolves d d' \<Longrightarrow> schema d \<Longrightarrow> schema d'"
  by (simp add: evolves_def)

lemma Migrate_run:
  assumes w: "healthy w" and s: "schema (w_db w)"
  shows "\<exists>cols'. Migrate cols now w = (Inr cols', w\<lparr>w_db := migrated now (w_db w)\<rparr>)"
proof -
  let ?ts = "foldl (\<lambda>ts (t, _). if t \<in> set ts then ts else ts @ [t]) (t_tables (w_db w)) migrationTableStatements"
  let ?d1 = "(w_db w)\<lparr>t_tables := ?ts\<rparr>"
  let ?d2 = "backfill_updated (backfill_email (backfill_inbound (dedupe_overrides now (dedupe_excludes now ?d1))))"
  obtain c1 where c1: "for_each migrationTableStatements create_table cols w = (Inr c1, w\<lparr>w_db := ?d1\<rparr>)"
    using create_tables_run [OF w] by blast
  have w1: "healthy (w\<lparr>w_db := ?d1\<rparr>)" using w by simp
  obtain c2 where c2: "ensureMetadataColumns c1 (w\<lparr>w_db := ?d1\<rparr>) = (Inr c2, w\<lparr>w_db := ?d1\<rparr>)"
    using columns_run(1) [OF w1] by blast
  obtain c3 where c3: "dropObsoleteMetadataColumns c2 (w\<lparr>w_db := ?d1\<rparr>) = (Inr c3, w\<lparr>w_db := ?d1\<rparr>)"
    using columns_run(2) [OF w1] by blast
  have "schema ?d1" using s by (simp only: schema_tables)
  then have "schema ?d2"
    by (intro evolves_schema [OF evolves_backfill(3)] evolves_schema [OF evolves_backfill(2)] evolves_schema [OF evolves_backfill(1)]
        evolves_schema [OF evolves_dedupe(2)] evolves_schema [OF evolves_dedupe(1)])
  then have idx: "for_each migrationIndexStatements create_index () (w\<lparr>w_db := ?d2\<rparr>) = (Inr (), w\<lparr>w_db := ?d2\<rparr>)"
    using w by (intro indexes_run) (simp_all add: schema_def)
  have "Migrate_body cols now w = (Inr c3, w\<lparr>w_db := migrated now (w_db w)\<rparr>)"
    unfolding Migrate_body_def using w
    by (simp add: tx_simps c1 c2 c3 idx backfillMetadataIdentity_def migrated_def)
  then have "Migrate cols now w = (Inr c3, w\<lparr>w_db := migrated now (w_db w)\<rparr>)"
    unfolding Migrate_def by (rule WithImmediateTx_ok [OF w]) (simp add: w)
  then show ?thesis by blast
qed

section \<open>What the migration makes of the rows\<close>

definition migrated_tables :: "string list \<Rightarrow> string list" where
  "migrated_tables ts = foldl (\<lambda>ts (t, _). if t \<in> set ts then ts else ts @ [t]) ts migrationTableStatements"

definition backfilled :: "Database \<Rightarrow> RuleClient list \<Rightarrow> RuleClient list" where
  "backfilled d rows = t_rule_clients (backfill_updated (backfill_email (backfill_inbound (d\<lparr>t_rule_clients := rows\<rparr>))))"

definition versioned :: "int \<Rightarrow> (string \<times> string \<times> int) list \<Rightarrow> (string \<times> string \<times> int) list" where
  "versioned now rows = update_where (\<lambda>(k, v, _). k = ''schema_version'' \<and> v \<noteq> ''3'') (\<lambda>(k, _, _). (k, ''3'', now))
     (if list_ex (\<lambda>(k, _, _). k = ''schema_version'') rows then rows else rows @ [(''schema_version'', ''3'', now)])"

lemma migrated_eq:
  "migrated now d = d\<lparr>t_tables := migrated_tables (t_tables d), t_excludes := t_excludes (dedupe_excludes now d),
     t_overrides := t_overrides (dedupe_overrides now d), t_rule_clients := backfilled d (t_rule_clients d),
     t_meta := versioned now (t_meta d)\<rparr>"
  by (simp add: migrated_def migrated_tables_def backfilled_def versioned_def update_version_def insert_version_def
      backfill_updated_def backfill_email_def backfill_inbound_def client_row_def rule_row_def dedupe_excludes_def
      dedupe_overrides_def)

lemma migrated_tables_known: "set (map fst tabs) \<subseteq> set ts \<Longrightarrow> foldl (\<lambda>ts (t, _). if t \<in> set ts then ts else ts @ [t]) ts tabs = ts"
  by (induction tabs) auto

lemma migrated_tables_set:
  "set (foldl (\<lambda>ts (t, _). if t \<in> set ts then ts else ts @ [t]) ts tabs) = set ts \<union> set (map fst tabs)"
proof (induction tabs arbitrary: ts)
  case (Cons tab tabs)
  then show ?case by (cases tab) auto
qed simp

lemma migrated_tables_twice: "migrated_tables (migrated_tables ts) = migrated_tables ts"
  unfolding migrated_tables_def by (rule migrated_tables_known) (simp add: migrated_tables_set del: set_map)

lemma has_version: "list_ex (\<lambda>(k, _, _). k = v) rows \<longleftrightarrow> v \<in> set (map fst rows)"
  by (induction rows) auto

lemma versioned_twice: "versioned now' (versioned now rows) = versioned now rows"
proof -
  let ?rows = "if list_ex (\<lambda>(k, _, _). k = ''schema_version'') rows then rows else rows @ [(''schema_version'', ''3'', now)]"
  have "map fst (versioned now rows) = map fst ?rows"
    unfolding versioned_def by (rule map_update_where_keep) auto
  then have "list_ex (\<lambda>(k, _, _). k = ''schema_version'') (versioned now rows)"
    by (simp add: has_version del: set_map)
  moreover have "update_where (\<lambda>(k, v, _). k = ''schema_version'' \<and> v \<noteq> ''3'') f (versioned now rows) = versioned now rows" for f
    by (rule update_where_id) (auto simp: versioned_def set_update_where simp del: list_ex_append split: if_splits)
  ultimately show ?thesis by (simp only: versioned_def [of now'] if_True)
qed

text \<open>The three updates of a rule client, in one.\<close>

definition fill :: "Database \<Rightarrow> RuleClient \<Rightarrow> RuleClient" where
  "fill d rc = rc\<lparr>
     rc_inbound_id := (if rc_inbound_id rc = 0
       then coalesce [map_option tr_inbound_id (client_row d (rc_traffic_id rc)), Option.bind (rule_row d (rc_rule_id rc)) rr_inbound_id] 0
       else rc_inbound_id rc),
     rc_email := (if rc_email rc = []
       then coalesce [map_option tr_email (client_row d (rc_traffic_id rc)), map_option rr_email (rule_row d (rc_rule_id rc))] []
       else rc_email rc),
     rc_updated_at := (if rc_updated_at rc = 0
       then coalesce [map_option rr_updated_at (rule_row d (rc_rule_id rc))] 0 else rc_updated_at rc)\<rparr>"

lemma row_frames [simp]:
  "client_row (d\<lparr>t_rule_clients := rows\<rparr>) = client_row d" "rule_row (d\<lparr>t_rule_clients := rows\<rparr>) = rule_row d"
  by (simp_all add: client_row_def rule_row_def fun_eq_iff)

lemma backfilled_map: "backfilled d rows = map (fill d) rows"
  by (simp add: backfilled_def backfill_updated_def backfill_email_def backfill_inbound_def update_where_def fill_def)

lemma fill_twice: "fill d (fill d rc) = fill d rc"
  by (simp add: fill_def)

lemma backfilled_twice:
  assumes "t_client_traffics d' = t_client_traffics d" and "t_rules d' = t_rules d"
  shows "backfilled d' (backfilled d rows) = backfilled d rows"
proof -
  have "client_row d' = client_row d" "rule_row d' = rule_row d"
    using assms by (simp_all add: client_row_def rule_row_def fun_eq_iff)
  then have "fill d' = fill d" by (simp add: fill_def fun_eq_iff)
  then show ?thesis by (simp add: backfilled_map fill_twice)
qed


lemma migrated_twice:
  assumes "schema d"
  shows "migrated now' (migrated now d) = migrated now d"
proof -
  let ?d = "migrated now d"
  have ids: "distinct (map ep_id (t_excludes d))" "distinct (map op_id (t_overrides d))"
    using assms by (simp_all add: schema_def policies_ok_def numbered_def)
  have "t_excludes (dedupe_excludes now' ?d) = t_excludes ?d"
    using dedupe_once [OF ids(1)] by (simp add: migrated_eq dedupe_excludes_def disable_exclude_def)
  moreover have "t_overrides (dedupe_overrides now' ?d) = t_overrides ?d"
    using dedupe_once [OF ids(2)] by (simp add: migrated_eq dedupe_overrides_def disable_override_def)
  moreover have "backfilled ?d (t_rule_clients ?d) = t_rule_clients ?d"
    by (simp add: migrated_eq backfilled_twice)
  moreover have "migrated_tables (t_tables ?d) = t_tables ?d" "versioned now' (t_meta ?d) = t_meta ?d"
    by (simp_all add: migrated_eq migrated_tables_twice versioned_twice)
  ultimately show ?thesis by (simp add: migrated_eq [of now' ?d])
qed

lemma migrated_policies:
  assumes "schema d"
  shows "t_excludes (dedupe_excludes now d) = map (\<lambda>p. if superseded (\<lambda>p. ep_state p = StateActive) ep_id exclude_client (t_excludes d) p
      then disable_exclude now p else p) (t_excludes d)"
    and "t_overrides (dedupe_overrides now d) = map (\<lambda>p. if superseded (\<lambda>p. op_state p = StateActive) op_id override_client (t_overrides d) p
      then disable_override now p else p) (t_overrides d)"
proof -
  have "distinct (map ep_id (t_excludes d))" "distinct (map op_id (t_overrides d))"
    using assms by (simp_all add: schema_def policies_ok_def numbered_def)
  then show "t_excludes (dedupe_excludes now d) = map (\<lambda>p. if superseded (\<lambda>p. ep_state p = StateActive) ep_id exclude_client (t_excludes d) p
      then disable_exclude now p else p) (t_excludes d)"
    "t_overrides (dedupe_overrides now d) = map (\<lambda>p. if superseded (\<lambda>p. op_state p = StateActive) op_id override_client (t_overrides d) p
      then disable_override now p else p) (t_overrides d)"
    by (simp_all add: dedupe_excludes_def dedupe_overrides_def dedupe_closed)
qed

text \<open>
  C33. Opening a healthy database migrates it: the metadata tables exist, of the active policies of each client only the
  one with the highest identifier stays active and the others are disabled now, every other policy keeps its row,
  and the rules, the scopes, the events and the panel's tables are not written. The database stays well formed.
\<close>

theorem migration_disables_superseded:
  assumes "healthy w" and "schema (w_db w)"
  shows "\<exists>cols' d'. Migrate cols now w = (Inr cols', w\<lparr>w_db := d'\<rparr>) \<and> schema d' \<and>
    set (map fst migrationTableStatements) \<subseteq> set (t_tables d') \<and>
    t_excludes d' = map (\<lambda>p. if superseded (\<lambda>p. ep_state p = StateActive) ep_id exclude_client (t_excludes (w_db w)) p
      then disable_exclude now p else p) (t_excludes (w_db w)) \<and>
    t_overrides d' = map (\<lambda>p. if superseded (\<lambda>p. op_state p = StateActive) op_id override_client (t_overrides (w_db w)) p
      then disable_override now p else p) (t_overrides (w_db w)) \<and>
    (t_rules d', t_scopes d', t_events d', t_client_traffics d', t_clients d', t_client_inbounds d') =
    (t_rules (w_db w), t_scopes (w_db w), t_events (w_db w), t_client_traffics (w_db w), t_clients (w_db w),
     t_client_inbounds (w_db w))"
proof -
  let ?d = "migrated now (w_db w)"
  obtain cols' where run: "Migrate cols now w = (Inr cols', w\<lparr>w_db := ?d\<rparr>)" using Migrate_run [OF assms] by blast
  have "schema ?d"
    using evo.movesD [OF evo_Migrate [of "\<lambda>_. True"] _ run] assms(2) by (auto intro: evolves_schema)
  moreover have "set (map fst migrationTableStatements) \<subseteq> set (t_tables ?d)"
    by (simp add: migrated_eq migrated_tables_def migrated_tables_set del: set_map)
  ultimately show ?thesis
    using run migrated_policies [OF assms(2), of now] by (intro exI [of _ cols'] exI [of _ ?d]) (simp add: migrated_eq)
qed

text \<open>
  C34. Opening the database again, at any later time, changes nothing: a second migration succeeds and leaves the
  whole database as the first one left it.
\<close>

theorem migration_is_idempotent:
  assumes "healthy w" and "schema (w_db w)" and "Migrate cols now w = (Inr cols1, w1)"
  shows "\<exists>cols2. Migrate cols1 later_now w1 = (Inr cols2, w1)"
proof -
  have w1: "w1 = w\<lparr>w_db := migrated now (w_db w)\<rparr>" using Migrate_run [OF assms(1,2), of cols now] assms(3) by auto
  have "schema (w_db w1)"
    using evo.movesD [OF evo_Migrate [of "\<lambda>_. True"] _ assms(3)] assms(2) by (auto intro: evolves_schema)
  moreover have "healthy w1" using assms(1) by (simp add: w1)
  ultimately obtain cols2 where "Migrate cols1 later_now w1 = (Inr cols2, w1\<lparr>w_db := migrated later_now (w_db w1)\<rparr>)"
    using Migrate_run by blast
  then show ?thesis by (simp add: w1 migrated_twice [OF assms(2)])
qed


section \<open>A database with a duplicate\<close>

definition duplicate_exclude :: "int \<Rightarrow> ExcludePolicy" where
  "duplicate_exclude i = \<lparr>ep_id = i, ep_traffic_id = 7, ep_inbound_id = i, ep_email = ''u'', ep_state = StateActive, ep_note = [],
     ep_created_at = 0, ep_updated_at = 0, ep_activated_at = None, ep_disabled_at = None\<rparr>"

definition duplicated_db :: Database where
  "duplicated_db = empty_db\<lparr>t_excludes := [duplicate_exclude 1, duplicate_exclude 2], t_seq_excludes := 2\<rparr>"

lemma duplicated_schema: "schema duplicated_db"
  by (simp add: duplicated_db_def duplicate_exclude_def empty_db_def schema_def rules_ok_def rule_clients_ok_def policies_ok_def
      numbered_def ep_tuple_def)

theorem migration_disables_superseded_witness:
  "\<exists>cols' d'. Migrate (\<lambda>_. []) 9 (sqlite_world [] duplicated_db) = (Inr cols', sqlite_world [] d') \<and>
     t_excludes d' = [disable_exclude 9 (duplicate_exclude 1), duplicate_exclude 2]"
proof -
  obtain cols' d' where run: "Migrate (\<lambda>_. []) 9 (sqlite_world [] duplicated_db) = (Inr cols', (sqlite_world [] duplicated_db)\<lparr>w_db := d'\<rparr>)"
    and rows: "t_excludes d' = map (\<lambda>p. if superseded (\<lambda>p. ep_state p = StateActive) ep_id exclude_client
        (t_excludes (w_db (sqlite_world [] duplicated_db))) p then disable_exclude 9 p else p)
        (t_excludes (w_db (sqlite_world [] duplicated_db)))"
    using migration_disables_superseded [of "sqlite_world [] duplicated_db" "\<lambda>_. []" 9] duplicated_schema
    by (auto simp: sqlite_world_def healthy_def)
  from rows have "t_excludes d' = [disable_exclude 9 (duplicate_exclude 1), duplicate_exclude 2]"
    by (simp add: sqlite_world_def duplicated_db_def superseded_def exclude_client_def duplicate_exclude_def)
  with run show ?thesis by (auto simp: sqlite_world_def)
qed

theorem migration_is_idempotent_witness:
  "\<exists>cols1 cols2 d'. Migrate (\<lambda>_. []) 9 (sqlite_world [] duplicated_db) = (Inr cols1, sqlite_world [] d') \<and>
     Migrate cols1 20 (sqlite_world [] d') = (Inr cols2, sqlite_world [] d')"
proof -
  have w: "healthy (sqlite_world [] duplicated_db)" "schema (w_db (sqlite_world [] duplicated_db))"
    using duplicated_schema by (simp_all add: sqlite_world_def healthy_def)
  obtain cols1 where run: "Migrate (\<lambda>_. []) 9 (sqlite_world [] duplicated_db) =
      (Inr cols1, (sqlite_world [] duplicated_db)\<lparr>w_db := migrated 9 duplicated_db\<rparr>)"
    using Migrate_run [OF w] by (auto simp: sqlite_world_def)
  from migration_is_idempotent [OF w run, of 20] run show ?thesis by (auto simp: sqlite_world_def)
qed

end
