(* ===== verification/XF_Output.thy ===== *)
theory XF_Output
  imports XF_Effective
begin

text \<open>
  The text the commands print, \<open>cli/output.go\<close>: every method of \<open>output\<close> and every label, as the characters written.
\<close>

section \<open>Lines\<close>

definition line :: "string \<Rightarrow> string" where
  "line s = s @ [CHR 10]"

definition out_Title :: "string \<Rightarrow> string" where
  "out_Title text = line text"

definition out_Summary :: "string \<Rightarrow> string \<Rightarrow> string" where
  "out_Summary command message = line (command @ '': '' @ message)"

definition out_Section :: "string \<Rightarrow> string" where
  "out_Section title = CHR 10 # line title"

definition out_Field :: "string \<Rightarrow> string \<Rightarrow> string" where
  "out_Field name v = line (''  '' @ name @ '': '' @ v)"

definition yesNo :: "bool \<Rightarrow> string" where
  "yesNo b = (if b then ''yes'' else ''no'')"

definition inboundLabel :: "int option \<Rightarrow> string" where
  "inboundLabel inbound = (case inbound of None \<Rightarrow> ''all'' | Some i \<Rightarrow> itoa i)"

section \<open>Rules and policies\<close>

definition scopeLabel :: "Scope option \<Rightarrow> string" where
  "scopeLabel scope =
    (case scope of
       None \<Rightarrow> ''-''
     | Some sc \<Rightarrow>
         (if sc_once sc then ''snapshot,'' else []) @
         (case sc_inbound_id sc of None \<Rightarrow> ''global'' | Some i \<Rightarrow> ''inbound:'' @ itoa i) @
         (if sc_limited_only sc then '',limited-only'' else []) @
         (if sc_include_disabled_clients sc then '',include-disabled'' else []))"

definition optional_part :: "string \<Rightarrow> string \<Rightarrow> string" where
  "optional_part name v = (if v \<noteq> [] then ''  '' @ name @ ''='' @ v else [])"

definition out_Rule :: "Rule \<Rightarrow> string" where
  "out_Rule rule =
    (case r_scope rule of
       Some sc \<Rightarrow>
         line (''  rule='' @ itoa (r_id rule) @ ''  state='' @ state_name (r_state rule) @ ''  scope='' @ scopeLabel (Some sc) @
           ''  factor='' @ FormatFactor (r_factor_ppm rule) @ ''  clients='' @ itoa (r_client_count rule) @
           (if r_effective_client_count rule \<noteq> r_client_count rule
            then ''  effective='' @ itoa (r_effective_client_count rule) else []) @
           optional_part ''name'' (r_name rule))
     | None \<Rightarrow>
         line (''  rule='' @ itoa (r_id rule) @ ''  state='' @ state_name (r_state rule) @ ''  email='' @ r_email rule @
           ''  inbound='' @ itoa (r_inbound_id rule) @ ''  factor='' @ FormatFactor (r_factor_ppm rule) @
           ''  clients='' @ itoa (r_client_count rule) @ optional_part ''name'' (r_name rule)))"

definition out_Exclude :: "ExcludePolicy \<Rightarrow> string" where
  "out_Exclude p = line (''  exclude  email='' @ ep_email p @ ''  inbound='' @ itoa (ep_inbound_id p) @
     ''  traffic='' @ itoa (ep_traffic_id p) @ ''  state='' @ state_name (ep_state p) @ optional_part ''note'' (ep_note p))"

definition out_Override :: "OverridePolicy \<Rightarrow> string" where
  "out_Override p = line (''  override  email='' @ op_email p @ ''  inbound='' @ itoa (op_inbound_id p) @
     ''  traffic='' @ itoa (op_traffic_id p) @ ''  factor='' @ FormatFactor (op_factor_ppm p) @
     ''  state='' @ state_name (op_state p) @ optional_part ''note'' (op_note p))"

definition statusRuleMatchesInbound :: "Rule \<Rightarrow> int option \<Rightarrow> bool" where
  "statusRuleMatchesInbound rule inbound =
    (case (inbound, r_scope rule) of
       (Some i, Some sc) \<Rightarrow> (case sc_inbound_id sc of None \<Rightarrow> True | Some j \<Rightarrow> j = i)
     | _ \<Rightarrow> True)"

section \<open>Decisions\<close>

definition decisionFactor :: "Decision \<Rightarrow> string" where
  "decisionFactor d =
    (if d_source d = SourceNone \<or> d_source d = SourceExclude \<or> d_factor_ppm d = 0 then ''none''
     else FormatFactor (d_factor_ppm d))"

definition decisionMutatesTraffic :: "Decision \<Rightarrow> bool" where
  "decisionMutatesTraffic d \<longleftrightarrow> d_target d \<noteq> None \<and> FactorScale < d_factor_ppm d"

definition decisionState :: "Decision \<Rightarrow> string" where
  "decisionState d = (if d_source d = SourceNone then ''none'' else ''active'')"

fun sourceLabel :: "SourceType \<Rightarrow> string" where
  "sourceLabel SourceExclude = ''exclude''"
| "sourceLabel SourceUserOverride = ''override''"
| "sourceLabel SourceSingleRule = ''single-user''"
| "sourceLabel SourceInboundScope = ''scope''"
| "sourceLabel SourceGlobalScope = ''scope''"
| "sourceLabel SourceSnapshot = ''scope''"
| "sourceLabel SourceNone = ''none''"

definition policyPrecedenceText :: string where
  "policyPrecedenceText = ''exclude > override > single-user rule > inbound scope > global scope''"

definition out_ClientDecision :: "ClientEffectiveDecision \<Rightarrow> string" where
  "out_ClientDecision item = line (''  email='' @ ct_email (ce_client item) @ ''  inbound='' @ itoa (ct_inbound_id (ce_client item)) @
     ''  traffic='' @ itoa (ct_id (ce_client item)) @ ''  factor='' @ decisionFactor (ce_decision item) @
     ''  source='' @ sourceLabel (d_source (ce_decision item)) @ ''  state='' @ decisionState (ce_decision item))"

definition out_Match :: "Match \<Rightarrow> string" where
  "out_Match m = line (case m_source m of
       SourceExclude \<Rightarrow> ''  exclude  state=active''
     | SourceUserOverride \<Rightarrow> ''  override  factor='' @ FormatFactor (m_factor_ppm m)
     | SourceSingleRule \<Rightarrow> ''  single-user rule='' @ itoa (m_rule_id m) @ ''  factor='' @ FormatFactor (m_factor_ppm m)
     | SourceInboundScope \<Rightarrow> ''  scope  rule='' @ itoa (m_rule_id m) @ ''  inbound='' @ itoa (m_inbound_id m) @
         ''  factor='' @ FormatFactor (m_factor_ppm m)
     | SourceGlobalScope \<Rightarrow> ''  scope  rule='' @ itoa (m_rule_id m) @ ''  scope=global  factor='' @ FormatFactor (m_factor_ppm m)
     | SourceSnapshot \<Rightarrow> ''  scope  rule='' @ itoa (m_rule_id m) @ ''  scope=snapshot  factor='' @ FormatFactor (m_factor_ppm m)
     | SourceNone \<Rightarrow> ''  none'')"

section \<open>Times\<close>

text \<open>\<open>time.Unix(...).UTC()\<close>: the proleptic Gregorian date of a number of days since 1970, by eras of 400 years.\<close>

definition civil_date :: "int \<Rightarrow> int \<times> int \<times> int" where
  "civil_date days =
    (let z = days + 719468; era = z div 146097; doe = z mod 146097;
         yoe = (doe - doe div 1460 + doe div 36524 - doe div 146096) div 365;
         doy = doe - (365 * yoe + yoe div 4 - yoe div 100);
         mp = (5 * doy + 2) div 153;
         month = (if mp < 10 then mp + 3 else mp - 9)
     in (yoe + era * 400 + (if month \<le> 2 then 1 else 0), month, doy - (153 * mp + 2) div 5 + 1))"

definition year_text :: "int \<Rightarrow> string" where
  "year_text y = (if y < 0 then CHR ''-'' # zero_pad 4 (- y) else zero_pad 4 y)"

definition formatEventTime :: "int \<Rightarrow> string" where
  "formatEventTime unix =
    (case civil_date (unix div 86400) of (y, m, d) \<Rightarrow>
       let s = unix mod 86400 in
       year_text y @ ''-'' @ zero_pad 2 m @ ''-'' @ zero_pad 2 d @ '' '' @
       zero_pad 2 (s div 3600) @ '':'' @ zero_pad 2 (s div 60 mod 60) @ '':'' @ zero_pad 2 (s mod 60))"

section \<open>Events\<close>

definition eventTarget :: "Event \<Rightarrow> string" where
  "eventTarget ev =
    (let parts = (if e_email ev \<noteq> [] then [''email='' @ e_email ev] else []) @
         (case e_inbound_id ev of None \<Rightarrow> [] | Some i \<Rightarrow> [''inbound='' @ itoa i]) @
         (case e_policy_id ev of None \<Rightarrow> [] | Some i \<Rightarrow> [''policy='' @ itoa i])
     in fold (\<lambda>part out. (if out \<noteq> [] then out @ ''  '' else out) @ part) parts [])"

definition out_Event :: "Event \<Rightarrow> string" where
  "out_Event ev =
    (let rule = (case e_rule_id ev of None \<Rightarrow> ''-'' | Some i \<Rightarrow> itoa i); target = eventTarget ev
     in line (''  '' @ formatEventTime (e_created_at ev) @ ''  event='' @ event_type_name (e_type ev) @ ''  rule='' @ rule @
          (if target \<noteq> [] then ''  '' @ target else []) @ ''  detail='' @ e_message ev))"

section \<open>Sizes\<close>

definition round_half_even :: "nat \<Rightarrow> nat \<Rightarrow> nat" where
  "round_half_even n d =
    n div d + (if d < 2 * (n mod d) \<or> (d = 2 * (n mod d) \<and> odd (n div d)) then 1 else 0)"

text \<open>\<open>float64(bytes)\<close>: 53 significant bits. Dividing by 1024 is exact.\<close>

fun excess_bits :: "nat \<Rightarrow> nat" where
  "excess_bits n = (if n < 2 ^ 53 then 0 else Suc (excess_bits (n div 2)))"

declare excess_bits.simps [simp del]

definition float64_of_nat :: "nat \<Rightarrow> nat" where
  "float64_of_nat n = round_half_even n (2 ^ excess_bits n) * 2 ^ excess_bits n"

definition byte_units :: "string list" where
  "byte_units = [''B'', ''KiB'', ''MiB'', ''GiB'', ''TiB'', ''PiB'']"

text \<open>The loop of \<open>formatBytes\<close>, from unit \<open>u\<close> on; the value is \<open>f / 1024 ^ u\<close>.\<close>

function unit_of :: "nat \<Rightarrow> nat \<Rightarrow> nat" where
  "unit_of f u = (if 1024 ^ Suc u \<le> f \<and> u < length byte_units - 1 then unit_of f (Suc u) else u)"
  by pat_completeness auto
termination
  by (relation "measure (\<lambda>(f, u). length byte_units - u)") auto

declare unit_of.simps [simp del]

text \<open>\<open>%.1f\<close> of a number of tenths.\<close>

definition tenths_text :: "nat \<Rightarrow> string" where
  "tenths_text t = nat_digits (t div 10) @ ''.'' @ nat_digits (t mod 10)"

definition formatBytes :: "int \<Rightarrow> string" where
  "formatBytes bytes =
    (if bytes \<le> 0 then ''0 B''
     else let f = float64_of_nat (nat bytes); u = unit_of f 0
       in if u = 0 then itoa bytes @ '' '' @ byte_units ! 0
          else tenths_text (round_half_even (10 * f) (1024 ^ u)) @ '' '' @ byte_units ! u)"

section \<open>How far a printed size is off\<close>

lemma round_half_even_close:
  assumes "0 < d"
  shows "2 * \<bar>int n - int (round_half_even n d * d)\<bar> \<le> int d"
proof -
  have "int n = int (n div d * d) + int (n mod d)" by (metis div_mult_mod_eq of_nat_add)
  moreover have "n mod d < d" using assms by simp
  ultimately show ?thesis by (auto simp: round_half_even_def algebra_simps)
qed

lemma excess_bits_small: "n < 2 ^ 53 \<Longrightarrow> excess_bits n = 0"
  by (simp add: excess_bits.simps)

lemma float64_small: "n < 2 ^ 53 \<Longrightarrow> float64_of_nat n = n"
  by (simp add: float64_of_nat_def excess_bits_small round_half_even_def)

lemma unit_of_range: "u < length byte_units \<Longrightarrow> unit_of f u < length byte_units"
  by (induction f u rule: unit_of.induct) (subst unit_of.simps, auto)

text \<open>
  The size \<open>report\<close> prints for less than 9 PB is off by at most half of its last digit: it is the number of
  bytes below 1024, and above it a number of tenths of one of the units, rounded to the nearest.
\<close>

theorem formatBytes_close:
  assumes "0 < n" and "n < 2 ^ 53"
  shows "formatBytes (int n) = nat_digits n @ '' B'' \<or>
    (\<exists>t u. u < length byte_units \<and> formatBytes (int n) = tenths_text t @ '' '' @ byte_units ! u \<and>
       2 * \<bar>10 * int n - int t * 1024 ^ u\<bar> \<le> 1024 ^ u)"
proof (cases "unit_of n 0 = 0")
  case True
  with assms show ?thesis by (simp add: formatBytes_def float64_small itoa_def byte_units_def Let_def)
next
  case False
  let ?u = "unit_of n 0" and ?t = "round_half_even (10 * n) (1024 ^ unit_of n 0)"
  have "?u < length byte_units" by (rule unit_of_range) (simp add: byte_units_def)
  moreover have "formatBytes (int n) = tenths_text ?t @ '' '' @ byte_units ! ?u"
    using assms False by (simp add: formatBytes_def float64_small Let_def)
  moreover have "2 * \<bar>10 * int n - int ?t * 1024 ^ ?u\<bar> \<le> 1024 ^ ?u"
    using round_half_even_close [of "1024 ^ ?u" "10 * n"] by simp
  ultimately show ?thesis by blast
qed

end
