(* ===== verification/XF_Host.thy ===== *)
theory XF_Host
  imports XF_Config XF_Cli XF_Migrate XF_Output
begin

text \<open>
  What the commands ask of the machine: the configuration (\<open>loadConfig\<close>), the database file, the store
  (\<open>openService\<close>, \<open>openReadOnlyService\<close>), the backup directory, the service manager and the process lock. The answers
  of the operating system, of \<open>net/url\<close> and of the programs started are the fields of the record \<open>Host\<close>; every
  branch on them is the code's.
\<close>

section \<open>The machine\<close>

text \<open>\<open>os.Stat\<close> of a path, and what a program that ran to its end printed.\<close>

datatype stat = Missing | Directory | RegularFile | StatFailed error

record Ran =
  ran_ok :: bool
  ran_output :: string

text \<open>What \<open>pgconn.ParseConfig\<close> reads from a DSN, and how a run of \<open>pg_dump\<close> ends.\<close>

record PgConfig =
  pg_host :: string
  pg_port :: nat
  pg_user :: string
  pg_database :: string
  pg_password :: string
  pg_tls :: bool

datatype pg_dump = Dumped | PgDumpNotFound | PgDumpFailed error string

record Host =
  h_machine :: Machine
  h_frac :: fraction
  h_clock :: int
  h_stat :: "string \<Rightarrow> stat"
  h_open_read :: "string \<Rightarrow> error option"
  h_close_read :: "string \<Rightarrow> error option"
  h_open_write :: "string \<Rightarrow> error option"
  h_close_write :: "string \<Rightarrow> error option"
  h_url_scheme :: "string \<Rightarrow> string option"
  h_url_read_only :: "string \<Rightarrow> string"
  h_file_url :: "string \<Rightarrow> string \<Rightarrow> string"
  h_abs :: "string \<Rightarrow> string option"
  h_redact_url :: "string \<Rightarrow> string option"
  h_open_driver :: "string \<Rightarrow> error option"
  h_columns :: columns
  h_mkdir :: "error option"
  h_temp_create :: "error option"
  h_temp_close :: "error option"
  h_temp_remove :: "error option"
  h_systemctl :: bool
  h_is_enabled :: Ran
  h_is_active :: Ran
  h_lock :: "error option"
  h_environ :: "string list"
  h_dsn_params :: "string \<Rightarrow> string \<Rightarrow> string option"
  h_parse_dsn :: "string \<Rightarrow> error + PgConfig"
  h_url_query :: "string \<Rightarrow> (string \<Rightarrow> string) option"
  h_pg_dump :: "string list \<Rightarrow> string \<Rightarrow> pg_dump"
  h_polls :: "int list"
  h_join :: "string \<Rightarrow> string \<Rightarrow> string"
  h_version :: string
  h_commit :: string
  h_build_time :: string

text \<open>\<open>time.Now()\<close> in nanoseconds, and in seconds.\<close>

definition h_now :: "Host \<Rightarrow> int" where
  "h_now h = h_clock h div 1000000000"

section \<open>Connection strings without their password\<close>

text \<open>
  The regular expression of \<open>RedactDSN\<close>: the word (its letters in any case, \<open>s\<close> also as U+017F), an equals sign with white
  space around it, and a quoted value or a run of other characters.
\<close>

definition re_space :: "char \<Rightarrow> bool" where
  "re_space c \<longleftrightarrow> c = CHR 9 \<or> c = CHR 10 \<or> c = CHR 12 \<or> c = CHR 13 \<or> c = CHR 32"

fun eat :: "string \<Rightarrow> string \<Rightarrow> string option" where
  "eat [] s = Some s"
| "eat (p # ps) [] = None"
| "eat (p # ps) (c # cs) =
    (if lower_char c = p then eat ps cs
     else if p = CHR ''s'' \<and> c = CHR 0xC5 \<and> take 1 cs = [CHR 0xBF] then eat ps (drop 1 cs)
     else None)"

definition value_rest :: "string \<Rightarrow> string option" where
  "value_rest s =
    (case s of
       [] \<Rightarrow> None
     | c # cs \<Rightarrow>
         if (c = CHR 39 \<or> c = CHR 34) \<and> c \<in> set cs then Some (tl (dropWhile (\<lambda>x. x \<noteq> c) cs))
         else if re_space c then None
         else Some (dropWhile (\<lambda>x. \<not> re_space x) s))"

text \<open>The text kept and the text after the match.\<close>

definition password_match :: "string \<Rightarrow> (string \<times> string) option" where
  "password_match s =
    (case eat ''password'' s of
       None \<Rightarrow> None
     | Some s1 \<Rightarrow>
         (case dropWhile re_space s1 of
            [] \<Rightarrow> None
          | c # s2 \<Rightarrow>
              if c \<noteq> CHR ''='' then None
              else let s3 = dropWhile re_space s2
                in map_option (\<lambda>rest. (take (length s - length s3) s, rest)) (value_rest s3)))"

fun redact_from :: "nat \<Rightarrow> string \<Rightarrow> string" where
  "redact_from skip [] = []"
| "redact_from (Suc skip) (c # cs) = redact_from skip cs"
| "redact_from 0 (c # cs) =
    (case password_match (c # cs) of
       None \<Rightarrow> c # redact_from 0 cs
     | Some (kept, rest) \<Rightarrow> kept @ ''REDACTED'' @ redact_from (length cs - length rest) cs)"

definition RedactDSN :: "Host \<Rightarrow> string \<Rightarrow> string" where
  "RedactDSN h dsn =
    (let s = trim_space dsn in
     if s = [] then []
     else case h_redact_url h s of Some u \<Rightarrow> u | None \<Rightarrow> redact_from 0 s)"

definition DatabaseLabel :: "Host \<Rightarrow> Config \<Rightarrow> string" where
  "DatabaseLabel h c = (if ResolvedBackend c = BackendPostgres then RedactDSN h (cf_database_dsn c) else cf_database_path c)"

section \<open>The configuration of a command\<close>

definition loadConfig :: "Host \<Rightarrow> commonOptions \<Rightarrow> error + Config" where
  "loadConfig h opts =
    bind_result (Load (h_frac h) (h_machine h) (co_config_path opts)) (\<lambda>cfg.
    validated (if trim_space (co_database_path opts) \<noteq> []
      then cfg\<lparr>cf_database_path := trim_space (co_database_path opts), cf_database_backend := BackendSQLite\<rparr> else cfg))"

definition effectiveConfigPath :: "commonOptions \<Rightarrow> string" where
  "effectiveConfigPath opts =
    (if trim_space (co_config_path opts) \<noteq> [] then trim_space (co_config_path opts) else DefaultPath)"

section \<open>The database file\<close>

text \<open>Readable and writable, or readable with the error of writing.\<close>

datatype databaseFileAccess = Writable | ReadOnly error

definition checkDatabaseFile :: "Host \<Rightarrow> string \<Rightarrow> error + databaseFileAccess" where
  "checkDatabaseFile h path =
    (case h_stat h path of
       Missing \<Rightarrow> Inl (ErrWrap ''database file: '' (ErrText ''no such file or directory'') [])
     | StatFailed e \<Rightarrow> Inl (ErrWrap ''database file: '' e [])
     | Directory \<Rightarrow> Inl (ErrText (''database file: '' @ path @ '' is a directory''))
     | RegularFile \<Rightarrow>
         (case h_open_read h path of
            Some e \<Rightarrow> Inl (ErrWrap ''database file is not readable: '' e [])
          | None \<Rightarrow>
              (case h_close_read h path of
                 Some e \<Rightarrow> Inl (ErrWrap ''database file read check: '' e [])
               | None \<Rightarrow>
                   (case h_open_write h path of
                      Some e \<Rightarrow> Inr (ReadOnly e)
                    | None \<Rightarrow>
                        (case h_close_write h path of
                           Some e \<Rightarrow> Inl (ErrWrap ''database file write check: '' e [])
                         | None \<Rightarrow> Inr Writable)))))"

definition requireWritableDatabaseFile :: "Host \<Rightarrow> string \<Rightarrow> error option" where
  "requireWritableDatabaseFile h path =
    (if path = '':memory:'' \<or> has_prefix ''file:'' path then None
     else case checkDatabaseFile h path of
         Inl e \<Rightarrow> Some e
       | Inr (ReadOnly e) \<Rightarrow> Some (ErrWrap ''database file is not writable; this command requires write access: '' e [])
       | Inr Writable \<Rightarrow> None)"

definition requireWritableDatabase :: "Host \<Rightarrow> Config \<Rightarrow> error option" where
  "requireWritableDatabase h cfg =
    (if ResolvedBackend cfg = BackendPostgres then None else requireWritableDatabaseFile h (cf_database_path cfg))"

section \<open>The store\<close>

definition shouldStatPath :: "Host \<Rightarrow> string \<Rightarrow> bool" where
  "shouldStatPath h path = (if path = '':memory:'' then False else h_url_scheme h path \<noteq> Some ''file'')"

text \<open>
  The name a read-only SQLite database is opened under. \<open>h_url_read_only\<close> sets \<open>mode=ro\<close> in the query of a \<open>file:\<close> URL;
  \<open>h_file_url\<close> prints the \<open>file:\<close> URL of a path with a query; \<open>filepath.Abs\<close> may fail.
\<close>

definition readOnlyDSN :: "Host \<Rightarrow> string \<Rightarrow> string" where
  "readOnlyDSN h path =
    (if path = '':memory:'' then path
     else if h_url_scheme h path = Some ''file'' then h_url_read_only h path
     else h_file_url h
       (if has_prefix ''/'' path then path else case h_abs h path of Some p \<Rightarrow> p | None \<Rightarrow> path) ''mode=ro'')"

text \<open>
  A store is the name given to the driver and the parameters its connections start with (\<open>PRAGMA busy_timeout\<close> on SQLite);
  a connection string has parameters of its own (\<open>h_dsn_params\<close>).
\<close>

record Store =
  st_name :: string
  st_params :: "string \<Rightarrow> string option"

definition milliseconds :: "int \<Rightarrow> string" where
  "milliseconds t = itoa (go_div t 1000000)"

definition runtime_params :: "Host \<Rightarrow> string \<Rightarrow> int \<Rightarrow> bool \<Rightarrow> string \<Rightarrow> string option" where
  "runtime_params h dsn busyTimeout readOnly =
    (let timeout = (h_dsn_params h dsn)(''lock_timeout'' \<mapsto> milliseconds busyTimeout);
         mode = (if readOnly then timeout(''default_transaction_read_only'' \<mapsto> ''on'') else timeout)
     in if mode ''application_name'' = None \<or> mode ''application_name'' = Some []
        then mode(''application_name'' \<mapsto> ''xui-factor'') else mode)"

text \<open>\<open>open\<close> and \<open>openPostgres\<close>: the database is opened with the driver of its backend.\<close>

definition opened :: "driver \<Rightarrow> Store \<Rightarrow> Store tx" where
  "opened driver st w = (Inr st, w\<lparr>w_driver := driver, w_aborted := False\<rparr>)"

definition driver_call :: "error option \<Rightarrow> unit tx" where
  "driver_call r = (case r of None \<Rightarrow> return_tx () | Some e \<Rightarrow> fail_tx (ErrWrap ''open database: '' e []))"

definition stat_error :: "stat \<Rightarrow> error option" where
  "stat_error s = (case s of Missing \<Rightarrow> Some (ErrText ''no such file or directory'') | StatFailed e \<Rightarrow> Some e | _ \<Rightarrow> None)"

definition open_sqlite :: "Host \<Rightarrow> string \<Rightarrow> int \<Rightarrow> bool \<Rightarrow> Store tx" where
  "open_sqlite h path busyTimeout readOnly =
    (if trim_space path = [] then fail_tx (ErrText ''database path is required'')
     else if busyTimeout \<le> 0 then fail_tx (ErrText ''busy timeout must be positive'')
     else
       bind_tx (driver_call (if shouldStatPath h path then stat_error (h_stat h path) else None)) (\<lambda>_.
       let openPath = (if readOnly then readOnlyDSN h path else path) in
       bind_tx (driver_call (h_open_driver h openPath)) (\<lambda>_.
       bind_tx (conn_call (wrapDatabaseError ''open database'')) (\<lambda>_.
       bind_tx (conn_call (wrapDatabaseError ''open database'')) (\<lambda>_.
       opened DriverSQLite \<lparr>st_name = openPath, st_params = [''busy_timeout'' \<mapsto> milliseconds busyTimeout]\<rparr>)))))"

definition openPostgres :: "Host \<Rightarrow> string \<Rightarrow> int \<Rightarrow> bool \<Rightarrow> Store tx" where
  "openPostgres h dsn busyTimeout readOnly =
    (if trim_space dsn = [] then fail_tx (ErrText ''database dsn is required'')
     else if busyTimeout \<le> 0 then fail_tx (ErrText ''busy timeout must be positive'')
     else
       bind_tx (driver_call (h_open_driver h dsn)) (\<lambda>_.
       bind_tx (conn_call (wrapDatabaseError ''open database'')) (\<lambda>_.
       opened DriverPostgres \<lparr>st_name = dsn, st_params = runtime_params h dsn busyTimeout readOnly\<rparr>)))"

definition openConfiguredStore :: "Host \<Rightarrow> Config \<Rightarrow> bool \<Rightarrow> Store tx" where
  "openConfiguredStore h cfg readOnly =
    (if ResolvedBackend cfg = BackendPostgres
     then openPostgres h (cf_database_dsn cfg) (cf_busy_timeout cfg) readOnly
     else open_sqlite h (cf_database_path cfg) (cf_busy_timeout cfg) readOnly)"

text \<open>
  A reader's connections are read-only, whatever the connection string asks for. A timeout below a millisecond, which the
  configuration accepts as positive, is sent as 0: PostgreSQL then waits for a lock for ever.
\<close>

lemma reader_params: "runtime_params h dsn t True ''default_transaction_read_only'' = Some ''on''"
  by (simp add: runtime_params_def Let_def)

lemma short_timeout_waits_for_ever:
  assumes "0 < t" and "t < 1000000"
  shows "runtime_params h dsn t readOnly ''lock_timeout'' = Some ''0''"
proof -
  have "milliseconds t = ''0''"
    using assms by (simp add: milliseconds_def go_div_nonneg div_pos_pos_trivial itoa_def nat_digits.simps digit_char_def char_of_def bit_0)
  then show ?thesis by (simp add: runtime_params_def Let_def)
qed

definition openService :: "Host \<Rightarrow> commonOptions \<Rightarrow> Config tx" where
  "openService h opts =
    from_result (loadConfig h opts) (\<lambda>cfg.
    case requireWritableDatabase h cfg of
      Some e \<Rightarrow> fail_tx e
    | None \<Rightarrow>
        bind_tx (openConfiguredStore h cfg False) (\<lambda>_.
        bind_tx (EnsureReady (h_columns h) (h_now h)) (\<lambda>_.
        return_tx cfg)))"

definition openReadOnlyService :: "Host \<Rightarrow> commonOptions \<Rightarrow> Config tx" where
  "openReadOnlyService h opts =
    from_result (loadConfig h opts) (\<lambda>cfg.
    bind_tx (openConfiguredStore h cfg True) (\<lambda>_.
    bind_tx (ValidateRequiredSchema (h_columns h)) (\<lambda>_.
    return_tx cfg)))"

section \<open>The backup directory and the service\<close>

definition validateBackupDir :: "Host \<Rightarrow> string \<Rightarrow> error option" where
  "validateBackupDir h path =
    (if trim_space path = [] then Some (ErrText ''backup_dir is required'')
     else case h_mkdir h of
         Some e \<Rightarrow> Some (ErrWrap ''backup_dir: '' e [])
       | None \<Rightarrow>
           (case h_temp_create h of
              Some e \<Rightarrow> Some (ErrWrap ''backup_dir is not writable: '' e [])
            | None \<Rightarrow>
                (case h_temp_close h of
                   Some e \<Rightarrow> Some (ErrWrap ''backup_dir check: '' e [])
                 | None \<Rightarrow> map_option (\<lambda>e. ErrWrap ''backup_dir check: '' e []) (h_temp_remove h))))"

record serviceState =
  sv_installed :: string
  sv_enabled :: string
  sv_active :: string

definition serviceInstalledFromUnitFile :: "Host \<Rightarrow> string" where
  "serviceInstalledFromUnitFile h =
    (case h_stat h ''/etc/systemd/system/xui-factor.service'' of
       Missing \<Rightarrow> ''no'' | StatFailed e \<Rightarrow> ''unknown'' | _ \<Rightarrow> ''yes'')"

text \<open>\<open>serviceEnabledState\<close> and \<open>serviceActiveState\<close> differ in the words that mean no.\<close>

definition state_answer :: "string list \<Rightarrow> Ran \<Rightarrow> string" where
  "state_answer negative answer =
    (let text = trim_space (ran_output answer) in
     if ran_ok answer then ''yes''
     else if text \<in> set negative then ''no''
     else if text = [] then ''unknown''
     else if str_contains text ''not-found'' \<or> str_contains text ''not found'' then ''no''
     else ''unknown'')"

definition serviceEnabledState :: "Host \<Rightarrow> string" where
  "serviceEnabledState h = state_answer [''disabled'', ''indirect'', ''static'', ''masked''] (h_is_enabled h)"

definition serviceActiveState :: "Host \<Rightarrow> string" where
  "serviceActiveState h =
    state_answer [''inactive'', ''failed'', ''deactivating'', ''activating'', ''reloading''] (h_is_active h)"

definition systemdServiceState :: "Host \<Rightarrow> serviceState" where
  "systemdServiceState h =
    (let installed = serviceInstalledFromUnitFile h in
     if \<not> h_systemctl h \<or> stat_error (h_stat h ''/run/systemd/system'') \<noteq> None
     then \<lparr>sv_installed = installed, sv_enabled = ''unknown'', sv_active = ''unknown''\<rparr>
     else
       \<lparr>sv_installed = (if installed \<noteq> ''yes'' \<and> (serviceEnabledState h = ''yes'' \<or> serviceActiveState h = ''yes'')
          then ''yes'' else installed),
        sv_enabled = serviceEnabledState h, sv_active = serviceActiveState h\<rparr>)"

end
