(* ===== verification/XF_Backup.thy ===== *)
theory XF_Backup
  imports XF_Host
begin

text \<open>
  \<open>store/backup.go\<close>: the choice of a file that does not exist, and for PostgreSQL the environment \<open>pg_dump\<close> runs in, which is
  made from the connection string so that the password stays out of the process list.
\<close>

section \<open>An unused name\<close>

definition backup_timestamp :: "int \<Rightarrow> string" where
  "backup_timestamp unix =
    (case civil_date (unix div 86400) of (y, m, d) \<Rightarrow>
       let s = unix mod 86400 in
       year_text y @ zero_pad 2 m @ zero_pad 2 d @ ''T'' @
       zero_pad 2 (s div 3600) @ zero_pad 2 (s div 60 mod 60) @ zero_pad 2 (s mod 60) @ ''Z'')"

definition backup_name :: "string \<Rightarrow> string \<Rightarrow> nat \<Rightarrow> string" where
  "backup_name timestamp extension i =
    ''x-ui-'' @ timestamp @ (if 0 < i then ''-'' @ zero_pad 3 (int i) else []) @ extension"

text \<open>The loop of \<open>availableBackupPath\<close> over the numbers still to try.\<close>

fun first_available :: "(string \<Rightarrow> stat) \<Rightarrow> (nat \<Rightarrow> string) \<Rightarrow> nat list \<Rightarrow> error + string option" where
  "first_available stat_of path [] = Inr None"
| "first_available stat_of path (i # is) =
    (case stat_of (path i) of
       Missing \<Rightarrow> Inr (Some (path i))
     | StatFailed e \<Rightarrow> Inl (ErrWrap ''check backup path: '' e [])
     | _ \<Rightarrow> first_available stat_of path is)"

definition availableBackupPath :: "Host \<Rightarrow> string \<Rightarrow> string \<Rightarrow> error + string" where
  "availableBackupPath h backupDir extension =
    (let timestamp = backup_timestamp (h_now h) in
     bind_result (first_available (h_stat h) (\<lambda>i. h_join h backupDir (backup_name timestamp extension i)) [0..<1000]) (\<lambda>r.
     case r of
       Some path \<Rightarrow> Inr path
     | None \<Rightarrow> Inl (ErrText (''backup path: no unused filename available for timestamp '' @ timestamp))))"

section \<open>Parameters of a connection string\<close>

text \<open>
  The regular expression of \<open>dsnParam\<close>: the key (in any case, at the start or after white space), an equals sign with
  white space around it, and a text in single quotes or a run of other characters. The value after the equals sign:
\<close>

definition value_text :: "string \<Rightarrow> string option" where
  "value_text s =
    (case s of
       [] \<Rightarrow> None
     | c # cs \<Rightarrow>
         if c = CHR 39 \<and> CHR 39 \<in> set cs then Some (c # takeWhile (\<lambda>x. x \<noteq> CHR 39) cs @ [CHR 39])
         else if re_space c then None
         else Some (takeWhile (\<lambda>x. \<not> re_space x) s))"

definition param_here :: "string \<Rightarrow> string \<Rightarrow> string option" where
  "param_here key s =
    (case eat key s of
       None \<Rightarrow> None
     | Some s1 \<Rightarrow>
         (case dropWhile re_space s1 of
            [] \<Rightarrow> None
          | c # s2 \<Rightarrow> if c = CHR ''='' then value_text (dropWhile re_space s2) else None))"

fun param_after_space :: "string \<Rightarrow> string \<Rightarrow> string option" where
  "param_after_space key [] = None"
| "param_after_space key (c # cs) =
    (case (if re_space c then param_here key cs else None) of
       Some v \<Rightarrow> Some v
     | None \<Rightarrow> param_after_space key cs)"

definition dsn_match :: "string \<Rightarrow> string \<Rightarrow> string option" where
  "dsn_match dsn key = (case param_here key dsn of Some v \<Rightarrow> Some v | None \<Rightarrow> param_after_space key dsn)"

text \<open>\<open>strings.Trim(s, "'")\<close>.\<close>

definition trim_quotes :: "string \<Rightarrow> string" where
  "trim_quotes s = rev (dropWhile (\<lambda>c. c = CHR 39) (rev (dropWhile (\<lambda>c. c = CHR 39) s)))"

definition dsnParam :: "Host \<Rightarrow> string \<Rightarrow> string \<Rightarrow> string" where
  "dsnParam h dsn key =
    (case h_url_query h dsn of
       Some query \<Rightarrow> query key
     | None \<Rightarrow> (case dsn_match dsn key of None \<Rightarrow> [] | Some v \<Rightarrow> trim_quotes v))"

section \<open>The dump\<close>

text \<open>Whether an entry of the environment sets a variable of libpq; only ASCII letters have the upper cases P and G.\<close>

definition to_upper :: "string \<Rightarrow> string" where
  "to_upper = map (\<lambda>c. if CHR ''a'' \<le> c \<and> c \<le> CHR ''z'' then char_of (of_char c - 32 :: nat) else c)"

definition libpq_variable :: "string \<Rightarrow> bool" where
  "libpq_variable entry \<longleftrightarrow> has_prefix ''PG'' (to_upper (takeWhile (\<lambda>c. c \<noteq> CHR ''='') entry))"

definition postgresCommandEnv :: "Host \<Rightarrow> string list \<Rightarrow> PgConfig \<Rightarrow> string \<Rightarrow> string list" where
  "postgresCommandEnv h base parsed dsn =
    (let sslmode = dsnParam h dsn ''sslmode''; sslrootcert = dsnParam h dsn ''sslrootcert'' in
     filter (\<lambda>entry. \<not> libpq_variable entry) base @
     [''PGHOST='' @ pg_host parsed, ''PGPORT='' @ itoa (int (pg_port parsed)), ''PGUSER='' @ pg_user parsed,
      ''PGDATABASE='' @ pg_database parsed] @
     (if pg_password parsed \<noteq> [] then [''PGPASSWORD='' @ pg_password parsed] else []) @
     (if sslmode \<noteq> [] then [''PGSSLMODE='' @ sslmode] else if \<not> pg_tls parsed then [''PGSSLMODE=disable''] else []) @
     (if sslrootcert \<noteq> [] then [''PGSSLROOTCERT='' @ sslrootcert] else []))"

definition backupPostgres :: "Host \<Rightarrow> string \<Rightarrow> string \<Rightarrow> string tx" where
  "backupPostgres h dsn backupDir =
    from_result (availableBackupPath h backupDir ''.dump'') (\<lambda>path.
    case h_parse_dsn h dsn of
      Inl e \<Rightarrow> fail_tx (ErrWrap ''create postgres backup: parse dsn: '' e [])
    | Inr parsed \<Rightarrow>
        (case h_pg_dump h (postgresCommandEnv h (h_environ h) parsed dsn) path of
           Dumped \<Rightarrow> return_tx path
         | PgDumpNotFound \<Rightarrow>
             fail_tx (ErrText ''create postgres backup: pg_dump not found; install the postgresql client tools'')
         | PgDumpFailed e output \<Rightarrow>
             fail_tx (ErrText (''create postgres backup: pg_dump failed: '' @
               (if trim_space output = [] then error_text e else trim_space output)))))"

text \<open>\<open>VACUUM INTO\<close> and \<open>pg_dump\<close> write a file and not the database.\<close>

definition Backup :: "Host \<Rightarrow> string \<Rightarrow> string \<Rightarrow> string tx" where
  "Backup h dsn backupDir =
    (if backupDir = [] then fail_tx (ErrText ''backup directory is required'')
     else case h_mkdir h of
         Some e \<Rightarrow> fail_tx (ErrWrap ''create backup directory: '' e [])
       | None \<Rightarrow>
           with_driver (\<lambda>driver.
           if driver = DriverPostgres then backupPostgres h dsn backupDir
           else
             from_result (availableBackupPath h backupDir ''.db'') (\<lambda>path.
             bind_tx (conn_call (wrapDatabaseError ''create sqlite backup'')) (\<lambda>_. return_tx path))))"

section \<open>What a backup does\<close>

lemma keeps_pg_dump [keeps_intro]:
  "keeps k a \<Longrightarrow> keeps k b \<Longrightarrow> (\<And>e s. keeps k (f e s)) \<Longrightarrow>
    keeps k (case r of Dumped \<Rightarrow> a | PgDumpNotFound \<Rightarrow> b | PgDumpFailed e s \<Rightarrow> f e s)"
  by (cases r) simp_all

lemma keeps_Backup [keeps_intro]: "keeps k (Backup h dsn dir)"
  unfolding Backup_def backupPostgres_def by (intro keeps_intro)

definition taken :: "(string \<Rightarrow> stat) \<Rightarrow> string \<Rightarrow> bool" where
  "taken stat_of path \<longleftrightarrow> stat_of path = Directory \<or> stat_of path = RegularFile"

lemma first_available_eq:
  "first_available stat_of path is =
    (case dropWhile (\<lambda>i. taken stat_of (path i)) is of
       [] \<Rightarrow> Inr None
     | i # _ \<Rightarrow> (case stat_of (path i) of StatFailed e \<Rightarrow> Inl (ErrWrap ''check backup path: '' e []) | _ \<Rightarrow> Inr (Some (path i))))"
  by (induction "is") (auto simp: taken_def split: stat.split)

lemma dropWhile_upt:
  "dropWhile p [m..<n] = i # rest \<Longrightarrow> m \<le> i \<and> i < n \<and> \<not> p i \<and> (\<forall>j. m \<le> j \<and> j < i \<longrightarrow> p j)"
proof (induction "n - m" arbitrary: m)
  case (Suc k)
  then have upt: "[m..<n] = m # [Suc m..<n]" and k: "k = n - Suc m" by (simp_all add: upt_conv_Cons)
  show ?case
  proof (cases "p m")
    case True
    with Suc.prems upt Suc.hyps(1) [OF k] have "Suc m \<le> i \<and> i < n \<and> \<not> p i \<and> (\<forall>j. Suc m \<le> j \<and> j < i \<longrightarrow> p j)"
      by simp
    with True show ?thesis by (metis Suc_leD Suc_leI le_neq_implies_less)
  qed (use Suc upt in auto)
qed simp

lemma available_cases:
  fixes h backupDir extension
  defines "path \<equiv> \<lambda>i. h_join h backupDir (backup_name (backup_timestamp (h_now h)) extension i)"
  shows "case availableBackupPath h backupDir extension of
      Inr p \<Rightarrow> \<exists>i<1000. p = path i \<and> h_stat h p = Missing \<and> (\<forall>j<i. taken (h_stat h) (path j))
    | Inl e \<Rightarrow> (\<forall>i<1000. taken (h_stat h) (path i)) \<or> (\<exists>i<1000. \<exists>e0. h_stat h (path i) = StatFailed e0)"
proof -
  have path: "h_join h backupDir (backup_name (backup_timestamp (h_now h)) extension i) = path i" for i
    by (simp add: path_def)
  show ?thesis
  proof (cases "dropWhile (\<lambda>i. taken (h_stat h) (path i)) [0..<1000]")
    case Nil
    then have "\<forall>i<1000. taken (h_stat h) (path i)" by (simp add: dropWhile_eq_Nil_conv)
    then show ?thesis unfolding availableBackupPath_def Let_def first_available_eq path Nil by simp
  next
    case (Cons i rest)
    with dropWhile_upt [OF Cons] show ?thesis
      by (cases "h_stat h (path i)") (auto simp: availableBackupPath_def Let_def first_available_eq path taken_def)
  qed
qed

lemma dump_path: "backupPostgres h dsn dir w = (Inr path, w') \<Longrightarrow> availableBackupPath h dir ''.dump'' = Inr path"
  unfolding backupPostgres_def
  by (cases "availableBackupPath h dir ''.dump''"; cases "h_parse_dsn h dsn")
    (auto simp: from_result_def split: pg_dump.splits)

lemma sqlite_backup_path:
  "from_result (availableBackupPath h dir ''.db'') (\<lambda>path. bind_tx (conn_call wrap) (\<lambda>_. return_tx path)) w = (Inr path, w') \<Longrightarrow>
    availableBackupPath h dir ''.db'' = Inr path"
  by (cases "availableBackupPath h dir ''.db''") (auto simp: from_result_def bind_tx_def split: prod.splits sum.splits)

lemma Backup_path:
  assumes "Backup h dsn dir w = (Inr path, w')"
  shows "\<exists>extension. availableBackupPath h dir extension = Inr path"
proof (cases "w_driver w = DriverPostgres")
  case True
  with assms have "backupPostgres h dsn dir w = (Inr path, w')"
    by (auto simp: Backup_def with_driver_def split: if_splits option.splits)
  then show ?thesis using dump_path by blast
next
  case False
  with assms have "from_result (availableBackupPath h dir ''.db'') (\<lambda>path.
      bind_tx (conn_call (wrapDatabaseError ''create sqlite backup'')) (\<lambda>_. return_tx path)) w = (Inr path, w')"
    by (auto simp: Backup_def with_driver_def split: if_splits option.splits)
  then show ?thesis using sqlite_backup_path by blast
qed

text \<open>
  C20. A backup overwrites nothing: the file it writes did not exist, and the database is left as it is. The search for a
  name ends after at most 1000 of them with the first that is unused; it fails only when all 1000 are taken or the file
  system does not answer.
\<close>

theorem backup_overwrites_nothing:
  "(case Backup h dsn dir w of
      (Inr path, w') \<Rightarrow> h_stat h path = Missing \<and> w_db w' = w_db w | (Inl e, w') \<Rightarrow> w_db w' = w_db w) \<and>
   (case availableBackupPath h dir extension of
      Inr path \<Rightarrow> \<exists>i<1000. path = h_join h dir (backup_name (backup_timestamp (h_now h)) extension i) \<and>
        h_stat h path = Missing \<and>
        list_all (\<lambda>j. taken (h_stat h) (h_join h dir (backup_name (backup_timestamp (h_now h)) extension j))) [0..<i]
    | Inl e \<Rightarrow> list_all (\<lambda>j. taken (h_stat h) (h_join h dir (backup_name (backup_timestamp (h_now h)) extension j))) [0..<1000] \<or>
        (\<exists>i<1000. \<exists>e0. h_stat h (h_join h dir (backup_name (backup_timestamp (h_now h)) extension i)) = StatFailed e0))"
proof
  obtain r w' where run: "Backup h dsn dir w = (r, w')" by fastforce
  then have "w_db w' = w_db w" by (rule keepsD [OF keeps_Backup, where k = "\<lambda>d. d"])
  moreover have "h_stat h path = Missing" if "r = Inr path" for path
  proof -
    have "Backup h dsn dir w = (Inr path, w')" using run that by simp
    then obtain ext where "availableBackupPath h dir ext = Inr path" using Backup_path by blast
    with available_cases [of h dir ext] show ?thesis by auto
  qed
  ultimately show "case Backup h dsn dir w of
      (Inr path, w') \<Rightarrow> h_stat h path = Missing \<and> w_db w' = w_db w | (Inl e, w') \<Rightarrow> w_db w' = w_db w"
    by (simp add: run split: sum.split)
qed (use available_cases [of h dir extension] in \<open>simp add: list_all_iff Ball_def split: sum.splits\<close>)

section \<open>What the connection string gives away\<close>

text \<open>
  \<open>dsnParam\<close> finds a parameter inside a quoted password: the dump then runs with the level of TLS that the password spells.
\<close>

definition quoted_dsn :: string where
  "quoted_dsn = ''host=db password='' @ [CHR 39] @ ''a sslmode=disable'' @ [CHR 39] @ '' sslmode=verify-full''"

lemma password_sets_sslmode:
  assumes "h_url_query h quoted_dsn = None"
  shows "dsnParam h quoted_dsn ''sslmode'' = ''disable''"
proof -
  have "dsn_match quoted_dsn ''sslmode'' = Some (''disable'' @ [CHR 39])" by code_simp
  then show ?thesis using assms by (simp add: dsnParam_def trim_quotes_def)
qed

text \<open>\<open>RedactDSN\<close> stops at an escaped quote: the rest of the password is printed by \<open>status\<close>, \<open>doctor\<close> and the daemon.\<close>

definition escaped_dsn :: string where
  "escaped_dsn = ''host=db password='' @ [CHR 39] @ ''one'' @ [CHR 92, CHR 39] @ ''two'' @ [CHR 39]"

lemma escaped_password_is_shown:
  assumes "h_redact_url h escaped_dsn = None"
  shows "RedactDSN h escaped_dsn = ''host=db password=REDACTEDtwo'' @ [CHR 39]"
proof -
  have "trim_space escaped_dsn = escaped_dsn" by code_simp
  moreover have "redact_from 0 escaped_dsn = ''host=db password=REDACTEDtwo'' @ [CHR 39]" by code_simp
  ultimately show ?thesis using assms by (simp add: RedactDSN_def Let_def escaped_dsn_def)
qed

end
