(* ===== verification/XF_Commands.thy ===== *)
theory XF_Commands
  imports XF_Backup
begin

text \<open>
  The commands of \<open>cli/cli.go\<close> that change rules and policies or maintain the database: parse, open the service, call the
  engine, print. A command maps the database to what it leaves, its exit status and the text of its two streams.
\<close>

section \<open>Outcomes\<close>

record Outcome =
  oc_code :: int
  oc_out :: string
  oc_err :: string

type_synonym cli_run = "World \<Rightarrow> Outcome \<times> World"

definition printError :: "error \<Rightarrow> string" where
  "printError e = line (''error: '' @ error_text e)"

text \<open>Both branches of \<open>commandErrorCode\<close> are the same.\<close>

definition commandErrorCode :: "error \<Rightarrow> int" where
  "commandErrorCode e = (if errors_is e ErrConflict then 1 else 1)"

definition printed :: "string \<Rightarrow> Outcome" where
  "printed text = \<lparr>oc_code = 0, oc_out = text, oc_err = []\<rparr>"

definition failed :: "int \<Rightarrow> error \<Rightarrow> Outcome" where
  "failed code e = \<lparr>oc_code = code, oc_out = [], oc_err = printError e\<rparr>"

definition with_flags :: "error + 'f \<Rightarrow> ('f \<Rightarrow> cli_run) \<Rightarrow> cli_run" where
  "with_flags r k w = (case r of Inl e \<Rightarrow> (failed 2 e, w) | Inr f \<Rightarrow> k f w)"

text \<open>\<open>openService\<close> and \<open>openReadOnlyService\<close> with their error check.\<close>

definition with_service :: "Config tx \<Rightarrow> (Config \<Rightarrow> cli_run) \<Rightarrow> cli_run" where
  "with_service open_it k w = (case open_it w of (Inl e, w') \<Rightarrow> (failed 1 e, w') | (Inr cfg, w') \<Rightarrow> k cfg w')"

text \<open>A call of the engine: what is printed of its error, and of its result.\<close>

definition answer :: "'a tx \<Rightarrow> (error \<Rightarrow> Outcome) \<Rightarrow> ('a \<Rightarrow> string) \<Rightarrow> cli_run" where
  "answer m refused text w = (case m w of (Inl e, w') \<Rightarrow> (refused e, w') | (Inr x, w') \<Rightarrow> (printed (text x), w'))"

definition coded :: "error \<Rightarrow> Outcome" where
  "coded e = failed (commandErrorCode e) e"

definition printTargetError :: "string \<Rightarrow> string \<Rightarrow> int option \<Rightarrow> string \<Rightarrow> string" where
  "printTargetError message email inboundID hint =
    line (''error: '' @ message) @ out_Section ''Target'' @ out_Field ''email'' (trim_space email) @
    out_Field ''inbound'' (case inboundID of None \<Rightarrow> ''any'' | Some i \<Rightarrow> itoa i) @
    (if hint \<noteq> [] then out_Section ''Hint'' @ out_Field ''run'' hint else [])"

text \<open>A client that is not found is reported with the target looked for.\<close>

definition target_error :: "string \<Rightarrow> int option \<Rightarrow> string \<Rightarrow> error \<Rightarrow> Outcome" where
  "target_error email inboundID hint e =
    (if errors_is e ErrNotFound
     then \<lparr>oc_code = commandErrorCode e, oc_out = [], oc_err = printTargetError ''client not found'' email inboundID hint\<rparr>
     else coded e)"

section \<open>Rules\<close>

definition runEnable :: "Host \<Rightarrow> commonOptions \<Rightarrow> string list \<Rightarrow> cli_run" where
  "runEnable h opts args =
    with_flags (parseEnableArgs args) (\<lambda>f.
    with_service (openService h opts) (\<lambda>cfg.
    answer (Enable \<lparr>er_name = fe_name f, er_email = fe_email f, er_inbound_id = fe_inbound_id f, er_factor = fe_factor f\<rparr> (h_now h))
      (target_error (fe_email f) (fe_inbound_id f) ''factor status'')
      (\<lambda>rule. out_Summary ''enable'' ''rule active'' @ out_Section ''Rule'' @ out_Field ''rule'' (itoa (r_id rule)) @
        out_Field ''email'' (r_email rule) @ out_Field ''inbound'' (itoa (r_inbound_id rule)) @
        out_Field ''factor'' (FormatFactor (r_factor_ppm rule)))))"

definition bulk_fields :: "string \<Rightarrow> BulkResult \<Rightarrow> string" where
  "bulk_fields changed r = out_Section ''Result'' @ out_Field ''matched'' (itoa (br_matched r)) @
     out_Field changed (itoa (br_changed r)) @ out_Field ''adopted'' (itoa (br_adopted r)) @
     out_Field ''skipped'' (itoa (br_skipped_existing r)) @ out_Field ''conflicts'' (itoa (br_conflicts r)) @
     out_Field ''missing'' (itoa (br_missing r))"

definition runEnableAll :: "Host \<Rightarrow> commonOptions \<Rightarrow> string list \<Rightarrow> cli_run" where
  "runEnableAll h opts args =
    with_flags (parseEnableAllArgs args) (\<lambda>f.
    with_service (openService h opts) (\<lambda>cfg.
    answer (EnableAll \<lparr>ea_factor = fa_factor f, ea_inbound_id = fa_inbound_id f, ea_limited_only = fa_limited_only f,
        ea_include_disabled_clients = fa_include_disabled_clients f, ea_once = fa_once f, ea_name = fa_name f\<rparr> (h_now h))
      coded
      (\<lambda>r. out_Summary ''enable-all'' (if br_mode r = ''snapshot'' then ''snapshot scope updated'' else ''persistent scope updated'') @
        out_Section ''Scope'' @ out_Field ''inbound'' (inboundLabel (fa_inbound_id f)) @ out_Field ''factor'' (fa_factor f) @
        out_Field ''mode'' (br_mode r) @
        (if fa_limited_only f then out_Field ''limited only'' (yesNo (fa_limited_only f)) else []) @
        (if fa_include_disabled_clients f then out_Field ''include disabled clients'' (yesNo (fa_include_disabled_clients f)) else []) @
        bulk_fields ''enrolled'' r)))"

definition runLifecycle ::
  "Host \<Rightarrow> commonOptions \<Rightarrow> string list \<Rightarrow> string \<Rightarrow> string \<Rightarrow> (RuleSelector \<Rightarrow> int \<Rightarrow> Rule tx) \<Rightarrow> cli_run" where
  "runLifecycle h opts args name resultState fn =
    with_flags (parseSelectorArgs args) (\<lambda>selector.
    with_service (openService h opts) (\<lambda>cfg.
    answer (fn selector (h_now h)) coded
      (\<lambda>rule. out_Summary name (''rule '' @ resultState) @ out_Section ''Rule'' @ out_Field ''rule'' (itoa (r_id rule)) @
        out_Field ''email'' (r_email rule) @ out_Field ''inbound'' (itoa (r_inbound_id rule)))))"

definition runBulkLifecycle ::
  "Host \<Rightarrow> commonOptions \<Rightarrow> string list \<Rightarrow> string \<Rightarrow> (int option \<Rightarrow> int \<Rightarrow> BulkResult tx) \<Rightarrow> cli_run" where
  "runBulkLifecycle h opts args label fn =
    with_flags (parseBulkSelectorArgs args) (\<lambda>selector.
    with_service (openService h opts) (\<lambda>cfg.
    answer (fn (bs_inbound_id selector) (h_now h)) coded
      (\<lambda>r. out_Summary label ''completed'' @ bulk_fields ''changed'' r)))"

definition runDisable :: "Host \<Rightarrow> commonOptions \<Rightarrow> string list \<Rightarrow> cli_run" where
  "runDisable h opts args = runLifecycle h opts args ''disable'' ''disabled'' Disable"

definition runDisableAll :: "Host \<Rightarrow> commonOptions \<Rightarrow> string list \<Rightarrow> cli_run" where
  "runDisableAll h opts args = runBulkLifecycle h opts args ''disable-all'' DisableAll"

definition runPause :: "Host \<Rightarrow> commonOptions \<Rightarrow> string list \<Rightarrow> cli_run" where
  "runPause h opts args = runLifecycle h opts args ''pause'' ''paused'' Pause"

definition runPauseAll :: "Host \<Rightarrow> commonOptions \<Rightarrow> string list \<Rightarrow> cli_run" where
  "runPauseAll h opts args = runBulkLifecycle h opts args ''pause-all'' PauseAll"

definition runResume :: "Host \<Rightarrow> commonOptions \<Rightarrow> string list \<Rightarrow> cli_run" where
  "runResume h opts args = runLifecycle h opts args ''resume'' ''active'' Resume"

definition runResumeAll :: "Host \<Rightarrow> commonOptions \<Rightarrow> string list \<Rightarrow> cli_run" where
  "runResumeAll h opts args = runBulkLifecycle h opts args ''resume-all'' ResumeAll"

section \<open>Policies\<close>

definition exclude_request :: "excludeFlags \<Rightarrow> PolicyRequest" where
  "exclude_request f = \<lparr>pq_email = fx_email f, pq_inbound_id = fx_inbound_id f, pq_factor = [], pq_note = fx_note f\<rparr>"

definition override_request :: "overrideFlags \<Rightarrow> PolicyRequest" where
  "override_request f =
    \<lparr>pq_email = fo_email f, pq_inbound_id = fo_inbound_id f, pq_factor = fo_factor f, pq_note = fo_note f\<rparr>"

definition target_fields :: "string \<Rightarrow> int \<Rightarrow> int \<Rightarrow> string" where
  "target_fields email inbound traffic = out_Section ''Target'' @ out_Field ''email'' email @
     out_Field ''inbound'' (itoa inbound) @ out_Field ''traffic'' (itoa traffic)"

definition runExclude :: "Host \<Rightarrow> commonOptions \<Rightarrow> string list \<Rightarrow> cli_run" where
  "runExclude h opts args =
    with_flags (parseExcludeArgs args) (\<lambda>f.
    with_service (openService h opts) (\<lambda>cfg.
    answer (Exclude (exclude_request f) (h_now h)) (target_error (fx_email f) (fx_inbound_id f) ''factor status'')
      (\<lambda>p. out_Summary ''exclude'' ''policy enabled'' @ target_fields (ep_email p) (ep_inbound_id p) (ep_traffic_id p) @
        out_Section ''Policy'' @ out_Field ''action'' ''no factor'' @ out_Field ''precedence'' ''exclude'' @
        out_Section ''Result'' @ out_Field ''status'' (state_name (ep_state p)))))"

definition future_traffic :: string where
  "future_traffic = out_Section ''Result'' @ out_Field ''future traffic'' ''follows matching rules and scopes''"

definition runUnexclude :: "Host \<Rightarrow> commonOptions \<Rightarrow> string list \<Rightarrow> cli_run" where
  "runUnexclude h opts args =
    with_flags (parseExcludeSelectorArgs args ''unexclude'') (\<lambda>f.
    with_service (openService h opts) (\<lambda>cfg.
    answer (Unexclude (exclude_request f) (h_now h)) coded
      (\<lambda>p. out_Summary ''unexclude'' ''policy disabled'' @ target_fields (ep_email p) (ep_inbound_id p) (ep_traffic_id p) @
        future_traffic)))"

definition runOverride :: "Host \<Rightarrow> commonOptions \<Rightarrow> string list \<Rightarrow> cli_run" where
  "runOverride h opts args =
    with_flags (parseOverrideArgs args) (\<lambda>f.
    with_service (openService h opts) (\<lambda>cfg.
    answer (Override (override_request f) (h_now h)) (target_error (fo_email f) (fo_inbound_id f) ''factor status'')
      (\<lambda>p. out_Summary ''override'' ''policy enabled'' @ target_fields (op_email p) (op_inbound_id p) (op_traffic_id p) @
        out_Section ''Policy'' @ out_Field ''factor'' (FormatFactor (op_factor_ppm p)) @
        out_Field ''precedence'' ''user override'' @
        out_Section ''Result'' @ out_Field ''status'' (state_name (op_state p)) @
        out_Field ''note'' ''future traffic uses this factor while the override is active'')))"

definition runRemoveOverride :: "Host \<Rightarrow> commonOptions \<Rightarrow> string list \<Rightarrow> cli_run" where
  "runRemoveOverride h opts args =
    with_flags (parseOverrideSelectorArgs args ''remove-override'') (\<lambda>f.
    with_service (openService h opts) (\<lambda>cfg.
    answer (RemoveOverride (override_request f) (h_now h)) coded
      (\<lambda>p. out_Summary ''remove-override'' ''policy disabled'' @ target_fields (op_email p) (op_inbound_id p) (op_traffic_id p) @
        future_traffic)))"

section \<open>Maintenance\<close>

text \<open>A command that takes no arguments.\<close>

definition no_arguments :: "string \<Rightarrow> string list \<Rightarrow> error + unit" where
  "no_arguments name args =
    (case args of [] \<Rightarrow> Inr () | a # _ \<Rightarrow> Inl (ErrText (name @ '': unexpected argument '' @ quoted a)))"

definition runBackup :: "Host \<Rightarrow> commonOptions \<Rightarrow> string list \<Rightarrow> cli_run" where
  "runBackup h opts args =
    with_flags (no_arguments ''backup'' args) (\<lambda>_.
    with_service (openService h opts) (\<lambda>cfg.
    answer (Backup h (cf_database_dsn cfg) (cf_backup_dir cfg)) (failed 1)
      (\<lambda>path. out_Summary ''backup'' ''created'' @ out_Section ''Backup'' @ out_Field ''path'' path @
        out_Section ''Restore'' @ out_Field ''mode'' ''manual only'' @
        (if ResolvedBackend cfg = BackendPostgres
         then out_Field ''hint'' ''stop x-ui and xui-factor.service, then restore with pg_restore''
         else out_Field ''hint'' ''stop x-ui and xui-factor.service before replacing the database''))))"

definition retention_of :: "Config \<Rightarrow> RetentionConfig" where
  "retention_of cfg = \<lparr>rt_missing_client_grace = cf_missing_client_grace cfg,
     rt_disabled_rule_retention = cf_disabled_rule_retention cfg, rt_audit_retention = cf_audit_retention cfg\<rparr>"

definition runCleanup :: "Host \<Rightarrow> commonOptions \<Rightarrow> string list \<Rightarrow> cli_run" where
  "runCleanup h opts args =
    with_flags (parseCleanupArgs (h_frac h) args) (\<lambda>f.
    with_service (openService h opts) (\<lambda>cfg.
    answer (engine_Cleanup (retention_of cfg) (fc_dry_run f) (fc_older_than f) (fc_vacuum f) (h_now h)) (failed 1)
      (\<lambda>r. out_Summary ''cleanup'' ''completed'' @ out_Section ''Result'' @
        out_Field ''missing clients pruned'' (itoa (cr_missing_clients_pruned r)) @
        out_Field ''disabled rules pruned'' (itoa (cr_disabled_rules_pruned r)) @
        out_Field ''disabled scopes pruned'' (itoa (cr_disabled_scopes_pruned r)) @
        out_Field ''inactive excludes pruned'' (itoa (cr_inactive_excludes_pruned r)) @
        out_Field ''inactive overrides pruned'' (itoa (cr_inactive_overrides_pruned r)) @
        out_Field ''audit events pruned'' (itoa (cr_audit_events_pruned r)) @
        out_Field ''vacuum run'' (yesNo (cr_vacuum_run r)))))"

definition runReconcile :: "Host \<Rightarrow> commonOptions \<Rightarrow> string list \<Rightarrow> cli_run" where
  "runReconcile h opts args =
    with_flags (parseReconcileArgs args) (\<lambda>f.
    with_service (openService h opts) (\<lambda>cfg.
    answer (Reconcile f (h_now h)) (failed 1)
      (\<lambda>r. out_Summary ''reconcile'' ''completed'' @ out_Section ''Result'' @ out_Field ''checked'' (itoa (rr_checked r)) @
        out_Field ''reconciled'' (itoa (rr_reconciled r)) @ out_Field ''orphaned'' (itoa (rr_orphaned r)) @
        out_Field ''disabled clients'' (itoa (rr_disabled_clients r)) @ out_Field ''superseded'' (itoa (rr_superseded r)) @
        out_Field ''conflicts'' (itoa (rr_conflicts r)) @ out_Field ''policies repaired'' (itoa (rr_policies_repaired r)))))"

section \<open>Polls\<close>

definition tick_config_of :: "Config \<Rightarrow> TickConfig" where
  "tick_config_of cfg = \<lparr>tc_factor_on_managed_node = cf_factor_on_managed_node cfg, tc_auto_cleanup = cf_auto_cleanup cfg,
     tc_retention = retention_of cfg\<rparr>"

definition out_lines :: "log_line list \<Rightarrow> string" where
  "out_lines log = concat (map (\<lambda>l. case l of Out s \<Rightarrow> line s | Err s \<Rightarrow> []) log)"

definition err_lines :: "log_line list \<Rightarrow> string" where
  "err_lines log = concat (map (\<lambda>l. case l of Out s \<Rightarrow> [] | Err s \<Rightarrow> line s) log)"

definition tick_fields :: "TickResult \<Rightarrow> string" where
  "tick_fields r = out_Summary ''tick'' ''completed'' @ out_Section ''Result'' @
     out_Field ''active clients'' (itoa (tk_active_clients r)) @ out_Field ''reconciled'' (itoa (tk_reconciled r)) @
     out_Field ''enrolled'' (itoa (tk_enrolled r)) @ out_Field ''enroll skipped'' (itoa (tk_enroll_skipped r)) @
     out_Field ''applied'' (itoa (tk_applied r)) @ out_Field ''baselined'' (itoa (tk_baselined r)) @
     out_Field ''rebaselined'' (itoa (tk_rebaselined r)) @ out_Field ''missing'' (itoa (tk_missing r)) @
     out_Field ''deferred'' (itoa (tk_deferred r))"

definition cli_runTick :: "Host \<Rightarrow> commonOptions \<Rightarrow> string list \<Rightarrow> cli_run" where
  "cli_runTick h opts args =
    with_flags (no_arguments ''tick'' args) (\<lambda>_.
    with_service (openService h opts) (\<lambda>cfg w.
    case Tick (tick_config_of cfg) no_hook (h_clock h div 1000000) w of
      (Inl e, w') \<Rightarrow> (failed 1 e, w')
    | (Inr (result, log), w') \<Rightarrow>
        (\<lparr>oc_code = 0, oc_out = out_lines log @ tick_fields result, oc_err = err_lines log\<rparr>, w')))"

text \<open>\<open>time.Duration.String\<close> of a positive duration: nanoseconds below a second with a smaller unit, then h, m and s.\<close>

definition fraction_text :: "nat \<Rightarrow> nat \<Rightarrow> string" where
  "fraction_text digits v =
    (let f = trim_right CHR ''0'' (zero_pad digits (int v)) in if f = [] then [] else CHR ''.'' # f)"

definition duration_text :: "int \<Rightarrow> string" where
  "duration_text d =
    (let n = nat d; s = n div 1000000000; frac = fraction_text 9 (n mod 1000000000) in
     if n = 0 then ''0s''
     else if n < 1000 then nat_digits n @ ''ns''
     else if n < 1000000 then nat_digits (n div 1000) @ fraction_text 3 (n mod 1000) @ [CHR 0xC2, CHR 0xB5, CHR ''s'']
     else if n < 1000000000 then nat_digits (n div 1000000) @ fraction_text 6 (n mod 1000000) @ ''ms''
     else (if 3600 \<le> s then nat_digits (s div 3600) @ ''h'' else []) @
          (if 60 \<le> s then nat_digits (s div 60 mod 60) @ ''m'' else []) @ nat_digits (s mod 60) @ frac @ ''s'')"

text \<open>The loop of \<open>Run\<close> until the signal, over the times of its polls.\<close>

fun polls :: "TickConfig \<Rightarrow> int list \<Rightarrow> string \<Rightarrow> World \<Rightarrow> log_line list \<times> World" where
  "polls cfg [] lastTickError w = ([], w)"
| "polls cfg (clock_ms # clocks) lastTickError w =
    (case runTick cfg no_hook clock_ms lastTickError w of
       ((lastTickError', log), w') \<Rightarrow>
         (case polls cfg clocks lastTickError' w' of (rest, w'') \<Rightarrow> (log @ rest, w'')))"

definition Runner_Run :: "Host \<Rightarrow> Config \<Rightarrow> World \<Rightarrow> log_line list \<times> World" where
  "Runner_Run h cfg w =
    (let interval = (if cf_poll_interval cfg \<le> 0 then 5 * second else cf_poll_interval cfg) in
     case polls (tick_config_of cfg) (map (\<lambda>t. t div 1000000) (h_clock h # h_polls h)) [] w of
       (log, w') \<Rightarrow>
         (Out (''run: started interval='' @ duration_text interval @ '' database='' @ DatabaseLabel h cfg) # log @
          [Out ''run: stopped''], w'))"

definition runDaemon :: "Host \<Rightarrow> commonOptions \<Rightarrow> string list \<Rightarrow> cli_run" where
  "runDaemon h opts args =
    with_flags (no_arguments ''run'' args) (\<lambda>_.
    with_service (openService h opts) (\<lambda>cfg w.
    case h_lock h of
      Some e \<Rightarrow> (failed 1 e, w)
    | None \<Rightarrow> (case Runner_Run h cfg w of
        (log, w') \<Rightarrow> (\<lparr>oc_code = 0, oc_out = out_lines log, oc_err = err_lines log\<rparr>, w'))))"

end
