(* ===== verification/XF_Inspect.thy ===== *)
theory XF_Inspect
  imports XF_Commands
begin

text \<open>
  The commands of \<open>cli/cli.go\<close> that only read: \<open>status\<close> in its three forms, \<open>explain\<close>, \<open>excludes\<close>, \<open>overrides\<close>, \<open>report\<close>,
  \<open>audit\<close> and \<open>doctor\<close>.
\<close>

section \<open>Status\<close>

definition version_title :: "Host \<Rightarrow> string" where
  "version_title h = out_Title (''XuiFactor '' @ h_version h)"

definition empty_status :: string where
  "empty_status = out_Section ''Status'' @ out_Field ''active scopes'' (itoa 0) @ out_Field ''active single-user rules'' (itoa 0) @
     out_Field ''paused rules'' (itoa 0) @ out_Field ''excludes'' (itoa 0) @ out_Field ''overrides'' (itoa 0) @
     out_Field ''effective factored clients'' (itoa 0)"

definition listing :: "string \<Rightarrow> ('a \<Rightarrow> string) \<Rightarrow> 'a list \<Rightarrow> string" where
  "listing title text xs = (if xs = [] then [] else out_Section title @ concat (map text xs))"

definition policies_listing :: "ExcludePolicy list \<Rightarrow> OverridePolicy list \<Rightarrow> string" where
  "policies_listing excludes overrides =
    (if excludes = [] \<and> overrides = [] then []
     else out_Section ''Policies'' @ concat (map out_Exclude excludes) @ concat (map out_Override overrides))"

definition count_if :: "('a \<Rightarrow> bool) \<Rightarrow> 'a list \<Rightarrow> int" where
  "count_if p xs = int (length (filter p xs))"

definition status_text ::
  "Host \<Rightarrow> bool \<Rightarrow> Rule list \<Rightarrow> EffectiveStatusResult \<Rightarrow> ExcludePolicy list \<Rightarrow> OverridePolicy list \<Rightarrow> string" where
  "status_text h includeDisabled rules eff excludes overrides =
    (let scopes = filter (\<lambda>r. r_scope r \<noteq> None) rules; singles = filter (\<lambda>r. r_scope r = None) rules;
         service = systemdServiceState h in
     version_title h @ out_Section ''Status'' @
     out_Field ''active scopes'' (itoa (count_if (\<lambda>r. r_state r = StateActive) scopes)) @
     out_Field ''active single-user rules'' (itoa (count_if (\<lambda>r. r_state r = StateActive) singles)) @
     out_Field ''paused rules'' (itoa (count_if (\<lambda>r. r_state r = StatePaused) rules)) @
     out_Field ''excludes'' (itoa (int (length (es_excludes eff)))) @
     out_Field ''overrides'' (itoa (int (length (es_overrides eff)))) @
     out_Field ''effective factored clients'' (itoa (es_factored eff)) @
     listing ''Scopes'' out_Rule scopes @ listing ''Rules'' out_Rule singles @ policies_listing excludes overrides @
     out_Section ''Service'' @ out_Field ''enabled'' (sv_enabled service) @ out_Field ''active'' (sv_active service) @
     (if includeDisabled \<and> rules = [] then out_Section ''Rules'' @ out_Field ''entries'' (itoa 0) else []))"

definition effective_text :: "Host \<Rightarrow> int option \<Rightarrow> EffectiveStatusResult \<Rightarrow> string" where
  "effective_text h inboundID r =
    version_title h @ out_Section ''Effective Status'' @ out_Field ''scopes'' (itoa (es_scopes r)) @
    out_Field ''excludes'' (itoa (int (length (es_excludes r)))) @ out_Field ''overrides'' (itoa (int (length (es_overrides r)))) @
    out_Field ''effective factored clients'' (itoa (es_factored r)) @ out_Field ''excluded clients'' (itoa (es_excluded r)) @
    out_Field ''overridden clients'' (itoa (es_overridden r)) @
    listing ''Scopes'' out_Rule (filter (\<lambda>rule. r_scope rule \<noteq> None \<and> r_state rule = StateActive \<and>
      statusRuleMatchesInbound rule inboundID) (es_rules r)) @
    policies_listing (es_excludes r) (es_overrides r)"

definition runEffectiveStatus :: "Host \<Rightarrow> commonOptions \<Rightarrow> statusFlags \<Rightarrow> cli_run" where
  "runEffectiveStatus h opts f =
    with_service (openReadOnlyService h opts) (\<lambda>cfg.
    answer (EffectiveStatus (fs_inbound_id f)) (failed 1) (effective_text h (fs_inbound_id f)))"

definition clients_text :: "ClientStatusResult \<Rightarrow> string" where
  "clients_text r =
    out_Title ''Clients'' @
    (if cs_clients r = [] then out_Field ''entries'' (itoa 0)
     else concat (map out_ClientDecision (cs_clients r)) @
       (if cs_truncated r
        then out_Section ''Hint'' @ out_Field ''showing'' (itoa (cs_limit r)) @
          out_Field ''run'' ''factor status --clients --inbound-id ID''
        else []))"

definition runClientStatus :: "Host \<Rightarrow> commonOptions \<Rightarrow> statusFlags \<Rightarrow> cli_run" where
  "runClientStatus h opts f =
    with_service (openReadOnlyService h opts) (\<lambda>cfg.
    answer (ClientStatus (fs_inbound_id f) (if fs_inbound_id f = None then DefaultClientStatusLimit else 0)) (failed 1)
      clients_text)"

definition runStatus :: "Host \<Rightarrow> commonOptions \<Rightarrow> string list \<Rightarrow> cli_run" where
  "runStatus h opts args =
    with_flags (parseStatusArgs args) (\<lambda>f.
    if fs_effective f then runEffectiveStatus h opts f
    else if fs_clients f then runClientStatus h opts f
    else with_service (openReadOnlyService h opts) (\<lambda>cfg.
      answer
        (bind_tx MetadataReady (\<lambda>ready.
         if \<not> ready then return_tx (version_title h @ empty_status)
         else
           bind_tx (Status (fs_include_disabled f)) (\<lambda>rules.
           bind_tx (EffectiveStatus None) (\<lambda>eff.
           bind_tx (Excludes (fs_include_disabled f) None) (\<lambda>excludes.
           bind_tx (Overrides (fs_include_disabled f) None) (\<lambda>overrides.
           return_tx (status_text h (fs_include_disabled f) rules eff excludes overrides)))))))
        (failed 1) (\<lambda>text. text)))"

section \<open>Explain and the lists of policies\<close>

definition explain_text :: "ExplainResult \<Rightarrow> string" where
  "explain_text r =
    (let c = xs_client r; d = xs_decision r in
     out_Summary ''explain'' ''effective decision'' @ out_Section ''Target'' @ out_Field ''email'' (ct_email c) @
     out_Field ''inbound'' (itoa (ct_inbound_id c)) @ out_Field ''traffic_id'' (itoa (ct_id c)) @
     out_Section ''Decision'' @ out_Field ''effective factor'' (decisionFactor d) @
     out_Field ''source'' (sourceLabel (d_source d)) @ out_Field ''mutates traffic'' (yesNo (decisionMutatesTraffic d)) @
     (case xs_baseline r of
        None \<Rightarrow> []
      | Some b \<Rightarrow> out_Section ''Baseline'' @ out_Field ''last up'' (itoa (rc_last_up b)) @
          out_Field ''last down'' (itoa (rc_last_down b))) @
     listing ''Matched'' out_Match (d_matched d) @
     out_Section ''Precedence'' @ out_Field ''order'' policyPrecedenceText @
     out_Section ''Result'' @ out_Field ''status'' (ExplainResultText r))"

definition runExplain :: "Host \<Rightarrow> commonOptions \<Rightarrow> string list \<Rightarrow> cli_run" where
  "runExplain h opts args =
    with_flags (parseExplainArgs args) (\<lambda>f.
    with_service (openReadOnlyService h opts) (\<lambda>cfg.
    answer (Explain f) (target_error (xr_email f) (xr_inbound_id f) ''factor status --clients --inbound-id ID'') explain_text))"

definition policy_list :: "string \<Rightarrow> ('a \<Rightarrow> string) \<Rightarrow> 'a list \<Rightarrow> string" where
  "policy_list title text xs =
    out_Title title @ (if xs = [] then out_Field ''entries'' (itoa 0) else concat (map text xs))"

definition runExcludes :: "Host \<Rightarrow> commonOptions \<Rightarrow> string list \<Rightarrow> cli_run" where
  "runExcludes h opts args =
    with_flags (parseExcludesArgs args) (\<lambda>f.
    with_service (openReadOnlyService h opts) (\<lambda>cfg.
    answer (Excludes (fl_all f) (fl_inbound_id f)) (failed 1) (policy_list ''Excludes'' out_Exclude)))"

definition runOverrides :: "Host \<Rightarrow> commonOptions \<Rightarrow> string list \<Rightarrow> cli_run" where
  "runOverrides h opts args =
    with_flags (parseOverridesArgs args) (\<lambda>f.
    with_service (openReadOnlyService h opts) (\<lambda>cfg.
    answer (Overrides (fl_all f) (fl_inbound_id f)) (failed 1) (policy_list ''Overrides'' out_Override)))"

section \<open>Report and audit\<close>

definition report_text :: "Host \<Rightarrow> Config \<Rightarrow> listFlags \<Rightarrow> ReportResult \<Rightarrow> string" where
  "report_text h cfg f r =
    version_title h @ out_Section ''Report'' @ out_Field ''database'' (DatabaseLabel h cfg) @
    (case fl_inbound_id f of None \<Rightarrow> [] | Some i \<Rightarrow> out_Field ''inbound'' (itoa i)) @
    out_Field ''service'' (sv_active (systemdServiceState h)) @
    (if \<not> rp_metadata_ready r
     then out_Field ''metadata'' ''unavailable'' @ out_Section ''Policies'' @ out_Field ''active scopes'' (itoa 0) @
       out_Field ''active excludes'' (itoa 0) @ out_Field ''active overrides'' (itoa 0) @
       out_Field ''active single-user rules'' (itoa 0)
     else
       out_Field ''metadata'' ''ok'' @ out_Section ''Policies'' @ out_Field ''active scopes'' (itoa (rp_active_scopes r)) @
       out_Field ''active excludes'' (itoa (rp_active_excludes r)) @
       out_Field ''active overrides'' (itoa (rp_active_overrides r)) @
       out_Field ''active single-user rules'' (itoa (rp_active_single_user_rules r)) @
       (if fl_all f
        then out_Field ''paused rules'' (itoa (rp_paused_rules r)) @ out_Field ''inactive rules'' (itoa (rp_disabled_rules r)) @
          out_Field ''inactive excludes'' (itoa (rp_inactive_excludes r)) @
          out_Field ''inactive overrides'' (itoa (rp_inactive_overrides r))
        else []) @
       out_Section ''Effective Clients'' @ out_Field ''factored'' (itoa (rp_factored r)) @
       out_Field ''excluded'' (itoa (rp_excluded r)) @ out_Field ''overridden'' (itoa (rp_overridden r)) @
       out_Field ''no factor'' (itoa (rp_no_factor r)) @
       out_Field ''active rule clients'' (itoa (rp_active_rule_clients r)) @
       out_Section ''Traffic Impact'' @ out_Field ''extra applied'' (formatBytes (ti_extra_bytes (rp_traffic_impact r))) @
       out_Field ''tick applications'' (itoa (ti_applications (rp_traffic_impact r))) @
       out_Field ''last tick'' (case ti_last_applied_at (rp_traffic_impact r) of
           None \<Rightarrow> ''unavailable'' | Some t \<Rightarrow> formatEventTime t))"

definition runReport :: "Host \<Rightarrow> commonOptions \<Rightarrow> string list \<Rightarrow> cli_run" where
  "runReport h opts args =
    with_flags (parseReportArgs args) (\<lambda>f.
    with_service (openReadOnlyService h opts) (\<lambda>cfg.
    answer (Report (fl_inbound_id f) (fl_all f)) (failed 1) (report_text h cfg f)))"

fun join_parts :: "string \<Rightarrow> string list \<Rightarrow> string" where
  "join_parts sep [] = []"
| "join_parts sep [p] = p"
| "join_parts sep (p # ps) = p @ sep @ join_parts sep ps"

definition id_part :: "string \<Rightarrow> int option \<Rightarrow> string list" where
  "id_part name i = (case i of None \<Rightarrow> [] | Some n \<Rightarrow> [name @ ''='' @ itoa n])"

definition text_part :: "string \<Rightarrow> string \<Rightarrow> string list" where
  "text_part name v = (if v = [] then [] else [name @ ''='' @ v])"

definition auditFilterSummary :: "auditFlags \<Rightarrow> string" where
  "auditFilterSummary f = join_parts '' '' (text_part ''event'' (ef_event_type f) @ text_part ''email'' (ef_email f) @
     id_part ''inbound'' (ef_inbound_id f) @ id_part ''rule'' (ef_rule_id f) @ id_part ''policy'' (ef_policy_id f) @
     text_part ''since'' (fu_since_text f) @ [''limit='' @ itoa (ef_limit f)])"

definition no_events :: string where
  "no_events = line ''  no events matched''"

definition audit_text :: "auditFlags \<Rightarrow> Event list \<Rightarrow> string" where
  "audit_text f events =
    out_Title ''Audit'' @ out_Field ''filter'' (auditFilterSummary f) @
    (if events = [] then no_events else out_Section ''Events'' @ concat (map out_Event events))"

definition runAudit :: "Host \<Rightarrow> commonOptions \<Rightarrow> string list \<Rightarrow> cli_run" where
  "runAudit h opts args =
    with_flags (parseAuditArgs (h_frac h) args) (\<lambda>f.
    with_service (openReadOnlyService h opts) (\<lambda>cfg.
    answer
      (bind_tx MetadataReady (\<lambda>ready.
       if \<not> ready then return_tx (out_Title ''Audit'' @ no_events)
       else bind_tx (Audit (EventFilter.truncate f) (fu_since f) (h_clock h)) (\<lambda>events. return_tx (audit_text f events))))
      (failed 1) (\<lambda>text. text)))"

section \<open>Doctor\<close>

text \<open>A check that fails after something has been printed.\<close>

definition check :: "string \<Rightarrow> 'a tx \<Rightarrow> ('a \<Rightarrow> cli_run) \<Rightarrow> cli_run" where
  "check out m k w = (case m w of
     (Inl e, w') \<Rightarrow> (\<lparr>oc_code = 1, oc_out = out, oc_err = printError e\<rparr>, w') | (Inr x, w') \<Rightarrow> k x w')"

definition write_warning :: "error \<Rightarrow> string list" where
  "write_warning e = [''database write unavailable: '' @ error_text e]"

definition write_field :: "string list \<Rightarrow> string" where
  "write_field warnings = out_Field ''database write'' (if warnings = [] then ''ok'' else ''warning'')"

text \<open>The two ways to open the database; what has been printed, and the warnings.\<close>

definition doctor_open :: "Host \<Rightarrow> Config \<Rightarrow> string \<Rightarrow> (string \<Rightarrow> string list \<Rightarrow> cli_run) \<Rightarrow> cli_run" where
  "doctor_open h cfg out k =
    (if ResolvedBackend cfg = BackendPostgres then
       check out (openPostgres h (cf_database_dsn cfg) (cf_busy_timeout cfg) False) (\<lambda>_ w.
       case ProbeWrite w of (r, w') \<Rightarrow>
         let warnings = (case r of Inl e \<Rightarrow> write_warning e | Inr _ \<Rightarrow> []) in
         k (out @ out_Field ''database read'' ''ok'' @ write_field warnings) warnings w')
     else
       check out (from_result (checkDatabaseFile h (cf_database_path cfg)) return_tx) (\<lambda>access.
       let warnings = (case access of Writable \<Rightarrow> [] | ReadOnly e \<Rightarrow> write_warning e);
           out' = out @ out_Field ''database read'' ''ok'' @ write_field warnings in
       check out' (open_sqlite h (cf_database_path cfg) (cf_busy_timeout cfg) (access \<noteq> Writable)) (\<lambda>_. k out' warnings)))"

definition panel_fields :: "Config \<Rightarrow> PanelRole \<Rightarrow> string" where
  "panel_fields cfg role =
    out_Section ''Panel'' @ out_Field ''role'' (PanelRole_Name role) @
    (if 0 < pr_nodes role then out_Field ''nodes'' (itoa (pr_nodes role)) else []) @
    (if pr_managed role
     then out_Field ''factoring'' (if cf_factor_on_managed_node cfg then ''enabled by factor_on_managed_node'' else ''refused'')
     else [])"

definition panel_warning :: "Config \<Rightarrow> PanelRole \<Rightarrow> string list" where
  "panel_warning cfg role =
    (if \<not> pr_managed role then []
     else if cf_factor_on_managed_node cfg
     then [''factor_on_managed_node is set: the master must not run XuiFactor for the same clients, or node traffic is factored twice'']
     else [''this panel is managed by a 3x-ui master; ticks are refused here, run XuiFactor on the master''])"

definition service_fields :: "serviceState \<Rightarrow> string" where
  "service_fields s = out_Section ''Service'' @ out_Field ''installed'' (sv_installed s) @
     out_Field ''enabled'' (sv_enabled s) @ out_Field ''active'' (sv_active s)"

definition doctor_end :: "string \<Rightarrow> string list \<Rightarrow> cli_run" where
  "doctor_end out warnings w = (printed (out @
     (if warnings = [] then []
      else out_Section ''Warnings'' @ concat (map (out_Field ''warning'') warnings)) @ line ''doctor: OK''), w)"

definition doctor_rules :: "serviceState \<Rightarrow> string \<Rightarrow> string list \<Rightarrow> cli_run" where
  "doctor_rules service out warnings =
    check out CountRules (\<lambda>counts.
    let out1 = out @ out_Section ''Rules'' @ out_Field ''active rules'' (itoa (rn_active counts)) @
          out_Field ''paused rules'' (itoa (rn_paused counts)) @ out_Field ''disabled rules'' (itoa (rn_disabled counts));
        warn1 = warnings @ (if (0 < rn_active counts \<or> 0 < rn_paused counts) \<and>
            (sv_active service \<noteq> ''yes'' \<or> sv_enabled service = ''no'')
          then [''active rules exist but xui-factor.service is not running''] else []) in
    check out1 CountActivePersistentScopes (\<lambda>scopes.
    let out2 = out1 @ out_Field ''persistent scopes'' (itoa scopes);
        warn2 = warn1 @ (if 0 < scopes \<and> sv_active service \<noteq> ''yes''
          then [''persistent scopes exist but future client auto-enrollment requires xui-factor.service''] else []) in
    check out2 CountExcludes (\<lambda>excludes.
    check out2 CountOverrides (\<lambda>overrides.
    doctor_end (out2 @ out_Section ''Policies'' @ out_Field ''active excludes'' (itoa (pc_active excludes)) @
      out_Field ''inactive excludes'' (itoa (pc_inactive excludes)) @
      out_Field ''active overrides'' (itoa (pc_active overrides)) @
      out_Field ''inactive overrides'' (itoa (pc_inactive overrides))) warn2))))"

definition doctor_checks :: "Host \<Rightarrow> Config \<Rightarrow> string \<Rightarrow> string list \<Rightarrow> cli_run" where
  "doctor_checks h cfg out warnings =
    check out (ValidateRequiredSchema (h_columns h)) (\<lambda>_.
    let out1 = out @ out_Field ''schema'' ''ok'' in
    check out1 MetadataReady (\<lambda>ready.
    let out2 = out1 @ out_Field ''metadata'' (if ready then ''ok'' else ''warning'');
        warn2 = warnings @ (if ready then [] else [''metadata unavailable: metadata tables are missing'']) in
    check out2 (case validateBackupDir h (cf_backup_dir cfg) of None \<Rightarrow> return_tx () | Some e \<Rightarrow> fail_tx e) (\<lambda>_.
    let out3 = out2 @ out_Field ''backup dir'' (cf_backup_dir cfg) in
    check out3 (PanelRole_tx (h_clock h div 1000000)) (\<lambda>role.
    let service = systemdServiceState h;
        out4 = out3 @ panel_fields cfg role @ service_fields service;
        warn4 = warn2 @ panel_warning cfg role in
    if ready then doctor_rules service out4 warn4
    else doctor_end out4 (warn4 @ [''rules unavailable: metadata tables are missing''])))))"

definition runDoctor :: "Host \<Rightarrow> commonOptions \<Rightarrow> string list \<Rightarrow> cli_run" where
  "runDoctor h opts args =
    with_flags (no_arguments ''doctor'' args) (\<lambda>_.
    with_service (from_result (loadConfig h opts) return_tx) (\<lambda>cfg.
    let out = version_title h @ out_Section ''Doctor'' @ out_Field ''config'' (effectiveConfigPath opts) @
          out_Field ''database'' (DatabaseLabel h cfg) @ out_Field ''backend'' (ResolvedBackend cfg) @
          out_Field ''commit'' (h_commit h) @ out_Field ''built'' (h_build_time h) @ out_Section ''Checks'' in
    doctor_open h cfg out (doctor_checks h cfg)))"

end
