(* ===== verification/XF_Exclusive.thy ===== *)
theory XF_Exclusive
  imports XF_System
begin

text \<open>
  At most one active rule charges a client. \<open>exclusive\<close> says so of the tables; the commands that activate
  a rule or give a rule a client check it first, and keep it.
\<close>

section \<open>The predicate\<close>

definition active_ids :: "Database \<Rightarrow> int set" where
  "active_ids d = rr_id ` {r \<in> set (t_rules d). rr_state r = StateActive}"

text \<open>Every active rule that targets traffic id \<open>t\<close> is \<open>i\<close>.\<close>

definition only :: "int \<Rightarrow> int \<Rightarrow> Database \<Rightarrow> bool" where
  "only i t d \<longleftrightarrow> (\<forall>rc \<in> set (t_rule_clients d). rc_traffic_id rc = t \<longrightarrow> rc_rule_id rc \<in> active_ids d \<longrightarrow> rc_rule_id rc = i)"

definition exclusive :: "Database \<Rightarrow> bool" where
  "exclusive d \<longleftrightarrow> (\<forall>rc \<in> set (t_rule_clients d). rc_rule_id rc \<in> active_ids d \<longrightarrow> only (rc_rule_id rc) (rc_traffic_id rc) d)"

definition guarded :: "Database \<Rightarrow> Database \<Rightarrow> bool" where
  "guarded d d' \<longleftrightarrow> evolves d d' \<and> (schema d \<and> exclusive d \<longrightarrow> exclusive d')"

interpretation guard: stable_relation guarded
proof
  show "guarded d d" for d by (simp add: guarded_def evo.reflexive)
  show "guarded d1 d3" if "guarded d1 d2" "guarded d2 d3" for d1 d2 d3
    using that evo.transitive [of d1 d2 d3] by (auto simp: guarded_def evolves_def)
qed

lemma active_ids_simps [simp]:
  "active_ids (d\<lparr>t_rule_clients := b\<rparr>) = active_ids d" "active_ids (d\<lparr>t_events := g\<rparr>) = active_ids d"
  "active_ids (d\<lparr>t_scopes := c\<rparr>) = active_ids d" "active_ids (d\<lparr>t_seq_events := n\<rparr>) = active_ids d"
  by (simp_all add: active_ids_def)

text \<open>What exclusivity depends on: the states of the rules and the keys of the rule clients.\<close>

definition holding :: "Database \<Rightarrow> (int \<times> rule_state) list \<times> (int \<times> int) list" where
  "holding d = (map (\<lambda>r. (rr_id r, rr_state r)) (t_rules d), map rc_order (t_rule_clients d))"

lemma active_ids_holding: "active_ids d = fst ` {p \<in> set (fst (holding d)). snd p = StateActive}"
  by (force simp: active_ids_def holding_def)

lemma only_holding: "only i t d \<longleftrightarrow> (\<forall>(j, u) \<in> set (snd (holding d)). u = t \<longrightarrow> j \<in> active_ids d \<longrightarrow> j = i)"
  by (auto simp: only_def holding_def rc_order_def)

lemma exclusive_holding: "exclusive d \<longleftrightarrow> (\<forall>(i, t) \<in> set (snd (holding d)). i \<in> active_ids d \<longrightarrow> only i t d)"
  by (auto simp: exclusive_def holding_def rc_order_def)

lemma same_holding:
  assumes "holding d' = holding d"
  shows "active_ids d' = active_ids d" and "only i t d' = only i t d" and "exclusive d' = exclusive d"
proof -
  show a: "active_ids d' = active_ids d" by (simp add: active_ids_holding assms)
  have o: "only i t d' = only i t d" for i t by (simp add: only_holding assms a)
  then show "only i t d' = only i t d" .
  show "exclusive d' = exclusive d" by (simp add: exclusive_holding assms a o)
qed

lemma guard_keeps:
  assumes "evo.moves C m Q" and "keeps holding m"
  shows "guard.moves C m Q"
proof (rule guard.movesI)
  fix w r w'
  assume C: "C (w_db w)" and run: "m w = (r, w')"
  have "exclusive (w_db w') = exclusive (w_db w)" using same_holding(3) keepsD [OF assms(2) run] .
  with evo.movesD [OF assms(1) C run] evo.moves_resultD [OF assms(1) C] run
  show "guarded (w_db w) (w_db w') \<and> (\<forall>x. r = Inr x \<longrightarrow> Q x (w_db w'))" by (simp add: guarded_def)
qed

section \<open>Statements\<close>

lemma keeps_holding_clients:
  "(\<And>rc. p rc \<Longrightarrow> rc_order (f rc) = rc_order rc) \<Longrightarrow> keeps holding (update_rule_clients p f)"
  unfolding update_rule_clients_def by (intro keeps_intro) (auto simp: holding_def intro: map_update_where_keep)

lemma keeps_holding [keeps_intro]:
  "keeps holding (AddEvent r e m now)" "keeps holding (AddEventOnce r' e m now)" "keeps holding (UpdateRuleClientBaseline rc)"
  "keeps holding (MarkRuleClientMissing i t now)" "keeps holding (AdoptRuleClientInbound i t inb now)"
  "keeps holding (RefreshRuleClientBaselinesCount i now)" "keeps holding (CreateScope scope)"
  unfolding UpdateRuleClientBaseline_def MarkRuleClientMissing_def AdoptRuleClientInbound_def RefreshRuleClientBaselinesCount_def
  by (intro keeps_intro keeps_holding_clients; simp add: holding_def rc_order_def)+


section \<open>Activating and creating\<close>

text \<open>Contexts: rule \<open>i\<close> is known and nobody else charges the clients \<open>T\<close>.\<close>

definition reserved :: "int \<Rightarrow> int set \<Rightarrow> Database \<Rightarrow> bool" where
  "reserved i T d \<longleftrightarrow> known {i} d \<and> (\<forall>t \<in> T. only i t d)"

definition vacant :: "int set \<Rightarrow> Database \<Rightarrow> bool" where
  "vacant T d \<longleftrightarrow> known {} d \<and> (\<forall>t \<in> T. \<forall>i. only i t d)"

definition clear :: "int \<Rightarrow> Database \<Rightarrow> bool" where
  "clear i d \<longleftrightarrow> known {} d \<and> (\<forall>rc \<in> set (t_rule_clients d). rc_rule_id rc = i \<longrightarrow> only i (rc_traffic_id rc) d)"

lemma guard_frame:
  assumes evo: "evo.under (known S) m" and same: "keeps holding m"
    and stable: "\<And>d d'. holding d' = holding d \<Longrightarrow> P d' = P d"
  shows "guard.moves (\<lambda>d. known S d \<and> P d) m (\<lambda>_ d. known S d \<and> P d)"
proof (rule guard.movesI)
  fix w r w'
  assume C: "known S (w_db w) \<and> P (w_db w)" and run: "m w = (r, w')"
  have "evolves (w_db w) (w_db w')" using evo.movesD [OF evo _ run] C by blast
  with C have "known S (w_db w')" by (auto simp: known_def evolves_def)
  moreover have "exclusive (w_db w') = exclusive (w_db w)" and "P (w_db w') = P (w_db w)"
    using same_holding(3) stable keepsD [OF same run] by blast+
  ultimately show "guarded (w_db w) (w_db w') \<and> (\<forall>x. r = Inr x \<longrightarrow> known S (w_db w') \<and> P (w_db w'))"
    using C \<open>evolves (w_db w) (w_db w')\<close> by (simp add: guarded_def)
qed

lemma guard_context:
  assumes "\<And>S. evo.under (known S) m" and "keeps holding m"
  shows "guard.moves (reserved i T) m (\<lambda>_. reserved i T)" and "guard.moves (vacant T) m (\<lambda>_. vacant T)"
    and "guard.moves (clear i) m (\<lambda>_. clear i)"
proof -
  note step = guard_frame [OF assms]
  have clear: "clear i = (\<lambda>d. known {} d \<and> (\<forall>(j, t) \<in> set (snd (holding d)). j = i \<longrightarrow> only i t d))"
    by (auto simp: fun_eq_iff clear_def holding_def rc_order_def)
  have all: "(\<forall>t \<in> T. only i t d') = (\<forall>t \<in> T. only i t d)" "(\<forall>t \<in> T. \<forall>i. only i t d') = (\<forall>t \<in> T. \<forall>i. only i t d)"
    "(\<forall>(j, t) \<in> set (snd (holding d')). j = i \<longrightarrow> only i t d') = (\<forall>(j, t) \<in> set (snd (holding d)). j = i \<longrightarrow> only i t d)"
    if "holding d' = holding d" for d d'
    by (simp_all add: same_holding [OF that] that)
  show "guard.moves (reserved i T) m (\<lambda>_. reserved i T)"
    unfolding reserved_def by (rule step) (rule all(1))
  show "guard.moves (vacant T) m (\<lambda>_. vacant T)"
    unfolding vacant_def by (rule step) (rule all(2))
  show "guard.moves (clear i) m (\<lambda>_. clear i)"
    unfolding clear by (rule step) (rule all(3))
qed

lemma guard_update_rule:
  assumes "\<And>r. rr_id (f r) = rr_id r" and "\<And>r. rr_factor_ppm (f r) = rr_factor_ppm r"
    and "\<And>d. C d \<Longrightarrow> exclusive d \<Longrightarrow> exclusive (d\<lparr>t_rules := update_where (\<lambda>r. rr_id r = i) f (t_rules d)\<rparr>)"
  shows "guard.under C (update_rule i f)"
  unfolding update_rule_def
  by (rule guard.moves_exec_tx) (simp add: guarded_def evolves_rules assms)

lemma exclusive_fewer:
  "exclusive d \<Longrightarrow> active_ids d' \<subseteq> active_ids d \<Longrightarrow> t_rule_clients d' = t_rule_clients d \<Longrightarrow> exclusive d'"
  by (auto simp: exclusive_def only_def subset_iff)

lemma guard_set_inactive [moves_intro]:
  "guard.under C (SetRuleDisabled i now)" "guard.under C (SetRulePaused i now)"
  unfolding SetRuleDisabled_def SetRulePaused_def
  by (rule guard_update_rule; (erule exclusive_fewer)?; auto simp: active_ids_def set_update_where)+

lemma exclusive_activate:
  assumes "exclusive d" and "clear i d" and "active_ids d' \<subseteq> insert i (active_ids d)" and "t_rule_clients d' = t_rule_clients d"
  shows "exclusive d'"
  unfolding exclusive_def only_def assms(4)
proof (intro ballI impI)
  fix rc rc'
  assume rc: "rc \<in> set (t_rule_clients d)" "rc_rule_id rc \<in> active_ids d'"
    and rc': "rc' \<in> set (t_rule_clients d)" "rc_traffic_id rc' = rc_traffic_id rc" "rc_rule_id rc' \<in> active_ids d'"
  show "rc_rule_id rc' = rc_rule_id rc"
  proof (cases "rc_rule_id rc = i \<or> rc_rule_id rc' = i")
    case True
    with rc rc' assms(2,3) show ?thesis by (fastforce simp: clear_def only_def)
  next
    case False
    with rc rc' assms(1,3) show ?thesis by (auto simp: exclusive_def only_def)
  qed
qed

lemma guard_set_active: "guard.under (clear i) (SetRuleActive i now)"
  unfolding SetRuleActive_def
  by (rule guard_update_rule) (auto elim!: exclusive_activate simp: active_ids_def set_update_where)

text \<open>A new rule has no clients, so it charges nobody yet.\<close>

lemma guard_create_rule:
  assumes "valid_factor (r_factor_ppm rule)"
  shows "guard.moves (vacant T) (CreateRule rule) (\<lambda>i. reserved i T)"
proof -
  have step: "guarded d d' \<and> reserved i T d'" if "vacant T d" "insert_rule rule d = (i, d')" for d i d'
  proof -
    have evo: "evolves d d'" "known {i} d'"
      using evolves_insert_rule [OF assms, of "{}" d i d'] that by (simp_all add: vacant_def)
    have d': "t_rule_clients d' = t_rule_clients d" "active_ids d' \<subseteq> insert i (active_ids d)" "i = t_seq_rules d + 1"
      using that(2) by (auto simp: insert_rule_def Let_def active_ids_def)
    have new: "rc_rule_id rc \<noteq> i" if "rc \<in> set (t_rule_clients d)" for rc
      using that \<open>vacant T d\<close> d'(3)
      by (force simp: vacant_def known_def schema_def rules_ok_def rule_clients_ok_def valid_rule_client_def numbered_def rule_ids_def)
    have "clear i d" using \<open>vacant T d\<close> new by (auto simp: clear_def vacant_def)
    then have "exclusive d \<Longrightarrow> exclusive d'" using exclusive_activate d' by blast
    moreover have "only i t d'" if "t \<in> T" for t
      using that \<open>vacant T d\<close> d' new by (fastforce simp: only_def vacant_def)
    ultimately show ?thesis using evo by (simp add: guarded_def reserved_def)
  qed
  show ?thesis
    unfolding CreateRule_def insertReturningID_def
    by (intro moves_intro guard.moves_statement guard.moves_ExecContext) (use step in auto)
qed


lemma guard_create_rule_client:
  assumes "rc_rule_id rc = i" and "rc_traffic_id rc \<in> T"
  shows "guard.moves (reserved i T) (CreateRuleClient rc) (\<lambda>_. reserved i T)"
proof -
  let ?rc = "rc\<lparr>rc_rem_up := 0, rc_rem_down := 0, rc_missing_at := None\<rparr>"
  have "guarded d d' \<and> reserved i T d'" if res: "reserved i T d" and ins: "insert_rule_client ?rc d = Inr (x, d')" for d x d'
  proof -
    have evo: "evolves d d'"
      using evo_insert_rule_client [OF _ ins] res assms(1) by (simp add: reserved_def valid_remainder_def FactorScale_def)
    have d': "d' = d\<lparr>t_rule_clients := t_rule_clients d @ [?rc]\<rparr>"
      using ins by (auto simp: insert_rule_client_def split: if_splits)
    then have act: "active_ids d' = active_ids d" by simp
    have only': "only j t d' \<longleftrightarrow> only j t d \<and> (rc_traffic_id rc = t \<longrightarrow> i \<in> active_ids d \<longrightarrow> j = i)" for j t
      using assms(1) by (auto simp: only_def d')
    have "only i (rc_traffic_id rc) d" using res assms(2) by (simp add: reserved_def)
    then have "exclusive d \<Longrightarrow> exclusive d'"
      using assms(1) by (auto simp: exclusive_def act only' d') (auto simp: only_def)
    with evo res only' show ?thesis by (auto simp: guarded_def reserved_def known_def evolves_def)
  qed
  then show ?thesis unfolding CreateRuleClient_def by (intro guard.moves_ExecContext) blast
qed

section \<open>Guards\<close>

lemma sort_key_Nil [simp]: "sort_key f xs = [] \<longleftrightarrow> xs = []"
  by (metis length_0_conv length_sort)

lemma rules_for_traffic_Nil:
  "rules_for_traffic p t d = [] \<longleftrightarrow>
    (\<forall>r \<in> set (t_rules d). \<forall>rc \<in> set (t_rule_clients d). rc_rule_id rc = rr_id r \<longrightarrow> rc_traffic_id rc = t \<longrightarrow> \<not> p r)"
  unfolding rules_for_traffic_def by (auto split: if_splits)

lemma no_active_rule:
  "rules_for_traffic (\<lambda>r. rr_state r = StateActive) t d = [] \<Longrightarrow> known {} d \<Longrightarrow> vacant {t} d"
  by (auto simp: rules_for_traffic_Nil vacant_def only_def active_ids_def)

lemma no_other_active_rule:
  "rules_for_traffic (\<lambda>r. rr_state r = StateActive \<and> rr_id r \<noteq> i) t d = [] \<Longrightarrow> known {i} d \<Longrightarrow> reserved i {t} d"
  by (auto simp: rules_for_traffic_Nil reserved_def only_def active_ids_def)

lemma guard_ActiveRuleForTraffic:
  "guard.moves (known {}) (optional (ActiveRuleForTraffic t)) (\<lambda>r d. r = None \<longrightarrow> vacant {t} d)"
  unfolding ActiveRuleForTraffic_def by (rule guard.moves_optional_row) (auto intro: no_active_rule)

lemma guard_ActiveRuleForTrafficExcept:
  "guard.moves (known {i}) (optional (ActiveRuleForTrafficExcept t i)) (\<lambda>r d. r = None \<longrightarrow> reserved i {t} d)"
  unfolding ActiveRuleForTrafficExcept_def by (rule guard.moves_optional_row) (auto intro: no_other_active_rule)

lemma join_Nil:
  "[(r, g rc). self \<leftarrow> xs, rc \<leftarrow> ys, r \<leftarrow> rs, P self rc r] = [] \<longleftrightarrow>
    (\<forall>self \<in> set xs. \<forall>rc \<in> set ys. \<forall>r \<in> set rs. \<not> P self rc r)"
  by (auto split: if_splits)

lemma no_conflict:
  assumes "\<forall>self \<in> set (t_rule_clients d). \<forall>rc \<in> set (t_rule_clients d). \<forall>r \<in> set (t_rules d).
      \<not> (rc_traffic_id rc = rc_traffic_id self \<and> rr_id r = rc_rule_id rc \<and> rc_rule_id self = i \<and>
         rr_state r = StateActive \<and> rr_id r \<noteq> i)" and "known {} d"
  shows "clear i d"
  unfolding clear_def only_def
proof (intro conjI ballI impI assms(2))
  fix self rc
  assume rcs: "self \<in> set (t_rule_clients d)" "rc_rule_id self = i" "rc \<in> set (t_rule_clients d)"
    "rc_traffic_id rc = rc_traffic_id self" and "rc_rule_id rc \<in> active_ids d"
  then obtain r where "r \<in> set (t_rules d)" "rr_id r = rc_rule_id rc" "rr_state r = StateActive"
    by (auto simp: active_ids_def)
  with rcs assms(1) show "rc_rule_id rc = i" by metis
qed

lemma guard_ActiveConflictForRule:
  "guard.moves (known {}) (optional (ActiveConflictForRule i)) (\<lambda>r d. r = None \<longrightarrow> clear i d)"
  unfolding ActiveConflictForRule_def
  by (rule guard.moves_optional_row)
    (simp only: first_of_eq_None list.map_disc_iff map_is_Nil_conv sort_key_Nil join_Nil, blast intro: no_conflict)

section \<open>Commands\<close>

lemma guard_stable_known [moves_intro]: "guard.stable (known S)"
  by (auto simp: guard.stable_def guarded_def known_def evolves_def)

lemmas guard_readers [moves_intro] = readers_keep [THEN guard.under_reads] rule_readers_keep [THEN guard.under_reads]

lemma guard_transaction: "guard.under (known {}) fn \<Longrightarrow> guard.under C (WithImmediateTx fn)"
proof -
  assume fn: "guard.under (known {}) fn"
  have any: "guard.under (\<lambda>_. True) fn"
    using fn by (auto simp: guard.moves_def known_def guarded_def evolves_def)
  have seqs: "guarded d (d\<lparr>t_seq_rules := t_seq_rules d1, t_seq_excludes := t_seq_excludes d1,
      t_seq_overrides := t_seq_overrides d1, t_seq_events := t_seq_events d1\<rparr>)" if "guarded d d1" for d d1
    using that by (auto simp: guarded_def evolves_def exclusive_def only_def active_ids_def later_def rule_ids_def intro: schema_seqs)
  show ?thesis by (rule guard.under_any [OF guard.under_WithImmediateTx [OF any seqs]])
qed

lemma guard_event:
  "guard.under C (AddEvent r e m now)" "guard.moves (reserved i T) (AddEvent r e m now) (\<lambda>_. reserved i T)"
  "guard.moves (clear i) (AddEvent r e m now) (\<lambda>_. clear i)"
  by (rule guard_keeps guard_context; intro evo_event keeps_holding)+

lemma guard_Enable_body: "valid_factor p \<Longrightarrow> guard.under (known {}) (Enable_body req email p now)"
proof -
  assume p: "valid_factor p"
  have create: "guard.under (vacant {ct_id c}) (bind_tx (CreateRule (new_rule n inb email p now)) (\<lambda>i.
      bind_tx (CreateRuleClient (new_rule_client i c now)) (\<lambda>_.
      bind_tx (AddEvent (Some i) EventRuleEnabled ''rule enabled'' now) (\<lambda>_. GetRule i))))" for c n inb
    by (rule guard.moves_bind [OF guard_create_rule], simp add: p,
        rule guard.moves_bind [OF guard_create_rule_client],
        simp_all add: new_rule_client_def, rule guard.moves_bind [OF guard_event(2)], rule guard_readers)
  show ?thesis
    unfolding Enable_body_def
    by (rule guard.under_bind [OF guard_stable_known], intro moves_intro,
        rule guard.moves_bind [OF guard_ActiveRuleForTraffic])
      (auto simp del: fail_tx_run split: option.split intro: guard.moves_fail guard.moves_conseq [OF create])
qed


lemma guard_refresh:
  "guard.moves (clear i) (RefreshRuleClientBaselinesCount j now) (\<lambda>_. clear i)"
  "guard.moves (clear i) (RefreshRuleClientBaselines j now) (\<lambda>_. clear i)"
proof -
  have "keeps holding (RefreshRuleClientBaselines j now)"
    unfolding RefreshRuleClientBaselines_def by (intro keeps_intro)
  then show "guard.moves (clear i) (RefreshRuleClientBaselinesCount j now) (\<lambda>_. clear i)"
    "guard.moves (clear i) (RefreshRuleClientBaselines j now) (\<lambda>_. clear i)"
    by (intro guard_context evo_refresh stable_known keeps_holding)+
qed

lemma guard_activation:
  "(\<And>x. guard.moves (\<lambda>_. True) (f x) Q) \<Longrightarrow> guard.moves (clear i) (bind_tx (SetRuleActive i now) f) Q"
  by (rule guard.moves_bind [OF guard_set_active])

lemma guard_described: "guard.moves C m Q \<Longrightarrow> guard.moves C (described a m) Q"
  unfolding described_def guard.moves_def attempt_def
  by (fastforce split: prod.splits sum.splits)

lemma guard_Resume_body: "guard.under (known {}) (Resume_body sel email now)"
proof -
  have activate: "guard.under (clear i) (bind_tx (described a (RefreshRuleClientBaselines i now)) (\<lambda>_.
      bind_tx (SetRuleActive i now) (\<lambda>_. bind_tx (AddEvent (Some i) EventRuleResumed msg now) (\<lambda>_. GetRule i))))" for i a msg
    by (rule guard.moves_bind [OF guard_described [OF guard_refresh(2)]], rule guard_activation, intro moves_intro guard_event(1))
  show ?thesis
    unfolding Resume_body_def
    by (rule guard.under_bind [OF guard_stable_known], intro moves_intro,
        rule guard.moves_bind [OF guard_ActiveConflictForRule])
      (auto simp del: fail_tx_run split: option.split prod.split intro: guard.moves_fail guard.moves_conseq [OF activate])
qed

lemma guard_resume_step: "guard.under (known {}) (resume_step now rule result)"
proof -
  have skip: "guard.under C (bind_tx (AddEvent r e m now) (\<lambda>_. return_tx x))" for C r e m and x :: BulkResult
    by (rule guard.moves_bind [OF guard_event(1)], rule guard.under_return)
  have activate: "guard.under (clear (r_id rule)) (bind_tx (RefreshRuleClientBaselinesCount (r_id rule) now) (\<lambda>count.
      if count = 0 \<and> b then return_tx x
      else bind_tx (SetRuleActive (r_id rule) now) (\<lambda>_. bind_tx (AddEvent r e m now) (\<lambda>_. return_tx y))))" for b r e m and x y :: BulkResult
    by (rule guard.moves_bind [OF guard_refresh(1)], rule guard.under_branches(1), rule guard.under_return,
        rule guard_activation, rule skip)
  show ?thesis
    unfolding resume_step_def
    by (rule guard.moves_bind [OF guard_ActiveConflictForRule])
      (auto simp del: return_tx_run split: option.split intro: skip guard.moves_conseq [OF activate])
qed

lemma guard_select:
  "guard.moves (\<lambda>d. vacant (ct_id ` set (fst acc)) d) (snapshot_select c acc) (\<lambda>acc' d. vacant (ct_id ` set (fst acc')) d)"
proof -
  obtain targets result where acc: "acc = (targets, result)" by fastforce
  let ?T = "ct_id ` set targets"
  have rules: "guard.moves (vacant ?T) (RulesForTrafficInStates (ct_id c) [StateActive, StatePaused])
      (\<lambda>rs d. vacant ?T d \<and> (rs = [] \<longrightarrow> vacant (insert (ct_id c) ?T) d))"
    unfolding RulesForTrafficInStates_def
    by (simp, rule guard.moves_query) (auto simp: rules_for_traffic_Nil vacant_def only_def active_ids_def)
  show ?thesis
    unfolding snapshot_select_def acc prod.case fst_conv
    by (rule guard.moves_bind [OF rules])
      (auto simp del: return_tx_run fail_tx_run split: list.split intro!: guard.moves_return guard.moves_fail)
qed

lemma guard_create_scope_rule:
  assumes p: "valid_factor p"
  shows "guard.moves (vacant T) (create_scope_rule req p once msg now) (\<lambda>i. reserved i T)"
proof -
  have scope: "guard.moves (reserved i T) (CreateScope (request_scope req i once now)) (\<lambda>_. reserved i T)" for i
  proof -
    have "(\<forall>t \<in> T. only i t d') = (\<forall>t \<in> T. only i t d)" if "holding d' = holding d" for d d'
      by (simp add: same_holding [OF that])
    moreover have "evo.under (known {i}) (CreateScope (request_scope req i once now))"
      by (intro evo_member_of_rule) (simp add: request_scope_def)
    ultimately show ?thesis unfolding reserved_def by (intro guard_frame keeps_holding)
  qed
  show ?thesis
    unfolding create_scope_rule_def
    by (rule guard.moves_bind [OF guard_create_rule], simp add: p, rule guard.moves_bind [OF scope],
        rule guard.moves_bind [OF guard_event(2)], rule guard.moves_return)
qed

lemma guard_snapshot:
  assumes p: "valid_factor p"
  shows "guard.under (known {}) (enableAllSnapshot req p clients now result)"
proof -
  have select: "guard.moves (known {}) (for_each clients snapshot_select ([], result)) (\<lambda>acc d. vacant (ct_id ` set (fst acc)) d)"
    using guard.moves_for_each [of clients "\<lambda>acc d. vacant (ct_id ` set (fst acc)) d", OF guard_select, of "([], result)"]
    by (simp add: vacant_def)
  have loop: "guard.under (reserved i (ct_id ` set targets)) (for_each targets (\<lambda>c r.
      bind_tx (CreateRuleClient (new_rule_client i c now)) (\<lambda>_. return_tx (h r))) r)" for i targets r h
    by (rule guard.under_moves, rule guard.moves_for_each,
        rule guard.moves_bind [OF guard_create_rule_client]) (auto simp: new_rule_client_def intro: guard.moves_return simp del: return_tx_run)
  have create: "guard.under (vacant (ct_id ` set targets)) (bind_tx (create_scope_rule req p True msg now) (\<lambda>i.
      for_each targets (\<lambda>c r. bind_tx (CreateRuleClient (new_rule_client i c now)) (\<lambda>_. return_tx (h r))) r))"
    for targets msg h r
    by (rule guard.moves_bind [OF guard_create_scope_rule [OF p] loop])
  show ?thesis
    unfolding enableAllSnapshot_def
    by (rule guard.moves_bind [OF select])
      (auto simp del: return_tx_run split: prod.split intro: guard.under_return create)
qed

lemma guard_enroll_step: "guard.under (known {sc_rule_id scope}) (enroll_step scope now c acc)"
proof -
  let ?i = "sc_rule_id scope"
  have once: "guard.under C (AddEventOnce j e m now)" for C j e m
    by (rule guard.under_any, rule guard_keeps, intro evo_event_once evo.stable_True, rule keeps_holding)
  have create: "guard.under (reserved ?i {ct_id c}) (bind_tx (CreateRuleClient (new_rule_client ?i c now)) (\<lambda>_.
      bind_tx (AddEvent (Some ?i) e m now) (\<lambda>_. return_tx x)))" for e m and x :: "int list \<times> int \<times> int"
    by (rule guard.moves_bind [OF guard_create_rule_client], simp_all add: new_rule_client_def,
        rule guard.moves_bind [OF guard_event(1)], rule guard.under_return)
  have skip: "guard.under C (bind_tx (AddEventOnce j e m now) (\<lambda>b. return_tx (f b)))" for C j e m
    and f :: "bool \<Rightarrow> int list \<times> int \<times> int"
    by (rule guard.moves_bind [OF once], rule guard.under_return)
  have enroll: "guard.under (known {?i}) (bind_tx (optional (ActiveRuleForTrafficExcept (ct_id c) ?i)) (\<lambda>conflict.
      case conflict of
        Some x \<Rightarrow> bind_tx (AddEventOnce ?i EventScopeSkip (msg x) now) (\<lambda>b. return_tx (f b))
      | None \<Rightarrow> bind_tx (CreateRuleClient (new_rule_client ?i c now)) (\<lambda>_.
          bind_tx (AddEvent (Some ?i) EventScopeEnroll msg' now) (\<lambda>_. return_tx y))))"
    for msg msg' and f :: "bool \<Rightarrow> int list \<times> int \<times> int" and y
  proof (rule guard.moves_bind [OF guard_ActiveRuleForTrafficExcept])
    fix conflict :: "Rule option"
    show "guard.under (\<lambda>d. conflict = None \<longrightarrow> reserved ?i {ct_id c} d) (case conflict of
        Some x \<Rightarrow> bind_tx (AddEventOnce ?i EventScopeSkip (msg x) now) (\<lambda>b. return_tx (f b))
      | None \<Rightarrow> bind_tx (CreateRuleClient (new_rule_client ?i c now)) (\<lambda>_.
          bind_tx (AddEvent (Some ?i) EventScopeEnroll msg' now) (\<lambda>_. return_tx y)))"
      by (cases conflict) (simp_all only: option.case simp_thms option.distinct create skip)
  qed
  show ?thesis
    unfolding enroll_step_def Let_def
    by (cases acc) (auto simp del: return_tx_run intro!: guard.under_branches(1) guard.under_bind guard_stable_known guard_event(1)
        guard.under_return enroll guard_readers)
qed

lemma guard_reconcileScopes: "guard.under (known {}) (reconcileScopes now)"
proof -
  have scopes: "guard.moves (known {}) ListActivePersistentScopes (\<lambda>ss. known (sc_rule_id ` set ss))"
    unfolding ListActivePersistentScopes_def
    by (rule guard.moves_query) (auto simp: known_def dest: scope_rules_rule)
  have step: "guard.under (known S) (enroll_step scope now c acc)" if "sc_rule_id scope \<in> S" for S scope c acc
    by (rule guard.moves_conseq [OF guard_enroll_step]) (use that in \<open>auto simp: known_def\<close>)
  show ?thesis
    unfolding reconcileScopes_def enroll_scope_def
    by (rule guard.moves_bind [OF scopes], rule guard.under_for_each; intro moves_intro step) auto
qed

lemma guard_bulk_step:
  "guard.under (known {}) (bulk_step to now rule result)" "guard.under (known {}) (transition_body sel e ss to now)"
  unfolding bulk_step_def transition_body_def by (intro moves_intro guard_event(1))+

text \<open>
  C9. At most one active rule per client: the commands that activate a rule or give a rule clients
  (\<open>Enable\<close>, \<open>Resume\<close>, \<open>ResumeAll\<close>, \<open>EnableAll\<close> with \<open>--once\<close>), the transitions and the daemon's enrolment
  into scopes all keep it, whether they succeed or fail, on every well formed database.
\<close>

theorem commands_keep_exclusive:
  assumes "schema (w_db w)" and "exclusive (w_db w)"
  shows "exclusive (w_db (snd (Enable er now w))) \<and>
    exclusive (w_db (snd (Resume sel now w))) \<and>
    exclusive (w_db (snd (Disable sel now w))) \<and>
    exclusive (w_db (snd (Pause sel now w))) \<and>
    exclusive (w_db (snd (EnableAll (ea\<lparr>ea_once := True\<rparr>) now w))) \<and>
    exclusive (w_db (snd (ResumeAll inb now w))) \<and>
    exclusive (w_db (snd (DisableAll inb now w))) \<and>
    exclusive (w_db (snd (PauseAll inb now w))) \<and>
    exclusive (w_db (snd (reconcileScopes now w)))"
proof -
  have all: "guard.under (known {}) (Enable er now)" "guard.under (known {}) (Resume sel now)"
    "guard.under (known {}) (Disable sel now)" "guard.under (known {}) (Pause sel now)"
    "guard.under (known {}) (EnableAll (ea\<lparr>ea_once := True\<rparr>) now)" "guard.under (known {}) (ResumeAll inb now)"
    "guard.under (known {}) (DisableAll inb now)" "guard.under (known {}) (PauseAll inb now)"
    unfolding Enable_def Resume_def Disable_def Pause_def transition_def EnableAll_def EnableAll_body_def ResumeAll_def
      DisableAll_def PauseAll_def bulkTransition_def
    by (intro moves_intro guard_transaction guard_Enable_body guard_Resume_body guard_snapshot guard_resume_step guard_bulk_step;
        auto dest: ParseFactor_valid)+
  have "exclusive (w_db (snd (m w)))" if "guard.under (known {}) m" for m :: "'a tx"
    using that assms by (cases "m w") (auto simp: known_def guarded_def dest: guard.movesD)
  note keep = this
  show ?thesis
    by (intro conjI keep all guard_reconcileScopes)
qed

theorem commands_keep_exclusive_witness: "exclusive enabled_db"
proof -
  have "schema panel_db" "exclusive panel_db"
    using schema_reachable [OF reachable_panel] by (simp_all add: exclusive_def panel_db_def empty_db_def)
  then have "exclusive (w_db (snd (Enable enable_request 10 (sqlite_world [] panel_db))))"
    by (intro commands_keep_exclusive [THEN conjunct1]) simp_all
  then show ?thesis by (simp add: enable_runs)
qed

end
