(* ===== verification/XF_Unambiguous.thy ===== *)
theory XF_Unambiguous
  imports XF_Exclusive "HOL-Library.Multiset"
begin

text \<open>
  Why the daemon's decision is unambiguous: every client has at most one exclude row and one override
  row in every reachable database, and where moreover no client has two active rules, \<open>Decide\<close> cannot
  fail. The last section shows the one way to two active rules: a rule that follows its client's
  e-mail to a traffic row that another rule already charges.
\<close>

section \<open>One policy row per client\<close>

definition mails :: "Database \<Rightarrow> string list \<times> string list" where
  "mails d = (map ep_email (t_excludes d), map op_email (t_overrides d))"

definition tidy :: "Database \<Rightarrow> bool" where
  "tidy d \<longleftrightarrow> excludes.one_each d \<and> overrides.one_each d"

lemma mails_simps [simp]:
  "mails (d\<lparr>t_rules := a\<rparr>) = mails d" "mails (d\<lparr>t_rule_clients := b\<rparr>) = mails d"
  "mails (d\<lparr>t_scopes := c\<rparr>) = mails d" "mails (d\<lparr>t_client_traffics := v\<rparr>) = mails d"
  "mails (d\<lparr>t_events := g\<rparr>) = mails d" "mails (d\<lparr>t_meta := h\<rparr>) = mails d" "mails (d\<lparr>t_seq_rules := s\<rparr>) = mails d"
  "mails (d\<lparr>t_seq_excludes := s\<rparr>) = mails d" "mails (d\<lparr>t_seq_overrides := s\<rparr>) = mails d"
  "mails (d\<lparr>t_seq_events := s\<rparr>) = mails d" "mails (contents d) = mails d"
  by (simp_all add: mails_def contents_def)

lemma tidy_mails: "tidy d \<longleftrightarrow> distinct (fst (mails d)) \<and> distinct (snd (mails d))"
  by (simp add: tidy_def mails_def excludes.one_each_def overrides.one_each_def)

lemma preserves_tidy: "keeps mails m \<Longrightarrow> preserves tidy m"
  by (erule preserves_keeps) (simp add: tidy_mails)

lemma keeps_mails_update [keeps_intro]:
  "(\<And>p. ep_email (f p) = ep_email p) \<Longrightarrow> keeps mails (update_exclude i f)"
  "(\<And>p. op_email (g p) = op_email p) \<Longrightarrow> keeps mails (update_override i g)"
  unfolding update_exclude_def update_override_def
  by (intro keeps_intro; auto simp: mails_def write_excludes_def write_overrides_def map_update_where_keep split: if_splits)+

lemma keeps_mails_tx [keeps_intro]: "keeps mails m \<Longrightarrow> keeps mails (WithImmediateTx m)"
  by (rule keeps_WithImmediateTx) simp_all

lemma keeps_mails_rules:
  "keeps mails (Enable req now)" "keeps mails (Disable sel now)" "keeps mails (Pause sel now)" "keeps mails (Resume sel now)"
  unfolding Enable_def Enable_body_def Disable_def Pause_def transition_def transition_body_def Resume_def Resume_body_def
  by (intro keeps_intro; simp)+

lemma keeps_mails_unset:
  "keeps mails (Unexclude req now)" "keeps mails (RemoveOverride req now)"
  unfolding Unexclude_def Unexclude_body_def RemoveOverride_def RemoveOverride_body_def refresh_if_present_def
    DisableExclude_def DisableOverride_def
  by (intro keeps_intro; simp)+

lemma keeps_scope_choice: "keeps k (compatibleScopeForClient ss r c)"
  by (induction ss r c rule: compatibleScopeForClient.induct)
    (auto simp: scopeMatchesClient_def simp del: return_tx_run intro!: keeps_intro)

lemma keeps_mails_adopt: "keeps mails (adoptSingleRuleIntoScope s r c now)"
  unfolding adoptSingleRuleIntoScope_def by (intro keeps_intro; simp)

lemma keeps_mails_reconcile: "keeps mails (ReconcileTx now req)" "keeps mails (Reconcile req now)"
proof -
  have found: "keeps mails (reconcileFoundClient r ss now dry rc c rep)" for r ss dry rc c rep
    unfolding reconcileFoundClient_def adoptOrSupersede_def orphanRule_def
    by (intro keeps_intro keeps_mails_adopt keeps_scope_choice; simp)
  have current: "keeps mails (reconcileWithCurrent r ss now dry rc c rep)" for r ss dry rc c rep
    unfolding reconcileWithCurrent_def markRuleClientMissing_def orphanRule_def
    by (intro keeps_intro found; simp)
  have single: "keeps mails (reconcileSingleRule r ss now dry)" for r ss dry
    unfolding reconcileSingleRule_def reconcileReplaced_def markRuleClientMissing_def orphanRule_def
    by (intro keeps_intro current; simp)
  have policies: "keeps mails (reconcilePolicies req now)"
    unfolding reconcilePolicies_def repair_exclude_def repair_override_def resolvePolicyTraffic_def policy_selected_def
      RelinkExcludeRow_def RelinkOverrideRow_def DisableExclude_def DisableOverride_def
    by (intro keeps_intro; simp)
  show "keeps mails (ReconcileTx now req)" unfolding ReconcileTx_def by (intro keeps_intro single policies)
  then show "keeps mails (Reconcile req now)" unfolding Reconcile_def by (intro keeps_intro)
qed

lemma keeps_mails_bulk:
  "keeps mails (EnableAll erq now)" "keeps mails (DisableAll inb now)" "keeps mails (PauseAll inb now)" "keeps mails (ResumeAll inb now)"
  unfolding EnableAll_def EnableAll_body_def enableAllSnapshot_def enableAllPersistent_def snapshot_select_def
    enroll_candidate_def create_scope_rule_def DisableAll_def PauseAll_def bulkTransition_def bulk_step_def ResumeAll_def
    resume_step_def
  by (intro keeps_intro keeps_mails_adopt keeps_mails_reconcile; simp)+

lemma keeps_mails_tick: "keeps mails (Tick_body cfg no_hook clock)"
proof -
  have target: "keeps mails (tickTarget no_hook target now)" for target now
    unfolding tickTarget_def tickCurrent_def tickDeltas_def applyExtra_def rebaseline_def no_hook_def markMissing_def
    by (intro keeps_intro; simp)
  have suppressed: "keeps mails (refreshSuppressedBaseline now target u)" for target now u
    unfolding refreshSuppressedBaseline_def markMissing_def by (intro keeps_intro; simp)
  have scopes: "keeps mails (reconcileScopes now)" for now
    unfolding reconcileScopes_def enroll_scope_def enroll_step_def by (intro keeps_intro; simp)
  show ?thesis
    unfolding Tick_body_def decision_step_def
    by (intro keeps_intro keeps_mails_reconcile scopes keeps_decide_all target suppressed)
qed


interpretation tid: stable_relation "\<lambda>d d'. tidy d \<longrightarrow> tidy d'"
  by unfold_locales auto

lemma tid_keeps: "keeps mails m \<Longrightarrow> tid.under C m"
  by (erule tid.under_keeps) (simp add: tidy_mails)

lemma tid_transaction: "tid.under (\<lambda>_. True) m \<Longrightarrow> tid.under (\<lambda>_. True) (WithImmediateTx m)"
  by (erule tid.under_WithImmediateTx) (simp add: tidy_mails)

lemma tid_upserts: "tid.under (\<lambda>_. True) (UpsertExclude p)" "tid.under (\<lambda>_. True) (UpsertOverride q)"
proof -
  have other: "keeps t_overrides (UpsertExclude p)" "keeps t_excludes (UpsertOverride q)"
    unfolding UpsertExclude_def UpsertOverride_def by (intro keeps_intro; simp)+
  show "tid.under (\<lambda>_. True) (UpsertExclude p)"
    using preservesD [OF upsert_exclude_one_each] keepsD [OF other(1)]
    by (intro tid.movesI) (auto simp: tidy_def overrides.one_each_def)
  show "tid.under (\<lambda>_. True) (UpsertOverride q)"
    using preservesD [OF upsert_override_one_each] keepsD [OF other(2)]
    by (intro tid.movesI) (auto simp: tidy_def excludes.one_each_def)
qed

lemma tid_set: "tid.under (\<lambda>_. True) (Exclude req now)" "tid.under (\<lambda>_. True) (Override req now)"
proof -
  have refresh: "tid.under C (refresh_if_present c now)" "tid.under C (AddEvent r e m now)" "tid.under C (FindClient em inb)"
    for C c r e m em inb
    unfolding refresh_if_present_def by (rule tid_keeps, intro keeps_intro; simp)+
  show "tid.under (\<lambda>_. True) (Exclude req now)" "tid.under (\<lambda>_. True) (Override req now)"
    unfolding Exclude_def Exclude_body_def Override_def Override_body_def
    by (intro moves_intro tid_transaction tid_upserts refresh)+
qed

lemma tid_Cleanup_tx: "tid.under (\<lambda>_. True) (Cleanup_tx opts)"
proof -
  have prunes: "tid.under C (exec_tx (\<lambda>d. d\<lparr>t_excludes := filter e (t_excludes d)\<rparr>))"
    "tid.under C (exec_tx (\<lambda>d. d\<lparr>t_overrides := filter f (t_overrides d)\<rparr>))" for C e f
    by (rule tid.moves_exec_tx, simp add: tidy_def excludes.one_each_def overrides.one_each_def distinct_map_filter)+
  have rest: "tid.under C (AddEvent r ty m now)" "tid.under C (markMismatchedRuleClients now dry)"
    "tid.under C (pruneMissingRuleClients cutoff now dry)" "tid.under C (pruneDisabledRules cutoff now dry)"
    "tid.under C (pruneAuditEvents cutoff dry)" for C r ty m now cutoff dry
    unfolding markMismatchedRuleClients_def mark_step_def pruneMissingRuleClients_def pruneDisabledRules_def delete_rule_def
      pruneAuditEvents_def Let_def
    by (rule tid_keeps, intro keeps_intro; simp)+
  show ?thesis
    unfolding Cleanup_tx_def pruneInactiveExcludes_def pruneInactiveOverrides_def
    by (intro moves_intro prunes rest tid.moves_query) simp_all
qed

lemma tid_cleanup: "tid.under (\<lambda>_. True) (engine_Cleanup cfg dry old vac now)" "tid.under (\<lambda>_. True) (AutoCleanup opts)"
proof -
  have meta: "keeps mails (SetMetaInt64 key v)" for key v
    unfolding SetMetaInt64_def upsert_meta_def by (intro keeps_intro) simp
  show "tid.under (\<lambda>_. True) (engine_Cleanup cfg dry old vac now)" "tid.under (\<lambda>_. True) (AutoCleanup opts)"
    unfolding engine_Cleanup_def Cleanup_def Vacuum_def AutoCleanup_def auto_cleanup_body_def
    by (intro moves_intro tid_transaction tid_Cleanup_tx tid_keeps [OF meta] tid_keeps keeps_GetMetaInt64)+
qed

lemma tid_perform: "tid.under (\<lambda>_. True) (perform c clock)"
proof -
  have tick: "tid.under (\<lambda>_. True) (Tick cfg no_hook clock)" for cfg
    unfolding Tick_def runAutoCleanup_def
    by (intro moves_intro tid_transaction tid_cleanup tid_keeps [OF keeps_mails_tick])
  show ?thesis
    by (cases c; simp only: perform.simps finish_def; intro moves_intro tick tid_set tid_cleanup tid_keeps
        keeps_mails_rules keeps_mails_unset keeps_mails_reconcile keeps_mails_bulk)
qed

lemma tidy_reachable: "reachable d \<Longrightarrow> tidy d"
proof (induction rule: reachable.induct)
  case (fresh d)
  then show ?case by (simp add: tidy_mails mails_def metadata_def empty_db_def)
next
  case (follow d d')
  from follow.hyps(2) follow.IH show ?case
  proof (cases rule: step.cases)
    case (command_step w c clock)
    then show ?thesis using tid.underD [OF tid_perform, of w c clock] follow.IH by simp
  next
    case panel_step
    then show ?thesis using follow.IH by (simp add: tidy_mails mails_def metadata_def)
  qed
qed

text \<open>
  C10. In every reachable database a client's e-mail has at most one exclude row and at most one override
  row, in whatever state. The tables' own constraint is weaker (it has the inbound and the traffic id
  in its key); it is the commands' order of lookups that keeps it.
\<close>

theorem one_policy_per_client:
  assumes "reachable d"
  shows "distinct (map ep_email (t_excludes d)) \<and> distinct (map op_email (t_overrides d))"
  using tidy_reachable [OF assms] by (simp add: tidy_mails mails_def)


section \<open>At most one candidate of each kind\<close>

lemma short_if_same_key: "distinct (map f xs) \<Longrightarrow> (\<And>x. x \<in> set xs \<Longrightarrow> f x = a) \<Longrightarrow> length xs \<le> 1"
  by (cases xs) (auto, metis length_0_conv list.set_intros(1) neq_Nil_conv rev_image_eqI)

lemma distinct_concat_map:
  "distinct rs \<Longrightarrow> (\<And>r. r \<in> set rs \<Longrightarrow> distinct (h r)) \<Longrightarrow>
    (\<And>r r'. r \<in> set rs \<Longrightarrow> r' \<in> set rs \<Longrightarrow> r \<noteq> r' \<Longrightarrow> set (h r) \<inter> set (h r') = {}) \<Longrightarrow> distinct (concat (map h rs))"
proof (induction rs)
  case (Cons r rs)
  then have "set (h r) \<inter> set (h r') = {}" if "r' \<in> set rs" for r' using that by auto
  with Cons show ?case by auto
qed simp

lemma distinct_map_sort_key: "distinct (map g (sort_key f xs)) \<longleftrightarrow> distinct (map g xs)"
  by (rule mset_eq_imp_distinct_iff) simp

text \<open>In a database that is exclusive, no two active targets have the same client.\<close>

lemma map_comprehension:
  "concat (map (\<lambda>x. map g (if P x then [k x] else [])) xs) = map (\<lambda>x. g (k x)) (filter P xs)"
  by (induction xs) auto

lemma active_rule_unique:
  assumes "exclusive d" and "r \<in> set (t_rules d)" "r' \<in> set (t_rules d)"
    and "rc \<in> set (t_rule_clients d)" "rc_rule_id rc = rr_id r" "rr_state r = StateActive"
    and "rc' \<in> set (t_rule_clients d)" "rc_rule_id rc' = rr_id r'" "rr_state r' = StateActive"
    and "rc_traffic_id rc = rc_traffic_id rc'"
  shows "rr_id r = rr_id r'"
proof -
  have "rc_rule_id rc \<in> active_ids d" "rc_rule_id rc' \<in> active_ids d"
    using assms by (auto simp: active_ids_def)
  with assms(1,4,7,10) have "rc_rule_id rc' = rc_rule_id rc" unfolding exclusive_def only_def by metis
  with assms(5,8) show ?thesis by simp
qed

lemma one_target_per_client:
  assumes "schema d" and "exclusive d"
  shows "distinct (map (\<lambda>t. rc_traffic_id (arc_client t)) (active_targets d))"
proof -
  let ?h = "\<lambda>r. map rc_traffic_id (filter (\<lambda>rc. rc_rule_id rc = rr_id r \<and> rr_state r = StateActive) (t_rule_clients d))"
  have rules: "distinct (map rr_id (t_rules d))" and clients: "distinct (map rc_order (t_rule_clients d))"
    using assms(1) by (simp_all add: schema_def rules_ok_def numbered_def rule_clients_ok_def)
  have "distinct (concat (map ?h (t_rules d)))"
  proof (rule distinct_concat_map)
    show "distinct (t_rules d)" using rules by (simp add: distinct_map)
    show "distinct (?h r)" for r
    proof -
      have "distinct (t_rule_clients d)" using clients by (simp add: distinct_map)
      moreover have "inj_on rc_traffic_id {rc \<in> set (t_rule_clients d). rc_rule_id rc = rr_id r \<and> rr_state r = StateActive}"
        by (rule inj_onI) (rule distinct_map_eq [OF clients], simp_all add: rc_order_def)
      ultimately show ?thesis by (simp add: distinct_map)
    qed
    fix r r'
    assume r: "r \<in> set (t_rules d)" "r' \<in> set (t_rules d)" "r \<noteq> r'"
    then have "rr_id r \<noteq> rr_id r'" using distinct_map_eq [OF rules] by blast
    then show "set (?h r) \<inter> set (?h r') = {}" by (auto dest: active_rule_unique [OF assms(2) r(1,2)])
  qed
  moreover have "map (\<lambda>t. rc_traffic_id (arc_client t)) [\<lparr>arc_rule = scanRuleWithScope r (scope_of d (rr_id r)), arc_client = rc\<rparr>.
        r \<leftarrow> t_rules d, rc \<leftarrow> t_rule_clients d, rc_rule_id rc = rr_id r \<and> rr_state r = StateActive] = concat (map ?h (t_rules d))"
    by (simp add: map_comprehension map_concat o_def)
  ultimately show ?thesis by (simp add: active_targets_def distinct_map_sort_key)
qed

lemma rank_rule_candidate: "rank (rule_candidate t) \<le> 80"
  by (auto simp: rank_def rule_candidate_def classifyTarget_def split: option.split)

lemma override_candidates_eq:
  "OverrideCandidatesForActiveTargets overrides targets =
    map (\<lambda>p. override_candidate (map_option (with_factor (op_factor_ppm p))
        (target_for_key targets (op_traffic_id p, op_email p))) ''user override policy'' p)
      (filter (\<lambda>p. target_for_key targets (op_traffic_id p, op_email p) \<noteq> None) overrides)"
  unfolding OverrideCandidatesForActiveTargets_def
  by (induction overrides) (auto split: option.split)

lemma target_for_key_Some: "target_for_key targets key = Some t \<Longrightarrow> t \<in> set targets \<and> target_key t = key"
  by (auto simp: target_for_key_def dest!: first_of_SomeD)

lemma beats_if_distinct:
  assumes "distinct (map rank cs)" and "cs \<noteq> []"
  shows "\<exists>w. beats w cs"
proof -
  define m where "m = Max (rank ` set cs)"
  have "m \<in> rank ` set cs" unfolding m_def using assms(2) by (intro Max_in) auto
  then obtain w where w: "w \<in> set cs" "rank w = m" by auto
  have "rank x \<le> m" if "x \<in> set cs" for x unfolding m_def using that by simp
  then have "filter (\<lambda>x. rank w \<le> rank x) cs = filter (\<lambda>x. rank x = rank w) cs"
    using w(2) by (intro filter_cong) (auto intro: antisym)
  also have "\<dots> = [w]" by (rule filter_key_unique [OF assms(1) w(1)])
  finally show ?thesis using w(1) by (auto simp: beats_def)
qed

lemma length_le_1_cases: "length xs \<le> 1 \<Longrightarrow> xs = [] \<or> (\<exists>x. xs = [x])"
  by (cases xs) auto

text \<open>One target, one override and one exclude per client give candidates of different precedence.\<close>

text \<open>Per client at most one candidate of each kind, given the one e-mail \<open>e\<close> under which the client is a target.\<close>

lemma one_rule_candidate:
  assumes "distinct (map (\<lambda>t. rc_traffic_id (arc_client t)) targets)"
  shows "length (filter (\<lambda>c. c_traffic_id c = i) (ActiveRuleCandidates targets)) \<le> 1"
  using short_if_same_key [OF distinct_map_filter [OF assms, of "\<lambda>t. rc_traffic_id (arc_client t) = i"], of i]
  by (simp add: ActiveRuleCandidates_def filter_map o_def rule_candidate_def)

lemma one_override_candidate:
  assumes "distinct (map op_email overrides)"
    and e: "\<And>t. t \<in> set targets \<Longrightarrow> rc_traffic_id (arc_client t) = i \<Longrightarrow> rc_email (arc_client t) = e"
  shows "length (filter (\<lambda>c. c_traffic_id c = i) (OverrideCandidatesForActiveTargets overrides targets)) \<le> 1"
proof -
  let ?op = "\<lambda>p. target_for_key targets (op_traffic_id p, op_email p) \<noteq> None \<and> op_traffic_id p = i"
  have "op_email p = e" if "?op p" for p
    using that e by (auto simp: target_key_def dest!: target_for_key_Some)
  then have "length (filter ?op overrides) \<le> 1"
    by (intro short_if_same_key [OF distinct_map_filter [OF assms(1)], where a = e]) auto
  then show ?thesis
    by (simp add: override_candidates_eq filter_map o_def override_candidate_def conj_commute)
qed

lemma one_exclude_candidate:
  assumes "distinct (map ep_email excludes)"
    and e: "\<And>t. t \<in> set targets \<Longrightarrow> rc_traffic_id (arc_client t) = i \<Longrightarrow> rc_email (arc_client t) = e"
  shows "length (filter (\<lambda>c. c_traffic_id c = i) (ExcludeCandidatesForActiveTargets excludes targets)) \<le> 1"
proof -
  let ?ep = "\<lambda>p. (ep_traffic_id p, ep_email p) \<in> set (map target_key targets) \<and> ep_traffic_id p = i"
  have "ep_email p = e" if "?ep p" for p
    using that e by (auto simp: target_key_def)
  then have "length (filter ?ep excludes) \<le> 1"
    by (intro short_if_same_key [OF distinct_map_filter [OF assms(1)], where a = e]) auto
  then show ?thesis
    by (simp add: ExcludeCandidatesForActiveTargets_def filter_map o_def exclude_candidate_def conj_commute)
qed

lemma different_ranks:
  assumes targets: "distinct (map (\<lambda>t. rc_traffic_id (arc_client t)) targets)"
    and excludes: "distinct (map ep_email excludes)" and overrides: "distinct (map op_email overrides)"
  shows "distinct (map rank (candidates_of i (tick_candidates targets excludes overrides)))"
proof -
  let ?own = "\<lambda>c. c_traffic_id c = i"
  obtain e where e: "\<And>t. t \<in> set targets \<Longrightarrow> rc_traffic_id (arc_client t) = i \<Longrightarrow> rc_email (arc_client t) = e"
    using distinct_map_eq [OF targets] by metis
  note rules = one_rule_candidate [OF targets, of i]
  note ovr = one_override_candidate [OF overrides e] and exc = one_exclude_candidate [OF excludes e]
  have ranks: "\<forall>c \<in> set (filter ?own (ActiveRuleCandidates targets)). rank c \<le> 80"
    "\<forall>c \<in> set (filter ?own (OverrideCandidatesForActiveTargets overrides targets)). rank c = 90"
    "\<forall>c \<in> set (filter ?own (ExcludeCandidatesForActiveTargets excludes targets)). rank c = 100"
    by (auto simp: ActiveRuleCandidates_def rank_rule_candidate override_candidates_eq override_candidate_def
        ExcludeCandidatesForActiveTargets_def exclude_candidate_def) (simp_all add: rank_def)
  have short: "distinct (map rank xs)" if "length xs \<le> 1" for xs using length_le_1_cases [OF that] by auto
  show ?thesis
    unfolding candidates_of_def tick_candidates_def filter_append map_append distinct_append
    using ranks short [OF rules] short [OF ovr] short [OF exc] by fastforce
qed

lemma Decide_total:
  assumes "\<And>i. i \<in> set (map c_traffic_id cs) \<Longrightarrow> distinct (map rank (candidates_of i cs))"
  shows "\<exists>ds. Decide cs = Inr ds"
proof (cases "Decide cs")
  case (Inl e)
  then obtain i where i: "i \<in> set (map c_traffic_id cs)" and one: "decideOne i (candidates_of i cs) = Inl e"
    by (auto simp: Decide_def dest!: decide_each_Inl)
  obtain w where "beats w (candidates_of i cs)"
    using beats_if_distinct [OF assms [OF i] candidates_of_nonempty [OF i]] by blast
  with one show ?thesis using beats_decideOne by (metis Inl_Inr_False)
qed blast

text \<open>
  C8. The daemon always finds a decision: in a reachable database where no client has two active rules,
  and with a driver that answers, deciding succeeds (and writes nothing), whatever scopes, rules,
  excludes and overrides there are.
\<close>

theorem decisions_exist:
  assumes "reachable (w_db w)" and "exclusive (w_db w)" and "healthy w"
  shows "\<exists>ds. decide_all w = (Inr ds, w)"
proof -
  let ?d = "w_db w"
  have tidy: "distinct (map ep_email (active_excludes ?d))" "distinct (map op_email (active_overrides ?d))"
    using tidy_reachable [OF assms(1)]
    by (simp_all add: tidy_mails mails_def active_excludes_def active_overrides_def distinct_map_sort_key distinct_map_filter)
  obtain ds where "Decide (tick_candidates (active_targets ?d) (active_excludes ?d) (active_overrides ?d)) = Inr ds"
    using Decide_total different_ranks [OF one_target_per_client [OF schema_reachable [OF assms(1)] assms(2)] tidy] by blast
  with assms(3) show ?thesis
    by (simp add: decide_all_def ListActiveRuleClients_def ListActiveExcludes_def ListActiveOverrides_def tx_simps)
qed


section \<open>Two active rules\<close>

text \<open>
  A client is recreated under the same e-mail, gets a new traffic id, and a rule is enabled for it before
  the next poll: \<open>Enable\<close> looks for active rules by traffic id and finds none.
\<close>

definition new_row :: TrafficRow where
  "new_row = sample_row\<lparr>tr_id := 9, tr_up := 0, tr_down := 0\<rparr>"

definition recreated_db :: Database where
  "recreated_db = enabled_db\<lparr>t_client_traffics := [new_row]\<rparr>"

definition second_rule :: RuleRow where
  "second_rule = sample_rule\<lparr>rr_id := 2, rr_created_at := 20, rr_updated_at := 20, rr_activated_at := Some 20\<rparr>"

definition second_baseline :: RuleClient where
  "second_baseline = sample_baseline\<lparr>rc_rule_id := 2, rc_traffic_id := 9, rc_last_up := 0, rc_last_down := 0, rc_updated_at := 20\<rparr>"

definition twice_db :: Database where
  "twice_db = insert_event (Some 2) EventRuleEnabled ''rule enabled'' 20 (recreated_db\<lparr>t_rules := [sample_rule, second_rule],
     t_rule_clients := [sample_baseline, second_baseline], t_seq_rules := 2\<rparr>)"

lemmas twice_defs = twice_db_def second_rule_def second_baseline_def recreated_db_def enabled_db_def panel_db_def new_row_def
  insert_event_def sample_defs Let_def

lemma second_enable_runs:
  "Enable enable_request 20 (sqlite_world [] recreated_db) = (Inr (scanRule second_rule), sqlite_world [] twice_db)"
proof -
  have factor: "ParseFactor ''1.5'' = Inr 1500000" by (simp add: ParseFactor_eval)
  have "trim_space [] = []" by (simp add: trim_space_graphic graphic_def)
  then have "Enable_body enable_request ''a@b'' 1500000 20 (sqlite_world [] recreated_db) =
      (Inr (scanRule second_rule), sqlite_world [] twice_db)"
    by (simp add: Enable_body_def run_defs FindClient_def ActiveRuleForTraffic_def rules_for_traffic_def in_inbound_def
        clientInboundMembership_def scan_client_def CreateRule_def insertReturningID_def insert_rule_def
        CreateRuleClient_def insert_rule_client_def new_rule_client_def GetRule_def new_rule_def nullif_empty_def
        enable_request_def twice_defs)
  then show ?thesis
    by (simp add: WithImmediateTx_ok Enable_def factor normalizeEmail_def enable_request_def from_result_run
        trim_space_graphic graphic_def)
qed

lemma reachable_twice: "reachable twice_db"
proof -
  have "step enabled_db recreated_db"
    by (rule step.panel_step) (simp_all add: recreated_db_def metadata_def in_range_def in_i64_bounds new_row_def sample_row_def)
  moreover have "step recreated_db twice_db"
    using step.command_step [of "sqlite_world [] recreated_db" recreated_db "RunEnable enable_request" 20000]
    by (simp add: finish_def bind_tx_def second_enable_runs)
  ultimately show ?thesis
    using reachable.follow [OF reachable.follow [OF reachable.follow [OF reachable_panel step_enable]]] by blast
qed

text \<open>The poll relinks the first rule to the new traffic id, where the second rule is active too.\<close>

definition linked_baseline :: "int \<Rightarrow> RuleClient" where
  "linked_baseline now = sample_baseline\<lparr>rc_traffic_id := 9, rc_last_up := 0, rc_last_down := 0, rc_updated_at := now\<rparr>"

definition linked_db :: "int \<Rightarrow> Database" where
  "linked_db now = insert_event (Some 1) EventClientRelinked (''traffic id '' @ itoa 7 @ '' relinked to traffic id '' @
     itoa 9 @ '' email '' @ ''a@b'') now (twice_db\<lparr>t_rule_clients := [linked_baseline now, second_baseline]\<rparr>)"

lemma relink_runs:
  assumes "0 < now"
  shows "ReconcileTx now \<lparr>rq_inbound_id = None, rq_dry_run = False\<rparr> (sqlite_world [] twice_db) =
    (Inr (no_reconcile\<lparr>rr_checked := 2, rr_reconciled := 1\<rparr>), sqlite_world [] (linked_db now))"
  using assms
  by (simp add: ReconcileTx_def run_defs ListRulesInStates_def ListActivePersistentScopes_def scope_rules_def scope_of_def
      reconcileSingleRule_def RuleClientsForRule_def ClientTrafficByID_def clientTrafficByID_def reconcileReplaced_def
      ClientTrafficByEmail_def RelinkRuleClientByEmail_def RuleClient_tx_def is_rc_def scan_client_def refresh_row_def
      reconcileWithCurrent_def reconcileFoundClient_def ActiveScopeForTrafficExcept_def rules_for_traffic_def
      reconcilePolicies_def ListActiveExcludes_def ListActiveOverrides_def active_excludes_def active_overrides_def
      add_step_def no_reconcile_def linked_db_def linked_baseline_def enableAsIntExpr_def twice_defs)


lemma linked_scopes:
  "reconcileScopes now (sqlite_world [] (linked_db now)) = (Inr (0, 0), sqlite_world [] (linked_db now))"
  by (simp add: reconcileScopes_def run_defs ListActivePersistentScopes_def scope_rules_def linked_db_def twice_defs)

definition two_rules_error :: error where
  "two_rules_error = ConflictError (error_text (ambiguous_error 9 SourceSingleRule))"

lemma linked_decision: "decide_all (sqlite_world [] (linked_db now)) = (Inl two_rules_error, sqlite_world [] (linked_db now))"
proof -
  let ?target = "\<lambda>r rc. \<lparr>arc_rule = scanRuleWithScope r None, arc_client = rc\<rparr>"
  have "active_targets (linked_db now) = [?target sample_rule (linked_baseline now), ?target second_rule second_baseline]"
    by (simp add: active_targets_def scope_of_def linked_db_def linked_baseline_def less_eq_prod_def twice_defs)
  moreover have "active_excludes (linked_db now) = []" "active_overrides (linked_db now) = []"
    by (simp_all add: active_excludes_def active_overrides_def linked_db_def twice_defs)
  moreover have "Decide (tick_candidates [?target sample_rule (linked_baseline now), ?target second_rule second_baseline] [] []) =
      Inl (ambiguous_error 9 SourceSingleRule)"
    by (simp add: tick_candidates_def ActiveRuleCandidates_def OverrideCandidatesForActiveTargets_def
        ExcludeCandidatesForActiveTargets_def rule_candidate_def classifyTarget_def Decide_def decideOne_def
        candidate_order_def less_eq_prod_def linked_baseline_def second_rule_def second_baseline_def sample_rule_def
        sample_baseline_def)
  ultimately show ?thesis
    by (simp add: decide_all_def run_defs ListActiveRuleClients_def ListActiveExcludes_def ListActiveOverrides_def
        two_rules_error_def ambiguous_error_def)
qed

text \<open>
  C11. The exception to one active rule per client. In this reachable database, which is exclusive, the
  first thing every poll does is to relink the rule of the vanished traffic row by e-mail, without
  looking for another active rule there; then the decision is ambiguous, so the poll fails, and as
  the failure rolls the relink back, every later poll fails in the same way.
\<close>

theorem relinking_blocks_every_tick:
  assumes "1000 \<le> clock"
  shows "reachable twice_db \<and> exclusive twice_db \<and>
    Tick tick_config no_hook clock (sqlite_world [] twice_db) =
      (Inl (ErrWrap ''tick aborted and transaction rolled back: '' two_rules_error []), sqlite_world [] twice_db)"
proof (intro conjI reachable_twice)
  show "exclusive twice_db" by (auto simp: exclusive_def only_def active_ids_def twice_defs)
  let ?now = "clock div 1000"
  have now: "0 < ?now" using assms by (simp add: pos_imp_zdiv_pos_iff)
  have role: "PanelRole_tx clock (sqlite_world [] twice_db) = (Inr \<lparr>pr_nodes = 0, pr_managed = False\<rparr>, sqlite_world [] twice_db)"
    by (simp add: PanelRole_tx_def run_defs twice_defs)
  have "Tick_body tick_config no_hook clock (sqlite_world [] twice_db) = (Inl two_rules_error, sqlite_world [] (linked_db ?now))"
    unfolding Tick_body_def Let_def
    by (simp add: bind_tx_run role relink_runs [OF now] linked_scopes linked_decision tick_config_def)
  then show "Tick tick_config no_hook clock (sqlite_world [] twice_db) =
      (Inl (ErrWrap ''tick aborted and transaction rolled back: '' two_rules_error []), sqlite_world [] twice_db)"
    by (simp add: Tick_def attempt_run WithImmediateTx_err [where fn = "Tick_body tick_config no_hook clock"] rollback_def)
      (simp add: sqlite_world_def)
qed


section \<open>Concrete databases\<close>

theorem relinking_blocks_every_tick_witness:
  "Tick tick_config no_hook 100000 (sqlite_world [] twice_db) =
    (Inl (ErrWrap ''tick aborted and transaction rolled back: '' two_rules_error []), sqlite_world [] twice_db)"
  using relinking_blocks_every_tick [of 100000] by simp

theorem one_policy_per_client_witness: "distinct (map ep_email (t_excludes twice_db))"
  using one_policy_per_client [OF reachable_twice] by simp

theorem decisions_exist_witness: "\<exists>ds. decide_all (sqlite_world [] enabled_db) = (Inr ds, sqlite_world [] enabled_db)"
proof (rule decisions_exist)
  show "reachable (w_db (sqlite_world [] enabled_db))" by (simp add: reachable.follow [OF reachable_panel step_enable])
  show "exclusive (w_db (sqlite_world [] enabled_db))"
    by (auto simp: exclusive_def only_def active_ids_def enabled_db_def insert_event_def panel_db_def sample_defs)
qed simp

end
