(* ===== verification/XF_Explain.thy ===== *)
theory XF_Explain
  imports XF_Effective XF_Unambiguous
begin

text \<open>
  What \<open>explain\<close>, \<open>status\<close> and \<open>report\<close> promise: they write nothing, and the decision they show for a client
  is the one the poll makes for it, as long as every active rule client of it is one they look at.
\<close>

section \<open>Reading only\<close>

lemma readers_rollback: "keeps (\<lambda>d. d) m \<Longrightarrow> keeps (\<lambda>d. d) (WithReadTx m)"
proof (rule keepsI)
  fix w :: World and r w'
  assume m: "keeps (\<lambda>d. d) m" and run: "WithReadTx m w = (r, w')"
  have conn: "\<And>f w r w'. conn_call f w = (r, w') \<Longrightarrow> w_db w' = w_db w" by (rule conn_call_db)
  have rb: "w_db (rollback w0 w1) = w_db w0" if "w_db w1 = w_db w0" for w0 w1
    using that by (simp add: rollback_def)
  show "w_db w' = w_db w"
    using run keepsD [OF m]
    by (auto simp: WithReadTx_def bind_tx_def run_body_def rb split: prod.splits sum.splits if_splits dest!: conn)
qed

lemma keeps_tables_exist [keeps_intro]: "keeps k (tables_exist ts)"
  by (induction ts) (simp_all only: tables_exist.simps, intro keeps_intro, intro keeps_intro, assumption)

lemma keeps_id_ReadTx [keeps_intro]: "keeps (\<lambda>d. d) m \<Longrightarrow> keeps (\<lambda>d. d) (WithReadTx m)"
  by (rule readers_rollback)

lemma effective_inputs_keep [keeps_intro]: "keeps k effectiveInputs" "keeps k (effectiveDecisionForClient c)"
  unfolding effectiveInputs_def effectiveDecisionForClient_def ListActiveExcludes_def ListActiveOverrides_def
  by (intro keeps_intro)+

lemma explain_keeps [keeps_intro]:
  "keeps (\<lambda>d. d) (Explain req)" "keeps (\<lambda>d. d) (ClientStatus i n)" "keeps (\<lambda>d. d) (EffectiveStatus i)"
  unfolding Explain_def Explain_body_def EffectiveStatus_def Status_def Excludes_def Overrides_def ClientStatus_def status_step_def
  by (intro keeps_intro)+

lemma report_keeps: "keeps (\<lambda>d. d) (Report i b)"
  unfolding Report_def Status_def Excludes_def Overrides_def inactive_policies_def Let_def by (intro keeps_intro)

section \<open>The poll's decision\<close>

lemma target_for_key_filter:
  "(\<And>t. t \<in> set targets \<Longrightarrow> target_key t = key \<Longrightarrow> p t) \<Longrightarrow> target_for_key (filter p targets) key = target_for_key targets key"
  by (auto simp: target_for_key_def rev_filter intro!: arg_cong [of _ _ first_of] filter_cong)

text \<open>A client's own part of the poll's candidates comes from its own targets alone.\<close>

lemma own_candidates:
  assumes own: "\<And>t. t \<in> set targets \<Longrightarrow> rc_traffic_id (arc_client t) = i \<longleftrightarrow> p t"
  shows "candidates_of i (tick_candidates targets excludes overrides) =
    tick_candidates (filter p targets) excludes overrides"
proof -
  have rules: "filter (\<lambda>c. c_traffic_id c = i) (ActiveRuleCandidates targets) = ActiveRuleCandidates (filter p targets)"
    using own by (auto simp: ActiveRuleCandidates_def filter_map o_def rule_candidate_def intro!: arg_cong [of _ _ "map f" for f] filter_cong)
  have here: "target_for_key (filter p targets) (op_traffic_id q, op_email q) =
      (if op_traffic_id q = i then target_for_key targets (op_traffic_id q, op_email q) else None)" for q
  proof (cases "op_traffic_id q = i")
    case True
    then show ?thesis using own by (auto simp: target_key_def intro: target_for_key_filter)
  next
    case False
    then have "filter (\<lambda>t. target_key t = (op_traffic_id q, op_email q)) (filter p targets) = []"
      using own by (fastforce simp: filter_empty_conv target_key_def)
    then show ?thesis using False by (simp add: target_for_key_def rev_filter [symmetric] del: filter_filter)
  qed
  have overrides: "filter (\<lambda>c. c_traffic_id c = i) (OverrideCandidatesForActiveTargets overrides targets) =
      OverrideCandidatesForActiveTargets overrides (filter p targets)"
    unfolding override_candidates_eq filter_map
    by (auto simp: o_def override_candidate_def here intro!: map_cong filter_cong)
  have excludes: "filter (\<lambda>c. c_traffic_id c = i) (ExcludeCandidatesForActiveTargets excludes targets) =
      ExcludeCandidatesForActiveTargets excludes (filter p targets)"
  proof -
    have "key \<in> target_key ` set (filter p targets) \<longleftrightarrow> key \<in> target_key ` set targets \<and> fst key = i" for key
      using own by (force simp: target_key_def)
    then show ?thesis
      by (simp add: ExcludeCandidatesForActiveTargets_def filter_map filter_filter o_def exclude_candidate_def)
  qed
  show ?thesis by (simp add: candidates_of_def tick_candidates_def rules overrides excludes)
qed

text \<open>
  For a client with a target, \<open>ClientCandidates\<close> adds nothing to the poll's candidates: the policies it
  looks up again are those of the targets.
\<close>

lemma ClientCandidates_eq:
  assumes "targets \<noteq> []" and own: "\<And>t. t \<in> set targets \<Longrightarrow> target_key t = (ct_id client, ct_email client)"
  shows "ClientCandidates client targets excludes overrides = tick_candidates targets excludes overrides"
proof -
  have all: "filter (\<lambda>t. rc_traffic_id (arc_client t) = ct_id client \<and> rc_email (arc_client t) = ct_email client) targets = targets"
    using own by (auto simp: target_key_def intro!: filter_True)
  have key: "(ct_id client, ct_email client) \<in> target_key ` set targets"
    using assms by (metis image_eqI last_in_set)
  have "target_for_key targets (ct_id client, ct_email client) \<noteq> None"
    using key by (auto simp: target_for_key_def filter_empty_conv)
  then have overrides: "OverrideCandidatesForActiveTargets overrides targets = [] \<Longrightarrow>
      filter (\<lambda>p. exactPolicyMatch client (op_traffic_id p) (op_email p)) overrides = []"
    by (auto simp: override_candidates_eq filter_empty_conv exactPolicyMatch_def)
  have excludes: "ExcludeCandidatesForActiveTargets excludes targets = [] \<Longrightarrow>
      filter (\<lambda>p. exactPolicyMatch client (ep_traffic_id p) (ep_email p)) excludes = []"
    using key by (auto simp: ExcludeCandidatesForActiveTargets_def filter_empty_conv exactPolicyMatch_def)
  show ?thesis
    unfolding ClientCandidates_def Let_def all using overrides excludes by (simp add: tick_candidates_def)
qed

lemma decideOne_tag: "decideOne i cs = Inr d \<Longrightarrow> decideOne j cs = Inr d"
  by (auto simp: decideOne_def split: list.splits if_splits)

text \<open>The poll's decisions on one client: that of its candidates, or none.\<close>

lemma polls_decisions:
  assumes "Decide cs = Inr ds"
  shows "candidates_of i cs = [] \<Longrightarrow> filter (\<lambda>d. d_traffic_id d = i) ds = []"
    and "decideOne i (candidates_of i cs) = Inr d \<Longrightarrow> candidates_of i cs \<noteq> [] \<Longrightarrow> filter (\<lambda>d. d_traffic_id d = i) ds = [d]"
proof -
  have each: "decide_each (sort (remdups (map c_traffic_id cs))) cs = Inr ds" using assms by (simp add: Decide_def)
  note facts = decide_each_Inr [OF each]
  have ids: "map d_traffic_id ds = sort (remdups (map c_traffic_id cs))" using facts by simp
  have mem: "i \<in> d_traffic_id ` set ds \<longleftrightarrow> candidates_of i cs \<noteq> []"
    using arg_cong [OF ids, of set] by (auto simp: candidates_of_def filter_empty_conv image_iff)
  then show "candidates_of i cs = [] \<Longrightarrow> filter (\<lambda>d. d_traffic_id d = i) ds = []" by (auto simp: filter_empty_conv)
  assume one: "decideOne i (candidates_of i cs) = Inr d" and "candidates_of i cs \<noteq> []"
  with mem obtain d' where d': "d' \<in> set ds" "d_traffic_id d' = i" by auto
  then have "decideOne i (candidates_of i cs) = Inr d'" using facts by auto
  with one have "d' = d" by simp
  moreover have "distinct (map d_traffic_id ds)" by (simp add: ids)
  ultimately show "filter (\<lambda>d. d_traffic_id d = i) ds = [d]" using filter_key_unique [of d_traffic_id ds d] d' by simp
qed

text \<open>\<open>explain\<close> on a healthy connection, with the metadata tables in place.\<close>

definition metadata_tables :: "string list" where
  "metadata_tables = [''xui_factor_rules'', ''xui_factor_rule_clients'', ''xui_factor_scopes'',
     ''xui_factor_excludes'', ''xui_factor_overrides'']"

lemma effectiveInputs_run:
  assumes "healthy w" and "set metadata_tables \<subseteq> set (t_tables (w_db w))"
  shows "effectiveInputs w = (Inr (active_targets (w_db w), active_excludes (w_db w), active_overrides (w_db w)), w)"
  using assms
  by (simp add: effectiveInputs_def metadata_tables_def tx_simps ListActiveRuleClients_def ListActiveExcludes_def
      ListActiveOverrides_def)

lemma FindClient_run: "healthy w \<Longrightarrow> \<exists>r. FindClient email i w = (r, w)"
  by (simp add: FindClient_def tx_simps split: list.split)

lemma WithReadTx_body: "WithReadTx m w = (Inr x, w') \<Longrightarrow> healthy w \<Longrightarrow> \<exists>w1. m w = (Inr x, w1)"
  by (auto simp: WithReadTx_def tx_simps run_body_def split: prod.splits sum.splits if_splits)

lemma explained:
  assumes "healthy w" and "set metadata_tables \<subseteq> set (t_tables (w_db w))" and "Explain req w = (Inr res, w')"
  shows "decideLoadedClient (xs_client res) (active_targets (w_db w)) (active_excludes (w_db w)) (active_overrides (w_db w)) =
    Inr (xs_decision res)"
proof -
  obtain email i where "WithReadTx (Explain_body email i) w = (Inr res, w')"
    using assms(3) by (auto simp: Explain_def from_result_def split: sum.splits option.splits)
  from WithReadTx_body [OF this assms(1)] obtain w1 where body: "Explain_body email i w = (Inr res, w1)" ..
  obtain r where "FindClient email (Some i) w = (r, w)" using FindClient_run [OF assms(1)] by blast
  with body show ?thesis
    by (auto simp: Explain_body_def described_def attempt_def bind_tx_def effectiveDecisionForClient_def
        effectiveInputs_run [OF assms(1,2)] from_result_def split: sum.splits)
qed

lemma no_target_no_charge:
  assumes "decideLoadedClient c targets excludes overrides = Inr d" and "validTargetsForClient c targets = []"
  shows "d_target d = None"
proof -
  let ?cs = "ClientCandidates c [] excludes overrides"
  have none: "c_target x = None" if "x \<in> set ?cs" for x
    using that by (auto simp: ClientCandidates_def Let_def ActiveRuleCandidates_def override_candidates_eq
        target_for_key_def ExcludeCandidatesForActiveTargets_def exclude_candidate_def override_candidate_def
        split: if_splits option.splits)
  have "DecideClient c ?cs = Inr d"
    using assms by (auto simp: decideLoadedClient_def split: sum.splits if_splits)
  then show ?thesis
    using none by (auto simp: DecideClient_def decideOne_Inr decision_of_def beats_def split: if_splits)
qed

text \<open>
  C29. \<open>explain\<close> and the poll agree. If every active rule client on the traffic id of the explained client is
  one that \<open>explain\<close> looks at (its e-mail, not missing, allowed by its scope), then the decisions of
  the poll on that client are exactly the explained one, or none when no rule targets the client; in
  that case the explained decision charges nothing either.
\<close>

theorem explain_is_the_polls_decision:
  assumes "healthy w" and "set metadata_tables \<subseteq> set (t_tables (w_db w))"
    and "Explain req w = (Inr res, w')" and "decide_all w = (Inr ds, w'')"
    and "\<forall>t \<in> set (active_targets (w_db w)). rc_traffic_id (arc_client t) = ct_id (xs_client res) \<longrightarrow>
      t \<in> set (validTargetsForClient (xs_client res) (active_targets (w_db w)))"
  shows "filter (\<lambda>d. d_traffic_id d = ct_id (xs_client res)) ds =
      (if validTargetsForClient (xs_client res) (active_targets (w_db w)) = [] then [] else [xs_decision res]) \<and>
    (validTargetsForClient (xs_client res) (active_targets (w_db w)) = [] \<longrightarrow> d_target (xs_decision res) = None)"
proof -
  let ?c = "xs_client res"
  let ?ts = "active_targets (w_db w)" and ?es = "active_excludes (w_db w)" and ?os = "active_overrides (w_db w)"
  let ?valid = "validTargetsForClient ?c ?ts"
  have dec: "Decide (tick_candidates ?ts ?es ?os) = Inr ds"
    using assms(1,4)
    by (auto simp: decide_all_def ListActiveRuleClients_def ListActiveExcludes_def ListActiveOverrides_def tx_simps
        split: sum.splits if_splits)
  have own: "candidates_of (ct_id ?c) (tick_candidates ?ts ?es ?os) = tick_candidates ?valid ?es ?os"
    unfolding validTargetsForClient_def using assms(5) by (intro own_candidates) (auto simp: validTargetsForClient_def)
  show ?thesis
  proof (cases "?valid = []")
    case True
    then have "candidates_of (ct_id ?c) (tick_candidates ?ts ?es ?os) = []"
      by (simp add: own) (simp add: tick_candidates_def ActiveRuleCandidates_def override_candidates_eq
          target_for_key_def ExcludeCandidatesForActiveTargets_def)
    with True polls_decisions(1) [OF dec] no_target_no_charge [OF explained [OF assms(1-3)]] show ?thesis by simp
  next
    case False
    have cands: "ClientCandidates ?c ?valid ?es ?os = tick_candidates ?valid ?es ?os"
      using False by (intro ClientCandidates_eq) (auto simp: validTargetsForClient_def target_key_def)
    have some: "tick_candidates ?valid ?es ?os \<noteq> []"
      using False by (simp add: tick_candidates_def ActiveRuleCandidates_def)
    have "decideOne (ct_id ?c) (tick_candidates ?valid ?es ?os) = Inr (xs_decision res)"
      using explained [OF assms(1-3)] some
      by (auto simp: decideLoadedClient_def cands DecideClient_def split: sum.splits if_splits)
    with False polls_decisions(2) [OF dec] own some show ?thesis by simp
  qed
qed

section \<open>A disabled client\<close>

text \<open>The panel's one client, enrolled by \<open>enable-all --factor 1.5\<close>, then disabled after some more traffic.\<close>

definition all_request :: EnableAllRequest where
  "all_request = \<lparr>ea_factor = ''1.5'', ea_inbound_id = None, ea_limited_only = False,
     ea_include_disabled_clients = False, ea_once = False, ea_name = []\<rparr>"

definition scope_row :: RuleRow where
  "scope_row = sample_rule\<lparr>rr_inbound_id := Some 0, rr_email := []\<rparr>"

definition all_result :: BulkResult where
  "all_result = (no_bulk ''persistent'')\<lparr>br_matched := 1, br_changed := 1\<rparr>"

definition scoped_db :: Database where
  "scoped_db = insert_event (Some 1) EventRuleEnabled ''persistent scope enabled by enable-all'' 10
     (panel_db\<lparr>t_rules := [scope_row], t_scopes := [sample_scope 1], t_rule_clients := [sample_baseline], t_seq_rules := 1\<rparr>)"

lemma enable_all_runs:
  "EnableAll all_request 10 (sqlite_world [] panel_db) = (Inr all_result, sqlite_world [] scoped_db)"
proof -
  have factor: "ParseFactor ''1.5'' = Inr 1500000" by (simp add: ParseFactor_eval)
  have "trim_space [] = []" by (simp add: trim_space_graphic graphic_def)
  then have "EnableAll_body all_request 1500000 10 (sqlite_world [] panel_db) =
      (Inr all_result, sqlite_world [] scoped_db)"
    by (simp add: EnableAll_body_def run_defs ListClientCandidates_def candidate_row_def in_inbound_def scan_client_def
        rejectDuplicateClientIDs.simps enableAllPersistent_def FindActivePersistentScope_def scope_rules_def create_scope_rule_def
        CreateRule_def insertReturningID_def insert_rule_def new_rule_def nullif_empty_def CreateScope_def request_scope_def
        scopedRuleInboundID_def created_scope_def enroll_candidate_def RuleClientExists_def RulesForTrafficInStates_def
        rules_for_traffic_def CreateRuleClient_def insert_rule_client_def new_rule_client_def 
        all_request_def panel_db_def scoped_db_def scope_row_def sample_scope_def sample_defs all_result_def no_bulk_def is_rc_def
        ReconcileTx_def ListRulesInStates_def ListActivePersistentScopes_def scope_of_def reconcilePolicies_def
        ListActiveExcludes_def ListActiveOverrides_def active_excludes_def active_overrides_def no_reconcile_def enableAsIntExpr_def)
  then show ?thesis
    by (simp add: WithImmediateTx_ok EnableAll_def factor all_request_def from_result_run)
qed

text \<open>The panel disables the client after some more traffic.\<close>

definition disabled_row :: TrafficRow where
  "disabled_row = sample_row\<lparr>tr_enable := EnableInt 0, tr_up := 1100, tr_down := 2200\<rparr>"

definition disabled_db :: Database where
  "disabled_db = scoped_db\<lparr>t_client_traffics := [disabled_row]\<rparr>"

lemma reachable_disabled: "reachable disabled_db"
proof -
  have "step panel_db scoped_db"
    using step.command_step [of "sqlite_world [] panel_db" panel_db "RunEnableAll all_request" 10000]
    by (simp add: finish_def bind_tx_def enable_all_runs)
  moreover have "step scoped_db disabled_db"
    by (rule step.panel_step) (simp_all add: disabled_db_def metadata_def in_range_def in_i64_bounds disabled_row_def sample_row_def)
  ultimately show ?thesis using reachable.follow [OF reachable.follow [OF reachable_panel]] by blast
qed

definition explain_request :: ExplainRequest where
  "explain_request = \<lparr>xr_email = ''a@b'', xr_inbound_id = Some 1\<rparr>"

lemmas disabled_defs = disabled_db_def disabled_row_def scoped_db_def panel_db_def scope_row_def sample_scope_def sample_defs
  insert_event_def Let_def

definition scope_target :: ActiveRuleClient where
  "scope_target = \<lparr>arc_rule = scanRuleWithScope scope_row (Some (sample_scope 1)), arc_client = sample_baseline\<rparr>"

lemma disabled_inputs:
  "active_targets disabled_db = [scope_target]" "active_excludes disabled_db = []" "active_overrides disabled_db = []"
  by (simp_all add: active_targets_def active_excludes_def active_overrides_def scope_of_def disabled_defs scope_target_def)

lemma disabled_tables: "set metadata_tables \<subseteq> set (t_tables disabled_db)"
  by (simp add: metadata_tables_def disabled_defs)

lemma find_disabled:
  "FindClient ''a@b'' (Some 1) (sqlite_world [] disabled_db) =
    (Inr (scan_client DriverSQLite disabled_row), sqlite_world [] disabled_db)"
  by (simp add: FindClient_def run_defs in_inbound_def clientInboundMembership_def disabled_defs)

lemma explain_disabled:
  "\<exists>res. Explain explain_request (sqlite_world [] disabled_db) = (Inr res, sqlite_world [] disabled_db) \<and>
    ExplainResultText res = ''no active matching rule, scope, override, or exclude''"
proof -
  let ?w = "sqlite_world [] disabled_db" and ?c = "scan_client DriverSQLite disabled_row"
  have "validTargetsForClient ?c [scope_target] = []"
    by (simp add: validTargetsForClient_def targetAllowsClient_def scope_target_def disabled_row_def sample_scope_def
        enableAsIntExpr_def)
  then have "decideLoadedClient ?c [scope_target] [] [] = DecideClient ?c []"
    by (simp add: decideLoadedClient_def DecideClient_def ClientCandidates_def ActiveRuleCandidates_def
        OverrideCandidatesForActiveTargets_def ExcludeCandidatesForActiveTargets_def)
  then have "effectiveDecisionForClient ?c ?w = (DecideClient ?c [], ?w)"
    by (simp add: effectiveDecisionForClient_def bind_tx_run effectiveInputs_run disabled_inputs disabled_tables
        from_result_def DecideClient_def)
  then show ?thesis
    by (simp add: Explain_def explain_request_def normalizeEmail_def trim_space_graphic graphic_def from_result_def
        WithReadTx_def run_defs conn_call_healthy run_body_def Explain_body_def find_disabled DecideClient_def ExplainResultText_def)
      (simp add: sqlite_world_def)
qed

text \<open>The poll charges the same client half of its new traffic.\<close>

definition charged_row :: TrafficRow where
  "charged_row = disabled_row\<lparr>tr_up := 1150, tr_down := 2300\<rparr>"

lemma disabled_reconcile:
  "0 < now \<Longrightarrow> ReconcileTx now \<lparr>rq_inbound_id = None, rq_dry_run = False\<rparr> (sqlite_world [] disabled_db) =
    (Inr no_reconcile, sqlite_world [] disabled_db)"
  "reconcileScopes now (sqlite_world [] disabled_db) = (Inr (0, 0), sqlite_world [] disabled_db)"
  by (simp_all add: ReconcileTx_def run_defs ListRulesInStates_def ListActivePersistentScopes_def scope_of_def
      reconcilePolicies_def ListActiveExcludes_def ListActiveOverrides_def active_excludes_def active_overrides_def no_reconcile_def scope_rules_def
      reconcileScopes_def enroll_scope_def ListClientCandidates_def candidate_row_def disabled_defs
      scanScopeRule_simps)

lemma lone_target_decision:
  assumes "active_targets d = [t]" and "active_excludes d = []" and "active_overrides d = []"
  shows "decide_all (sqlite_world [] d) = (Inr [decision_of (rule_candidate t) []], sqlite_world [] d)"
proof -
  have "Decide (tick_candidates [t] [] []) = Inr [decision_of (rule_candidate t) []]"
    by (simp add: tick_candidates_def ActiveRuleCandidates_def OverrideCandidatesForActiveTargets_def
        ExcludeCandidatesForActiveTargets_def Decide_def decideOne_def)
  then show ?thesis
    by (simp add: decide_all_def run_defs ListActiveRuleClients_def ListActiveExcludes_def ListActiveOverrides_def assms)
qed

lemma disabled_charge:
  "\<exists>step d. tickTarget no_hook scope_target now (sqlite_world [] disabled_db) = (Inr step, sqlite_world [] d) \<and>
    t_client_traffics d = [charged_row] \<and> tg_deferred step = 0"
  by (simp add: tickTarget_def no_target_result_def run_defs LockClientTraffic_def clientTrafficByID_def tickCurrent_def tickDeltas_def
      applyExtra_def calculateExtra_def counterDelta_def safeAdd_def go_div_def go_mod_def in_i64_bounds no_hook_def
      UpdateClientCountersCAS_def UpdateRuleClientBaseline_def cas_match_def scope_target_def wrap64_def FactorScale_def MaxInt64_def
      charged_row_def disabled_defs is_rc_def)

lemma disabled_tick:
  assumes "1000 \<le> clock"
  shows "\<exists>res log d. Tick tick_config no_hook clock (sqlite_world [] disabled_db) = (Inr (res, log), sqlite_world [] d) \<and>
    t_client_traffics d = [charged_row] \<and> tk_deferred res = 0"
proof -
  let ?now = "clock div 1000" and ?w = "sqlite_world [] disabled_db"
  have now: "0 < ?now" using assms by (simp add: pos_imp_zdiv_pos_iff)
  obtain step d where charge: "tickTarget no_hook scope_target ?now ?w = (Inr step, sqlite_world [] d)"
    and row: "t_client_traffics d = [charged_row]" "tg_deferred step = 0" using disabled_charge by blast
  have role: "PanelRole_tx clock ?w = (Inr \<lparr>pr_nodes = 0, pr_managed = False\<rparr>, ?w)"
    by (simp add: PanelRole_tx_def run_defs disabled_defs)
  have "\<exists>res. Tick_body tick_config no_hook clock ?w = (Inr res, sqlite_world [] d) \<and> tk_deferred res = 0"
    unfolding Tick_body_def Let_def
    by (simp add: bind_tx_run role disabled_reconcile(1) [OF now] disabled_reconcile(2) lone_target_decision [OF disabled_inputs] tick_config_def decision_step_def
        decision_of_def rule_candidate_def charge add_target_def row(2))
  then obtain res where res: "Tick_body tick_config no_hook clock ?w = (Inr res, sqlite_world [] d)" "tk_deferred res = 0" by blast
  then have "WithImmediateTx (Tick_body tick_config no_hook clock) ?w = (Inr res, sqlite_world [] d)"
    by (simp add: WithImmediateTx_ok)
  then show ?thesis
    using row res(2) by (simp add: Tick_def run_defs runAutoCleanup_def tick_config_def)
qed

text \<open>
  C30. \<open>explain\<close> looks at the client's enable flag, the poll does not. In this reachable database the panel has
  disabled the one client of a persistent scope after some more traffic: \<open>explain\<close> answers that no rule,
  scope, override or exclude matches it, and the next poll charges the client under that scope.
\<close>

theorem explain_denies_a_charge:
  assumes "1000 \<le> clock"
  shows "reachable disabled_db \<and>
    (\<exists>res. Explain explain_request (sqlite_world [] disabled_db) = (Inr res, sqlite_world [] disabled_db) \<and>
      ExplainResultText res = ''no active matching rule, scope, override, or exclude'') \<and>
    t_client_traffics disabled_db = [disabled_row] \<and>
    (\<exists>result d. Tick tick_config no_hook clock (sqlite_world [] disabled_db) = (Inr result, sqlite_world [] d) \<and>
      t_client_traffics d = [charged_row])"
  using reachable_disabled explain_disabled disabled_tick [OF assms] by (auto simp: disabled_db_def)

theorem explain_denies_a_charge_witness:
  "reachable disabled_db \<and> (\<exists>result d. Tick tick_config no_hook 100000 (sqlite_world [] disabled_db) = (Inr result, sqlite_world [] d) \<and>
      t_client_traffics d = [charged_row])"
  using explain_denies_a_charge [of 100000] by simp

section \<open>An enabled client\<close>

lemma enabled_inputs:
  "active_targets enabled_db = [\<lparr>arc_rule = scanRuleWithScope sample_rule None, arc_client = sample_baseline\<rparr>]"
  "active_excludes enabled_db = []" "active_overrides enabled_db = []"
  "set metadata_tables \<subseteq> set (t_tables enabled_db)"
  by (simp_all add: active_targets_def active_excludes_def active_overrides_def scope_of_def enabled_db_def panel_db_def
      insert_event_def metadata_tables_def sample_defs Let_def)

lemma enabled_decision:
  "decideLoadedClient (scan_client DriverSQLite sample_row) (active_targets enabled_db) [] [] =
    Inr (decision_of (rule_candidate \<lparr>arc_rule = scanRuleWithScope sample_rule None, arc_client = sample_baseline\<rparr>) [])"
  by (simp add: enabled_inputs decideLoadedClient_def validTargetsForClient_def targetAllowsClient_def ClientCandidates_def
      DecideClient_def decideOne_def ActiveRuleCandidates_def OverrideCandidatesForActiveTargets_def
      ExcludeCandidatesForActiveTargets_def sample_defs enableAsIntExpr_def)

lemma explain_enabled:
  "\<exists>res. Explain explain_request (sqlite_world [] enabled_db) = (Inr res, sqlite_world [] enabled_db) \<and>
    xs_client res = scan_client DriverSQLite sample_row"
proof -
  let ?w = "sqlite_world [] enabled_db"
  have find: "FindClient ''a@b'' (Some 1) ?w = (Inr (scan_client DriverSQLite sample_row), ?w)"
    by (simp add: FindClient_def run_defs in_inbound_def clientInboundMembership_def enabled_db_def panel_db_def sample_defs)
  show ?thesis
    by (simp add: Explain_def explain_request_def normalizeEmail_def trim_space_graphic graphic_def from_result_def
        WithReadTx_def run_defs conn_call_healthy run_body_def Explain_body_def find effectiveDecisionForClient_def
        effectiveInputs_run enabled_inputs(2-4) enabled_decision)
      (simp add: sqlite_world_def)
qed

theorem explain_is_the_polls_decision_witness:
  "\<exists>res d. Explain explain_request (sqlite_world [] enabled_db) = (Inr res, sqlite_world [] enabled_db) \<and>
    decide_all (sqlite_world [] enabled_db) = (Inr [d], sqlite_world [] enabled_db) \<and> xs_decision res = d"
proof -
  let ?w = "sqlite_world [] enabled_db"
  let ?t = "\<lparr>arc_rule = scanRuleWithScope sample_rule None, arc_client = sample_baseline\<rparr>"
  obtain res where res: "Explain explain_request ?w = (Inr res, ?w)" "xs_client res = scan_client DriverSQLite sample_row"
    using explain_enabled by blast
  note polled = lone_target_decision [OF enabled_inputs(1-3)]
  have "filter (\<lambda>d. d_traffic_id d = 7) [decision_of (rule_candidate ?t) []] = [xs_decision res]"
    using explain_is_the_polls_decision [OF _ _ res(1) polled] enabled_inputs(4)
    by (simp add: res(2) enabled_inputs(1) validTargetsForClient_def targetAllowsClient_def sample_row_def
        sample_baseline_def enableAsIntExpr_def)
  then have "xs_decision res = decision_of (rule_candidate ?t) []" by (simp split: if_splits)
  with res(1) polled show ?thesis by blast
qed

end
