(* ===== verification/XF_Audit.thy ===== *)
theory XF_Audit
  imports XF_Effective "HOL-Library.Multiset"
begin

text \<open>
  The audit log is text that the program reads back: \<open>audit\<close> filters events by what
  \<open>hydrateEventFromMessage\<close> finds in the message, and \<open>report\<close> adds up the amounts \<open>eventExtraBytes\<close> finds
  there. Here the message of a charge is parsed back to the amounts the tick wrote into it.
\<close>

section \<open>The words of a charge\<close>

lemma graphic_itoa: "list_all graphic (itoa n)" "itoa n \<noteq> []"
proof -
  have digits: "list_all graphic (nat_digits k)" for k
    using nat_digits_digits [of k] by (auto simp: list_all_iff)
  then show "list_all graphic (itoa n)" "itoa n \<noteq> []" by (simp_all add: itoa_def graphic_def)
qed

lemma itoa_chars: "c \<in> set (itoa n) \<Longrightarrow> is_digit c \<or> c = CHR ''-''"
  using nat_digits_digits by (fastforce simp: itoa_def list_all_iff split: if_splits)

text \<open>An e-mail that is one word, without an equals sign, and does not begin or end in punctuation.\<close>

definition plain_email :: "string \<Rightarrow> bool" where
  "plain_email e \<longleftrightarrow> e \<noteq> [] \<and> list_all graphic e \<and> CHR ''='' \<notin> set e \<and> hd e \<notin> set punctuation \<and> last e \<notin> set punctuation"

definition word_like :: "string \<Rightarrow> bool" where
  "word_like w \<longleftrightarrow> list_all graphic w \<and> w \<noteq> []"

fun join_words :: "string list \<Rightarrow> string" where
  "join_words [] = []"
| "join_words [w] = w"
| "join_words (w # ws) = w @ CHR '' '' # join_words ws"

lemma str_fields_join: "list_all word_like ws \<Longrightarrow> ws \<noteq> [] \<Longrightarrow> str_fields (join_words ws) = ws"
  by (induction ws rule: join_words.induct) (simp_all add: word_like_def str_fields_word)

lemma plain_word: "plain_email e \<Longrightarrow> word_like e"
  by (simp add: plain_email_def word_like_def)

lemma applied_words:
  assumes "word_like (rc_email (arc_client t))"
  shows "str_fields (applied_message t u v) =
    [''traffic'', ''id'', itoa (rc_traffic_id (arc_client t)), ''inbound'', itoa (rc_inbound_id (arc_client t)), ''email'',
     rc_email (arc_client t), ''extra_up='' @ itoa u, ''extra_down='' @ itoa v]"
proof -
  have "applied_message t u v = join_words [''traffic'', ''id'', itoa (rc_traffic_id (arc_client t)), ''inbound'',
      itoa (rc_inbound_id (arc_client t)), ''email'', rc_email (arc_client t), ''extra_up='' @ itoa u, ''extra_down='' @ itoa v]"
    by (simp add: applied_message_def)
  moreover have "list_all word_like [''traffic'', ''id'', itoa (rc_traffic_id (arc_client t)), ''inbound'',
      itoa (rc_inbound_id (arc_client t)), ''email'', rc_email (arc_client t), ''extra_up='' @ itoa u, ''extra_down='' @ itoa v]"
    using assms by (simp add: word_like_def graphic_itoa) (simp add: graphic_def)
  ultimately show ?thesis by (metis list.distinct(1) str_fields_join)
qed

lemma itoa_plain:
  assumes "c \<in> set (itoa n)"
  shows "c \<notin> set punctuation" and "c \<noteq> CHR ''=''"
proof -
  have "is_digit c \<or> c = CHR ''-''" by (rule itoa_chars [OF assms])
  then show "c \<notin> set punctuation" and "c \<noteq> CHR ''=''"
    by (auto simp: punctuation_def is_digit_def)
qed

lemma itoa_ends: "hd (itoa n) \<notin> set punctuation" "last (itoa n) \<notin> set punctuation"
  by (rule itoa_plain, rule hd_in_set last_in_set, rule graphic_itoa)+

lemma trim_itoa: "trim_set punctuation (itoa n) = itoa n"
  by (rule trim_set_id) (rule graphic_itoa itoa_ends)+

lemma trim_amount:
  "trim_set punctuation (''extra_up='' @ itoa n) = ''extra_up='' @ itoa n"
  "trim_set punctuation (''extra_down='' @ itoa n) = ''extra_down='' @ itoa n"
  using itoa_ends(2) [of n] graphic_itoa(2) [of n] by (auto intro!: trim_set_id simp: punctuation_def)

lemma trim_plain: "plain_email e \<Longrightarrow> trim_set punctuation e = e"
  by (simp add: plain_email_def trim_set_id)

lemma trim_literals:
  "trim_set punctuation ''traffic'' = ''traffic''" "trim_set punctuation ''id'' = ''id''"
  "trim_set punctuation ''inbound'' = ''inbound''" "trim_set punctuation ''email'' = ''email''"
  by (simp_all add: trim_set_def punctuation_def)

lemmas trimmed_words = trim_itoa trim_amount trim_plain trim_literals

text \<open>The amounts: saturated at the largest int64.\<close>

lemma saturatingAdd_min:
  "0 \<le> a \<Longrightarrow> a \<le> MaxInt64 \<Longrightarrow> 0 \<le> b \<Longrightarrow> b \<le> MaxInt64 \<Longrightarrow> saturatingAdd a b = min MaxInt64 (a + b)"
  by (auto simp: saturatingAdd_def MaxInt64_def in_i64_bounds wrap64_id min_def)

lemma cut_itoa: "cut_on CHR ''='' (itoa n) = None"
  by (rule cut_on_none) (auto dest: itoa_plain(2))

lemma cut_amount:
  "cut_on CHR ''='' (''extra_up='' @ itoa n) = Some (''extra_up'', itoa n)"
  "cut_on CHR ''='' (''extra_down='' @ itoa n) = Some (''extra_down'', itoa n)"
  using cut_on_append [of "CHR ''=''" "''extra_up''" "itoa n"] cut_on_append [of "CHR ''=''" "''extra_down''" "itoa n"]
  by simp_all

lemma charge_amount:
  assumes "plain_email (rc_email (arc_client t))" and "0 \<le> u" and "u \<le> MaxInt64" and "0 \<le> v" and "v \<le> MaxInt64"
  shows "eventExtraBytes (applied_message t u v) = (min MaxInt64 (u + v), True)"
proof -
  have parse: "parse_int64 (itoa u) = Some u" "parse_int64 (itoa v) = Some v"
    using assms(2-) by (simp_all add: parse_itoa in_i64_nonneg)
  have cut_email: "cut_on CHR ''='' (rc_email (arc_client t)) = None"
    using assms(1) by (simp add: plain_email_def cut_on_none)
  have sum: "saturatingAdd 0 u = u" "saturatingAdd u v = min MaxInt64 (u + v)"
    using assms(2-) by (simp_all add: saturatingAdd_min min_def)
  show ?thesis
    using assms cut_amount trim_amount
    by (simp add: eventExtraBytes_def applied_words [OF plain_word [OF assms(1)]] trimmed_words cut_itoa cut_email parse sum)
qed

text \<open>The client: e-mail and inbound, and no policy.\<close>

lemma no_prefix: "CHR ''='' \<notin> set w \<Longrightarrow> \<not> has_prefix ''inbound='' w \<and> \<not> has_prefix ''email='' w"
proof -
  assume w: "CHR ''='' \<notin> set w"
  have "CHR ''='' \<in> set w" if "has_prefix p w" "CHR ''='' \<in> set p" for p
    using that set_take_subset by (metis has_prefix_def subsetD)
  with w show ?thesis by fastforce
qed

lemma hydrate_itoa: "hydrate_word (itoa n) rest ev = ev"
proof -
  have "hd (itoa n) \<noteq> CHR ''p''" "hd (itoa n) \<noteq> CHR ''i''" "hd (itoa n) \<noteq> CHR ''e''"
    using itoa_chars [OF hd_in_set [OF graphic_itoa(2)], of n] by (auto simp: is_digit_def)
  then have "itoa n \<noteq> ''policy''" "itoa n \<noteq> ''inbound''" "itoa n \<noteq> ''email''" by auto
  then show ?thesis
    using no_prefix [of "itoa n"] itoa_plain(2) [of "CHR ''=''" n] by (auto simp: hydrate_word_def trim_itoa Let_def)
qed

lemma hydrate_amount: "hydrate_word (''extra_up='' @ itoa n) rest ev = ev" "hydrate_word (''extra_down='' @ itoa n) rest ev = ev"
  using trim_amount by (simp_all add: hydrate_word_def has_prefix_def)

lemma parse_amount: "parse_int64 (trim_set punctuation (''extra_up='' @ itoa n)) = None"
  using trim_amount by (simp add: parse_int64_def is_digit_def)

lemma set_trim: "set (trim_set cs s) \<subseteq> set s"
  unfolding trim_set_def by (auto dest!: set_dropWhileD)

lemma hydrate_email:
  assumes "CHR ''='' \<notin> set e" and "trim_set punctuation e \<noteq> ''email''"
  shows "hydrate_word e ((''extra_up='' @ itoa n) # rest) ev = ev"
proof -
  have "CHR ''='' \<notin> set (trim_set punctuation e)" using assms(1) set_trim by blast
  with assms(2) no_prefix [of "trim_set punctuation e"] parse_amount [of n] show ?thesis by (simp add: hydrate_word_def Let_def)
qed

lemma charge_identity:
  assumes "word_like (rc_email (arc_client t))" and "CHR ''='' \<notin> set (rc_email (arc_client t))"
    and "trim_set punctuation (rc_email (arc_client t)) \<noteq> ''email''"
    and "in_i64 (rc_inbound_id (arc_client t))" and "e_message ev = applied_message t u v"
  shows "hydrateEventFromMessage ev =
    ev\<lparr>e_inbound_id := Some (rc_inbound_id (arc_client t)), e_email := trim_set punctuation (rc_email (arc_client t))\<rparr>"
proof -
  have "hydrate_word ''traffic'' ws x = x" "hydrate_word ''id'' ws x = x"
    "hydrate_word ''inbound'' (itoa (rc_inbound_id (arc_client t)) # ws) x = x\<lparr>e_inbound_id := Some (rc_inbound_id (arc_client t))\<rparr>"
    "hydrate_word ''email'' (e # ws) x = x\<lparr>e_email := trim_set punctuation e\<rparr>" for ws x e
    using assms(4) by (simp_all add: hydrate_word_def trim_literals has_prefix_def trim_itoa parse_itoa)
  then show ?thesis
    using hydrate_email [OF assms(2,3)] hydrate_amount
    by (simp add: hydrateEventFromMessage_def assms(5) applied_words assms(1) hydrate_itoa)
qed

text \<open>
  C32. For a client with a plain e-mail - one printable word without an equals sign that neither starts nor ends in
  punctuation and is not the word \<open>email\<close> - the audit log reads back what the tick wrote: from the message of a charge,
  \<open>report\<close> takes exactly the bytes added in both directions (saturated at the largest int64), and \<open>audit\<close> takes the
  client's inbound and e-mail and no policy. An e-mail that starts or ends in punctuation is not read back:
  \<open>audit_loses_punctuation\<close> below shows \<open>bob.\<close> read as \<open>bob\<close>.
\<close>

theorem charge_reads_back:
  assumes "plain_email (rc_email (arc_client t))" and "rc_email (arc_client t) \<noteq> ''email''"
    and "in_i64 (rc_inbound_id (arc_client t))" and "0 \<le> u" and "u \<le> MaxInt64" and "0 \<le> v" and "v \<le> MaxInt64"
    and "e_message ev = applied_message t u v"
  shows "eventExtraBytes (e_message ev) = (min MaxInt64 (u + v), True) \<and>
    hydrateEventFromMessage ev = ev\<lparr>e_inbound_id := Some (rc_inbound_id (arc_client t)), e_email := rc_email (arc_client t)\<rparr>"
  using charge_amount [OF assms(1,4-7)] charge_identity [of t ev u v] assms(1-3,8) plain_word trim_plain
  by (simp add: plain_email_def)

text \<open>
  The e-mail is read back without the punctuation around it, and replaces the right one taken from the rule. So when a
  client's e-mail begins or ends in punctuation, a charge shows another client, and \<open>audit --email\<close> with the client's
  own e-mail drops the event, whatever else the filter asks for.
\<close>

theorem audit_loses_punctuation:
  assumes "word_like (rc_email (arc_client t))" and "CHR ''='' \<notin> set (rc_email (arc_client t))"
    and "trim_set punctuation (rc_email (arc_client t)) \<notin> {''email'', rc_email (arc_client t)}"
    and "in_i64 (rc_inbound_id (arc_client t))" and "e_message ev = applied_message t u v"
  shows "e_email (hydrateEventFromMessage ev) = trim_set punctuation (rc_email (arc_client t)) \<and>
    \<not> eventMatchesFilter (flt\<lparr>ef_email := rc_email (arc_client t)\<rparr>) (hydrateEventFromMessage ev)"
proof -
  have "trim_space (rc_email (arc_client t)) = rc_email (arc_client t)"
    using assms(1) by (intro trim_space_graphic) (simp add: word_like_def list_all_iff)
  with assms charge_identity [of t ev u v] show ?thesis by (simp add: eventMatchesFilter_def word_like_def)
qed

definition dotted_target :: ActiveRuleClient where
  "dotted_target = sample_target\<lparr>arc_client := sample_baseline\<lparr>rc_email := ''bob.''\<rparr>\<rparr>"

definition dotted_event :: Event where
  "dotted_event = \<lparr>e_id = 1, e_rule_id = Some 1, e_policy_id = None, e_type = EventTrafficApply,
     e_message = applied_message dotted_target 50 100, e_created_at = 10, e_email = ''bob.'', e_inbound_id = None\<rparr>"

theorem audit_loses_punctuation_witness:
  "e_email (hydrateEventFromMessage dotted_event) = ''bob'' \<and>
   \<not> eventMatchesFilter ((no_filter None)\<lparr>ef_email := ''bob.''\<rparr>) (hydrateEventFromMessage dotted_event)"
  using audit_loses_punctuation [of dotted_target dotted_event 50 100 "no_filter None"]
  by (simp add: dotted_event_def dotted_target_def sample_target_def sample_baseline_def word_like_def graphic_def
      trim_set_def punctuation_def in_i64_bounds)

section \<open>The sum of the charges\<close>

definition event_extra :: "Event \<Rightarrow> int" where
  "event_extra ev = fst (eventExtraBytes (e_message ev))"

definition counted_event :: "Event \<Rightarrow> bool" where
  "counted_event ev \<longleftrightarrow> snd (eventExtraBytes (e_message ev)) \<and> 0 \<le> event_extra ev \<and> event_extra ev \<le> MaxInt64"

lemma add_impact_counted:
  assumes "counted_event ev" and "0 \<le> ti_extra_bytes impact" and "ti_extra_bytes impact \<le> MaxInt64"
  shows "ti_extra_bytes (add_impact ev impact) = min MaxInt64 (ti_extra_bytes impact + event_extra ev)"
    and "ti_applications (add_impact ev impact) = ti_applications impact + 1"
  using assms
  by (auto simp: add_impact_def counted_event_def event_extra_def saturatingAdd_min Let_def split: prod.splits)

lemma fold_impact:
  "\<forall>ev \<in> set evs. counted_event ev \<Longrightarrow> 0 \<le> ti_extra_bytes impact \<Longrightarrow> ti_extra_bytes impact \<le> MaxInt64 \<Longrightarrow>
    ti_extra_bytes (fold add_impact evs impact) = min MaxInt64 (ti_extra_bytes impact + sum_list (map event_extra evs)) \<and>
    ti_applications (fold add_impact evs impact) = ti_applications impact + int (length evs)"
proof (induction evs arbitrary: impact)
  case (Cons ev evs)
  have ev: "counted_event ev" "0 \<le> event_extra ev" using Cons.prems(1) by (simp_all add: counted_event_def)
  note step = add_impact_counted [OF ev(1) Cons.prems(2,3)]
  have "0 \<le> sum_list (map event_extra evs)"
    using Cons.prems(1) by (intro sum_list_nonneg) (auto simp: counted_event_def)
  with Cons.IH [of "add_impact ev impact"] Cons.prems ev step show ?case by (auto simp: min_def)
qed simp

lemma hydrate_message: "e_message (hydrateEventFromMessage ev) = e_message ev"
proof -
  have "e_message (hydrate_word w ws x) = e_message x" for w ws x
    by (simp add: hydrate_word_def Let_def split: option.split)
  then have "e_message (hydrate_words ws x) = e_message x" for ws x
    by (induction ws x rule: hydrate_words.induct) simp_all
  then show ?thesis by (simp add: hydrateEventFromMessage_def)
qed

lemma apply_name: "event_type_name e = event_type_name EventTrafficApply \<longleftrightarrow> e = EventTrafficApply"
  by (cases e) simp_all

lemma sum_list_same:
  fixes f :: "'a \<Rightarrow> int"
  assumes "mset xs = mset ys"
  shows "sum_list (map f xs) = sum_list (map f ys)"
  using assms by (metis mset_map sum_mset_sum_list)

definition apply_events :: "Database \<Rightarrow> EventRow list" where
  "apply_events d = filter (\<lambda>e. ev_type e = EventTrafficApply) (t_events d)"

lemma listed_apply_events:
  assumes "healthy w"
  shows "\<exists>evs. ListEvents ((no_filter None)\<lparr>ef_event_type := event_type_name EventTrafficApply, ef_limit := -1\<rparr>) w = (Inr evs, w) \<and>
    map e_message evs = map ev_message (rev (sort_key ev_id (apply_events (w_db w))))"
proof -
  have name: "trim_space (event_type_name EventTrafficApply) = event_type_name EventTrafficApply" "trim_space [] = []"
    by (simp_all add: trim_space_graphic graphic_def)
  then have "event_where ((no_filter None)\<lparr>ef_event_type := event_type_name EventTrafficApply, ef_limit := -1\<rparr>) =
      (\<lambda>e. ev_type e = EventTrafficApply)"
    by (intro ext) (simp add: event_where_def no_filter_def apply_name del: event_type_name.simps, simp)
  moreover have "eventMatchesFilter ((no_filter None)\<lparr>ef_event_type := event_type_name EventTrafficApply, ef_limit := -1\<rparr>) = (\<lambda>_. True)"
    by (intro ext) (simp add: eventMatchesFilter_def no_filter_def name(2))
  ultimately show ?thesis
    using assms name
    by (simp add: ListEvents_def Let_def tx_simps apply_events_def limited_def no_filter_def o_def hydrate_message
        scan_event_def del: event_type_name.simps)
qed

text \<open>
  C31. The report adds up: when the message of every charge in the log was written by a tick, for a client
  whose e-mail can be read back, \<open>TrafficImpact\<close> gives the number of charges and the sum of all the
  bytes they added, saturated at the largest int64.
\<close>

theorem report_adds_up:
  assumes "healthy w" and "\<forall>e \<in> set (apply_events (w_db w)). ev_message e = applied_message (target e) (up e) (down e) \<and>
      plain_email (rc_email (arc_client (target e))) \<and> 0 \<le> up e \<and> 0 \<le> down e \<and> up e + down e \<le> MaxInt64"
  shows "\<exists>impact. TrafficImpact_tx (no_filter None) w = (Inr impact, w) \<and>
    ti_applications impact = int (length (apply_events (w_db w))) \<and>
    ti_extra_bytes impact = min MaxInt64 (sum_list (map (\<lambda>e. up e + down e) (apply_events (w_db w))))"
proof -
  let ?rows = "rev (sort_key ev_id (apply_events (w_db w)))"
  obtain evs where evs: "ListEvents ((no_filter None)\<lparr>ef_event_type := event_type_name EventTrafficApply, ef_limit := -1\<rparr>) w = (Inr evs, w)"
    and messages: "map e_message evs = map ev_message ?rows" using listed_apply_events [OF assms(1)] by blast
  have amount: "eventExtraBytes (ev_message e) = (up e + down e, True)" if "e \<in> set (apply_events (w_db w))" for e
    using assms(2) that charge_amount [of "target e" "up e" "down e"] by (auto simp: min_def)
  have "map (\<lambda>ev. eventExtraBytes (e_message ev)) evs = map (\<lambda>e. (up e + down e, True)) ?rows"
    using arg_cong [OF messages, of "map eventExtraBytes"] amount by (simp add: o_def)
  note pairs = this
  have extras: "map event_extra evs = map (\<lambda>e. up e + down e) ?rows"
    using arg_cong [OF pairs, of "map fst"] by (simp add: o_def event_extra_def [abs_def])
  have counted: "counted_event ev" if "ev \<in> set evs" for ev
  proof -
    have "eventExtraBytes (e_message ev) \<in> set (map (\<lambda>e. (up e + down e, True)) ?rows)"
      using that by (simp only: pairs [symmetric]) simp
    then show ?thesis using assms(2) by (auto simp: counted_event_def event_extra_def)
  qed
  have "length evs = length (apply_events (w_db w))" using arg_cong [OF messages, of length] by simp
  moreover have "sum_list (map event_extra evs) = sum_list (map (\<lambda>e. up e + down e) (apply_events (w_db w)))"
    unfolding extras by (rule sum_list_same) simp
  ultimately show ?thesis
    using fold_impact [of evs "\<lparr>ti_extra_bytes = 0, ti_applications = 0, ti_last_applied_at = None\<rparr>"] counted
    by (simp add: TrafficImpact_tx_def bind_tx_run evs MaxInt64_def del: event_type_name.simps)
qed

text \<open>A log with two charges.\<close>

definition charged_log :: Database where
  "charged_log = insert_event (Some 1) EventTrafficApply (applied_message sample_target 50 100) 20
     (insert_event (Some 1) EventTrafficApply (applied_message sample_target 7 0) 10 empty_db)"

theorem report_adds_up_witness:
  "\<exists>impact. TrafficImpact_tx (no_filter None) (sqlite_world [] charged_log) = (Inr impact, sqlite_world [] charged_log) \<and>
    ti_applications impact = 2 \<and> ti_extra_bytes impact = 157"
proof -
  have events: "apply_events charged_log = [\<lparr>ev_id = 1, ev_rule_id = Some 1, ev_type = EventTrafficApply,
        ev_message = applied_message sample_target 7 0, ev_created_at = 10\<rparr>,
      \<lparr>ev_id = 2, ev_rule_id = Some 1, ev_type = EventTrafficApply, ev_message = applied_message sample_target 50 100,
        ev_created_at = 20\<rparr>]"
    by (simp add: apply_events_def charged_log_def insert_event_def empty_db_def)
  show ?thesis
    using report_adds_up [of "sqlite_world [] charged_log" "\<lambda>_. sample_target" "\<lambda>e. if ev_id e = 1 then 7 else 50"
        "\<lambda>e. if ev_id e = 1 then 0 else 100"]
    by (simp add: events sample_target_def sample_baseline_def plain_email_def graphic_def punctuation_def MaxInt64_def)
qed

definition charge_event :: Event where
  "charge_event = \<lparr>e_id = 1, e_rule_id = Some 1, e_policy_id = None, e_type = EventTrafficApply,
     e_message = applied_message sample_target 50 100, e_created_at = 10, e_email = [], e_inbound_id = None\<rparr>"

theorem charge_reads_back_witness:
  "eventExtraBytes (applied_message sample_target 50 100) = (150, True) \<and>
    e_email (hydrateEventFromMessage charge_event) = ''a@b''"
  using charge_reads_back [of sample_target 50 100 charge_event]
  by (simp add: charge_event_def sample_target_def sample_baseline_def plain_email_def graphic_def punctuation_def
      MaxInt64_def in_i64_bounds)

end
