(* ===== verification/XF_Runs.thy ===== *)
theory XF_Runs
  imports XF_Inspect XF_Explain XF_Audit
begin

text \<open>
  What a command does to the database, whatever its arguments, the machine's answers and the driver: rules that carry a
  \<open>stable_relation\<close> through the parts of a command, and their use on every command.
\<close>

section \<open>Rules\<close>

named_theorems leads_intro \<open>commands that move the database along a relation\<close>

context stable_relation begin

definition leads :: "cli_run \<Rightarrow> bool" where
  "leads p \<longleftrightarrow> (\<forall>w. R (w_db w) (w_db (snd (p w))))"

lemma leadsI: "(\<And>w oc w'. p w = (oc, w') \<Longrightarrow> R (w_db w) (w_db w')) \<Longrightarrow> leads p"
  unfolding leads_def by (metis prod.collapse)

lemma leadsD: "leads p \<Longrightarrow> p w = (oc, w') \<Longrightarrow> R (w_db w) (w_db w')"
  unfolding leads_def by (metis snd_conv)

lemma leads_done [leads_intro]: "leads (\<lambda>w. (oc, w))"
  by (simp add: leads_def reflexive)

lemma leads_with_flags [leads_intro]: "(\<And>f. r = Inr f \<Longrightarrow> leads (k f)) \<Longrightarrow> leads (with_flags r k)"
  by (auto simp: leads_def with_flags_def reflexive split: sum.split)

lemma leads_after:
  assumes m: "under (\<lambda>_. True) m" and p: "\<And>w. p w = (case m w of (Inl e, w') \<Rightarrow> (oc e, w') | (Inr x, w') \<Rightarrow> k x w')"
    and k: "\<And>x. leads (k x)"
  shows "leads p"
proof (rule leadsI)
  fix w oc' w'
  assume run: "p w = (oc', w')"
  obtain r w1 where m1: "m w = (r, w1)" by fastforce
  then have R1: "R (w_db w) (w_db w1)" using movesD [OF m] by blast
  show "R (w_db w) (w_db w')"
    using run m1 R1 transitive [OF R1 leadsD [OF k]] by (auto simp: p split: sum.splits)
qed

lemma leads_with_service [leads_intro]:
  "under (\<lambda>_. True) open_it \<Longrightarrow> (\<And>cfg. leads (k cfg)) \<Longrightarrow> leads (with_service open_it k)"
  by (rule leads_after) (auto simp: with_service_def)

lemma leads_check [leads_intro]: "under (\<lambda>_. True) m \<Longrightarrow> (\<And>x. leads (k x)) \<Longrightarrow> leads (check out m k)"
  by (rule leads_after) (auto simp: check_def)

lemma leads_answer [leads_intro]: "under (\<lambda>_. True) m \<Longrightarrow> leads (answer m refused text)"
  by (rule leads_after [OF _ _ leads_done]) (auto simp: answer_def)

lemma leads_branch [leads_intro]:
  "leads p \<Longrightarrow> leads q \<Longrightarrow> leads (if b then p else q)"
  "leads p \<Longrightarrow> (\<And>x. leads (k x)) \<Longrightarrow> leads (case r of None \<Rightarrow> p | Some x \<Rightarrow> k x)"
  "leads (k a) \<Longrightarrow> leads (Let a k)"
  by (auto split: option.split)

lemma leads_if_app [leads_intro]: "leads p \<Longrightarrow> leads q \<Longrightarrow> leads (\<lambda>w. if b then p w else q w)"
  by (cases b) simp_all

end

section \<open>Opening\<close>

lemma keeps_opening [keeps_intro]:
  "keeps k (openConfiguredStore h cfg ro)" "keeps k (open_sqlite h path t ro)" "keeps k (openPostgres h dsn t ro)"
proof -
  have opened: "keeps k (opened d st)" for d st
    by (rule keepsI) (auto simp: opened_def)
  have call: "keeps k (driver_call r)" for r
    unfolding driver_call_def by (intro keeps_intro)
  show "keeps k (open_sqlite h path t ro)" "keeps k (openPostgres h dsn t ro)" for path t dsn ro
    unfolding open_sqlite_def openPostgres_def Let_def by (intro keeps_intro call opened)+
  then show "keeps k (openConfiguredStore h cfg ro)"
    unfolding openConfiguredStore_def by (intro keeps_intro)
qed

lemma keeps_tableColumns [keeps_intro]: "keeps k (table_columns cols t)" "keeps k (tableColumns cols t)"
  unfolding table_columns_def tableColumns_def by (intro keeps_intro keeps_statement; simp)+

lemma keeps_ValidateRequiredSchema [keeps_intro]: "keeps k (ValidateRequiredSchema cols)"
proof -
  have "keeps k (check_tables ts)" for ts
    by (induction ts) (simp_all only: check_tables.simps, intro keeps_intro, intro keeps_intro, assumption)
  moreover have "keeps k (check_columns cols ts)" for ts
  proof (induction ts)
    case (Cons t ts)
    then show ?case by (cases t) (simp only: check_columns.simps, intro keeps_intro)
  qed (simp only: check_columns.simps, intro keeps_intro)
  ultimately show ?thesis
    unfolding ValidateRequiredSchema_def by (intro keeps_intro)
qed

lemma keeps_read_only [keeps_intro]: "keeps k (openReadOnlyService h opts)"
  unfolding openReadOnlyService_def by (intro keeps_intro)

text \<open>The probe of \<open>doctor\<close> creates at most a table, which its rollback takes back.\<close>

lemma keeps_ProbeWrite [keeps_intro]: "keeps (\<lambda>d. d) ProbeWrite"
proof -
  define seqs where "seqs = (\<lambda>d :: Database. (t_seq_rules d, t_seq_excludes d, t_seq_overrides d, t_seq_events d))"
  have probe: "keeps seqs (probe_statement ready)" for ready
    unfolding probe_statement_def by (rule keeps_statement) (auto simp: seqs_def split: if_splits)
  have "w_db (rollback w w') = w_db w" if "seqs (w_db w') = seqs (w_db w)" for w w'
    using that by (simp add: rollback_def seqs_def)
  then have "keeps (\<lambda>d. d) (\<lambda>w. case probe_statement ready w of (r, w') \<Rightarrow> (r, rollback w w'))" for ready
    by (intro keepsI) (auto dest: keepsD [OF probe] split: prod.splits)
  then show ?thesis
    unfolding ProbeWrite_def by (intro keeps_intro)
qed

context stable_relation begin

lemma under_open_service:
  "(\<And>cols now. under (\<lambda>_. True) (Migrate cols now)) \<Longrightarrow> under (\<lambda>_. True) (openService h opts)"
  unfolding openService_def EnsureReady_def from_result_def
  by (intro moves_intro under_reads [OF keeps_opening(1)] under_reads [OF keeps_ValidateRequiredSchema])

end

section \<open>Every command\<close>

text \<open>A relation that the migration and every command of the engine but the tick keep.\<close>

locale maintained = stable_relation +
  assumes migrate: "under (\<lambda>_. True) (Migrate cols now)"
    and rule_commands: "under (\<lambda>_. True) (Enable er now)" "under (\<lambda>_. True) (Disable sel now)"
      "under (\<lambda>_. True) (Pause sel now)" "under (\<lambda>_. True) (Resume sel now)"
    and bulk_commands: "under (\<lambda>_. True) (EnableAll ea now)" "under (\<lambda>_. True) (DisableAll inb now)"
      "under (\<lambda>_. True) (PauseAll inb now)" "under (\<lambda>_. True) (ResumeAll inb now)"
    and policy_commands: "under (\<lambda>_. True) (Exclude pq now)" "under (\<lambda>_. True) (Unexclude pq now)"
      "under (\<lambda>_. True) (Override pq now)" "under (\<lambda>_. True) (RemoveOverride pq now)"
    and upkeep: "under (\<lambda>_. True) (Reconcile rq now)" "under (\<lambda>_. True) (engine_Cleanup cfg dry old vac now)"
begin

lemmas opens = under_open_service [OF migrate]

lemma lifecycle_commands:
  "(\<And>sel now. under (\<lambda>_. True) (fn sel now)) \<Longrightarrow> leads (runLifecycle h opts args name text fn)"
  "(\<And>inb now. under (\<lambda>_. True) (gn inb now)) \<Longrightarrow> leads (runBulkLifecycle h opts args label gn)"
  unfolding runLifecycle_def runBulkLifecycle_def by (intro leads_intro opens; simp)+

lemma changing_commands:
  "leads (runEnable h opts args)" "leads (runEnableAll h opts args)" "leads (runDisable h opts args)"
  "leads (runDisableAll h opts args)" "leads (runPause h opts args)" "leads (runPauseAll h opts args)"
  "leads (runResume h opts args)" "leads (runResumeAll h opts args)" "leads (runExclude h opts args)"
  "leads (runUnexclude h opts args)" "leads (runOverride h opts args)" "leads (runRemoveOverride h opts args)"
  "leads (runCleanup h opts args)" "leads (runReconcile h opts args)" "leads (runBackup h opts args)"
  unfolding runEnable_def runEnableAll_def runDisable_def runDisableAll_def runPause_def runPauseAll_def runResume_def
    runResumeAll_def runExclude_def runUnexclude_def runOverride_def runRemoveOverride_def runCleanup_def runReconcile_def
    runBackup_def
  by (intro leads_intro opens lifecycle_commands rule_commands bulk_commands policy_commands upkeep
      under_reads [OF keeps_Backup])+

end

text \<open>Reading changes nothing, so that every relation is kept.\<close>

context stable_relation begin

lemma reads_result: "under (\<lambda>_. True) (from_result r return_tx)"
  unfolding from_result_def by (intro moves_intro)

lemma doctor_leads: "leads (runDoctor h opts args)"
proof -
  have role: "under (\<lambda>_. True) (PanelRole_tx now)" for now
    by (rule under_reads) (intro keeps_intro)
  have rules: "leads (doctor_rules service out warnings)" for service out warnings
    unfolding doctor_rules_def doctor_end_def Let_def
    by (intro leads_intro; rule under_reads; intro keeps_intro)
  have checks: "leads (doctor_checks h cfg out warnings)" for cfg out warnings
    unfolding doctor_checks_def doctor_end_def Let_def
    by (intro leads_intro rules role moves_intro; rule under_reads; intro keeps_intro)
  have probed: "leads (\<lambda>w. case ProbeWrite w of (r, w') \<Rightarrow> k r w')" if "\<And>r. leads (k r)" for k
  proof (rule leadsI)
    fix w oc w'
    assume run: "(case ProbeWrite w of (r, w') \<Rightarrow> k r w') = (oc, w')"
    obtain r w1 where "ProbeWrite w = (r, w1)" by fastforce
    with run keepsD [OF keeps_ProbeWrite this] leadsD [OF that, of r w1] show "R (w_db w) (w_db w')" by auto
  qed
  show ?thesis
    unfolding runDoctor_def doctor_open_def Let_def
    by (intro leads_intro reads_result probed checks; (rule under_reads; intro keeps_intro)?)
qed

lemma reading_commands:
  "leads (runStatus h opts args)" "leads (runExplain h opts args)" "leads (runExcludes h opts args)"
  "leads (runOverrides h opts args)" "leads (runReport h opts args)" "leads (runAudit h opts args)"
proof -
  have opens: "under (\<lambda>_. True) (openReadOnlyService h opts)"
    by (rule under_reads) (intro keeps_intro)
  show "leads (runStatus h opts args)" "leads (runExplain h opts args)" "leads (runExcludes h opts args)"
    "leads (runOverrides h opts args)" "leads (runReport h opts args)" "leads (runAudit h opts args)"
    unfolding runStatus_def runEffectiveStatus_def runClientStatus_def runExplain_def runExcludes_def runOverrides_def
      runReport_def runAudit_def Status_def Excludes_def Overrides_def Audit_def
    by (intro leads_intro opens under_reads keeps_intro report_keeps)+
qed

end

section \<open>Exit status\<close>

text \<open>After its arguments are accepted, a command ends with 0, or with 1 and an error message.\<close>

named_theorems ends_intro \<open>commands that end with status 0 or 1\<close>

definition good_end :: "Outcome \<Rightarrow> bool" where
  "good_end oc \<longleftrightarrow> oc_code oc = 0 \<or> (oc_code oc = 1 \<and> oc_err oc \<noteq> [])"

definition ends :: "cli_run \<Rightarrow> bool" where
  "ends p \<longleftrightarrow> (\<forall>w. good_end (fst (p w)))"

lemma ends_simp: "ends p \<Longrightarrow> p w = (oc, w') \<Longrightarrow> good_end oc"
  unfolding ends_def by (metis fst_conv)

lemma good_printed [simp]: "good_end (printed text)"
  by (simp add: good_end_def printed_def)

lemma printError_text [simp]: "printError e \<noteq> []"
  by (simp add: printError_def line_def)

lemma good_errors [simp]:
  "good_end (failed 1 e)" "good_end (coded e)" "good_end (target_error email inb hint e)"
  by (simp_all add: good_end_def failed_def coded_def target_error_def commandErrorCode_def printTargetError_def line_def)

lemma ends_done [ends_intro]: "good_end oc \<Longrightarrow> ends (\<lambda>w. (oc, w))"
  by (simp add: ends_def)

lemma ends_parts [ends_intro]:
  "(\<And>cfg. ends (k cfg)) \<Longrightarrow> ends (with_service open_it k)"
  "(\<And>x. ends (k' x)) \<Longrightarrow> ends (check out m' k')"
  "(\<And>e. good_end (refused e)) \<Longrightarrow> ends (answer m refused text)"
  by (auto simp: ends_def with_service_def check_def answer_def split: prod.split sum.split)
    (simp add: good_end_def)

lemma ends_branch [ends_intro]:
  "ends p \<Longrightarrow> ends q \<Longrightarrow> ends (if b then p else q)"
  "ends p \<Longrightarrow> (\<And>x. ends (k x)) \<Longrightarrow> ends (case r of None \<Rightarrow> p | Some x \<Rightarrow> k x)"
  "ends (k' a) \<Longrightarrow> ends (Let a k')"
  by (auto split: option.split)

text \<open>Arguments that are not accepted end with 2, a message, and nothing done.\<close>

definition exits :: "cli_run \<Rightarrow> bool" where
  "exits p \<longleftrightarrow> (\<forall>w oc w'. p w = (oc, w') \<longrightarrow> good_end oc \<or> (oc_code oc = 2 \<and> oc_err oc \<noteq> [] \<and> w' = w))"

lemma exits_with_flags:
  assumes "\<And>f. ends (k f)"
  shows "exits (with_flags r k)"
  using ends_simp [OF assms] by (cases r) (auto simp: exits_def with_flags_def failed_def)

lemma ends_lifecycle:
  "exits (runLifecycle h opts args name text fn)" "exits (runBulkLifecycle h opts args label gn)"
  unfolding runLifecycle_def runBulkLifecycle_def by (intro exits_with_flags ends_intro good_errors)+

lemma exits_commands:
  "exits (runEnable h opts args)" "exits (runEnableAll h opts args)" "exits (runDisable h opts args)"
  "exits (runDisableAll h opts args)" "exits (runPause h opts args)" "exits (runPauseAll h opts args)"
  "exits (runResume h opts args)" "exits (runResumeAll h opts args)" "exits (runExclude h opts args)"
  "exits (runUnexclude h opts args)" "exits (runOverride h opts args)" "exits (runRemoveOverride h opts args)"
  "exits (runCleanup h opts args)" "exits (runReconcile h opts args)" "exits (runBackup h opts args)"
  "exits (runStatus h opts args)" "exits (runExplain h opts args)" "exits (runExcludes h opts args)"
  "exits (runOverrides h opts args)" "exits (runReport h opts args)" "exits (runAudit h opts args)"
  unfolding runEnable_def runEnableAll_def runDisable_def runDisableAll_def runPause_def runPauseAll_def runResume_def
    runResumeAll_def runExclude_def runUnexclude_def runOverride_def runRemoveOverride_def runCleanup_def runReconcile_def
    runBackup_def runStatus_def runEffectiveStatus_def runClientStatus_def runExplain_def runExcludes_def runOverrides_def
    runReport_def runAudit_def
  by (intro ends_lifecycle exits_with_flags ends_intro good_errors)+

lemma exits_polls: "exits (cli_runTick h opts args)" "exits (runDaemon h opts args)"
proof -
  have "ends (\<lambda>w. case Tick cfg no_hook clock w of (Inl e, w') \<Rightarrow> (failed 1 e, w')
      | (Inr (result, log), w') \<Rightarrow> (\<lparr>oc_code = 0, oc_out = f result log, oc_err = g log\<rparr>, w'))" for cfg clock f g
    by (auto simp: ends_def good_end_def failed_def split: prod.splits sum.splits)
  then show "exits (cli_runTick h opts args)"
    unfolding cli_runTick_def by (intro exits_with_flags ends_intro)
  have "ends (\<lambda>w. case h_lock h of Some e \<Rightarrow> (failed 1 e, w)
      | None \<Rightarrow> (case Runner_Run h cfg w of (log, w') \<Rightarrow> (\<lparr>oc_code = 0, oc_out = f log, oc_err = g log\<rparr>, w')))" for cfg f g
    by (auto simp: ends_def good_end_def failed_def split: prod.splits option.splits)
  then show "exits (runDaemon h opts args)"
    unfolding runDaemon_def by (intro exits_with_flags ends_intro)
qed

lemma exits_doctor: "exits (runDoctor h opts args)"
proof -
  have finish: "ends (doctor_end out warnings)" for out warnings
    unfolding doctor_end_def by (intro ends_intro good_printed)
  have rules: "ends (doctor_rules service out warnings)" for service out warnings
    unfolding doctor_rules_def Let_def by (intro ends_intro finish)
  have checks: "ends (doctor_checks h cfg out warnings)" for cfg out warnings
    unfolding doctor_checks_def Let_def by (intro ends_intro rules finish)
  have probed: "ends (\<lambda>w. case ProbeWrite w of (r, w') \<Rightarrow> k r w')" if "\<And>r. ends (k r)" for k
    using that by (auto simp: ends_def split: prod.split)
  show ?thesis
    unfolding runDoctor_def doctor_open_def Let_def by (intro exits_with_flags ends_intro probed checks)
qed

section \<open>Failing\<close>

text \<open>An operation that leaves every table as it was when it answers with an error.\<close>

named_theorems atomic_intro \<open>operations that fail without a trace\<close>

definition atomic :: "'a tx \<Rightarrow> bool" where
  "atomic m \<longleftrightarrow> (\<forall>w e w'. m w = (Inl e, w') \<longrightarrow> contents (w_db w') = contents (w_db w))"

lemma atomic_transaction [atomic_intro]: "atomic (WithImmediateTx fn)"
  unfolding atomic_def using aborted_tx by blast

lemma atomic_keeps: "keeps (\<lambda>d. d) m \<Longrightarrow> atomic m"
  unfolding atomic_def using keepsD by fastforce

lemma atomic_from_result [atomic_intro]: "(\<And>x. atomic (k x)) \<Longrightarrow> atomic (from_result r k)"
  by (auto simp: atomic_def from_result_def split: sum.splits)

lemma atomic_first:
  assumes m: "keeps (\<lambda>d. d) m" and k: "\<And>x. atomic (k x)"
  shows "atomic (bind_tx m k)"
  unfolding atomic_def
proof (intro allI impI)
  fix w e w'
  assume run: "bind_tx m k w = (Inl e, w')"
  obtain r w1 where m1: "m w = (r, w1)" by fastforce
  with keepsD [OF m] have "w_db w1 = w_db w" by blast
  with run m1 k show "contents (w_db w') = contents (w_db w)"
    by (cases r) (auto simp: bind_tx_def atomic_def)
qed

lemma atomic_last: "atomic m \<Longrightarrow> (\<And>x w. \<exists>y w'. k x w = (Inr y, w')) \<Longrightarrow> atomic (bind_tx m k)"
  unfolding atomic_def
  by (auto simp: bind_tx_def split: prod.splits sum.splits) (metis Inl_Inr_False prod.inject)

lemma atomic_commands [atomic_intro]:
  "atomic (Enable er now)" "atomic (Disable sel now)" "atomic (Pause sel now)" "atomic (Resume sel now)"
  "atomic (EnableAll ea now)" "atomic (DisableAll inb now)" "atomic (PauseAll inb now)" "atomic (ResumeAll inb now)"
  "atomic (Exclude pq now)" "atomic (Unexclude pq now)" "atomic (Override pq now)" "atomic (RemoveOverride pq now)"
  "atomic (Reconcile rq now)" "atomic (Migrate cols now)" "atomic (Cleanup opts)" "atomic (Backup h dsn dir)"
  unfolding Enable_def Disable_def Pause_def Resume_def transition_def EnableAll_def DisableAll_def PauseAll_def
    bulkTransition_def ResumeAll_def Exclude_def Unexclude_def Override_def RemoveOverride_def Reconcile_def Migrate_def
    Cleanup_def
  by (intro atomic_intro atomic_keeps keeps_Backup)+

lemma atomic_Cleanup: "atomic (engine_Cleanup cfg dry old False now)"
  unfolding engine_Cleanup_def Let_def
  by (auto simp del: fail_tx_run return_tx_run intro: atomic_keeps [OF keeps_fail] intro!: atomic_last atomic_intro)
    simp_all

lemma atomic_open: "atomic (openService h opts)"
proof -
  have "atomic (bind_tx (EnsureReady cols now) (\<lambda>_. return_tx cfg))" for cols now cfg
    unfolding EnsureReady_def
    by (intro atomic_last atomic_first keeps_ValidateRequiredSchema atomic_intro) simp
  then have "atomic (bind_tx (openConfiguredStore h cfg False) (\<lambda>_. bind_tx (EnsureReady cols now) (\<lambda>_. return_tx cfg)))"
    for cols now cfg by (rule atomic_first [OF keeps_opening(1)])
  then show ?thesis
    unfolding openService_def
    by (intro atomic_intro) (auto simp del: fail_tx_run return_tx_run split: option.split intro: atomic_keeps keeps_fail)
qed

text \<open>
  A command that fails leaves the tables as they were, or, when the service could be opened, as opening (the migration)
  left them.
\<close>

named_theorems recovers_intro \<open>commands that fail without a trace\<close>

definition undoes :: "cli_run \<Rightarrow> bool" where
  "undoes p \<longleftrightarrow> (\<forall>w oc w'. p w = (oc, w') \<longrightarrow> oc_code oc \<noteq> 0 \<longrightarrow> contents (w_db w') = contents (w_db w))"

definition untouched :: "Host \<Rightarrow> commonOptions \<Rightarrow> World \<Rightarrow> World \<Rightarrow> bool" where
  "untouched h opts w w' \<longleftrightarrow> contents (w_db w') = contents (w_db w) \<or>
     (\<exists>cfg w1. openService h opts w = (Inr cfg, w1) \<and> contents (w_db w') = contents (w_db w1))"

definition recovers :: "Host \<Rightarrow> commonOptions \<Rightarrow> cli_run \<Rightarrow> bool" where
  "recovers h opts p \<longleftrightarrow> (\<forall>w oc w'. p w = (oc, w') \<longrightarrow> oc_code oc \<noteq> 0 \<longrightarrow> untouched h opts w w')"

interpretation same: stable_relation "\<lambda>d d'. d' = d"
  by unfold_locales auto

lemma printed_code [simp]: "oc_code (printed text) = 0"
  by (simp add: printed_def)

lemma undoes_answer [recovers_intro]: "atomic m \<Longrightarrow> undoes (answer m refused text)"
  by (auto simp: undoes_def answer_def atomic_def split: prod.splits sum.splits)

lemma recovers_reading [recovers_intro]: "same.leads p \<Longrightarrow> recovers h opts p"
  by (auto simp: recovers_def untouched_def dest: same.leadsD)

lemma recovers_flags [recovers_intro]: "(\<And>f. r = Inr f \<Longrightarrow> recovers h opts (k f)) \<Longrightarrow> recovers h opts (with_flags r k)"
  by (auto simp: recovers_def with_flags_def untouched_def split: sum.splits)

lemma recovers_service [recovers_intro]:
  assumes "\<And>cfg. undoes (k cfg)"
  shows "recovers h opts (with_service (openService h opts) k)"
  unfolding recovers_def
proof (intro allI impI)
  fix w oc w'
  assume run: "with_service (openService h opts) k w = (oc, w')" and code: "oc_code oc \<noteq> 0"
  obtain r w1 where opened: "openService h opts w = (r, w1)" by fastforce
  show "untouched h opts w w'"
  proof (cases r)
    case (Inl e)
    with run opened atomic_open [of h opts] show ?thesis
      by (auto simp: with_service_def untouched_def atomic_def)
  next
    case (Inr cfg)
    with run opened have "k cfg w1 = (oc, w')" by (simp add: with_service_def)
    with assms code have "contents (w_db w') = contents (w_db w1)" unfolding undoes_def by blast
    with opened Inr show ?thesis by (auto simp: untouched_def)
  qed
qed

lemma recovers_changing:
  "recovers h opts (runEnable h opts args)" "recovers h opts (runEnableAll h opts args)"
  "recovers h opts (runDisable h opts args)" "recovers h opts (runDisableAll h opts args)"
  "recovers h opts (runPause h opts args)" "recovers h opts (runPauseAll h opts args)"
  "recovers h opts (runResume h opts args)" "recovers h opts (runResumeAll h opts args)"
  "recovers h opts (runExclude h opts args)" "recovers h opts (runUnexclude h opts args)"
  "recovers h opts (runOverride h opts args)" "recovers h opts (runRemoveOverride h opts args)"
  "recovers h opts (runReconcile h opts args)" "recovers h opts (runBackup h opts args)"
  unfolding runEnable_def runEnableAll_def runDisable_def runDisableAll_def runPause_def runPauseAll_def runResume_def
    runResumeAll_def runExclude_def runUnexclude_def runOverride_def runRemoveOverride_def runReconcile_def
    runBackup_def runLifecycle_def runBulkLifecycle_def
  by (intro recovers_flags recovers_service undoes_answer atomic_commands)+

lemma recovers_tick: "recovers h opts (cli_runTick h opts args)"
proof -
  have "undoes (\<lambda>w. case Tick cfg no_hook clock w of (Inl e, w') \<Rightarrow> (failed 1 e, w')
      | (Inr (result, log), w') \<Rightarrow> (\<lparr>oc_code = 0, oc_out = f result log, oc_err = g log\<rparr>, w'))" for cfg clock f g
    unfolding undoes_def by (auto split: prod.splits sum.splits dest!: Tick_Inl aborted_tx)
  then show ?thesis
    unfolding cli_runTick_def by (intro recovers_flags recovers_service)
qed

lemma recovers_daemon: "recovers h opts (runDaemon h opts args)"
  unfolding runDaemon_def
  by (intro recovers_flags recovers_service) (auto simp: undoes_def split: option.splits prod.splits)

lemma recovers_cleanup: "''--vacuum'' \<notin> set args \<Longrightarrow> recovers h opts (runCleanup h opts args)"
proof -
  assume args: "''--vacuum'' \<notin> set args"
  have "accepted (\<lambda>f. \<not> fc_vacuum f) (parseCleanupArgs (h_frac h) args)"
    unfolding parseCleanupArgs_def
    by (rule parse_flags_invariant) (use args in \<open>auto simp: cleanup_flags_def keeps_switch switch_def split: option.splits\<close>)
  then have "f = Inr g \<Longrightarrow> atomic (engine_Cleanup cfg dry old (fc_vacuum g) now)"
    if "f = parseCleanupArgs (h_frac h) args" for f g cfg dry old now
    using that atomic_Cleanup by (metis (full_types) accepted_simps(2))
  then show ?thesis
    unfolding runCleanup_def by (intro recovers_flags recovers_service undoes_answer) simp
qed

end
