(* ===== verification/XF_App.thy ===== *)
theory XF_App
  imports XF_Runs
begin

text \<open>
  The program: \<open>main\<close>, the dispatch \<open>App.Run\<close> of \<open>cli/cli.go\<close> with its help texts, and what holds of every run of the
  command line, whatever the arguments, the machine and the database driver do.
\<close>

section \<open>Texts\<close>

definition usageCore :: "string list" where
  "usageCore =
    [''Usage:'',
     ''  factor [--config PATH] [--database PATH] [command]'',
     [],
     ''Commands:'',
     ''  help       Show this help text'',
     ''  version    Print version metadata'',
     ''  doctor     Check database schema and metadata'',
     ''  status     List effective active and paused rules'',
     ''  explain    Explain one client's effective decision'',
     ''  enable     Enable a factor rule'',
     ''  enable-all Enable factor rules for selected clients'',
     ''  exclude    Exclude one client from factor decisions'',
     ''  unexclude  Disable an exclude policy'',
     ''  excludes   List exclude policies'',
     ''  override   Set one client's effective factor'',
     ''  remove-override Disable an override policy'',
     ''  overrides  List override policies'',
     ''  disable    Disable a rule and keep existing results'',
     ''  disable-all Disable active and paused rules'',
     ''  pause      Pause a rule without changing counters'',
     ''  pause-all  Pause active rules'',
     ''  resume     Resume a paused rule from current counters'',
     ''  resume-all Resume paused rules from current counters'',
     ''  report     Show concise management report'',
     ''  audit      Show lifecycle events'',
     ''  backup     Create a timestamped database backup'',
     ''  cleanup    Prune stale XuiFactor metadata'',
     ''  reconcile  Repair ineffective rules and policies'',
     ''  tick       Apply one factor tick and exit'',
     ''  run        Start the factor sidecar'',
     [],
     ''Flags:'',
     ''  -h, --help      Show this help text'',
     ''  -v, --version   Print version metadata'',
     ''  --config PATH   Load JSON config from PATH'',
     ''  --database PATH Override configured SQLite database path'']"

definition helpExamples :: "string list" where
  "helpExamples =
    [''  factor enable --email user@example.com --factor 1.2'',
     ''  factor enable-all --factor 1.2'',
     ''  factor enable-all --factor 1.2 --limited-only'',
     ''  factor enable-all --factor 1.2 --once'',
     ''  factor explain --email user@example.com --inbound-id 1'',
     ''  factor status --effective'',
     ''  factor status --clients --inbound-id 1'',
     ''  factor exclude --email user@example.com --inbound-id 1'',
     ''  factor excludes'',
     ''  factor override --email user@example.com --inbound-id 1 --factor 1.2'',
     ''  factor overrides'',
     ''  factor report'',
     ''  factor report --inbound-id 1'',
     ''  factor audit --event traffic_applied --limit 20'',
     ''  factor audit --since 24h'',
     ''  factor disable --email user@example.com'',
     ''  factor disable-all'',
     ''  factor backup'',
     ''  factor cleanup --dry-run'',
     ''  factor reconcile --dry-run'',
     ''  factor doctor'',
     ''  factor tick'',
     ''  factor run'']"

definition text_lines :: "string list \<Rightarrow> string" where
  "text_lines ls = concat (map line ls)"

definition printUsage :: string where
  "printUsage = text_lines ([''XuiFactor'', []] @ usageCore @
     [[], ''Run '' @ [CHR 34] @ ''factor --help'' @ [CHR 34] @ '' for command examples.''])"

definition printHelp :: string where
  "printHelp = text_lines ([''XuiFactor'', []] @ usageCore @ [[], ''Examples:''] @ helpExamples @
     [[], ''Project:'', ''  creator: YrustPd'', ''  repository: https://github.com/PdYrust/XuiFactor'',
      ''  channel: https://t.me/PdYrust''])"

definition printVersion :: "Host \<Rightarrow> string" where
  "printVersion h = text_lines [''XuiFactor '' @ h_version h, ''commit: '' @ h_commit h, ''built: '' @ h_build_time h,
     ''repository: https://github.com/PdYrust/XuiFactor'', ''channel: https://t.me/PdYrust'']"

section \<open>Dispatch\<close>

text \<open>The cases of the switch that run a command.\<close>

definition run_cases :: "(string \<times> (Host \<Rightarrow> commonOptions \<Rightarrow> string list \<Rightarrow> cli_run)) list" where
  "run_cases =
    [(''doctor'', runDoctor), (''status'', runStatus), (''explain'', runExplain), (''enable'', runEnable),
     (''enable-all'', runEnableAll), (''exclude'', runExclude), (''unexclude'', runUnexclude), (''excludes'', runExcludes),
     (''override'', runOverride), (''remove-override'', runRemoveOverride), (''overrides'', runOverrides),
     (''disable'', runDisable), (''disable-all'', runDisableAll), (''pause'', runPause), (''pause-all'', runPauseAll),
     (''resume'', runResume), (''resume-all'', runResumeAll), (''audit'', runAudit), (''report'', runReport),
     (''backup'', runBackup), (''cleanup'', runCleanup), (''reconcile'', runReconcile), (''tick'', cli_runTick),
     (''run'', runDaemon)]"

definition unknown_command :: "string \<Rightarrow> Outcome" where
  "unknown_command name = \<lparr>oc_code = 2, oc_out = [],
     oc_err = text_lines [''factor: unknown command '' @ quoted name, []] @ printUsage\<rparr>"

definition Run :: "Host \<Rightarrow> string list \<Rightarrow> cli_run" where
  "Run h args =
    with_flags (parseCommonFlags args) (\<lambda>(common, rest) w.
    case rest of
      [] \<Rightarrow> (printed printUsage, w)
    | name # rest' \<Rightarrow>
        if name = ''-h'' \<or> name = ''--help'' \<or> name = ''help'' then (printed printHelp, w)
        else if name = ''-v'' \<or> name = ''--version'' \<or> name = ''version'' then (printed (printVersion h), w)
        else case map_of run_cases name of
            Some cmd \<Rightarrow> cmd h common rest' w
          | None \<Rightarrow> (unknown_command name, w))"

section \<open>Main\<close>


text \<open>\<open>filepath.Base\<close> on Unix.\<close>

definition filepath_Base :: "string \<Rightarrow> string" where
  "filepath_Base path =
    (if path = [] then ''.''
     else let p = rev (dropWhile (\<lambda>c. c = CHR ''/'') (rev path)) in
       if p = [] then ''/'' else rev (takeWhile (\<lambda>c. c \<noteq> CHR ''/'') (rev p)))"

text \<open>
  What the operating system answers to \<open>main\<close>: where a path leads, which program this is, and what the program at a path
  does with the arguments when it can be started (\<open>syscall.Exec\<close> returns only when it cannot).
\<close>

record Process =
  ps_name :: string
  ps_self :: string
  ps_resolve :: "string \<Rightarrow> string option"
  ps_exec :: "string \<Rightarrow> string list \<Rightarrow> Outcome option"

fun try_exec :: "Process \<Rightarrow> string list \<Rightarrow> string list \<Rightarrow> Outcome option" where
  "try_exec p args [] = None"
| "try_exec p args (path # paths) =
    (case ps_resolve p path of
       None \<Rightarrow> try_exec p args paths
     | Some resolved \<Rightarrow>
         if resolved = ps_self p then try_exec p args paths
         else case ps_exec p path (''factor'' # args) of Some r \<Rightarrow> Some r | None \<Rightarrow> try_exec p args paths)"

definition execSystemFactor :: "Process \<Rightarrow> string list \<Rightarrow> Outcome option" where
  "execSystemFactor p args = try_exec p args [''/usr/bin/factor'', ''/bin/factor'']"

definition main :: "Process \<Rightarrow> Host \<Rightarrow> string list \<Rightarrow> cli_run" where
  "main p h args w =
    (case (if filepath_Base (ps_name p) = ''factor'' \<and> IsPrimeFactorCall args then execSystemFactor p args else None) of
       Some r \<Rightarrow> (r, w)
     | None \<Rightarrow> Run h args w)"

section \<open>The commands\<close>

text \<open>The name that selects the case of \<open>Run\<close>.\<close>

definition command_of :: "string list \<Rightarrow> string option" where
  "command_of args = (case parseCommonFlags args of Inr (common, name # rest) \<Rightarrow> Some name | _ \<Rightarrow> None)"

definition reading :: "string list" where
  "reading = [''doctor'', ''status'', ''explain'', ''excludes'', ''overrides'', ''report'', ''audit'']"

definition polling :: "string list" where
  "polling = [''tick'', ''run'']"

text \<open>A run either answers without a command, leaving the database alone, or is the run of a command.\<close>

lemma Run_named:
  "parseCommonFlags args = Inr (opts, name # rest) \<Longrightarrow> Run h args w =
    (if name = ''-h'' \<or> name = ''--help'' \<or> name = ''help'' then (printed printHelp, w)
     else if name = ''-v'' \<or> name = ''--version'' \<or> name = ''version'' then (printed (printVersion h), w)
     else case map_of run_cases name of Some cmd \<Rightarrow> cmd h opts rest w | None \<Rightarrow> (unknown_command name, w))"
  by (simp only: Run_def with_flags_def sum.case prod.case list.case)

lemma Run_cases:
  obtains (Fixed) oc where "Run h args w = (oc, w)" "good_end oc \<or> (oc_code oc = 2 \<and> oc_err oc \<noteq> [])"
  | (Command) opts name rest cmd where "parseCommonFlags args = Inr (opts, name # rest)" "(name, cmd) \<in> set run_cases"
      "Run h args w = cmd h opts rest w" "command_of args = Some name"
proof -
  consider e where "parseCommonFlags args = Inl e" | opts where "parseCommonFlags args = Inr (opts, [])"
    | opts name rest where "parseCommonFlags args = Inr (opts, name # rest)"
    by (cases "parseCommonFlags args") (auto, metis list.exhaust)
  then show thesis
  proof cases
    case 1
    then show thesis using Fixed by (auto simp: Run_def with_flags_def failed_def)
  next
    case 2
    then show thesis using Fixed by (auto simp: Run_def with_flags_def)
  next
    case (3 opts name rest)
    note run = Run_named [OF 3, of h w]
    consider (fixed) msg where "Run h args w = (printed msg, w)"
      | (other) "Run h args w = (case map_of run_cases name of Some cmd \<Rightarrow> cmd h opts rest w | None \<Rightarrow> (unknown_command name, w))"
      using run by (metis (no_types, lifting))
    then show thesis
    proof cases
      case fixed
      then show thesis by (rule Fixed) simp
    next
      case other
      show thesis
      proof (cases "map_of run_cases name")
        case None
        with other show thesis by (intro Fixed [of "unknown_command name"]) (simp_all add: unknown_command_def text_lines_def line_def)
      next
        case (Some cmd)
        then have "(name, cmd) \<in> set run_cases" by (rule map_of_SomeD)
        then show thesis using Command [OF 3] other Some by (simp add: command_of_def 3)
      qed
    qed
  qed
qed

context stable_relation begin

lemma leads_Run:
  assumes "\<And>name cmd h opts args. (name, cmd) \<in> set run_cases \<Longrightarrow> command_of arguments = Some name \<Longrightarrow> leads (cmd h opts args)"
  shows "R (w_db w) (w_db (snd (main p h arguments w)))"
proof -
  have "R (w_db w) (w_db (snd (Run h arguments w)))"
  proof (cases rule: Run_cases [of h arguments w])
    case (Fixed oc)
    then show ?thesis by (simp add: reflexive)
  next
    case (Command opts name rest cmd)
    with assms [OF Command(2,4), of h opts rest] show ?thesis by (simp add: leads_def)
  qed
  then show ?thesis by (simp add: main_def reflexive split: option.split)
qed

end

context maintained begin

lemma leads_command:
  "list_all (\<lambda>(name, cmd). name \<in> set polling \<or> leads (cmd h opts args)) run_cases"
  by (simp add: run_cases_def polling_def changing_commands reading_commands doctor_leads)

lemma leads_polls:
  assumes tick: "\<And>cfg clock. under (\<lambda>_. True) (Tick cfg no_hook clock)"
  shows "leads (cli_runTick h opts args)" "leads (runDaemon h opts args)"
proof -
  have once: "leads (\<lambda>w. case Tick cfg no_hook clock w of (Inl e, w') \<Rightarrow> (oc e, w')
      | (Inr (result, log), w') \<Rightarrow> (oc' result log, w'))" for cfg clock oc oc'
    by (rule leads_after [OF tick [of cfg clock] _ leads_done [of "case_prod oc' _"]]) (auto split: prod.split sum.split)
  show "leads (cli_runTick h opts args)"
    unfolding cli_runTick_def by (intro leads_intro once opens)
  have poll: "R (w_db w) (w_db (snd (runTick cfg no_hook clock last w)))" for cfg clock last w
    using underD [OF tick, of w cfg clock] by (auto simp: runTick_def Let_def split: prod.splits sum.splits)
  have "R (w_db w) (w_db (snd (polls cfg clocks last w)))" for cfg clocks last w
  proof (induction clocks arbitrary: last w)
    case (Cons clock clocks)
    show ?case
      using poll [of w cfg clock last] Cons.IH transitive by (auto split: prod.split) (metis snd_conv)
  qed (simp add: reflexive)
  then have polls: "polls cfg clocks last w = (log, w') \<Longrightarrow> R (w_db w) (w_db w')" for cfg clocks last w log w'
    by (metis snd_conv)
  have "leads (\<lambda>w. case h_lock h of Some e \<Rightarrow> (failed 1 e, w)
      | None \<Rightarrow> (case Runner_Run h cfg w of (log, w') \<Rightarrow> (oc log, w')))" for cfg oc
    by (intro leadsI) (auto simp: Runner_Run_def Let_def reflexive simp del: polls.simps dest: polls split: option.splits prod.splits)
  then show "leads (runDaemon h opts args)"
    unfolding runDaemon_def by (intro leads_intro opens)
qed

lemma leads_all:
  assumes "\<And>cfg clock. under (\<lambda>_. True) (Tick cfg no_hook clock)"
  shows "R (w_db w) (w_db (snd (main p h args w)))"
proof (rule leads_Run)
  fix name cmd h' opts args'
  assume "(name, cmd) \<in> set run_cases"
  moreover have "list_all (\<lambda>(name, cmd). leads (cmd h' opts args')) run_cases"
    by (simp add: run_cases_def changing_commands reading_commands doctor_leads leads_polls [OF assms])
  ultimately show "leads (cmd h' opts args')" by (auto simp: list_all_iff)
qed

lemma leads_unless_polling:
  assumes "command_of args \<notin> {Some ''tick'', Some ''run''}"
  shows "R (w_db w) (w_db (snd (main p h args w)))"
proof (rule leads_Run)
  fix name cmd h' opts args'
  assume "(name, cmd) \<in> set run_cases" "command_of args = Some name"
  then show "leads (cmd h' opts args')" using leads_command [of h' opts args'] assms by (auto simp: list_all_iff polling_def)
qed

end

text \<open>The schema is kept by every command, the panel's tables by every command but a poll.\<close>

interpretation kept_schema: maintained trimmed
  by unfold_locales
    (rule evolves_trimmed [OF evo_Migrate] evolves_trimmed [OF evo_rule_commands(1)] evolves_trimmed [OF evo_rule_commands(2)]
      evolves_trimmed [OF evo_rule_commands(3)] evolves_trimmed [OF evo_rule_commands(4)] evolves_trimmed [OF evo_EnableAll]
      evolves_trimmed [OF evo_bulk_transitions(1)] evolves_trimmed [OF evo_bulk_transitions(2)]
      evolves_trimmed [OF evo_bulk_transitions(3)] evolves_trimmed [OF evo_policy_commands(1)]
      evolves_trimmed [OF evo_policy_commands(2)] evolves_trimmed [OF evo_policy_commands(3)]
      evolves_trimmed [OF evo_policy_commands(4)] evolves_trimmed [OF evo_Reconcile] trim_Cleanup(2))+

lemma keeps_panel_Migrate: "keeps panel (Migrate cols now)"
proof -
  have step: "keeps panel (migration m k)" if "keeps panel m" "\<And>x. keeps panel (k x)" for m :: "'a tx" and k :: "'a \<Rightarrow> 'b tx"
    unfolding migration_def by (intro keeps_intro that)
  have statements: "keeps panel (create_table tab cols)" "keeps panel (add_column table current column cols)"
    "keeps panel (drop_column table current name cols)" "keeps panel (create_index idx u)" for tab cols table current column name idx u
    unfolding create_table_def add_column_def drop_column_def create_index_def
    by (intro keeps_intro keeps_statement; auto simp: panel_def split: if_splits)+
  have tables: "keeps panel (for_table change tab cols)"
    if "\<And>table current x cols. keeps panel (change table current x cols)" for change tab cols
    unfolding for_table_def by (intro keeps_intro that)
  show ?thesis
    unfolding Migrate_def Migrate_body_def ensureMetadataColumns_def dropObsoleteMetadataColumns_def backfillMetadataIdentity_def
    by (intro keeps_panel_tx step keeps_intro statements tables)
      (simp_all add: dedupe_excludes_def dedupe_overrides_def backfill_inbound_def backfill_email_def backfill_updated_def
        insert_version_def update_version_def)
qed

interpretation panel_same: stable_relation "\<lambda>d d'. panel d' = panel d"
  by unfold_locales auto

interpretation kept_panel: maintained "\<lambda>d d'. panel d' = panel d"
  by unfold_locales
    (rule panel_same.under_keeps [where k = panel], intro keeps_panel_Migrate keeps_panel_rules keeps_panel_bulk
      keeps_panel_policies keeps_panel_store_cleanup, simp)+

interpretation identity_same: stable_relation "\<lambda>d d'. panel_identity d' = panel_identity d"
  by unfold_locales auto

interpretation kept_identity: maintained "\<lambda>d d'. panel_identity d' = panel_identity d"
  by unfold_locales
    (rule identity_same.under_keeps [where k = panel_identity], rule keeps_panel_identity,
      intro keeps_panel_Migrate keeps_panel_rules keeps_panel_bulk keeps_panel_policies keeps_panel_store_cleanup, simp)+

section \<open>What every run does\<close>

text \<open>
  C5. Every run of the program, whatever its arguments, the configuration and files it finds and whatever the driver
  refuses, keeps the database well formed (unique identifiers below their sequences, rule clients and scopes that belong
  to a rule, valid factors and remainders), and takes no identifier of a rule twice.
\<close>

theorem every_run_keeps_the_schema:
  assumes "schema (w_db w)"
  shows "schema (w_db (snd (main p h args w))) \<and> later (w_db w) (w_db (snd (main p h args w)))"
  using kept_schema.leads_all [OF trim_Tick, of w p h args] assms by (simp add: trimmed_def)

text \<open>
  C17. No run of the program adds, removes or renames a row of the panel; a run that is not \<open>tick\<close> or \<open>run\<close> (so the
  migration and every other command, whether it succeeds or fails) leaves the panel's tables exactly as they are.
\<close>

theorem only_polls_write_counters:
  "panel_identity (w_db (snd (main p h args w))) = panel_identity (w_db w) \<and>
   (command_of args \<notin> {Some ''tick'', Some ''run''} \<longrightarrow> panel (w_db (snd (main p h args w))) = panel (w_db w))"
  using kept_identity.leads_all [OF identity_same.under_keeps [OF keeps_identity_Tick]] kept_panel.leads_unless_polling
  by (metis (no_types, lifting))

text \<open>
  C18. The commands that inspect (\<open>doctor\<close> with its write probe, \<open>status\<close>, \<open>explain\<close>, \<open>excludes\<close>, \<open>overrides\<close>,
  \<open>report\<close>, \<open>audit\<close>) and runs without a command leave the whole database as it was, sequences included, whatever the
  driver does: they do not even migrate it.
\<close>

theorem reading_writes_nothing:
  assumes "\<forall>name. command_of args = Some name \<longrightarrow> name \<in> set reading"
  shows "w_db (snd (main p h args w)) = w_db w"
proof (rule same.leads_Run)
  fix name cmd h' opts args'
  assume name: "(name, cmd) \<in> set run_cases" "command_of args = Some name"
  have "list_all (\<lambda>(name, cmd). name \<in> set reading \<longrightarrow> same.leads (cmd h' opts args')) run_cases"
    by (simp add: run_cases_def reading_def same.reading_commands same.doctor_leads)
  with name assms show "same.leads (cmd h' opts args')" by (auto simp: list_all_iff)
qed

lemma Run_exits: "exits (Run h args)"
  unfolding exits_def
proof (intro allI impI)
  fix w oc w'
  assume run: "Run h args w = (oc, w')"
  show "good_end oc \<or> (oc_code oc = 2 \<and> oc_err oc \<noteq> [] \<and> w' = w)"
  proof (cases rule: Run_cases [of h args w])
    case (Fixed oc')
    with run show ?thesis by auto
  next
    case (Command opts name rest cmd)
    have "list_all (\<lambda>(name, cmd). exits (cmd h opts rest)) run_cases"
      by (simp add: run_cases_def exits_commands exits_polls exits_doctor)
    with Command have "exits (cmd h opts rest)" by (auto simp: list_all_iff)
    with run Command(3) show ?thesis by (simp add: exits_def)
  qed
qed

text \<open>
  C19. A run ends with status 0, 1 or 2; a status that is not 0 comes with a message on the error stream, and 2 (the
  arguments are not understood) means that nothing has been done.
\<close>

theorem exit_status:
  assumes "Run h args w = (oc, w')"
  shows "oc_code oc \<in> {0, 1, 2} \<and> (oc_code oc \<noteq> 0 \<longrightarrow> oc_err oc \<noteq> []) \<and> (oc_code oc = 2 \<longrightarrow> w' = w)"
proof -
  have "good_end oc \<or> (oc_code oc = 2 \<and> oc_err oc \<noteq> [] \<and> w' = w)"
    using Run_exits assms unfolding exits_def by blast
  then show ?thesis by (auto simp: good_end_def)
qed

text \<open>
  C4. A run that ends with an error leaves every table as it was, or as opening the service left it when that
  succeeded (the migration, which a second opening does not repeat). The exception is \<open>cleanup --vacuum\<close>, whose
  \<open>VACUUM\<close> follows a clean-up that is committed.
\<close>

theorem failed_run_changes_nothing:
  assumes args: "parseCommonFlags args = Inr (opts, rest)" "''--vacuum'' \<notin> set rest"
    and run: "Run h args w = (oc, w')" "oc_code oc \<noteq> 0"
  shows "contents (w_db w') = contents (w_db w) \<or>
    (\<exists>cfg w1. openService h opts w = (Inr cfg, w1) \<and> contents (w_db w') = contents (w_db w1))"
proof (cases rule: Run_cases [of h args w])
  case (Command opts' name rest' cmd)
  have "''--vacuum'' \<notin> set rest'" using args Command(1) by auto
  then have "list_all (\<lambda>(name, cmd). recovers h opts (cmd h opts rest')) run_cases"
    by (simp add: run_cases_def recovers_changing recovers_tick recovers_daemon recovers_cleanup recovers_reading
        same.reading_commands same.doctor_leads)
  with Command args have "recovers h opts (cmd h opts rest')" by (auto simp: list_all_iff)
  with run Command args show ?thesis by (auto simp: recovers_def untouched_def)
qed (use run in simp)

lemma common_flags_rest: "common_flags args opts rest = Inr (opts', rest') \<Longrightarrow> \<exists>more. rest' = rest @ more"
  by (induction args opts rest rule: common_flags.induct) (auto split: if_splits list.splits)

lemma number_is_no_flag:
  assumes "a \<noteq> []" "list_all is_digit a"
  shows "common_flags (a # args) opts rest = common_flags args opts (rest @ [a])"
    and "a \<notin> {''-h'', ''--help'', ''help'', ''-v'', ''--version'', ''version''}" and "map_of run_cases a = None"
proof -
  obtain c cs where a: "a = c # cs" "is_digit c" using assms by (cases a) auto
  have dash: "c \<noteq> CHR ''-''" using a(2) by (auto simp: is_digit_def)
  then show "common_flags (a # args) opts rest = common_flags args opts (rest @ [a])"
    by (simp add: a(1) has_prefix_def)
  have letter: "\<not> is_digit CHR ''h''" "\<not> is_digit CHR ''v''" by (simp_all add: is_digit_def)
  with a dash show "a \<notin> {''-h'', ''--help'', ''help'', ''-v'', ''--version'', ''version''}" by auto
  have "list_all (\<lambda>name. name \<noteq> [] \<and> \<not> is_digit (hd name)) (map fst run_cases)"
    by (simp add: run_cases_def is_digit_def)
  then have "a \<notin> set (map fst run_cases)" using a unfolding list_all_iff by (metis list.sel(1))
  then have "a \<notin> fst ` set run_cases" by simp
  then show "map_of run_cases a = None" by (simp add: map_of_eq_None_iff)
qed

text \<open>
  The calls that \<open>main\<close> hands to the factor program of coreutils are no commands of XuiFactor: had they been run
  here, each would have ended as a usage error.
\<close>

lemma numeric_calls_are_free:
  assumes "IsPrimeFactorCall args"
  shows "oc_code (fst (Run h args w)) = 2"
proof -
  obtain a rest where args: "args = a # rest" "a \<noteq> []" "list_all is_digit a"
    using assms by (auto simp: IsPrimeFactorCall_def split: list.splits)
  note number = number_is_no_flag [OF args(2,3)]
  show ?thesis
  proof (cases "parseCommonFlags args")
    case (Inl e)
    then show ?thesis by (simp add: Run_def with_flags_def failed_def)
  next
    case (Inr p)
    obtain opts names where p: "p = (opts, names)" by fastforce
    with Inr obtain more where "names = a # more"
      using number(1) common_flags_rest args(1) unfolding parseCommonFlags_def by fastforce
    then show ?thesis
      using number(2,3) by (simp add: Run_def with_flags_def Inr p unknown_command_def)
  qed
qed

section \<open>Witnesses\<close>

theorem every_run_keeps_the_schema_witness:
  "\<forall>p h. schema (w_db (snd (main p h [''tick''] (sqlite_world [] panel_db))))"
proof (intro allI)
  fix p h
  have "schema (w_db (sqlite_world [] panel_db))" using schema_reachable [OF reachable_panel] by simp
  from every_run_keeps_the_schema [OF this, of p h "[''tick'']"]
  show "schema (w_db (snd (main p h [''tick''] (sqlite_world [] panel_db))))" by blast
qed

lemma commands_of:
  "command_of [''--config'', ''a'', ''backup''] = Some ''backup''" "command_of [''doctor''] = Some ''doctor''"
  by (simp_all add: command_of_def parseCommonFlags_def has_prefix_def)

theorem only_polls_write_counters_witness:
  "\<forall>p h w. panel (w_db (snd (main p h [''--config'', ''a'', ''backup''] w))) = panel (w_db w)"
  using only_polls_write_counters [of _ _ "[''--config'', ''a'', ''backup'']"] commands_of(1) by simp

theorem reading_writes_nothing_witness: "\<forall>p h w. w_db (snd (main p h [''doctor''] w)) = w_db w"
  using reading_writes_nothing [of "[''doctor'']"] commands_of(2) by (simp add: reading_def)

theorem exit_status_witness:
  "\<forall>h w. Run h [''frob''] w = (unknown_command ''frob'', w) \<and> oc_code (unknown_command ''frob'') \<in> {0, 1, 2}"
proof (intro allI)
  fix h w
  have "Run h [''frob''] w = (unknown_command ''frob'', w)"
    by (simp add: Run_def with_flags_def parseCommonFlags_def has_prefix_def run_cases_def)
  with exit_status [OF this]
  show "Run h [''frob''] w = (unknown_command ''frob'', w) \<and> oc_code (unknown_command ''frob'') \<in> {0, 1, 2}" by blast
qed

theorem failed_run_changes_nothing_witness:
  "\<forall>h w. \<exists>w'. snd (Run h [''enable''] w) = w' \<and> (contents (w_db w') = contents (w_db w) \<or>
     (\<exists>cfg w1. openService h \<lparr>co_config_path = [], co_database_path = []\<rparr> w = (Inr cfg, w1) \<and>
       contents (w_db w') = contents (w_db w1)))"
proof (intro allI)
  fix h w
  obtain oc w' where run: "Run h [''enable''] w = (oc, w')" by fastforce
  have parsed: "parseCommonFlags [''enable''] = Inr (\<lparr>co_config_path = [], co_database_path = []\<rparr>, [''enable''])"
    by (simp add: parseCommonFlags_def has_prefix_def)
  have "parseEnableArgs [] = Inl (ErrText ''enable: --email is required'')" by code_simp
  then have "oc_code oc \<noteq> 0"
    using run by (auto simp: Run_def with_flags_def parsed run_cases_def runEnable_def failed_def)
  from failed_run_changes_nothing [OF parsed _ run this]
  show "\<exists>w'. snd (Run h [''enable''] w) = w' \<and> (contents (w_db w') = contents (w_db w) \<or>
     (\<exists>cfg w1. openService h \<lparr>co_config_path = [], co_database_path = []\<rparr> w = (Inr cfg, w1) \<and>
       contents (w_db w') = contents (w_db w1)))"
    using run by simp
qed

end
