(* ===== verification/XF_Lock.thy ===== *)
theory XF_Lock
  imports XF_Types
begin

text \<open>
  The instance lock of \<open>daemon/lock.go\<close>: \<open>AcquireLock\<close> and \<open>Lock.Close\<close> as the system calls they make, one at a time,
  between those of the other processes. The kernel's part is what \<open>flock(2)\<close>, \<open>open(2)\<close> and \<open>unlink(2)\<close> document: a lock
  belongs to the open file and not to its name, closing the file drops it, and a name that is removed can be created again
  while the old file is still open.
\<close>

section \<open>Files, locks and processes\<close>

type_synonym inode = nat
type_synonym pid = nat

text \<open>How far a process has come: in \<open>AcquireLock\<close>, holding the lock, in \<open>Close\<close>, or refused.\<close>

datatype phase =
    Outside
  | Opened inode
  | Flocked inode
  | Truncated inode
  | Holder inode
  | Unlocked inode
  | Closed
  | Refused error

record Locks =
  lk_path :: "inode option"
  lk_next :: inode
  lk_content :: "inode \<Rightarrow> string"
  lk_owner :: "inode \<Rightarrow> pid option"
  lk_phase :: "pid \<Rightarrow> phase"

definition DefaultLockPath :: string where "DefaultLockPath = ''/run/xui-factor.lock''"

definition goto :: "pid \<Rightarrow> phase \<Rightarrow> Locks \<Rightarrow> Locks" where
  "goto p ph s = s\<lparr>lk_phase := (lk_phase s)(p := ph)\<rparr>"

text \<open>The file of a process is closed, and with it goes the lock the process has.\<close>

definition close_file :: "pid \<Rightarrow> Locks \<Rightarrow> Locks" where
  "close_file p s = s\<lparr>lk_owner := (\<lambda>i. if lk_owner s i = Some p then None else lk_owner s i)\<rparr>"

section \<open>AcquireLock and Close\<close>

definition already_held :: error where
  "already_held = ErrWrap (''process lock already held: '' @ DefaultLockPath @ '': '') (ErrText ''resource temporarily unavailable'') []"

definition write_failed :: "error \<Rightarrow> error" where
  "write_failed e = ErrWrap ''write process lock: '' e []"

text \<open>The next system call of \<open>AcquireLock\<close>; \<open>Some e\<close> is a call the kernel refuses.\<close>

definition AcquireLock_step :: "error option \<Rightarrow> pid \<Rightarrow> Locks \<Rightarrow> Locks" where
  "AcquireLock_step r p s =
    (case lk_phase s p of
       Outside \<Rightarrow>
         (case r of
            Some e \<Rightarrow> goto p (Refused (ErrWrap ''open process lock: '' e [])) s
          | None \<Rightarrow>
              (case lk_path s of
                 Some i \<Rightarrow> goto p (Opened i) s
               | None \<Rightarrow> goto p (Opened (lk_next s)) (s\<lparr>lk_path := Some (lk_next s), lk_next := lk_next s + 1,
                   lk_content := (lk_content s)(lk_next s := [])\<rparr>)))
     | Opened i \<Rightarrow>
         (case r of
            Some e \<Rightarrow> goto p (Refused (ErrWrap ''acquire process lock: '' e [])) (close_file p s)
          | None \<Rightarrow>
              (case lk_owner s i of
                 Some q \<Rightarrow> goto p (Refused already_held) (close_file p s)
               | None \<Rightarrow> goto p (Flocked i) (s\<lparr>lk_owner := (lk_owner s)(i := Some p)\<rparr>)))
     | Flocked i \<Rightarrow>
         (case r of
            Some e \<Rightarrow> goto p (Refused (write_failed e)) (close_file p s)
          | None \<Rightarrow> goto p (Truncated i) (s\<lparr>lk_content := (lk_content s)(i := [])\<rparr>))
     | Truncated i \<Rightarrow>
         (case r of
            Some e \<Rightarrow> goto p (Refused (write_failed e)) (close_file p s)
          | None \<Rightarrow> goto p (Holder i) (s\<lparr>lk_content := (lk_content s)(i := lk_content s i @ itoa (int p) @ [CHR 10])\<rparr>))
     | _ \<Rightarrow> s)"

text \<open>The next system call of \<open>Close\<close>: unlock, close the file, remove its name. None of their errors stops it.\<close>

definition Close_step :: "error option \<Rightarrow> pid \<Rightarrow> Locks \<Rightarrow> Locks" where
  "Close_step r p s =
    (case lk_phase s p of
       Holder i \<Rightarrow> goto p (Unlocked i) (if r = None then s\<lparr>lk_owner := (lk_owner s)(i := None)\<rparr> else s)
     | Unlocked i \<Rightarrow> goto p Closed (close_file p s)
     | Closed \<Rightarrow> goto p Outside (if r = None then s\<lparr>lk_path := None\<rparr> else s)
     | _ \<Rightarrow> s)"

text \<open>A process that ends, in whatever way, closes its file and removes nothing.\<close>

definition exit_step :: "pid \<Rightarrow> Locks \<Rightarrow> Locks" where
  "exit_step p s = goto p Outside (close_file p s)"

section \<open>Reachable states\<close>

definition no_locks :: Locks where
  "no_locks = \<lparr>lk_path = None, lk_next = 0, lk_content = (\<lambda>_. []), lk_owner = (\<lambda>_. None), lk_phase = (\<lambda>_. Outside)\<rparr>"

text \<open>The states that processes reach by any interleaving in which the name has been removed at most \<open>n\<close> times.\<close>

inductive lock_reachable :: "nat \<Rightarrow> Locks \<Rightarrow> bool" where
  start: "lock_reachable 0 no_locks"
| acquire: "lock_reachable n s \<Longrightarrow> lock_reachable n (AcquireLock_step r p s)"
| close: "lock_reachable n s \<Longrightarrow> lk_phase s p \<noteq> Closed \<Longrightarrow> lock_reachable n (Close_step r p s)"
| remove: "lock_reachable n s \<Longrightarrow> lk_phase s p = Closed \<Longrightarrow> lock_reachable (Suc n) (Close_step r p s)"
| exit: "lock_reachable n s \<Longrightarrow> lock_reachable n (exit_step p s)"

definition holders :: "Locks \<Rightarrow> pid set" where
  "holders s = {p. \<exists>i. lk_phase s p = Holder i}"

text \<open>The lock of a file is with the process that has it, and there are at most as many files as removals, and one.\<close>

fun locked_on :: "phase \<Rightarrow> inode option" where
  "locked_on (Flocked i) = Some i"
| "locked_on (Truncated i) = Some i"
| "locked_on (Holder i) = Some i"
| "locked_on _ = None"

fun opened_on :: "phase \<Rightarrow> inode option" where
  "opened_on (Opened i) = Some i"
| "opened_on ph = locked_on ph"

definition lock_inv :: "nat \<Rightarrow> Locks \<Rightarrow> bool" where
  "lock_inv n s \<longleftrightarrow>
    (\<forall>p i. locked_on (lk_phase s p) = Some i \<longrightarrow> lk_owner s i = Some p) \<and>
    (\<forall>p i. opened_on (lk_phase s p) = Some i \<longrightarrow> i < lk_next s) \<and> (\<forall>i. lk_path s = Some i \<longrightarrow> i < lk_next s) \<and>
    lk_next s \<le> n + (if lk_path s = None then 0 else 1)"

lemmas lock_defs = goto_def close_file_def lock_inv_def

lemma lock_inv_acquire: "lock_inv n s \<Longrightarrow> lock_inv n (AcquireLock_step r p s)"
  unfolding AcquireLock_step_def
  by (auto simp: lock_defs less_SucI split: phase.split option.split if_splits)
    (metis opened_on.simps(1,3,4) locked_on.simps(1,2))+

lemma lock_inv_close: "lock_inv n s \<Longrightarrow> lk_phase s p \<noteq> Closed \<Longrightarrow> lock_inv n (Close_step r p s)"
  unfolding Close_step_def
  by (auto simp: lock_defs split: phase.split if_splits) (metis locked_on.simps(3) option.inject)+

lemma lock_inv_remove: "lock_inv n s \<Longrightarrow> lk_phase s p = Closed \<Longrightarrow> lock_inv (Suc n) (Close_step r p s)"
  unfolding Close_step_def by (auto simp: lock_defs split: if_splits)

lemma lock_inv_exit: "lock_inv n s \<Longrightarrow> lock_inv n (exit_step p s)"
  unfolding exit_step_def by (auto simp: lock_defs)

lemma lock_invariant: "lock_reachable n s \<Longrightarrow> lock_inv n s"
  by (induction rule: lock_reachable.induct)
    (simp_all add: lock_inv_acquire lock_inv_close lock_inv_remove lock_inv_exit, simp add: lock_inv_def no_locks_def)

text \<open>
  C21. Any interleaving of processes that take and give back the instance lock, with system calls that may fail and
  processes that may die, leaves at most one more holder than the number of times the lock's name has been removed: two
  daemons never hold it while nobody has given it back.
\<close>

theorem holders_bounded:
  assumes "lock_reachable n s"
  shows "finite (holders s) \<and> card (holders s) \<le> n + 1"
proof -
  have inv: "lock_inv n s" by (rule lock_invariant [OF assms])
  let ?file = "\<lambda>p. the (locked_on (lk_phase s p))"
  have held: "locked_on (lk_phase s p) = Some (?file p)" "opened_on (lk_phase s p) = Some (?file p)" if "p \<in> holders s" for p
    using that by (auto simp: holders_def)
  have "inj_on ?file (holders s)"
    using inv held(1) unfolding lock_inv_def by (intro inj_onI) (metis option.inject)
  moreover have "?file ` holders s \<subseteq> {..<lk_next s}"
    using inv held(2) unfolding lock_inv_def by blast
  moreover have "lk_next s \<le> n + 1" using inv by (auto simp: lock_inv_def split: if_splits)
  ultimately show ?thesis
    by (metis card_inj_on_le card_lessThan finite_imageD finite_lessThan finite_subset le_trans)
qed

text \<open>The calls of a list of processes in turn, none refused by the kernel; the phase decides which function is running.\<close>

definition turn :: "pid \<Rightarrow> Locks \<Rightarrow> Locks" where
  "turn p s = (case lk_phase s p of Holder i \<Rightarrow> Close_step None p s | Unlocked i \<Rightarrow> Close_step None p s
     | Closed \<Rightarrow> Close_step None p s | _ \<Rightarrow> AcquireLock_step None p s)"

text \<open>The turns of a list, and how often the name has been removed.\<close>

fun turns :: "pid list \<Rightarrow> nat \<times> Locks \<Rightarrow> nat \<times> Locks" where
  "turns [] (n, s) = (n, s)"
| "turns (p # ps) (n, s) = turns ps (if lk_phase s p = Closed then Suc n else n, turn p s)"

lemma turns_reachable: "lock_reachable n s \<Longrightarrow> turns ps (n, s) = (n', s') \<Longrightarrow> lock_reachable n' s'"
proof (induction ps arbitrary: n s)
  case (Cons p ps)
  have "lock_reachable (if lk_phase s p = Closed then Suc n else n) (turn p s)"
    using Cons.prems(1)
    by (auto simp: turn_def split: phase.split intro: lock_reachable.acquire lock_reachable.close lock_reachable.remove)
  with Cons show ?case by simp
qed simp

text \<open>Daemon 1 stops while daemon 2 starts, and daemon 3 starts after that.\<close>

definition hand_over :: "pid list" where
  "hand_over = [1, 1, 1, 1, 2, 1, 2, 1, 2, 2, 1, 3, 3, 3, 3]"

text \<open>
  C22. The bound is reached: after a single release two daemons hold the instance lock at the same time. \<open>Close\<close> removes
  the name after it has given the lock back, so that a daemon that had opened the file in between holds the lock of a file
  without a name, and the next daemon creates and locks a new one.
\<close>

theorem two_daemons_hold_the_lock:
  "\<exists>s. lock_reachable 1 s \<and> lk_phase s 2 = Holder 0 \<and> lk_phase s 3 = Holder 1"
proof -
  obtain n s where run: "turns hand_over (0, no_locks) = (n, s)" by fastforce
  moreover from run have "n = 1" "lk_phase s 2 = Holder 0" "lk_phase s 3 = Holder 1"
    by (auto simp: hand_over_def no_locks_def turn_def AcquireLock_step_def Close_step_def goto_def close_file_def)
  ultimately show ?thesis using turns_reachable [OF lock_reachable.start run] by auto
qed

theorem holders_bounded_witness:
  "\<exists>s. lock_reachable 1 s \<and> {2, 3} \<subseteq> holders s \<and> card (holders s) \<le> 2"
proof -
  obtain n s where run: "turns hand_over (0, no_locks) = (n, s)" by fastforce
  from run have "n = 1" "{2, 3} \<subseteq> holders s"
    by (auto simp: holders_def hand_over_def no_locks_def turn_def AcquireLock_step_def Close_step_def goto_def close_file_def)
  with turns_reachable [OF lock_reachable.start run] holders_bounded [of 1 s] show ?thesis by (auto simp: numeral_2_eq_2)
qed

text \<open>Alone, \<open>AcquireLock\<close> gets the lock of a file that nobody has locked, and leaves its process number there.\<close>

lemma alone_acquires:
  assumes "lk_phase s p = Outside" and "\<forall>i. lk_path s = Some i \<longrightarrow> lk_owner s i = None" and "lk_owner s (lk_next s) = None"
  shows "\<exists>i. lk_phase (snd (turns [p, p, p, p] (0, s))) p = Holder i \<and>
    lk_path (snd (turns [p, p, p, p] (0, s))) = Some i \<and>
    lk_content (snd (turns [p, p, p, p] (0, s))) i = itoa (int p) @ [CHR 10]"
  using assms
  by (cases "lk_path s") (auto simp: turn_def AcquireLock_step_def goto_def)

text \<open>A lock that is held refuses the next daemon.\<close>

lemma held_refuses:
  "lk_phase s p = Outside \<Longrightarrow> lk_path s = Some i \<Longrightarrow> lk_owner s i = Some q \<Longrightarrow>
    lk_phase (snd (turns [p, p] (0, s))) p = Refused already_held"
  by (simp add: turn_def AcquireLock_step_def goto_def)

end
