(* ===== verification/XF_Charges.thy ===== *)
theory XF_Charges
  imports XF_Explain
begin

text \<open>
  What a whole poll charges: the counters of every client after \<open>Tick\<close>, from the decision on the client. \<open>XF_Billing\<close> follows
  one client through many polls; here one poll is followed through all clients, whatever the driver does.
\<close>

section \<open>Programs that succeed\<close>

lemma from_result_Inr: "from_result r k w = (Inr y, w') \<longleftrightarrow> (\<exists>x. r = Inr x \<and> k x w = (Inr y, w'))"
  by (auto simp: from_result_def split: sum.split)

text \<open>The row a read of one client finds.\<close>

lemma clientTrafficByID_Inr:
  assumes "clientTrafficByID skip i w = (Inr c, w')"
  shows "\<exists>dr. \<exists>t \<in> set (t_client_traffics (w_db w)). c = scan_client dr t \<and> tr_id t = i"
  using assms
  by (auto simp: clientTrafficByID_def with_driver_def bind_tx_Inr found_Inr dest!: query_row_Inr first_of_in_set [OF sym]) blast

lemma LockClientTraffic_Inr:
  assumes "LockClientTraffic i w = (Inr c, w')"
  shows "\<exists>dr. \<exists>t \<in> set (t_client_traffics (w_db w)). c = scan_client dr t \<and> tr_id t = i"
  using assms
  by (auto simp: LockClientTraffic_def with_driver_def with_locked_def attempt_def bind_tx_def
      split: if_splits prod.splits sum.splits dest: clientTrafficByID_Inr)

section \<open>The charge of one client\<close>

text \<open>A target at a price the program accepts, and its part of a poll: the row under its id and e-mail is billed.\<close>

definition priced :: "ActiveRuleClient \<Rightarrow> bool" where
  "priced target \<longleftrightarrow> valid_factor (r_factor_ppm (arc_rule target)) \<and> valid_remainder (rc_rem_up (arc_client target)) \<and>
     valid_remainder (rc_rem_down (arc_client target))"

definition charged_target :: "ActiveRuleClient \<Rightarrow> TrafficRow \<Rightarrow> TrafficRow" where
  "charged_target target s =
    (if own_row target s \<and> tr_email s = rc_email (arc_client target) then billed target s else s)"

text \<open>Rows of the panel: each identifier once, counters in \<open>int64\<close>.\<close>

definition panel_rows :: "TrafficRow list \<Rightarrow> bool" where
  "panel_rows rows \<longleftrightarrow> distinct (map tr_id rows) \<and> (\<forall>s \<in> set rows. in_i64 (tr_up s) \<and> in_i64 (tr_down s))"

lemma panel_rowsD:
  "panel_rows rows \<Longrightarrow> s \<in> set rows \<Longrightarrow> t \<in> set rows \<Longrightarrow> tr_id s = tr_id t \<Longrightarrow> s = t"
  "panel_rows rows \<Longrightarrow> s \<in> set rows \<Longrightarrow> in_i64 (tr_up s) \<and> in_i64 (tr_down s)"
  using distinct_map_eq unfolding panel_rows_def by metis+

lemma own_row_unique:
  assumes "panel_rows rows" and "t \<in> set rows" and "own_row target t" and "s \<in> set rows" and "own_row target s"
  shows "s = t"
  using panel_rowsD(1) [OF assms(1,4,2)] assms(3,5) by (simp add: own_row_def)

text \<open>Nothing but the compare-and-swap writes the counters.\<close>

lemma keeps_rows:
  "keeps t_client_traffics (UpdateRuleClientBaseline rc)" "keeps t_client_traffics (AddEvent r e m now)"
  "keeps t_client_traffics (AdoptRuleClientInbound i j inb now)" "keeps t_client_traffics (markMissing target now)"
  "keeps t_client_traffics (rebaseline target c now)" "keeps t_client_traffics (refreshSuppressedBaseline now target u)"
  unfolding refreshSuppressedBaseline_def markMissing_def rebaseline_def by (intro keeps_intro; simp)+

lemma CAS_Inr:
  assumes "UpdateClientCountersCAS c u v w = (Inr True, w')"
  shows "t_client_traffics (w_db w') =
    update_where (cas_match c) (\<lambda>t. t\<lparr>tr_up := u, tr_down := v\<rparr>) (t_client_traffics (w_db w))"
  using assms
  by (auto simp: UpdateClientCountersCAS_def bind_tx_Inr split: if_splits dest!: exec_context_Inr)

lemma applyExtra_rows:
  assumes run: "applyExtra no_hook target (scan_client dr t) up down now w = (Inr res, w')"
    and t: "t \<in> set (t_client_traffics (w_db w))" and own: "own_row target t"
    and rows: "panel_rows (t_client_traffics (w_db w))" and range: "in_i64 (fst up)" "in_i64 (fst down)"
    and new: "billed target t = t\<lparr>tr_up := tr_up t + fst up, tr_down := tr_down t + fst down\<rparr>"
  shows "tg_deferred res = 0 \<and>
    t_client_traffics (w_db w') = update_where (own_row target) (billed target) (t_client_traffics (w_db w))"
proof -
  obtain u v w1 w2 w3 where sums: "safeAdd (tr_up t) (fst up) = Inr u" "safeAdd (tr_down t) (fst down) = Inr v"
    and cas: "UpdateClientCountersCAS (scan_client dr t) u v w = (Inr True, w1)"
    and res: "tg_deferred res = 0" and w1: "t_client_traffics (w_db w') = t_client_traffics (w_db w1)"
    using run keepsD [OF keeps_rows(1)] keepsD [OF keeps_rows(2)]
    by (force simp: applyExtra_def no_hook_def from_result_Inr bind_tx_Inr no_target_result_def split: if_splits)
  have "u = tr_up t + fst up" "v = tr_down t + fst down"
    using sums range panel_rowsD(2) [OF rows t] by (auto simp: safeAdd_exact split: if_splits)
  moreover have "cas_match (scan_client dr t) s \<longleftrightarrow> own_row target s" "own_row target s \<Longrightarrow> s = t"
    if s: "s \<in> set (t_client_traffics (w_db w))" for s
    using panel_rowsD(1) [OF rows s t] own by (auto simp: cas_match_def own_row_def)
  ultimately show ?thesis using res w1 CAS_Inr [OF cas] new by (auto simp: update_where_def)
qed

lemma unbilled: "cn_value (new_up target t) = tr_up t \<Longrightarrow> cn_value (new_down target t) = tr_down t \<Longrightarrow> billed target t = t"
  by (simp add: billed_def)

lemma unbilled_rows:
  assumes "t \<in> set rows" and "own_row target t" and "panel_rows rows" and "billed target t = t"
  shows "update_where (own_row target) (billed target) rows = rows"
  using own_row_unique [OF assms(3,1,2)] assms(4) unfolding update_where_def by (intro map_idI) auto

lemma unbilled_step:
  assumes "tg_deferred res = 0 \<and> t_client_traffics (w_db w') = t_client_traffics (w_db w)"
    and "t \<in> set (t_client_traffics (w_db w))" and "own_row target t" and "panel_rows (t_client_traffics (w_db w))"
    and "billed target t = t"
  shows "tg_deferred res = 0 \<and>
    t_client_traffics (w_db w') = update_where (own_row target) (billed target) (t_client_traffics (w_db w))"
  using unbilled_rows [OF assms(2-5)] assms(1) by simp

lemmas rows_kept = keeps_rows [THEN keepsD]

lemma factor_extra: "priced target \<Longrightarrow> wrap64 (r_factor_ppm (arc_rule target) - FactorScale) = r_factor_ppm (arc_rule target) - FactorScale"
  by (simp add: priced_def valid_factor_def in_i64_bounds FactorScale_def MaxInt64_def)

lemma charged_deltas:
  assumes run: "tickDeltas no_hook target (scan_client dr t) (tr_up t - rc_last_up (arc_client target))
      (tr_down t - rc_last_down (arc_client target)) now w = (Inr res, w')"
    and t: "t \<in> set (t_client_traffics (w_db w))" and own: "own_row target t"
    and rows: "panel_rows (t_client_traffics (w_db w))" and price: "priced target"
    and going: "\<not> rebases t (arc_client target)"
  shows "tg_deferred res = 0 \<and>
    t_client_traffics (w_db w') = update_where (own_row target) (billed target) (t_client_traffics (w_db w))"
proof (cases "r_factor_ppm (arc_rule target) = FactorScale")
  case True
  then have same: "billed target t = t"
    by (intro unbilled) (simp_all add: new_up_def new_down_def charge_def up_counter_def down_counter_def)
  show ?thesis
    by (rule unbilled_step [OF _ t own rows same])
      (use run True in \<open>auto simp: tickDeltas_def Let_def bind_tx_Inr no_target_result_def split: if_splits dest!: rows_kept\<close>)
next
  case False
  let ?x = "r_factor_ppm (arc_rule target) - FactorScale"
  let ?du = "tr_up t - rc_last_up (arc_client target)" and ?dd = "tr_down t - rc_last_down (arc_client target)"
  note new = factor_new [OF going False]
  show ?thesis
  proof (cases "?du = 0 \<and> ?dd = 0")
    case True
    then have same: "billed target t = t"
      using price by (intro unbilled) (auto simp: new extra_of_def priced_def valid_remainder_def)
    show ?thesis
      by (rule unbilled_step [OF _ t own rows same])
        (use run True False in \<open>auto simp: tickDeltas_def Let_def no_target_result_def dest!: rows_kept\<close>)
  next
    case moved: False
    obtain up down where extra: "calculateExtra ?du ?x (rc_rem_up (arc_client target)) = Inr up"
        "calculateExtra ?dd ?x (rc_rem_down (arc_client target)) = Inr down"
      and rest: "(if fst up = 0 \<and> fst down = 0 then
          bind_tx (UpdateRuleClientBaseline (baseline target (scan_client dr t) (snd up) (snd down) now)) (\<lambda>_.
          return_tx (no_target_result\<lparr>tg_baselined := 1\<rparr>))
        else applyExtra no_hook target (scan_client dr t) up down now) w = (Inr res, w')"
      using run False moved by (auto simp: tickDeltas_def Let_def factor_extra [OF price] from_result_Inr)
    note charge = extra [THEN calculateExtra_extra_of]
    have billed: "billed target t = t\<lparr>tr_up := tr_up t + fst up, tr_down := tr_down t + fst down\<rparr>"
      by (simp add: billed_def new charge)
    show ?thesis
    proof (cases "fst up = 0 \<and> fst down = 0")
      case True
      with billed have same: "billed target t = t" by simp
      show ?thesis
        by (rule unbilled_step [OF _ t own rows same])
          (use rest True in \<open>auto simp: bind_tx_Inr no_target_result_def dest!: rows_kept\<close>)
    next
      case due: False
      with rest have "applyExtra no_hook target (scan_client dr t) up down now w = (Inr res, w')" by auto
      from applyExtra_rows [OF this t own rows _ _ billed] show ?thesis using calculateExtra_range extra by blast
    qed
  qed
qed

lemma charged_current:
  assumes run: "tickCurrent no_hook target (scan_client dr t) now w = (Inr res, w')"
    and t: "t \<in> set (t_client_traffics (w_db w))" and own: "own_row target t"
    and rows: "panel_rows (t_client_traffics (w_db w))" and price: "priced target"
  shows "tg_deferred res = 0 \<and>
    t_client_traffics (w_db w') = update_where (own_row target) (billed target) (t_client_traffics (w_db w))"
proof (cases "rebases t (arc_client target)")
  case True
  then have same: "billed target t = t"
    by (intro unbilled) (simp_all add: new_up_def new_down_def charge_def up_counter_def down_counter_def)
  show ?thesis
    by (rule unbilled_step [OF _ t own rows same])
      (use run True in \<open>auto simp: tickCurrent_def bind_tx_Inr from_result_Inr rebaseline_def no_target_result_def
        counterDelta_def rebases_def split: if_splits dest!: rows_kept\<close>)
next
  case False
  then have "tickDeltas no_hook target (scan_client dr t) (tr_up t - rc_last_up (arc_client target))
      (tr_down t - rc_last_down (arc_client target)) now w = (Inr res, w')"
    using run panel_rowsD(2) [OF rows t]
    by (auto simp: tickCurrent_def from_result_Inr counterDelta_def rebases_def in_i64_bounds split: if_splits)
  from charged_deltas [OF this t own rows price False] show ?thesis .
qed

text \<open>One target, whatever the driver answers: when it succeeds and is not deferred, exactly its row is billed.\<close>

lemma markMissing_Inr:
  "markMissing target now w = (Inr res, w') \<Longrightarrow> tg_deferred res = 0 \<and> t_client_traffics (w_db w') = t_client_traffics (w_db w)"
  by (frule rows_kept(4)) (auto simp: markMissing_def Let_def bind_tx_Inr no_target_result_def)

lemma charged_target_rows:
  assumes "t \<in> set rows" and "own_row target t" and "panel_rows rows" and "tr_email t = rc_email (arc_client target)"
  shows "map (charged_target target) rows = update_where (own_row target) (billed target) rows"
  using own_row_unique [OF assms(3,1,2)] assms(4) unfolding update_where_def
  by (intro map_cong) (auto simp: charged_target_def)

lemma uncharged_rows:
  assumes "\<And>s. s \<in> set rows \<Longrightarrow> own_row target s \<Longrightarrow> tr_email s \<noteq> rc_email (arc_client target)"
  shows "map (charged_target target) rows = rows"
  using assms by (intro map_idI) (auto simp: charged_target_def)

lemma query_row_Inl: "QueryRowContext q w = (Inl e, w') \<Longrightarrow> \<exists>t. e = ErrDriver t"
  by (auto simp: QueryRowContext_def statement_def refuse_def Let_def split: if_splits list.splits option.splits)

lemma absent_row:
  assumes "clientTrafficByID [] i w = (Inl e, w1)" and "errors_is e ErrNotFound"
  shows "\<forall>s \<in> set (t_client_traffics (w_db w)). tr_id s \<noteq> i"
proof -
  from assms obtain dr r w2 where row: "QueryRowContext (\<lambda>d. first_of (map (scan_client dr)
      (filter (\<lambda>t. tr_id t = i) (t_client_traffics d)))) w = (Inr r, w2)" and "r = None"
    by (auto simp: clientTrafficByID_def with_driver_def bind_tx_Inl found_def split: option.splits dest!: query_row_Inl)
  with query_row_Inr [OF row] have "filter (\<lambda>t. tr_id t = i) (t_client_traffics (w_db w)) = []"
    by (cases "filter (\<lambda>t. tr_id t = i) (t_client_traffics (w_db w))") auto
  then show ?thesis by (simp add: filter_empty_conv)
qed

lemma not_found_row:
  assumes lock: "LockClientTraffic i w = (Inl e, w1)" and e: "errors_is e ErrNotFound"
  shows "\<forall>s \<in> set (t_client_traffics (w_db w)). tr_id s \<noteq> i"
proof (cases "w_driver w = DriverPostgres")
  case True
  obtain r w2 where first: "clientTrafficByID (w_locked w) i w = (r, w2)" by fastforce
  with lock True e have "clientTrafficByID [] i w2 = (Inl e, w1)"
    by (auto simp: LockClientTraffic_def with_driver_def with_locked_def attempt_def bind_tx_Inl split: sum.splits if_splits)
  from absent_row [OF this e] keepsD [OF readers_keep(2) first, where k = "\<lambda>d. d"] show ?thesis by simp
qed (use lock e in \<open>auto simp: LockClientTraffic_def with_driver_def dest: absent_row\<close>)

lemma charged_tickTarget:
  assumes run: "tickTarget no_hook target now w = (Inr res, w')" and price: "priced target"
    and rows: "panel_rows (t_client_traffics (w_db w))"
  shows "0 \<le> tg_deferred res \<and>
    (tg_deferred res = 0 \<longrightarrow> t_client_traffics (w_db w') = map (charged_target target) (t_client_traffics (w_db w)))"
proof -
  obtain r w1 where lock: "LockClientTraffic (rc_traffic_id (arc_client target)) w = (r, w1)" by fastforce
  then have w1: "t_client_traffics (w_db w1) = t_client_traffics (w_db w)" by (rule keepsD [OF readers_keep(4)])
  show ?thesis
  proof (cases r)
    case (Inl e)
    show ?thesis
    proof (cases "errors_is e ErrNotFound")
      case True
      then have "map (charged_target target) (t_client_traffics (w_db w)) = t_client_traffics (w_db w)"
        using not_found_row lock Inl by (intro uncharged_rows) (auto simp: own_row_def)
      with True run lock Inl w1 show ?thesis
        by (auto simp: tickTarget_def attempt_def dest!: markMissing_Inr)
    next
      case False
      with run lock Inl show ?thesis
        by (auto simp: tickTarget_def attempt_def no_target_result_def split: if_splits)
    qed
  next
    case (Inr c)
    then obtain dr t where t: "t \<in> set (t_client_traffics (w_db w))" "c = scan_client dr t" "own_row target t"
      using LockClientTraffic_Inr lock by (fastforce simp: own_row_def)
    show ?thesis
    proof (cases "tr_email t = rc_email (arc_client target)")
      case False
      then have "map (charged_target target) (t_client_traffics (w_db w)) = t_client_traffics (w_db w)"
        using own_row_unique [OF rows t(1,3)] by (intro uncharged_rows) metis
      with False run lock Inr w1 t show ?thesis
        by (auto simp: tickTarget_def attempt_def dest!: markMissing_Inr)
    next
      case True
      let ?tg = "at_inbound (tr_inbound_id t) target"
      have tg: "billed ?tg = billed target" "own_row ?tg t" "priced ?tg"
        using price t(3) by (auto simp: billed_def fun_eq_iff priced_def) (simp add: at_inbound_def)
      show ?thesis
      proof (cases "tr_inbound_id t = rc_inbound_id (arc_client target)")
        case same: True
        then have "tickCurrent no_hook target (scan_client dr t) now w1 = (Inr res, w')"
          using True run lock Inr t(2) by (simp add: tickTarget_def attempt_def)
        from charged_current [OF this] show ?thesis
          using t(1,3) price rows by (simp add: w1 charged_target_rows [OF t(1,3) rows True])
      next
        case moved: False
        then obtain w2 where adopt: "AdoptRuleClientInbound (rc_rule_id (arc_client target)) (rc_traffic_id (arc_client target))
            (tr_inbound_id t) now w1 = (Inr (), w2)" and "tickCurrent no_hook ?tg (scan_client dr t) now w2 = (Inr res, w')"
          using True run lock Inr t(2) by (auto simp: tickTarget_def attempt_def bind_tx_Inr at_inbound_def)
        from charged_current [OF this(2)] show ?thesis
          using rows_kept(3) [OF adopt] t(1) tg rows by (simp add: w1 charged_target_rows [OF t(1,3) rows True])
      qed
    qed
  qed
qed

section \<open>The charges of all decisions\<close>

definition charged_decision :: "Decision \<Rightarrow> TrafficRow \<Rightarrow> TrafficRow" where
  "charged_decision d s = (case d_target d of None \<Rightarrow> s | Some target \<Rightarrow> charged_target target s)"

text \<open>A row after the poll: the decision on its client, if there is one.\<close>

definition charged :: "Decision list \<Rightarrow> TrafficRow \<Rightarrow> TrafficRow" where
  "charged ds s = (case first_of (filter (\<lambda>d. d_traffic_id d = tr_id s) ds) of None \<Rightarrow> s | Some d \<Rightarrow> charged_decision d s)"

definition own_target :: "Decision \<Rightarrow> bool" where
  "own_target d \<longleftrightarrow> (\<forall>target. d_target d = Some target \<longrightarrow>
     priced target \<and> rc_traffic_id (arc_client target) = d_traffic_id d)"

lemma charged_decision_id [simp]: "tr_id (charged_decision d s) = tr_id s"
  by (simp add: charged_decision_def charged_target_def billed_def split: option.split)

lemma charged_Cons:
  assumes "d_traffic_id d \<notin> d_traffic_id ` set ds" and "own_target d"
  shows "charged ds (charged_decision d s) = charged (d # ds) s"
proof (cases "d_traffic_id d = tr_id s")
  case True
  with assms(1) have "filter (\<lambda>x. d_traffic_id x = tr_id s) ds = []"
    by (force simp: filter_empty_conv)
  with True show ?thesis by (simp add: charged_def)
next
  case False
  with assms(2) have "charged_decision d s = s"
    by (auto simp: charged_decision_def charged_target_def own_row_def own_target_def split: option.split)
  with False show ?thesis by (simp add: charged_def)
qed

lemma charged_decision_rows:
  assumes run: "decision_step no_hook now d acc w = (Inr res, w')" and own: "own_target d"
    and rows: "panel_rows (t_client_traffics (w_db w))"
  shows "tk_deferred acc \<le> tk_deferred res \<and> (tk_deferred res = tk_deferred acc \<longrightarrow>
    t_client_traffics (w_db w') = map (charged_decision d) (t_client_traffics (w_db w)))"
proof -
  obtain w1 where target: "(case d_target d of None \<Rightarrow> return_tx acc
      | Some target \<Rightarrow> bind_tx (tickTarget no_hook target now) (\<lambda>step. return_tx (add_target acc step))) w = (Inr res, w1)"
    and rest: "for_each (d_suppressed d) (refreshSuppressedBaseline now) () w1 = (Inr (), w')"
    using run by (auto simp: decision_step_def bind_tx_Inr)
  have same: "t_client_traffics (w_db w') = t_client_traffics (w_db w1)"
    by (rule keepsD [OF keeps_for_each rest]) (rule keeps_rows)
  show ?thesis
  proof (cases "d_target d")
    case None
    with target same show ?thesis by (simp add: charged_decision_def [abs_def])
  next
    case (Some t)
    with own have "priced t" by (simp add: own_target_def)
    with Some target charged_tickTarget [of t now w _ w1] rows same show ?thesis
      by (auto simp: charged_decision_def [abs_def] bind_tx_Inr add_target_def)
  qed
qed

lemma row_grows_id: "row_grows s s' \<Longrightarrow> tr_id s' = tr_id s"
  by (simp add: row_grows_def identity_of_def)

lemma grown_ids: "list_all2 row_grows rows rows' \<Longrightarrow> map tr_id rows' = map tr_id rows"
  by (induction rule: list_all2_induct) (simp_all add: row_grows_id)

lemma panel_rows_grown: "grown d d' \<Longrightarrow> panel_rows (t_client_traffics d) \<Longrightarrow> panel_rows (t_client_traffics d')"
  unfolding grown_def in_range_def panel_rows_def using grown_ids by metis

lemma charged_loop:
  assumes "for_each ds (decision_step no_hook now) acc w = (Inr res, w')" and "distinct (map d_traffic_id ds)"
    and "list_all own_target ds" and "panel_rows (t_client_traffics (w_db w))"
  shows "tk_deferred acc \<le> tk_deferred res \<and> (tk_deferred res = tk_deferred acc \<longrightarrow>
    t_client_traffics (w_db w') = map (charged ds) (t_client_traffics (w_db w)))"
  using assms
proof (induction ds arbitrary: acc w)
  case Nil
  then show ?case by (simp add: charged_def [abs_def])
next
  case (Cons d ds)
  obtain acc1 w1 where step: "decision_step no_hook now d acc w = (Inr acc1, w1)"
    and rest: "for_each ds (decision_step no_hook now) acc1 w1 = (Inr res, w')"
    using Cons.prems(1) by (auto simp: bind_tx_Inr)
  have own: "own_target d" and new: "d_traffic_id d \<notin> d_traffic_id ` set ds" using Cons.prems(2,3) by auto
  have "grows (decision_step no_hook now d acc)"
    unfolding decision_step_def by (intro moves_intro grows_tickTarget keeps_grows [OF keeps_suppressed])
  from growth.underD [OF this, of w] have "grown (w_db w) (w_db w1)" by (simp add: step)
  then have "panel_rows (t_client_traffics (w_db w1))" using Cons.prems(4) by (rule panel_rows_grown)
  with Cons.IH [OF rest] Cons.prems(2,3) charged_decision_rows [OF step own Cons.prems(4)]
  show ?case by (auto simp: charged_Cons [OF new own] o_def)
qed

text \<open>The decisions of a poll name targets at valid prices, whose traffic id is the decision's.\<close>

lemma priced_active:
  assumes "schema d" and "t \<in> set (active_targets d)"
  shows "priced t"
  using assms
  by (auto simp: priced_def active_targets_def schema_def rules_ok_def rule_clients_ok_def valid_rule_client_def
      scanRuleWithScope_def scanRule_def)

lemma priced_candidate:
  assumes "schema d" and "c_target c = Some t"
    and "c \<in> set (tick_candidates (active_targets d) (active_excludes d) (active_overrides d))"
  shows "priced t"
proof -
  have factor: "priced (with_factor (op_factor_ppm p) t')" if "t' \<in> set (active_targets d)" "p \<in> set (active_overrides d)" for t' p
    using priced_active [OF assms(1) that(1)] that(2) assms(1)
    by (auto simp: priced_def with_factor_def active_overrides_def schema_def policies_ok_def)
  show ?thesis
    using assms(2,3) priced_active [OF assms(1)] factor
    by (auto simp: tick_candidates_def ActiveRuleCandidates_def rule_candidate_def ExcludeCandidatesForActiveTargets_def
      exclude_candidate_def OverrideCandidatesForActiveTargets_def override_candidate_def target_for_key_def
      split: option.splits dest!: first_of_SomeD [OF sym])
qed

lemma own_decisions:
  assumes "schema d" and "Decide (tick_candidates (active_targets d) (active_excludes d) (active_overrides d)) = Inr ds"
  shows "list_all own_target ds" and "distinct (map d_traffic_id ds)"
proof -
  show "list_all own_target ds"
    unfolding list_all_iff own_target_def
  proof (intro ballI allI impI conjI)
    fix x t
    assume x: "x \<in> set ds" "d_target x = Some t"
    then show "rc_traffic_id (arc_client t) = d_traffic_id x" using tick_decision_target [OF assms(2)] by blast
    obtain w where "beats w (candidates_of (d_traffic_id x) (tick_candidates (active_targets d) (active_excludes d)
        (active_overrides d)))" "decided w (d_traffic_id x) x"
      using Decide_Inr(2) [OF assms(2) x(1)] by blast
    with x(2) priced_candidate [OF assms(1), of w t] show "priced t"
      by (auto simp: candidates_of_def decided_def dest!: beats_in)
  qed
  show "distinct (map d_traffic_id ds)" by (simp add: Decide_Inr(1) [OF assms(2)])
qed

section \<open>Aborted transactions\<close>

text \<open>
  PostgreSQL answers the \<open>COMMIT\<close> of an aborted transaction with a rollback and no error. A candid program leaves the
  transaction aborted only when it returns an error of its own, not one that the tick's callers take for an answer.
\<close>

definition serious :: "error \<Rightarrow> bool" where
  "serious e \<longleftrightarrow> \<not> errors_is e ErrNotFound \<and> \<not> errors_is e ErrLocked"

definition candid :: "'a tx \<Rightarrow> bool" where
  "candid m \<longleftrightarrow> (\<forall>w r w'. \<not> w_aborted w \<longrightarrow> m w = (r, w') \<longrightarrow> w_aborted w' \<longrightarrow> (\<exists>e. r = Inl e \<and> serious e))"

named_theorems candid_intro \<open>programs that do not hide an aborted transaction\<close>

lemma candidD: "candid m \<Longrightarrow> m w = (Inr x, w') \<Longrightarrow> \<not> w_aborted w \<Longrightarrow> \<not> w_aborted w'"
  unfolding candid_def by blast

lemma candid_return [candid_intro]: "candid (return_tx x)" "candid (fail_tx e)" "candid (found r)"
  by (auto simp: candid_def found_def split: option.splits)

lemma candid_statement:
  assumes "\<And>t. serious (wrap (ErrDriver t))"
  shows "candid (statement wrap f)"
  using assms
  by (auto simp: candid_def statement_def refuse_def Let_def split: list.splits option.splits sum.splits)

lemma serious_driver: "serious (ErrDriver t)" "serious (wrapDatabaseError action (ErrDriver t))"
  by (simp_all add: serious_def wrapDatabaseError_def Let_def)

lemma candid_statements [candid_intro]:
  "candid (ExecContext f)" "candid (exec_tx g)" "candid (QueryContext q)" "candid (QueryRowContext q')"
  unfolding exec_tx_def ExecContext_def QueryContext_def QueryRowContext_def
  by (intro candid_statement serious_driver)+

lemma candid_bind [candid_intro]:
  assumes "candid m" and "\<And>x. candid (f x)"
  shows "candid (bind_tx m f)"
  unfolding candid_def
proof (intro allI impI)
  fix w r w'
  assume w: "\<not> w_aborted w" and run: "bind_tx m f w = (r, w')" and w': "w_aborted w'"
  obtain r1 w1 where m: "m w = (r1, w1)" by fastforce
  show "\<exists>e. r = Inl e \<and> serious e"
  proof (cases r1)
    case (Inl e)
    with m run w w' assms(1) show ?thesis by (auto simp: bind_tx_def candid_def)
  next
    case (Inr x)
    with m have "\<not> w_aborted w1" using candidD [OF assms(1) _ w] by blast
    with m run Inr w' assms(2) [of x] show ?thesis by (auto simp: bind_tx_def candid_def)
  qed
qed

lemma candid_attempt [candid_intro]:
  assumes "candid m" and "\<And>r. candid (h r)" and "\<And>e. serious e \<Longrightarrow> h (Inl e) = fail_tx e"
  shows "candid (attempt m h)"
  unfolding candid_def
proof (intro allI impI)
  fix w r w'
  assume w: "\<not> w_aborted w" and run: "attempt m h w = (r, w')" and w': "w_aborted w'"
  obtain r1 w1 where m: "m w = (r1, w1)" by fastforce
  show "\<exists>e. r = Inl e \<and> serious e"
  proof (cases "w_aborted w1")
    case True
    with m w assms(1) obtain e where "r1 = Inl e" "serious e" unfolding candid_def by blast
    with m run assms(3) show ?thesis by (auto simp: attempt_def)
  next
    case False
    with m run w' assms(2) [of r1] show ?thesis by (simp add: attempt_def candid_def)
  qed
qed

lemma candid_access [candid_intro]:
  "(\<And>d. candid (k d)) \<Longrightarrow> candid (with_driver k)" "(\<And>l. candid (k' l)) \<Longrightarrow> candid (with_locked k')"
  by (simp_all add: candid_def with_driver_def with_locked_def)

lemma candid_branches [candid_intro]:
  "candid p \<Longrightarrow> candid q \<Longrightarrow> candid (if b then p else q)"
  "(\<And>e. candid (f e)) \<Longrightarrow> (\<And>x. candid (g x)) \<Longrightarrow> candid (case r of Inl e \<Rightarrow> f e | Inr x \<Rightarrow> g x)"
  "candid p \<Longrightarrow> (\<And>x. candid (f' x)) \<Longrightarrow> candid (case z of None \<Rightarrow> p | Some x \<Rightarrow> f' x)"
  "(\<And>a b. candid (h a b)) \<Longrightarrow> candid (case y of (a, b) \<Rightarrow> h a b)"
  by (auto split: sum.split option.split prod.split)

lemma candid_from_result [candid_intro]: "(\<And>x. candid (f x)) \<Longrightarrow> candid (from_result r f)"
  unfolding from_result_def by (intro candid_intro)

lemma candid_for_each [candid_intro]: "(\<And>x acc. candid (f x acc)) \<Longrightarrow> candid (for_each xs f acc)"
  by (induction xs arbitrary: acc) (simp_all add: candid_intro)

lemma candid_store [candid_intro]:
  "candid (clientTrafficByID skip i)" "candid (ClientTrafficByID i)" "candid (LockClientTraffic i)"
  "candid (UpdateRuleClientBaseline rc)" "candid (AddEvent r e msg now)" "candid (AdoptRuleClientInbound i j inb now)"
  "candid (MarkRuleClientMissing i j now)" "candid (UpdateClientCountersCAS c u v)"
  unfolding clientTrafficByID_def ClientTrafficByID_def LockClientTraffic_def UpdateRuleClientBaseline_def AddEvent_def
    AdoptRuleClientInbound_def MarkRuleClientMissing_def UpdateClientCountersCAS_def update_rule_clients_def
  by (intro candid_intro; simp add: serious_def)+

lemma candid_tick [candid_intro]:
  "candid (tickTarget no_hook target now)" "candid (refreshSuppressedBaseline now target u)"
  unfolding tickTarget_def tickCurrent_def tickDeltas_def applyExtra_def rebaseline_def markMissing_def no_hook_def
    refreshSuppressedBaseline_def Let_def
  by (intro candid_intro; simp add: serious_def)+

lemma candid_decision [candid_intro]: "candid (decision_step no_hook now d acc)"
  unfolding decision_step_def by (intro candid_intro)

lemma run_body_Inr:
  assumes "run_body action fn w = (Inr x, w')"
  shows "\<exists>w2. fn w = (Inr x, w2) \<and> (\<not> w_aborted w2 \<longrightarrow> w_db w' = w_db w2)"
  using assms
  by (auto simp: run_body_def split: prod.splits sum.splits if_splits dest: conn_call_db)

lemma WithImmediateTx_Inr:
  assumes "WithImmediateTx fn w = (Inr x, w')"
  shows "\<exists>w0 w2. w_db w0 = w_db w \<and> fn w0 = (Inr x, w2) \<and> (\<not> w_aborted w2 \<longrightarrow> w_db w' = w_db w2)"
proof -
  obtain w1 w2 w3 where calls: "conn_call (\<lambda>e. e) w = (Inr (), w1)"
    "conn_call (wrapDatabaseError ''begin write transaction'') w1 = (Inr (), w2)"
    "(if w_driver w1 = DriverPostgres then conn_call (wrapDatabaseError ''lock write transaction'') else return_tx ()) w2 = (Inr (), w3)"
    and body: "run_body ''commit transaction'' fn w3 = (Inr x, w')"
    using assms by (auto simp: WithImmediateTx_def bind_tx_Inr with_driver_def)
  have "w_db w3 = w_db w" using calls by (auto dest!: conn_call_db split: if_splits)
  with run_body_Inr [OF body] show ?thesis by blast
qed

section \<open>The poll\<close>

lemma query_alive: "QueryContext q w = (Inr x, w') \<Longrightarrow> x = q (w_db w) \<and> w_db w' = w_db w \<and> \<not> w_aborted w'"
  unfolding QueryContext_def by (drule statement_Inr) auto

lemma decide_all_Inr:
  assumes "decide_all w = (Inr ds, w')"
  shows "Decide (tick_candidates (active_targets (w_db w)) (active_excludes (w_db w)) (active_overrides (w_db w))) = Inr ds"
    and "w_db w' = w_db w" and "\<not> w_aborted w'"
proof -
  obtain ts es os w1 w2 w3 where "QueryContext active_targets w = (Inr ts, w1)" "QueryContext active_excludes w1 = (Inr es, w2)"
    "QueryContext active_overrides w2 = (Inr os, w3)"
    and last: "(case Decide (tick_candidates ts es os) of
        Inr decisions \<Rightarrow> return_tx decisions
      | Inl err \<Rightarrow> if errors_is err ErrAmbiguousEffectiveTarget then fail_tx (ConflictError (error_text err))
          else fail_tx err) w3 = (Inr ds, w')"
    using assms
    by (auto simp: decide_all_def ListActiveRuleClients_def ListActiveExcludes_def ListActiveOverrides_def bind_tx_Inr)
  then have read: "ts = active_targets (w_db w)" "es = active_excludes (w_db w)" "os = active_overrides (w_db w)"
    and w3: "w_db w3 = w_db w" "\<not> w_aborted w3"
    by (auto dest!: query_alive)
  have "Decide (tick_candidates ts es os) = Inr ds \<and> w' = w3"
    using last by (cases "Decide (tick_candidates ts es os)") (auto split: if_splits)
  with read w3 show "Decide (tick_candidates (active_targets (w_db w)) (active_excludes (w_db w)) (active_overrides (w_db w))) = Inr ds"
    "w_db w' = w_db w" "\<not> w_aborted w'" by simp_all
qed

text \<open>What a poll decides on: the database after reconciling and enrolling.\<close>

definition prepared :: "int \<Rightarrow> World \<Rightarrow> World \<Rightarrow> bool" where
  "prepared now w w2 \<longleftrightarrow> (\<exists>report w1 counts. ReconcileTx now \<lparr>rq_inbound_id = None, rq_dry_run = False\<rparr> w = (Inr report, w1) \<and>
     reconcileScopes now w1 = (Inr counts, w2))"

lemma prepared_facts:
  assumes "prepared now w w2" and "schema (w_db w)"
  shows "schema (w_db w2)" and "panel (w_db w2) = panel (w_db w)"
proof -
  obtain report w1 counts where run: "ReconcileTx now \<lparr>rq_inbound_id = None, rq_dry_run = False\<rparr> w = (Inr report, w1)"
    "reconcileScopes now w1 = (Inr counts, w2)"
    using assms(1) by (auto simp: prepared_def)
  have "evolves (w_db w) (w_db w1)"
    using evo.movesD [OF evo_ReconcileTx [of "{}"] _ run(1)] assms(2) by (simp add: known_def)
  then have w1: "schema (w_db w1)" using assms(2) by (simp add: evolves_def)
  then have "evolves (w_db w1) (w_db w2)"
    using evo.movesD [OF evo_reconcileScopes _ run(2)] by (simp add: known_def)
  with w1 show "schema (w_db w2)" by (simp add: evolves_def)
  show "panel (w_db w2) = panel (w_db w)"
    using keepsD [OF keeps_panel_reconcile run(1)] keepsD [OF keeps_reconcileScopes run(2)] by simp
qed

lemma charged_body:
  assumes run: "Tick_body cfg no_hook clock w = (Inr res, w')" and all: "tk_deferred res = 0"
    and schema: "schema (w_db w)" and rows: "panel_rows (t_client_traffics (w_db w))"
  shows "\<exists>w1 w2 ds. w_db w1 = w_db w \<and> prepared (clock div 1000) w1 w2 \<and>
    Decide (tick_candidates (active_targets (w_db w2)) (active_excludes (w_db w2)) (active_overrides (w_db w2))) = Inr ds \<and>
    t_client_traffics (w_db w') = map (charged ds) (t_client_traffics (w_db w)) \<and> \<not> w_aborted w'"
proof -
  from run obtain w1 report w2 counts w3 ds w4 where
    role: "(if tc_factor_on_managed_node cfg then return_tx ()
       else bind_tx (PanelRole_tx clock) (\<lambda>role. if pr_managed role then fail_tx ErrManagedPanel else return_tx ())) w = (Inr (), w1)"
    and rec: "ReconcileTx (clock div 1000) \<lparr>rq_inbound_id = None, rq_dry_run = False\<rparr> w1 = (Inr report, w2)"
    and enrol: "reconcileScopes (clock div 1000) w2 = (Inr counts, w3)" and dec: "decide_all w3 = (Inr ds, w4)"
    and loop: "for_each ds (decision_step no_hook (clock div 1000)) \<lparr>tk_active_clients = 0,
      tk_reconciled = rr_reconciled report, tk_enrolled = fst counts, tk_enroll_skipped = snd counts, tk_applied = 0,
      tk_baselined = 0, tk_rebaselined = 0, tk_missing = 0, tk_deferred = 0\<rparr> w4 = (Inr res, w')"
    by (fastforce simp: Tick_body_def Let_def bind_tx_Inr)
  have "keeps (\<lambda>d. d) (if tc_factor_on_managed_node cfg then return_tx ()
      else bind_tx (PanelRole_tx clock) (\<lambda>role. if pr_managed role then fail_tx ErrManagedPanel else return_tx ()))"
    by (intro keeps_intro)
  from keepsD [OF this role] have w1: "w_db w1 = w_db w" .
  have prep: "prepared (clock div 1000) w1 w3" using rec enrol by (auto simp: prepared_def)
  note facts = prepared_facts [OF prep, unfolded w1, OF schema]
  note ds = decide_all_Inr [OF dec]
  have same: "t_client_traffics (w_db w4) = t_client_traffics (w_db w)" using facts(2) by (simp add: ds(2) panel_def)
  from charged_loop [OF loop own_decisions(2,1) [OF facts(1) ds(1)]] have
    "t_client_traffics (w_db w') = map (charged ds) (t_client_traffics (w_db w))"
    using all rows same by simp
  moreover have "candid (for_each ds (decision_step no_hook (clock div 1000)) acc)" for acc by (intro candid_intro)
  from candidD [OF this loop ds(3)] have "\<not> w_aborted w'" .
  ultimately show ?thesis using w1 prep ds(1) by blast
qed

text \<open>
  C2. A poll charges what it decides. When \<open>Tick\<close> succeeds and defers no client, whatever the driver did, every row of
  \<open>client_traffics\<close> is billed by the target of the decision on its client, under the factor of that decision, and every
  other row is as it was; the decisions are those on the database as it is after reconciling and enrolling.
\<close>

theorem poll_charges_its_decisions:
  assumes run: "Tick cfg no_hook clock w = (Inr (res, log), w')" and all: "tk_deferred res = 0"
    and schema: "schema (w_db w)" and rows: "panel_rows (t_client_traffics (w_db w))"
  shows "\<exists>w1 w2 ds. w_db w1 = w_db w \<and> prepared (clock div 1000) w1 w2 \<and>
    Decide (tick_candidates (active_targets (w_db w2)) (active_excludes (w_db w2)) (active_overrides (w_db w2))) = Inr ds \<and>
    t_client_traffics (w_db w') = map (charged ds) (t_client_traffics (w_db w))"
proof -
  obtain r w1 where attempt: "WithImmediateTx (Tick_body cfg no_hook clock) w = (r, w1)" by fastforce
  with run have tx: "WithImmediateTx (Tick_body cfg no_hook clock) w = (Inr res, w1)"
    and clean: "runAutoCleanup cfg (clock div 1000) w1 = (Inr log, w')"
    by (cases r; auto simp: Tick_def attempt_def bind_tx_Inr)+
  obtain w0 w2 where w0: "w_db w0 = w_db w" and body: "Tick_body cfg no_hook clock w0 = (Inr res, w2)"
    and commit: "\<not> w_aborted w2 \<Longrightarrow> w_db w1 = w_db w2"
    using WithImmediateTx_Inr [OF tx] by blast
  have "keeps panel (runAutoCleanup cfg (clock div 1000))"
    unfolding runAutoCleanup_def by (intro keeps_intro)
  from keepsD [OF this clean] have "t_client_traffics (w_db w') = t_client_traffics (w_db w1)" by (simp add: panel_def)
  moreover obtain v1 v2 ds where "w_db v1 = w_db w" "prepared (clock div 1000) v1 v2"
    "Decide (tick_candidates (active_targets (w_db v2)) (active_excludes (w_db v2)) (active_overrides (w_db v2))) = Inr ds"
    "t_client_traffics (w_db w2) = map (charged ds) (t_client_traffics (w_db w))" "\<not> w_aborted w2"
    using charged_body [OF body all, unfolded w0, OF schema rows] by blast
  ultimately show ?thesis using commit by metis
qed

theorem poll_charges_its_decisions_witness:
  "\<exists>w' w1 w2 ds. snd (Tick tick_config no_hook 100000 (sqlite_world [] disabled_db)) = w' \<and> w_db w1 = disabled_db \<and>
    prepared 100 w1 w2 \<and> map (charged ds) [disabled_row] = [charged_row] \<and> t_client_traffics (w_db w') = [charged_row]"
proof -
  obtain res log d where run: "Tick tick_config no_hook 100000 (sqlite_world [] disabled_db) = (Inr (res, log), sqlite_world [] d)"
    and row: "t_client_traffics d = [charged_row]" and all: "tk_deferred res = 0"
    using disabled_tick [of 100000] by auto
  have rows: "t_client_traffics disabled_db = [disabled_row]" by (simp add: disabled_db_def)
  then have "panel_rows (t_client_traffics (w_db (sqlite_world [] disabled_db)))"
    by (simp add: panel_rows_def disabled_row_def sample_row_def in_i64_bounds)
  from poll_charges_its_decisions [OF run all _ this] schema_reachable [OF reachable_disabled] run row rows
  show ?thesis by auto metis
qed

end
