(* ===== verification/XF_Rows.thy ===== *)
theory XF_Rows
  imports XF_Listings
begin

text \<open>
  Rows as the driver hands them out, and the \<open>scan*\<close> functions of \<open>store/rules.go\<close>, \<open>store/scopes.go\<close>,
  \<open>store/excludes.go\<close> and \<open>store/overrides.go\<close> that read them cell by cell. The other theories keep typed
  rows; here a row of a table is a map from its columns to cells, a query selects columns in its own order, and
  \<open>Scan\<close> converts the cells in that order into the fields of a struct. The lemmas show that the order of every
  select list agrees with the order of its destinations, so that the structs are those of the typed rows.
\<close>

section \<open>Cells and columns\<close>

datatype cell = CellNull | CellInt int | CellText string | CellBool bool

type_synonym stored = "string \<Rightarrow> cell"

type_synonym row = "(string \<times> cell) list"

text \<open>The expressions of the select lists: a column, and \<open>COALESCE(column, default)\<close>.\<close>

datatype column = Col string | Coalesce string cell

fun column_value :: "stored \<Rightarrow> column \<Rightarrow> cell" where
  "column_value st (Col n) = st n"
| "column_value st (Coalesce n d) = (if st n = CellNull then d else st n)"

text \<open>The name a driver gives an expression is its own: \<open>label\<close> stands for it.\<close>

definition select :: "(column \<Rightarrow> string) \<Rightarrow> column list \<Rightarrow> stored \<Rightarrow> row" where
  "select label columns st = map (\<lambda>c. (label c, column_value st c)) columns"

text \<open>The columns of a left join that finds no partner.\<close>

definition select_joined :: "(column \<Rightarrow> string) \<Rightarrow> column list \<Rightarrow> stored option \<Rightarrow> row" where
  "select_joined label columns st =
    (case st of None \<Rightarrow> map (\<lambda>c. (label c, CellNull)) columns | Some s \<Rightarrow> select label columns s)"

section \<open>\<open>database/sql\<close>: Scan\<close>

text \<open>\<open>convertAssign\<close> into an \<open>int64\<close>, a \<open>string\<close> and a \<open>sql.NullInt64\<close> (its value and \<open>Valid\<close>).\<close>

definition integer_shape :: "string \<Rightarrow> bool" where
  "integer_shape s =
    (let rest = (case s of c # cs \<Rightarrow> if c = CHR ''-'' \<or> c = CHR ''+'' then cs else s | [] \<Rightarrow> [])
     in rest \<noteq> [] \<and> list_all is_digit rest)"

definition bool_text :: "bool \<Rightarrow> string" where
  "bool_text b = (if b then ''true'' else ''false'')"

definition conversion_error :: "string \<Rightarrow> string \<Rightarrow> string \<Rightarrow> string" where
  "conversion_error type s reason =
    ''converting driver.Value type '' @ type @ '' ('' @ quoted s @ '') to a int64: '' @ reason"

fun int64_dest :: "cell \<Rightarrow> string + int" where
  "int64_dest CellNull = Inl ''converting NULL to int64 is unsupported''"
| "int64_dest (CellInt n) = Inr n"
| "int64_dest (CellText s) =
    (case parse_int64 s of
       Some n \<Rightarrow> Inr n
     | None \<Rightarrow> Inl (conversion_error ''string'' s
         (if integer_shape s then ''value out of range'' else ''invalid syntax'')))"
| "int64_dest (CellBool b) = Inl (conversion_error ''bool'' (bool_text b) ''invalid syntax'')"

fun string_dest :: "cell \<Rightarrow> string + string" where
  "string_dest CellNull = Inl ''converting NULL to string is unsupported''"
| "string_dest (CellInt n) = Inr (itoa n)"
| "string_dest (CellText s) = Inr s"
| "string_dest (CellBool b) = Inr (bool_text b)"

type_synonym NullInt64 = "int \<times> bool"

definition null_int64_dest :: "cell \<Rightarrow> string + NullInt64" where
  "null_int64_dest c =
    (if c = CellNull then Inr (0, False) else map_sum (\<lambda>e. e) (\<lambda>n. (n, True)) (int64_dest c))"

text \<open>
  \<open>Rows.Scan\<close>: the number of destinations is checked first, then the cells are converted from left to
  right up to the first error.
\<close>

type_synonym 'a scan = "nat \<times> row \<Rightarrow> error + 'a \<times> nat \<times> row"

definition scan_error :: "nat \<Rightarrow> string \<Rightarrow> string \<Rightarrow> error" where
  "scan_error i name reason =
    ErrWrap (''sql: Scan error on column index '' @ itoa (int i) @ '', name '' @ quoted name @ '': '') (ErrText reason) []"

definition dest :: "(cell \<Rightarrow> string + 'a) \<Rightarrow> 'a scan" where
  "dest convert = (\<lambda>(i, cells).
    case cells of
      [] \<Rightarrow> Inl (ErrText ''sql: no such column'')
    | (name, c) # rest \<Rightarrow>
        (case convert c of Inl reason \<Rightarrow> Inl (scan_error i name reason) | Inr x \<Rightarrow> Inr (x, Suc i, rest)))"

definition bind_scan :: "'a scan \<Rightarrow> ('a \<Rightarrow> 'b scan) \<Rightarrow> 'b scan" where
  "bind_scan m f = (\<lambda>s. case m s of Inl e \<Rightarrow> Inl e | Inr (x, s') \<Rightarrow> f x s')"

definition return_scan :: "'a \<Rightarrow> 'a scan" where
  "return_scan x = (\<lambda>s. Inr (x, s))"

definition Scan :: "nat \<Rightarrow> 'a scan \<Rightarrow> row \<Rightarrow> error + 'a" where
  "Scan n dests cells =
    (if length cells \<noteq> n
     then Inl (ErrText (''sql: expected '' @ itoa (int (length cells)) @
       '' destination arguments in Scan, not '' @ itoa (int n)))
     else map_sum (\<lambda>e. e) fst (dests (0, cells)))"

text \<open>\<open>sql.Row\<close>: the error of the query, no row, or the first row.\<close>

datatype one_row = RowError error | NoRow | OneRow row

definition ErrNoRows :: error where
  "ErrNoRows = ErrText ''sql: no rows in result set''"

fun scan_one :: "(row \<Rightarrow> error + 'a) \<Rightarrow> one_row \<Rightarrow> error + 'a" where
  "scan_one f (RowError e) = Inl e"
| "scan_one f NoRow = Inl ErrNoRows"
| "scan_one f (OneRow cells) = f cells"

text \<open>The loop \<open>for rows.Next()\<close> with \<open>rows.Err()\<close> after it; the first error ends the loop and nothing is returned.\<close>

fun scan_all :: "(row \<Rightarrow> error + 'a) \<Rightarrow> row list \<Rightarrow> error option \<Rightarrow> error + 'a list" where
  "scan_all f [] None = Inr []"
| "scan_all f [] (Some e) = Inl e"
| "scan_all f (r # rs) err =
    (case f r of
       Inl e \<Rightarrow> Inl e
     | Inr x \<Rightarrow> (case scan_all f rs err of Inl e \<Rightarrow> Inl e | Inr xs \<Rightarrow> Inr (x # xs)))"

definition nullablePtr :: "NullInt64 \<Rightarrow> int option" where
  "nullablePtr v = (if snd v then Some (fst v) else None)"

definition nullableInt64 :: "int option \<Rightarrow> NullInt64" where
  "nullableInt64 v = (case v of None \<Rightarrow> (0, False) | Some n \<Rightarrow> (n, True))"

lemma nullable_roundtrip [simp]: "nullablePtr (nullableInt64 v) = v"
  by (simp add: nullablePtr_def nullableInt64_def split: option.split)

lemma bind_dest [simp]:
  "bind_scan (dest convert) f (i, (name, c) # rest) =
    (case convert c of Inl reason \<Rightarrow> Inl (scan_error i name reason) | Inr x \<Rightarrow> f x (Suc i, rest))"
  by (simp add: bind_scan_def dest_def split: sum.split)

lemma return_scan_run [simp]: "return_scan x s = Inr (x, s)"
  by (simp add: return_scan_def)

lemma bind_scan_assoc [simp]: "bind_scan (bind_scan m f) g = bind_scan m (\<lambda>x. bind_scan (f x) g)"
  by (auto simp: bind_scan_def fun_eq_iff split: sum.split)

lemma bind_return_scan [simp]: "bind_scan (return_scan x) f = f x"
  by (simp add: bind_scan_def return_scan_def)

lemma length_select [simp]: "length (select label columns st) = length columns"
  by (simp add: select_def)

section \<open>The structs\<close>

text \<open>Go's structs keep the state as a string; the typed rows as a \<open>rule_state\<close>, with its name as the string.\<close>

record RuleData =
  rd_id :: int
  rd_name :: string
  rd_inbound_id :: int
  rd_email :: string
  rd_factor_ppm :: int
  rd_state :: string
  rd_created_at :: int
  rd_updated_at :: int
  rd_activated_at :: "int option"
  rd_paused_at :: "int option"
  rd_disabled_at :: "int option"
  rd_client_count :: int
  rd_effective_client_count :: int
  rd_scope :: "Scope option"

record ExcludeData =
  ed_id :: int
  ed_traffic_id :: int
  ed_inbound_id :: int
  ed_email :: string
  ed_state :: string
  ed_note :: string
  ed_created_at :: int
  ed_updated_at :: int
  ed_activated_at :: "int option"
  ed_disabled_at :: "int option"

record OverrideData =
  od_id :: int
  od_traffic_id :: int
  od_inbound_id :: int
  od_email :: string
  od_factor_ppm :: int
  od_state :: string
  od_note :: string
  od_created_at :: int
  od_updated_at :: int
  od_activated_at :: "int option"
  od_disabled_at :: "int option"

record ScopeRuleData = Scope +
  sd_rule :: RuleData

definition rule_data :: "Rule \<Rightarrow> RuleData" where
  "rule_data r = \<lparr>rd_id = r_id r, rd_name = r_name r, rd_inbound_id = r_inbound_id r, rd_email = r_email r,
     rd_factor_ppm = r_factor_ppm r, rd_state = state_name (r_state r), rd_created_at = r_created_at r,
     rd_updated_at = r_updated_at r, rd_activated_at = r_activated_at r, rd_paused_at = r_paused_at r,
     rd_disabled_at = r_disabled_at r, rd_client_count = r_client_count r,
     rd_effective_client_count = r_effective_client_count r, rd_scope = r_scope r\<rparr>"

definition exclude_data :: "ExcludePolicy \<Rightarrow> ExcludeData" where
  "exclude_data p = \<lparr>ed_id = ep_id p, ed_traffic_id = ep_traffic_id p, ed_inbound_id = ep_inbound_id p,
     ed_email = ep_email p, ed_state = state_name (ep_state p), ed_note = ep_note p, ed_created_at = ep_created_at p,
     ed_updated_at = ep_updated_at p, ed_activated_at = ep_activated_at p, ed_disabled_at = ep_disabled_at p\<rparr>"

definition override_data :: "OverridePolicy \<Rightarrow> OverrideData" where
  "override_data p = \<lparr>od_id = op_id p, od_traffic_id = op_traffic_id p, od_inbound_id = op_inbound_id p,
     od_email = op_email p, od_factor_ppm = op_factor_ppm p, od_state = state_name (op_state p), od_note = op_note p,
     od_created_at = op_created_at p, od_updated_at = op_updated_at p, od_activated_at = op_activated_at p,
     od_disabled_at = op_disabled_at p\<rparr>"

definition scope_rule_data :: "ScopeRule \<Rightarrow> ScopeRuleData" where
  "scope_rule_data s = \<lparr>sc_rule_id = sc_rule_id s, sc_inbound_id = sc_inbound_id s,
     sc_limited_only = sc_limited_only s, sc_include_disabled_clients = sc_include_disabled_clients s,
     sc_once = sc_once s, sc_created_at = sc_created_at s, sc_updated_at = sc_updated_at s,
     sd_rule = rule_data (sc_rule s)\<rparr>"

section \<open>Rules\<close>

text \<open>The eleven columns every query on \<open>xui_factor_rules\<close> starts with, and their destinations.\<close>

definition rule_columns :: "column list" where
  "rule_columns = [Col ''id'', Coalesce ''name'' (CellText []), Coalesce ''inbound_id'' (CellInt 0), Col ''email'',
     Col ''factor_ppm'', Col ''state'', Col ''created_at'', Col ''updated_at'', Col ''activated_at'', Col ''paused_at'',
     Col ''disabled_at'']"

definition rule_dests :: "RuleData scan" where
  "rule_dests =
    bind_scan (dest int64_dest) (\<lambda>ruleID.
    bind_scan (dest string_dest) (\<lambda>name.
    bind_scan (dest int64_dest) (\<lambda>inboundID.
    bind_scan (dest string_dest) (\<lambda>email.
    bind_scan (dest int64_dest) (\<lambda>factorPPM.
    bind_scan (dest string_dest) (\<lambda>state.
    bind_scan (dest int64_dest) (\<lambda>createdAt.
    bind_scan (dest int64_dest) (\<lambda>updatedAt.
    bind_scan (dest null_int64_dest) (\<lambda>activatedAt.
    bind_scan (dest null_int64_dest) (\<lambda>pausedAt.
    bind_scan (dest null_int64_dest) (\<lambda>disabledAt.
    return_scan \<lparr>rd_id = ruleID, rd_name = name, rd_inbound_id = inboundID, rd_email = email,
      rd_factor_ppm = factorPPM, rd_state = state, rd_created_at = createdAt, rd_updated_at = updatedAt,
      rd_activated_at = nullablePtr activatedAt, rd_paused_at = nullablePtr pausedAt,
      rd_disabled_at = nullablePtr disabledAt, rd_client_count = 0, rd_effective_client_count = 0,
      rd_scope = None\<rparr>)))))))))))"

definition scanRuleRows :: "row \<Rightarrow> error + RuleData" where
  "scanRuleRows = Scan 11 rule_dests"

text \<open>\<open>QueryRow\<close> scans report a missing row as \<open>ErrNotFound\<close>.\<close>

definition not_found :: "error + 'a \<Rightarrow> error + 'a" where
  "not_found r = (case r of Inl e \<Rightarrow> Inl (if errors_is e ErrNoRows then ErrNotFound else e) | Inr x \<Rightarrow> Inr x)"

definition scanRuleRow :: "one_row \<Rightarrow> error + RuleData" where
  "scanRuleRow r = not_found (scan_one (Scan 11 rule_dests) r)"

section \<open>Scopes\<close>

definition scope_columns :: "column list" where
  "scope_columns = [Col ''rule_id'', Col ''inbound_id'', Col ''limited_only'', Col ''include_disabled_clients'',
     Col ''once'', Col ''created_at'', Col ''updated_at'']"

definition attachScope ::
  "RuleData \<Rightarrow> NullInt64 \<Rightarrow> NullInt64 \<Rightarrow> NullInt64 \<Rightarrow> NullInt64 \<Rightarrow> NullInt64 \<Rightarrow> NullInt64 \<Rightarrow> NullInt64 \<Rightarrow> RuleData" where
  "attachScope rule scopeRuleID scopeInboundID limitedOnly includeDisabledClients once createdAt updatedAt =
    (if \<not> snd scopeRuleID then rule
     else rule\<lparr>rd_scope := Some \<lparr>sc_rule_id = fst scopeRuleID, sc_inbound_id = nullablePtr scopeInboundID,
       sc_limited_only = (snd limitedOnly \<and> fst limitedOnly \<noteq> 0),
       sc_include_disabled_clients = (snd includeDisabledClients \<and> fst includeDisabledClients \<noteq> 0),
       sc_once = (snd once \<and> fst once \<noteq> 0), sc_created_at = fst createdAt, sc_updated_at = fst updatedAt\<rparr>\<rparr>)"

definition scope_dests :: "RuleData \<Rightarrow> RuleData scan" where
  "scope_dests rule =
    bind_scan (dest null_int64_dest) (\<lambda>scopeRuleID.
    bind_scan (dest null_int64_dest) (\<lambda>scopeInboundID.
    bind_scan (dest null_int64_dest) (\<lambda>limitedOnly.
    bind_scan (dest null_int64_dest) (\<lambda>includeDisabledClients.
    bind_scan (dest null_int64_dest) (\<lambda>once.
    bind_scan (dest null_int64_dest) (\<lambda>scopeCreatedAt.
    bind_scan (dest null_int64_dest) (\<lambda>scopeUpdatedAt.
    return_scan (attachScope rule scopeRuleID scopeInboundID limitedOnly includeDisabledClients once
      scopeCreatedAt scopeUpdatedAt))))))))"

definition scanRuleRowsWithScope :: "row \<Rightarrow> error + RuleData" where
  "scanRuleRowsWithScope = Scan 18 (bind_scan rule_dests scope_dests)"

definition scanRuleRowsWithCountAndScope :: "row \<Rightarrow> error + RuleData" where
  "scanRuleRowsWithCountAndScope = Scan 20
    (bind_scan rule_dests (\<lambda>rule.
     bind_scan (dest int64_dest) (\<lambda>clientCount.
     bind_scan (dest int64_dest) (\<lambda>effectiveClientCount.
     scope_dests (rule\<lparr>rd_client_count := clientCount, rd_effective_client_count := effectiveClientCount\<rparr>)))))"

definition scanScopeRuleRows :: "row \<Rightarrow> error + ScopeRuleData" where
  "scanScopeRuleRows = Scan 18
    (bind_scan (dest int64_dest) (\<lambda>ruleID.
     bind_scan (dest null_int64_dest) (\<lambda>scopeInboundID.
     bind_scan (dest int64_dest) (\<lambda>limitedOnly.
     bind_scan (dest int64_dest) (\<lambda>includeDisabledClients.
     bind_scan (dest int64_dest) (\<lambda>once.
     bind_scan (dest int64_dest) (\<lambda>createdAt.
     bind_scan (dest int64_dest) (\<lambda>updatedAt.
     bind_scan rule_dests (\<lambda>rule.
     let copyScope = \<lparr>sc_rule_id = ruleID, sc_inbound_id = nullablePtr scopeInboundID,
           sc_limited_only = (limitedOnly \<noteq> 0), sc_include_disabled_clients = (includeDisabledClients \<noteq> 0),
           sc_once = (once \<noteq> 0), sc_created_at = createdAt, sc_updated_at = updatedAt\<rparr>
     in return_scan (Scope.extend copyScope \<lparr>sd_rule = rule\<lparr>rd_scope := Some copyScope\<rparr>\<rparr>))))))))))"

section \<open>Rule clients\<close>

definition rule_client_columns :: "column list" where
  "rule_client_columns = [Col ''rule_id'', Col ''traffic_id'', Col ''inbound_id'', Col ''email'', Col ''last_up'',
     Col ''last_down'', Col ''rem_up'', Col ''rem_down'', Col ''missing_since'', Col ''updated_at'']"

definition rule_client_dests :: "RuleClient scan" where
  "rule_client_dests =
    bind_scan (dest int64_dest) (\<lambda>ruleID.
    bind_scan (dest int64_dest) (\<lambda>trafficID.
    bind_scan (dest int64_dest) (\<lambda>inboundID.
    bind_scan (dest string_dest) (\<lambda>email.
    bind_scan (dest int64_dest) (\<lambda>lastUp.
    bind_scan (dest int64_dest) (\<lambda>lastDown.
    bind_scan (dest int64_dest) (\<lambda>remUp.
    bind_scan (dest int64_dest) (\<lambda>remDown.
    bind_scan (dest null_int64_dest) (\<lambda>missingSince.
    bind_scan (dest int64_dest) (\<lambda>updatedAt.
    return_scan \<lparr>rc_rule_id = ruleID, rc_traffic_id = trafficID, rc_inbound_id = inboundID, rc_email = email,
      rc_last_up = lastUp, rc_last_down = lastDown, rc_rem_up = remUp, rc_rem_down = remDown,
      rc_missing_at = nullablePtr missingSince, rc_updated_at = updatedAt\<rparr>))))))))))"

definition scanRuleClientRows :: "row \<Rightarrow> error + RuleClient" where
  "scanRuleClientRows = Scan 10 rule_client_dests"

definition scanRuleClient :: "one_row \<Rightarrow> error + RuleClient" where
  "scanRuleClient r = not_found (scan_one (Scan 10 rule_client_dests) r)"

section \<open>Policies\<close>

definition exclude_columns :: "column list" where
  "exclude_columns = [Col ''id'', Col ''traffic_id'', Col ''inbound_id'', Col ''email'', Col ''state'',
     Coalesce ''note'' (CellText []), Col ''created_at'', Col ''updated_at'', Col ''activated_at'', Col ''disabled_at'']"

definition exclude_dests :: "ExcludeData scan" where
  "exclude_dests =
    bind_scan (dest int64_dest) (\<lambda>policyID.
    bind_scan (dest int64_dest) (\<lambda>trafficID.
    bind_scan (dest int64_dest) (\<lambda>inboundID.
    bind_scan (dest string_dest) (\<lambda>email.
    bind_scan (dest string_dest) (\<lambda>state.
    bind_scan (dest string_dest) (\<lambda>note.
    bind_scan (dest int64_dest) (\<lambda>createdAt.
    bind_scan (dest int64_dest) (\<lambda>updatedAt.
    bind_scan (dest null_int64_dest) (\<lambda>activatedAt.
    bind_scan (dest null_int64_dest) (\<lambda>disabledAt.
    return_scan \<lparr>ed_id = policyID, ed_traffic_id = trafficID, ed_inbound_id = inboundID, ed_email = email,
      ed_state = state, ed_note = note, ed_created_at = createdAt, ed_updated_at = updatedAt,
      ed_activated_at = nullablePtr activatedAt, ed_disabled_at = nullablePtr disabledAt\<rparr>))))))))))"

definition scanExclude :: "one_row \<Rightarrow> error + ExcludeData" where
  "scanExclude r = not_found (scan_one (Scan 10 exclude_dests) r)"

definition scanExcludeRows :: "row list \<Rightarrow> error option \<Rightarrow> error + ExcludeData list" where
  "scanExcludeRows = scan_all (Scan 10 exclude_dests)"

definition override_columns :: "column list" where
  "override_columns = [Col ''id'', Col ''traffic_id'', Col ''inbound_id'', Col ''email'', Col ''factor_ppm'',
     Col ''state'', Coalesce ''note'' (CellText []), Col ''created_at'', Col ''updated_at'', Col ''activated_at'',
     Col ''disabled_at'']"

definition override_dests :: "OverrideData scan" where
  "override_dests =
    bind_scan (dest int64_dest) (\<lambda>policyID.
    bind_scan (dest int64_dest) (\<lambda>trafficID.
    bind_scan (dest int64_dest) (\<lambda>inboundID.
    bind_scan (dest string_dest) (\<lambda>email.
    bind_scan (dest int64_dest) (\<lambda>factorPPM.
    bind_scan (dest string_dest) (\<lambda>state.
    bind_scan (dest string_dest) (\<lambda>note.
    bind_scan (dest int64_dest) (\<lambda>createdAt.
    bind_scan (dest int64_dest) (\<lambda>updatedAt.
    bind_scan (dest null_int64_dest) (\<lambda>activatedAt.
    bind_scan (dest null_int64_dest) (\<lambda>disabledAt.
    return_scan \<lparr>od_id = policyID, od_traffic_id = trafficID, od_inbound_id = inboundID, od_email = email,
      od_factor_ppm = factorPPM, od_state = state, od_note = note, od_created_at = createdAt,
      od_updated_at = updatedAt, od_activated_at = nullablePtr activatedAt,
      od_disabled_at = nullablePtr disabledAt\<rparr>)))))))))))"

definition scanOverride :: "one_row \<Rightarrow> error + OverrideData" where
  "scanOverride r = not_found (scan_one (Scan 11 override_dests) r)"

definition scanOverrideRows :: "row list \<Rightarrow> error option \<Rightarrow> error + OverrideData list" where
  "scanOverrideRows = scan_all (Scan 11 override_dests)"

section \<open>The rows of the typed tables\<close>

definition int_cell :: "int option \<Rightarrow> cell" where
  "int_cell v = (case v of None \<Rightarrow> CellNull | Some n \<Rightarrow> CellInt n)"

definition text_cell :: "string option \<Rightarrow> cell" where
  "text_cell v = (case v of None \<Rightarrow> CellNull | Some s \<Rightarrow> CellText s)"

definition boolInt :: "bool \<Rightarrow> int" where
  "boolInt value = (if value then 1 else 0)"

text \<open>
  What it means that a stored row holds a typed one. A note is only read through \<open>COALESCE\<close>: an empty note may be
  stored as \<open>NULL\<close> (\<open>NULLIF(?, '')\<close>) or as an empty text (a relinked policy passes the note it has read).
\<close>

definition stores_rule :: "stored \<Rightarrow> RuleRow \<Rightarrow> bool" where
  "stores_rule st r \<longleftrightarrow> st ''id'' = CellInt (rr_id r) \<and> st ''name'' = text_cell (rr_name r) \<and>
     st ''inbound_id'' = int_cell (rr_inbound_id r) \<and> st ''email'' = CellText (rr_email r) \<and>
     st ''factor_ppm'' = CellInt (rr_factor_ppm r) \<and> st ''state'' = CellText (state_name (rr_state r)) \<and>
     st ''created_at'' = CellInt (rr_created_at r) \<and> st ''updated_at'' = CellInt (rr_updated_at r) \<and>
     st ''activated_at'' = int_cell (rr_activated_at r) \<and> st ''paused_at'' = int_cell (rr_paused_at r) \<and>
     st ''disabled_at'' = int_cell (rr_disabled_at r)"

definition stores_scope :: "stored \<Rightarrow> Scope \<Rightarrow> bool" where
  "stores_scope st s \<longleftrightarrow> st ''rule_id'' = CellInt (sc_rule_id s) \<and> st ''inbound_id'' = int_cell (sc_inbound_id s) \<and>
     st ''limited_only'' = CellInt (boolInt (sc_limited_only s)) \<and>
     st ''include_disabled_clients'' = CellInt (boolInt (sc_include_disabled_clients s)) \<and>
     st ''once'' = CellInt (boolInt (sc_once s)) \<and> st ''created_at'' = CellInt (sc_created_at s) \<and>
     st ''updated_at'' = CellInt (sc_updated_at s)"

definition stores_rule_client :: "stored \<Rightarrow> RuleClient \<Rightarrow> bool" where
  "stores_rule_client st rc \<longleftrightarrow> st ''rule_id'' = CellInt (rc_rule_id rc) \<and>
     st ''traffic_id'' = CellInt (rc_traffic_id rc) \<and> st ''inbound_id'' = CellInt (rc_inbound_id rc) \<and>
     st ''email'' = CellText (rc_email rc) \<and> st ''last_up'' = CellInt (rc_last_up rc) \<and>
     st ''last_down'' = CellInt (rc_last_down rc) \<and> st ''rem_up'' = CellInt (rc_rem_up rc) \<and>
     st ''rem_down'' = CellInt (rc_rem_down rc) \<and> st ''missing_since'' = int_cell (rc_missing_at rc) \<and>
     st ''updated_at'' = CellInt (rc_updated_at rc)"

definition stores_exclude :: "stored \<Rightarrow> ExcludePolicy \<Rightarrow> bool" where
  "stores_exclude st p \<longleftrightarrow> st ''id'' = CellInt (ep_id p) \<and> st ''traffic_id'' = CellInt (ep_traffic_id p) \<and>
     st ''inbound_id'' = CellInt (ep_inbound_id p) \<and> st ''email'' = CellText (ep_email p) \<and>
     st ''state'' = CellText (state_name (ep_state p)) \<and>
     column_value st (Coalesce ''note'' (CellText [])) = CellText (ep_note p) \<and>
     st ''created_at'' = CellInt (ep_created_at p) \<and> st ''updated_at'' = CellInt (ep_updated_at p) \<and>
     st ''activated_at'' = int_cell (ep_activated_at p) \<and> st ''disabled_at'' = int_cell (ep_disabled_at p)"

definition stores_override :: "stored \<Rightarrow> OverridePolicy \<Rightarrow> bool" where
  "stores_override st p \<longleftrightarrow> st ''id'' = CellInt (op_id p) \<and> st ''traffic_id'' = CellInt (op_traffic_id p) \<and>
     st ''inbound_id'' = CellInt (op_inbound_id p) \<and> st ''email'' = CellText (op_email p) \<and>
     st ''factor_ppm'' = CellInt (op_factor_ppm p) \<and> st ''state'' = CellText (state_name (op_state p)) \<and>
     column_value st (Coalesce ''note'' (CellText [])) = CellText (op_note p) \<and>
     st ''created_at'' = CellInt (op_created_at p) \<and> st ''updated_at'' = CellInt (op_updated_at p) \<and>
     st ''activated_at'' = int_cell (op_activated_at p) \<and> st ''disabled_at'' = int_cell (op_disabled_at p)"

lemma cell_conversions [simp]:
  "null_int64_dest (int_cell v) = Inr (nullableInt64 v)" "null_int64_dest (CellInt n) = Inr (n, True)"
  "null_int64_dest CellNull = Inr (0, False)" "int_cell v = CellNull \<longleftrightarrow> v = None"
  "text_cell t = CellNull \<longleftrightarrow> t = None" "int_cell (Some n) = CellInt n" "text_cell (Some s) = CellText s"
  "int_cell None = CellNull" "text_cell None = CellNull"
  "nullablePtr (n, True) = Some n" "boolInt b \<noteq> 0 \<longleftrightarrow> b"
  by (auto simp: null_int64_dest_def int_cell_def text_cell_def nullableInt64_def nullablePtr_def boolInt_def
      split: option.splits)

text \<open>Reading a rule, with whatever follows it in the same row.\<close>

lemma rule_dests_run:
  assumes "stores_rule st r"
  shows "bind_scan rule_dests f (i, select label rule_columns st @ rest) =
    f (rule_data (scanRule r)) (length rule_columns + i, rest)"
  using assms
  by (cases "rr_name r"; cases "rr_inbound_id r")
    (simp_all add: rule_dests_def select_def rule_columns_def stores_rule_def rule_data_def scanRule_def)

lemma scope_dests_run:
  assumes "stores_scope st s"
  shows "scope_dests rule (i, select label scope_columns st @ rest) = Inr (rule\<lparr>rd_scope := Some s\<rparr>, length scope_columns + i, rest)"
  using assms
  by (simp add: scope_dests_def select_def scope_columns_def stores_scope_def attachScope_def boolInt_def)

lemma no_scope_dests_run:
  "scope_dests rule (i, select_joined label scope_columns None @ rest) = Inr (rule, length scope_columns + i, rest)"
  by (simp add: scope_dests_def select_joined_def scope_columns_def attachScope_def)

section \<open>Reading a table\<close>

text \<open>
  The interface between a table and its scanner: a stored row is read as the struct of the typed row it holds,
  whatever names the driver gives the columns.
\<close>

locale stored_table =
  fixes stores :: "stored \<Rightarrow> 'r \<Rightarrow> bool" and columns :: "column list" and read :: "row \<Rightarrow> error + 'd" and data :: "'r \<Rightarrow> 'd"
  assumes reads: "stores st r \<Longrightarrow> read (select label columns st) = Inr (data r)"
begin

lemma read_all: "list_all2 stores sts rs \<Longrightarrow> scan_all read (map (select label columns) sts) None = Inr (map data rs)"
  by (induction sts rs rule: list_all2_induct) (simp_all add: reads)

lemma read_all_error: "list_all2 stores sts rs \<Longrightarrow> scan_all read (map (select label columns) sts) (Some e) = Inl e"
  by (induction sts rs rule: list_all2_induct) (simp_all add: reads)

lemma read_one: "stores st r \<Longrightarrow> not_found (scan_one read (OneRow (select label columns st))) = Inr (data r)"
  by (simp add: reads not_found_def)

end

lemmas scan_run = Scan_def select_def

interpretation rule_rows: stored_table stores_rule rule_columns scanRuleRows "rule_data \<circ> scanRule"
proof
  fix st r label
  assume "stores_rule st r"
  from rule_dests_run [OF this, of return_scan 0 label "[]"]
  have "bind_scan rule_dests return_scan (0, select label rule_columns st) =
      Inr (rule_data (scanRule r), length rule_columns + 0, [])" by simp
  moreover have "bind_scan rule_dests return_scan = rule_dests"
    by (simp add: bind_scan_def return_scan_def fun_eq_iff split: sum.split)
  ultimately show "scanRuleRows (select label rule_columns st) = Inr ((rule_data \<circ> scanRule) r)"
    by (simp add: scanRuleRows_def Scan_def) (simp add: rule_columns_def)
qed

interpretation rule_client_rows: stored_table stores_rule_client rule_client_columns scanRuleClientRows "\<lambda>rc. rc"
  by unfold_locales (simp add: scanRuleClientRows_def scan_run rule_client_dests_def rule_client_columns_def
    stores_rule_client_def)

interpretation exclude_rows: stored_table stores_exclude exclude_columns "Scan 10 exclude_dests" exclude_data
  by unfold_locales (simp add: scan_run exclude_dests_def exclude_columns_def stores_exclude_def exclude_data_def)

interpretation override_rows: stored_table stores_override override_columns "Scan 11 override_dests" override_data
  by unfold_locales (simp add: scan_run override_dests_def override_columns_def stores_override_def override_data_def)

text \<open>The rows of the joins of rules and scopes, and the row of \<open>ListRules\<close> with its two counts in between.\<close>

lemma row_lengths [simp]:
  "length rule_columns = 11" "length scope_columns = 7"
  "length (select_joined label columns sst) = length columns"
  by (simp_all add: rule_columns_def scope_columns_def select_joined_def split: option.split)

lemma joined_dests_run:
  assumes "rel_option stores_scope sst s" and "rd_scope rule = None"
  shows "scope_dests rule (i, select_joined label scope_columns sst) = Inr (rule\<lparr>rd_scope := s\<rparr>, 7 + i, [])"
  using assms no_scope_dests_run [of rule i label "[]"] scope_dests_run [of _ _ rule i label "[]"]
  by (cases sst; cases s) (simp_all add: select_joined_def)

lemma scanned_with_scope:
  assumes "stores_rule st r" and "rel_option stores_scope sst s"
  shows "scanRuleRowsWithScope (select label rule_columns st @ select_joined label scope_columns sst) =
    Inr (rule_data (scanRuleWithScope r s))"
  by (simp add: scanRuleRowsWithScope_def Scan_def rule_dests_run [OF assms(1)] joined_dests_run [OF assms(2)]
    rule_data_def scanRuleWithScope_def)

lemma scanned_with_counts:
  assumes "stores_rule st r" and "rel_option stores_scope sst s"
  shows "scanRuleRowsWithCountAndScope (select label rule_columns st @
      [(n, CellInt clients), (m, CellInt effective)] @ select_joined label scope_columns sst) =
    Inr (rule_data ((scanRuleWithScope r s)\<lparr>r_client_count := clients, r_effective_client_count := effective\<rparr>))"
  by (simp add: scanRuleRowsWithCountAndScope_def Scan_def rule_dests_run [OF assms(1)] joined_dests_run [OF assms(2)]
    rule_data_def scanRuleWithScope_def)

lemma scanned_scope_rule:
  assumes "stores_scope sst s" and "stores_rule st r"
  shows "scanScopeRuleRows (select label scope_columns sst @ select label rule_columns st) =
    Inr (scope_rule_data (scanScopeRule s r))"
proof -
  have "select label scope_columns sst = [(label (Col ''rule_id''), CellInt (sc_rule_id s)),
      (label (Col ''inbound_id''), int_cell (sc_inbound_id s)),
      (label (Col ''limited_only''), CellInt (boolInt (sc_limited_only s))),
      (label (Col ''include_disabled_clients''), CellInt (boolInt (sc_include_disabled_clients s))),
      (label (Col ''once''), CellInt (boolInt (sc_once s))), (label (Col ''created_at''), CellInt (sc_created_at s)),
      (label (Col ''updated_at''), CellInt (sc_updated_at s))]"
    using assms(1) by (simp add: select_def scope_columns_def stores_scope_def)
  then show ?thesis
    by (simp add: scanScopeRuleRows_def Scan_def Let_def rule_dests_run [OF assms(2), of _ _ label "[]", simplified])
      (simp add: scope_rule_data_def scanScopeRule_def rule_data_def scanRuleWithScope_def Scope.defs)
qed

section \<open>Panel rows and events\<close>

text \<open>
  The seven columns of the queries on \<open>client_traffics\<close>; the third is the expression \<open>enableAsIntExpr\<close>, which the
  database computes.
\<close>

definition traffic_cells :: "(column \<Rightarrow> string) \<Rightarrow> string \<Rightarrow> driver \<Rightarrow> TrafficRow \<Rightarrow> row" where
  "traffic_cells label expression driver t =
    [(label (Col ''id''), CellInt (tr_id t)), (label (Col ''inbound_id''), CellInt (tr_inbound_id t)),
     (expression, CellInt (enableAsIntExpr driver (tr_enable t))), (label (Col ''email''), CellText (tr_email t)),
     (label (Col ''up''), CellInt (tr_up t)), (label (Col ''down''), CellInt (tr_down t)),
     (label (Col ''total''), CellInt (tr_total t))]"

definition scanClientRows :: "row \<Rightarrow> error + ClientTraffic" where
  "scanClientRows = Scan 7
    (bind_scan (dest int64_dest) (\<lambda>clientID.
     bind_scan (dest int64_dest) (\<lambda>inboundID.
     bind_scan (dest int64_dest) (\<lambda>enable.
     bind_scan (dest string_dest) (\<lambda>email.
     bind_scan (dest int64_dest) (\<lambda>up.
     bind_scan (dest int64_dest) (\<lambda>down.
     bind_scan (dest int64_dest) (\<lambda>total.
     return_scan \<lparr>ct_id = clientID, ct_inbound_id = inboundID, ct_enable = enable, ct_email = email,
       ct_up = up, ct_down = down, ct_total = total\<rparr>))))))))"

lemma client_scanned: "scanClientRows (traffic_cells label expression driver t) = Inr (scan_client driver t)"
  by (simp add: scanClientRows_def Scan_def traffic_cells_def scan_client_def)

text \<open>The columns of \<open>ListEvents\<close>: of the event, of its rule, and of the rule's scope before the rule.\<close>

record EventData =
  vd_id :: int
  vd_rule_id :: "int option"
  vd_policy_id :: "int option"
  vd_type :: string
  vd_message :: string
  vd_created_at :: int
  vd_email :: string
  vd_inbound_id :: "int option"

definition event_data :: "Event \<Rightarrow> EventData" where
  "event_data e = \<lparr>vd_id = e_id e, vd_rule_id = e_rule_id e, vd_policy_id = e_policy_id e,
     vd_type = event_type_name (e_type e), vd_message = e_message e, vd_created_at = e_created_at e,
     vd_email = e_email e, vd_inbound_id = e_inbound_id e\<rparr>"

definition event_columns :: "column list" where
  "event_columns = [Col ''id'', Col ''rule_id'', Col ''event_type'', Coalesce ''message'' (CellText []), Col ''created_at'']"

definition joined_cell :: "stored option \<Rightarrow> string \<Rightarrow> cell" where
  "joined_cell st n = (case st of None \<Rightarrow> CellNull | Some s \<Rightarrow> s n)"

definition event_row :: "(column \<Rightarrow> string) \<Rightarrow> string \<Rightarrow> string \<Rightarrow> stored \<Rightarrow> stored option \<Rightarrow> stored option \<Rightarrow> row" where
  "event_row label email_label inbound_label st rule scope =
    select label event_columns st @
    [(email_label, if joined_cell rule ''email'' = CellNull then CellText [] else joined_cell rule ''email''),
     (inbound_label, if joined_cell scope ''inbound_id'' = CellNull then joined_cell rule ''inbound_id''
        else joined_cell scope ''inbound_id'')]"

definition scanEventRows :: "row \<Rightarrow> error + EventData" where
  "scanEventRows = Scan 7
    (bind_scan (dest int64_dest) (\<lambda>eventID.
     bind_scan (dest null_int64_dest) (\<lambda>ruleID.
     bind_scan (dest string_dest) (\<lambda>eventType.
     bind_scan (dest string_dest) (\<lambda>message.
     bind_scan (dest int64_dest) (\<lambda>createdAt.
     bind_scan (dest string_dest) (\<lambda>ruleEmail.
     bind_scan (dest null_int64_dest) (\<lambda>inboundID.
     return_scan \<lparr>vd_id = eventID, vd_rule_id = nullablePtr ruleID, vd_policy_id = None, vd_type = eventType,
       vd_message = message, vd_created_at = createdAt, vd_email = ruleEmail,
       vd_inbound_id = nullablePtr inboundID\<rparr>))))))))"

definition stores_event :: "stored \<Rightarrow> EventRow \<Rightarrow> bool" where
  "stores_event st e \<longleftrightarrow> st ''id'' = CellInt (ev_id e) \<and> st ''rule_id'' = int_cell (ev_rule_id e) \<and>
     st ''event_type'' = CellText (event_type_name (ev_type e)) \<and> st ''message'' = CellText (ev_message e) \<and>
     st ''created_at'' = CellInt (ev_created_at e)"

text \<open>The row of an event with the rule and the scope that the left joins find for it.\<close>

lemma event_scanned:
  assumes "stores_event st e" and "rel_option stores_rule rst rule" and "rel_option stores_scope sst scope"
    and "rule = (case ev_rule_id e of None \<Rightarrow> None | Some i \<Rightarrow> first_of (filter (\<lambda>r. rr_id r = i) (t_rules d)))"
    and "scope = (case rule of None \<Rightarrow> None | Some r \<Rightarrow> scope_of d (rr_id r))"
  shows "scanEventRows (event_row label l1 l2 st rst sst) = Inr (event_data (scan_event d e))"
proof -
  have row: "select label event_columns st =
      [(label (Col ''id''), CellInt (ev_id e)), (label (Col ''rule_id''), int_cell (ev_rule_id e)),
       (label (Col ''event_type''), CellText (event_type_name (ev_type e))),
       (label (Coalesce ''message'' (CellText [])), CellText (ev_message e)),
       (label (Col ''created_at''), CellInt (ev_created_at e))]"
    using assms(1) by (simp add: select_def event_columns_def stores_event_def del: event_type_name.simps)
  have rule_cells: "joined_cell rst ''email'' = (case rule of None \<Rightarrow> CellNull | Some r \<Rightarrow> CellText (rr_email r))"
      "joined_cell rst ''inbound_id'' = int_cell (case rule of None \<Rightarrow> None | Some r \<Rightarrow> rr_inbound_id r)"
    using assms(2) by (cases; simp add: joined_cell_def stores_rule_def)+
  have scope_cell: "joined_cell sst ''inbound_id'' = int_cell (case scope of None \<Rightarrow> None | Some s \<Rightarrow> sc_inbound_id s)"
    using assms(3) by cases (simp_all add: joined_cell_def stores_scope_def)
  show ?thesis
    unfolding scan_event_def Let_def assms(4) [symmetric] assms(5) [symmetric]
    by (auto simp: scanEventRows_def Scan_def event_row_def row rule_cells scope_cell event_data_def
      simp del: event_type_name.simps split: option.split)
qed

end
