(* ===== verification/XF_Statements.thy ===== *)
theory XF_Statements
  imports XF_Rows XF_Cleanup
begin

text \<open>
  The \<open>INSERT\<close>, \<open>UPDATE\<close> and \<open>DELETE\<close> statements of \<open>internal/store\<close> as the database executes them: values and conditions
  are bound to the arguments in the order of the placeholders. The other theories write a statement as an operation
  on typed rows; the lemmas here show that the statement with its arguments has that effect on the stored rows.
\<close>

section \<open>Executing a statement\<close>

text \<open>\<open>?\<close>, \<open>NULLIF(?, '')\<close>, \<open>COALESCE(column, ?)\<close> and a constant.\<close>

datatype sql_expr = Arg | NullIfEmpty | CoalesceArg string | Const cell

text \<open>A value takes its argument from the front of the list; \<open>None\<close> when no argument is left.\<close>

fun expr_value :: "stored \<Rightarrow> sql_expr \<Rightarrow> cell list \<Rightarrow> (cell \<times> cell list) option" where
  "expr_value st (Const c) args = Some (c, args)"
| "expr_value st Arg (a # args) = Some (a, args)"
| "expr_value st NullIfEmpty (a # args) = Some (if a = CellText [] then CellNull else a, args)"
| "expr_value st (CoalesceArg n) (a # args) = Some (if st n = CellNull then a else st n, args)"
| "expr_value st e [] = None"

fun expr_values :: "stored \<Rightarrow> sql_expr list \<Rightarrow> cell list \<Rightarrow> (cell list \<times> cell list) option" where
  "expr_values st [] args = Some ([], args)"
| "expr_values st (e # es) args =
    (case expr_value st e args of
       None \<Rightarrow> None
     | Some (v, args1) \<Rightarrow>
         (case expr_values st es args1 of None \<Rightarrow> None | Some (vs, rest) \<Rightarrow> Some (v # vs, rest)))"

definition assign :: "string list \<Rightarrow> cell list \<Rightarrow> stored \<Rightarrow> stored" where
  "assign columns cells st n = (case map_of (zip columns cells) n of None \<Rightarrow> st n | Some c \<Rightarrow> c)"

text \<open>Each condition of a \<open>WHERE\<close> clause takes one argument; a comparison with \<open>NULL\<close> does not hold.\<close>

type_synonym condition = "stored \<Rightarrow> cell \<Rightarrow> bool"

definition equals :: "string \<Rightarrow> condition" where
  "equals n st a \<longleftrightarrow> st n \<noteq> CellNull \<and> st n = a"

record Update =
  u_sets :: "(string \<times> sql_expr) list"
  u_where :: "condition list"
  u_args :: "cell list"

definition update_row :: "Update \<Rightarrow> stored \<Rightarrow> stored option" where
  "update_row u st =
    (case expr_values st (map snd (u_sets u)) (u_args u) of
       None \<Rightarrow> None
     | Some (vs, rest) \<Rightarrow>
         (if length rest \<noteq> length (u_where u) then None
          else if list_all2 (\<lambda>c a. c st a) (u_where u) rest then Some (assign (map fst (u_sets u)) vs st)
          else Some st))"

definition update_table :: "Update \<Rightarrow> stored list \<Rightarrow> stored list option" where
  "update_table u sts = those (map (update_row u) sts)"

record Insert =
  i_columns :: "string list"
  i_values :: "sql_expr list"
  i_args :: "cell list"

text \<open>The inserted row over the columns the database fills itself; the others are \<open>NULL\<close>.\<close>

definition insert_row :: "stored \<Rightarrow> Insert \<Rightarrow> stored option" where
  "insert_row generated ins =
    (case expr_values generated (i_values ins) (i_args ins) of
       Some (vs, []) \<Rightarrow>
         (if length vs = length (i_columns ins) then Some (assign (i_columns ins) vs generated) else None)
     | _ \<Rightarrow> None)"

text \<open>\<open>INSERT ... ON CONFLICT(key) DO UPDATE SET column = excluded.column\<close>: a row with the same key is overwritten.\<close>

definition upsert_table :: "string \<Rightarrow> string list \<Rightarrow> stored \<Rightarrow> Insert \<Rightarrow> stored list \<Rightarrow> stored list option" where
  "upsert_table key columns generated ins sts =
    (case insert_row generated ins of
       None \<Rightarrow> None
     | Some new \<Rightarrow>
         (if list_ex (\<lambda>st. equals key st (new key)) sts
          then Some (map (\<lambda>st. if equals key st (new key) then assign columns (map new columns) st else st) sts)
          else Some (sts @ [new])))"

record Delete =
  d_where :: "condition list"
  d_args :: "cell list"

definition delete_table :: "Delete \<Rightarrow> stored list \<Rightarrow> stored list option" where
  "delete_table del sts =
    (if length (d_args del) \<noteq> length (d_where del) then None
     else Some (filter (\<lambda>st. \<not> list_all2 (\<lambda>c a. c st a) (d_where del) (d_args del)) sts))"

fun at_most :: "string \<Rightarrow> condition" where
  "at_most n st (CellInt b) = (case st n of CellInt a \<Rightarrow> a \<le> b | _ \<Rightarrow> False)"
| "at_most n st _ = False"

definition generated_id :: "int \<Rightarrow> stored" where
  "generated_id newID n = (if n = ''id'' then CellInt newID else CellNull)"

definition no_columns :: stored where
  "no_columns n = CellNull"

section \<open>Implementing an operation on typed rows\<close>

definition implements :: "(stored \<Rightarrow> 'r \<Rightarrow> bool) \<Rightarrow> Update \<Rightarrow> ('r \<Rightarrow> bool) \<Rightarrow> ('r \<Rightarrow> 'r) \<Rightarrow> bool" where
  "implements stores u p f \<longleftrightarrow>
    (\<forall>st r. stores st r \<longrightarrow> (\<exists>st'. update_row u st = Some st' \<and> stores st' (if p r then f r else r)))"

definition inserts :: "(stored \<Rightarrow> 'r \<Rightarrow> bool) \<Rightarrow> stored \<Rightarrow> Insert \<Rightarrow> 'r \<Rightarrow> bool" where
  "inserts stores generated ins r \<longleftrightarrow> (\<exists>st. insert_row generated ins = Some st \<and> stores st r)"

lemma implementsI:
  assumes "\<And>st r. stores st r \<Longrightarrow> p r \<Longrightarrow> \<exists>st'. update_row u st = Some st' \<and> stores st' (f r)"
    and "\<And>st r. stores st r \<Longrightarrow> \<not> p r \<Longrightarrow> update_row u st = Some st"
  shows "implements stores u p f"
  using assms by (fastforce simp: implements_def)

lemma implemented_table:
  assumes "implements stores u p f" and "list_all2 stores sts rs"
  shows "\<exists>sts'. update_table u sts = Some sts' \<and> list_all2 stores sts' (update_where p f rs)"
  using assms(2)
proof (induction sts rs rule: list_all2_induct)
  case Nil
  show ?case by (simp add: update_table_def update_where_def)
next
  case (Cons st sts r rs)
  then obtain sts' where "update_table u sts = Some sts'" "list_all2 stores sts' (update_where p f rs)" by blast
  moreover obtain st' where "update_row u st = Some st'" "stores st' (if p r then f r else r)"
    using assms(1) Cons.hyps(1) by (auto simp: implements_def)
  ultimately show ?case by (simp add: update_table_def update_where_def)
qed

context stored_table
begin

lemma read_updated:
  assumes "implements stores u p f" and "list_all2 stores sts rs"
  shows "\<exists>sts'. update_table u sts = Some sts' \<and>
    scan_all read (map (select label columns) sts') None = Inr (map data (update_where p f rs))"
  using implemented_table [OF assms] read_all by blast

lemma read_inserted:
  assumes "inserts stores generated ins r" and "list_all2 stores sts rs"
  shows "\<exists>st. insert_row generated ins = Some st \<and>
    scan_all read (map (select label columns) (sts @ [st])) None = Inr (map data (rs @ [r]))"
proof -
  from assms(1) obtain st where "insert_row generated ins = Some st" "stores st r" by (auto simp: inserts_def)
  moreover from this(2) assms(2) have "list_all2 stores (sts @ [st]) (rs @ [r])" by (simp add: list_all2_appendI)
  ultimately show ?thesis using read_all by blast
qed

end

section \<open>The statements\<close>

text \<open>A \<open>sql.NullInt64\<close> as an argument; pointers are passed with \<open>int_cell\<close>, strings with \<open>CellText\<close>.\<close>

definition null_arg :: "NullInt64 \<Rightarrow> cell" where
  "null_arg v = (if snd v then CellInt (fst v) else CellNull)"

definition state_arg :: "rule_state \<Rightarrow> cell" where
  "state_arg s = CellText (state_name s)"

subsection \<open>Rules\<close>

definition CreateRule_sql :: "Rule \<Rightarrow> Insert" where
  "CreateRule_sql rule = \<lparr>
     i_columns = [''name'', ''inbound_id'', ''email'', ''factor_ppm'', ''state'',
       ''created_at'', ''updated_at'', ''activated_at'', ''paused_at'', ''disabled_at''],
     i_values = [NullIfEmpty, Arg, Arg, Arg, Arg, Arg, Arg, Arg, Const CellNull, Const CellNull],
     i_args = [CellText (r_name rule), CellInt (r_inbound_id rule), CellText (r_email rule), CellInt (r_factor_ppm rule),
       state_arg (r_state rule), CellInt (r_created_at rule), CellInt (r_updated_at rule), int_cell (r_activated_at rule)]\<rparr>"

definition SetRuleDisabled_sql :: "int \<Rightarrow> int \<Rightarrow> Update" where
  "SetRuleDisabled_sql ruleID now = \<lparr>u_sets = [(''state'', Arg), (''updated_at'', Arg), (''disabled_at'', Arg)],
     u_where = [equals ''id''], u_args = [state_arg StateDisabled, CellInt now, CellInt now, CellInt ruleID]\<rparr>"

definition SetRuleMerged_sql :: "int \<Rightarrow> int \<Rightarrow> Update" where
  "SetRuleMerged_sql ruleID now = \<lparr>u_sets = [(''state'', Arg), (''updated_at'', Arg), (''disabled_at'', Arg)],
     u_where = [equals ''id''], u_args = [state_arg StateMerged, CellInt now, CellInt now, CellInt ruleID]\<rparr>"

definition SetRuleOrphaned_sql :: "int \<Rightarrow> int \<Rightarrow> Update" where
  "SetRuleOrphaned_sql ruleID now = \<lparr>u_sets = [(''state'', Arg), (''updated_at'', Arg), (''disabled_at'', Arg)],
     u_where = [equals ''id''], u_args = [state_arg StateOrphaned, CellInt now, CellInt now, CellInt ruleID]\<rparr>"

definition SetRulePaused_sql :: "int \<Rightarrow> int \<Rightarrow> Update" where
  "SetRulePaused_sql ruleID now = \<lparr>u_sets = [(''state'', Arg), (''updated_at'', Arg), (''paused_at'', Arg)],
     u_where = [equals ''id''], u_args = [state_arg StatePaused, CellInt now, CellInt now, CellInt ruleID]\<rparr>"

definition SetRuleActive_sql :: "int \<Rightarrow> int \<Rightarrow> Update" where
  "SetRuleActive_sql ruleID now = \<lparr>u_sets = [(''state'', Arg), (''updated_at'', Arg), (''activated_at'', Arg)],
     u_where = [equals ''id''], u_args = [state_arg StateActive, CellInt now, CellInt now, CellInt ruleID]\<rparr>"

subsection \<open>Scopes and rule clients\<close>

definition CreateScope_sql :: "Scope \<Rightarrow> Insert" where
  "CreateScope_sql scope = \<lparr>
     i_columns = [''rule_id'', ''inbound_id'', ''limited_only'', ''include_disabled_clients'', ''once'',
       ''created_at'', ''updated_at''],
     i_values = replicate 7 Arg,
     i_args = [CellInt (sc_rule_id scope), null_arg (nullableInt64 (sc_inbound_id scope)),
       CellInt (boolInt (sc_limited_only scope)), CellInt (boolInt (sc_include_disabled_clients scope)),
       CellInt (boolInt (sc_once scope)), CellInt (sc_created_at scope), CellInt (sc_updated_at scope)]\<rparr>"

definition CreateRuleClient_sql :: "RuleClient \<Rightarrow> Insert" where
  "CreateRuleClient_sql rc = \<lparr>
     i_columns = [''rule_id'', ''traffic_id'', ''inbound_id'', ''email'', ''last_up'', ''last_down'',
       ''rem_up'', ''rem_down'', ''missing_since'', ''updated_at''],
     i_values = [Arg, Arg, Arg, Arg, Arg, Arg, Const (CellInt 0), Const (CellInt 0), Const CellNull, Arg],
     i_args = [CellInt (rc_rule_id rc), CellInt (rc_traffic_id rc), CellInt (rc_inbound_id rc), CellText (rc_email rc),
       CellInt (rc_last_up rc), CellInt (rc_last_down rc), CellInt (rc_updated_at rc)]\<rparr>"

text \<open>\<open>INSERT ... SELECT ?, columns\<close> of a stored row: its cells take the place of the values.\<close>

definition CopyRuleClient_sql :: "int \<Rightarrow> stored \<Rightarrow> Insert" where
  "CopyRuleClient_sql toRuleID st = \<lparr>
     i_columns = [''rule_id'', ''traffic_id'', ''inbound_id'', ''email'', ''last_up'', ''last_down'',
       ''rem_up'', ''rem_down'', ''missing_since'', ''updated_at''],
     i_values = Arg # map (\<lambda>n. Const (st n)) [''traffic_id'', ''inbound_id'', ''email'', ''last_up'', ''last_down'',
       ''rem_up'', ''rem_down'', ''missing_since'', ''updated_at''],
     i_args = [CellInt toRuleID]\<rparr>"

definition UpdateRuleClientBaseline_sql :: "RuleClient \<Rightarrow> Update" where
  "UpdateRuleClientBaseline_sql rc = \<lparr>
     u_sets = [(''last_up'', Arg), (''last_down'', Arg), (''rem_up'', Arg), (''rem_down'', Arg),
       (''missing_since'', Const CellNull), (''updated_at'', Arg)],
     u_where = [equals ''rule_id'', equals ''traffic_id''],
     u_args = [CellInt (rc_last_up rc), CellInt (rc_last_down rc), CellInt (rc_rem_up rc), CellInt (rc_rem_down rc),
       CellInt (rc_updated_at rc), CellInt (rc_rule_id rc), CellInt (rc_traffic_id rc)]\<rparr>"

definition MarkRuleClientMissing_sql :: "int \<Rightarrow> int \<Rightarrow> int \<Rightarrow> Update" where
  "MarkRuleClientMissing_sql ruleID trafficID now = \<lparr>
     u_sets = [(''missing_since'', CoalesceArg ''missing_since''), (''updated_at'', Arg)],
     u_where = [equals ''rule_id'', equals ''traffic_id''],
     u_args = [CellInt now, CellInt now, CellInt ruleID, CellInt trafficID]\<rparr>"

definition AdoptRuleClientInbound_sql :: "int \<Rightarrow> int \<Rightarrow> int \<Rightarrow> int \<Rightarrow> Update" where
  "AdoptRuleClientInbound_sql ruleID trafficID inboundID now = \<lparr>
     u_sets = [(''inbound_id'', Arg), (''updated_at'', Arg)],
     u_where = [equals ''rule_id'', equals ''traffic_id''],
     u_args = [CellInt inboundID, CellInt now, CellInt ruleID, CellInt trafficID]\<rparr>"

text \<open>\<open>rule_id IN (SELECT id FROM xui_factor_rules WHERE state = ?)\<close> over the stored rules.\<close>

definition rule_in_state :: "stored list \<Rightarrow> condition" where
  "rule_in_state rules st a \<longleftrightarrow> list_ex (\<lambda>r. equals ''state'' r a \<and> equals ''id'' r (st ''rule_id'')) rules"

definition RefreshActiveRuleClientBaselines_sql :: "stored list \<Rightarrow> ClientTraffic \<Rightarrow> int \<Rightarrow> string \<Rightarrow> int \<Rightarrow> Update" where
  "RefreshActiveRuleClientBaselines_sql rules current trafficID email now = \<lparr>
     u_sets = [(''inbound_id'', Arg), (''last_up'', Arg), (''last_down'', Arg), (''rem_up'', Const (CellInt 0)),
       (''rem_down'', Const (CellInt 0)), (''missing_since'', Const CellNull), (''updated_at'', Arg)],
     u_where = [equals ''traffic_id'', equals ''email'', rule_in_state rules],
     u_args = [CellInt (ct_inbound_id current), CellInt (ct_up current), CellInt (ct_down current), CellInt now,
       CellInt trafficID, CellText email, state_arg StateActive]\<rparr>"

definition RefreshRuleClientBaseline_sql :: "int \<Rightarrow> ClientTraffic \<Rightarrow> int \<Rightarrow> Update" where
  "RefreshRuleClientBaseline_sql ruleID c now = \<lparr>
     u_sets = [(''inbound_id'', Arg), (''email'', Arg), (''last_up'', Arg), (''last_down'', Arg),
       (''rem_up'', Const (CellInt 0)), (''rem_down'', Const (CellInt 0)), (''missing_since'', Const CellNull),
       (''updated_at'', Arg)],
     u_where = [equals ''rule_id'', equals ''traffic_id''],
     u_args = [CellInt (ct_inbound_id c), CellText (ct_email c), CellInt (ct_up c), CellInt (ct_down c), CellInt now,
       CellInt ruleID, CellInt (ct_id c)]\<rparr>"

text \<open>\<open>NOT EXISTS\<close> another rule client of the same rule on the traffic id of the argument.\<close>

definition no_other_client :: "stored list \<Rightarrow> condition" where
  "no_other_client clients st a \<longleftrightarrow>
    \<not> list_ex (\<lambda>other. equals ''rule_id'' other (st ''rule_id'') \<and> equals ''traffic_id'' other a) clients"

definition RelinkRuleClient_sql :: "stored list \<Rightarrow> int \<Rightarrow> int \<Rightarrow> ClientTraffic \<Rightarrow> int \<Rightarrow> Update" where
  "RelinkRuleClient_sql clients ruleID trafficID current now = \<lparr>
     u_sets = [(''traffic_id'', Arg), (''inbound_id'', Arg), (''last_up'', Arg), (''last_down'', Arg),
       (''rem_up'', Const (CellInt 0)), (''rem_down'', Const (CellInt 0)), (''missing_since'', Const CellNull),
       (''updated_at'', Arg)],
     u_where = [equals ''rule_id'', equals ''traffic_id'', no_other_client clients],
     u_args = [CellInt (ct_id current), CellInt (ct_inbound_id current), CellInt (ct_up current),
       CellInt (ct_down current), CellInt now, CellInt ruleID, CellInt trafficID, CellInt (ct_id current)]\<rparr>"

subsection \<open>Policies\<close>

definition InsertExclude_sql :: "ExcludePolicy \<Rightarrow> string \<Rightarrow> Insert" where
  "InsertExclude_sql policy note = \<lparr>
     i_columns = [''traffic_id'', ''inbound_id'', ''email'', ''state'', ''note'',
       ''created_at'', ''updated_at'', ''activated_at'', ''disabled_at''],
     i_values = [Arg, Arg, Arg, Arg, NullIfEmpty, Arg, Arg, Arg, Const CellNull],
     i_args = [CellInt (ep_traffic_id policy), CellInt (ep_inbound_id policy), CellText (ep_email policy),
       state_arg StateActive, CellText note, CellInt (ep_created_at policy), CellInt (ep_updated_at policy),
       int_cell (ep_activated_at policy)]\<rparr>"

definition UpdateExclude_sql :: "ExcludePolicy \<Rightarrow> string \<Rightarrow> int \<Rightarrow> Update" where
  "UpdateExclude_sql policy note existingID = \<lparr>
     u_sets = [(''traffic_id'', Arg), (''inbound_id'', Arg), (''state'', Arg), (''note'', NullIfEmpty),
       (''updated_at'', Arg), (''activated_at'', Arg), (''disabled_at'', Const CellNull)],
     u_where = [equals ''id''],
     u_args = [CellInt (ep_traffic_id policy), CellInt (ep_inbound_id policy), state_arg StateActive, CellText note,
       CellInt (ep_updated_at policy), int_cell (ep_activated_at policy), CellInt existingID]\<rparr>"

definition MoveExclude_sql :: "ExcludePolicy \<Rightarrow> ClientTraffic \<Rightarrow> int \<Rightarrow> Update" where
  "MoveExclude_sql policy current now = \<lparr>
     u_sets = [(''traffic_id'', Arg), (''inbound_id'', Arg), (''updated_at'', Arg)], u_where = [equals ''id''],
     u_args = [CellInt (ct_id current), CellInt (ct_inbound_id current), CellInt now, CellInt (ep_id policy)]\<rparr>"

definition ReactivateExclude_sql :: "ExcludePolicy \<Rightarrow> int \<Rightarrow> int \<Rightarrow> Update" where
  "ReactivateExclude_sql policy occupantID now = \<lparr>
     u_sets = [(''state'', Arg), (''note'', Arg), (''activated_at'', Arg), (''updated_at'', Arg)],
     u_where = [equals ''id''],
     u_args = [state_arg StateActive, CellText (ep_note policy), int_cell (ep_activated_at policy), CellInt now,
       CellInt occupantID]\<rparr>"

definition DisableExclude_sql :: "int \<Rightarrow> int \<Rightarrow> Update" where
  "DisableExclude_sql policyID now = \<lparr>u_sets = [(''state'', Arg), (''updated_at'', Arg), (''disabled_at'', Arg)],
     u_where = [equals ''id''], u_args = [state_arg StateDisabled, CellInt now, CellInt now, CellInt policyID]\<rparr>"

definition InsertOverride_sql :: "OverridePolicy \<Rightarrow> string \<Rightarrow> Insert" where
  "InsertOverride_sql policy note = \<lparr>
     i_columns = [''traffic_id'', ''inbound_id'', ''email'', ''factor_ppm'', ''state'', ''note'',
       ''created_at'', ''updated_at'', ''activated_at'', ''disabled_at''],
     i_values = [Arg, Arg, Arg, Arg, Arg, NullIfEmpty, Arg, Arg, Arg, Const CellNull],
     i_args = [CellInt (op_traffic_id policy), CellInt (op_inbound_id policy), CellText (op_email policy),
       CellInt (op_factor_ppm policy), state_arg StateActive, CellText note, CellInt (op_created_at policy),
       CellInt (op_updated_at policy), int_cell (op_activated_at policy)]\<rparr>"

definition UpdateOverride_sql :: "OverridePolicy \<Rightarrow> string \<Rightarrow> int \<Rightarrow> Update" where
  "UpdateOverride_sql policy note existingID = \<lparr>
     u_sets = [(''traffic_id'', Arg), (''inbound_id'', Arg), (''factor_ppm'', Arg), (''state'', Arg),
       (''note'', NullIfEmpty), (''updated_at'', Arg), (''activated_at'', Arg), (''disabled_at'', Const CellNull)],
     u_where = [equals ''id''],
     u_args = [CellInt (op_traffic_id policy), CellInt (op_inbound_id policy), CellInt (op_factor_ppm policy),
       state_arg StateActive, CellText note, CellInt (op_updated_at policy), int_cell (op_activated_at policy),
       CellInt existingID]\<rparr>"

definition MoveOverride_sql :: "OverridePolicy \<Rightarrow> ClientTraffic \<Rightarrow> int \<Rightarrow> Update" where
  "MoveOverride_sql policy current now = \<lparr>
     u_sets = [(''traffic_id'', Arg), (''inbound_id'', Arg), (''updated_at'', Arg)], u_where = [equals ''id''],
     u_args = [CellInt (ct_id current), CellInt (ct_inbound_id current), CellInt now, CellInt (op_id policy)]\<rparr>"

definition ReactivateOverride_sql :: "OverridePolicy \<Rightarrow> int \<Rightarrow> int \<Rightarrow> Update" where
  "ReactivateOverride_sql policy occupantID now = \<lparr>
     u_sets = [(''state'', Arg), (''factor_ppm'', Arg), (''note'', Arg), (''activated_at'', Arg), (''updated_at'', Arg)],
     u_where = [equals ''id''],
     u_args = [state_arg StateActive, CellInt (op_factor_ppm policy), CellText (op_note policy),
       int_cell (op_activated_at policy), CellInt now, CellInt occupantID]\<rparr>"

definition DisableOverride_sql :: "int \<Rightarrow> int \<Rightarrow> Update" where
  "DisableOverride_sql policyID now = \<lparr>u_sets = [(''state'', Arg), (''updated_at'', Arg), (''disabled_at'', Arg)],
     u_where = [equals ''id''], u_args = [state_arg StateDisabled, CellInt now, CellInt now, CellInt policyID]\<rparr>"

subsection \<open>Counters and events\<close>

definition UpdateClientCountersCAS_sql :: "ClientTraffic \<Rightarrow> int \<Rightarrow> int \<Rightarrow> Update" where
  "UpdateClientCountersCAS_sql current newUp newDown = \<lparr>
     u_sets = [(''up'', Arg), (''down'', Arg)],
     u_where = [equals ''id'', equals ''email'', equals ''up'', equals ''down''],
     u_args = [CellInt newUp, CellInt newDown, CellInt (ct_id current), CellText (ct_email current),
       CellInt (ct_up current), CellInt (ct_down current)]\<rparr>"

definition AddEvent_sql :: "int option \<Rightarrow> event_type \<Rightarrow> string \<Rightarrow> int \<Rightarrow> Insert" where
  "AddEvent_sql ruleID eventType message now = \<lparr>
     i_columns = [''rule_id'', ''event_type'', ''message'', ''created_at''], i_values = replicate 4 Arg,
     i_args = [null_arg (nullableInt64 ruleID), CellText (event_type_name eventType), CellText message, CellInt now]\<rparr>"

section \<open>The rows of the other tables\<close>

fun enable_cell :: "enable_value \<Rightarrow> cell" where
  "enable_cell EnableNull = CellNull"
| "enable_cell (EnableInt n) = CellInt n"
| "enable_cell (EnableBool b) = CellBool b"

definition stores_traffic :: "stored \<Rightarrow> TrafficRow \<Rightarrow> bool" where
  "stores_traffic st t \<longleftrightarrow> st ''id'' = CellInt (tr_id t) \<and> st ''inbound_id'' = CellInt (tr_inbound_id t) \<and>
     st ''enable'' = enable_cell (tr_enable t) \<and> st ''email'' = CellText (tr_email t) \<and>
     st ''up'' = CellInt (tr_up t) \<and> st ''down'' = CellInt (tr_down t) \<and> st ''total'' = CellInt (tr_total t)"

subsection \<open>Clean-up\<close>

definition DeleteRuleClient_sql :: "int \<Rightarrow> int \<Rightarrow> Delete" where
  "DeleteRuleClient_sql ruleID trafficID = \<lparr>d_where = [equals ''rule_id'', equals ''traffic_id''],
     d_args = [CellInt ruleID, CellInt trafficID]\<rparr>"

definition DeleteRuleClients_sql :: "int \<Rightarrow> Delete" where
  "DeleteRuleClients_sql ruleID = \<lparr>d_where = [equals ''rule_id''], d_args = [CellInt ruleID]\<rparr>"

definition DeleteScope_sql :: "int \<Rightarrow> Delete" where
  "DeleteScope_sql ruleID = \<lparr>d_where = [equals ''rule_id''], d_args = [CellInt ruleID]\<rparr>"

definition DeleteRule_sql :: "int \<Rightarrow> Delete" where
  "DeleteRule_sql ruleID = \<lparr>d_where = [equals ''id''], d_args = [CellInt ruleID]\<rparr>"

definition DeleteExclude_sql :: "int \<Rightarrow> Delete" where
  "DeleteExclude_sql policyID = \<lparr>d_where = [equals ''id''], d_args = [CellInt policyID]\<rparr>"

definition DeleteOverride_sql :: "int \<Rightarrow> Delete" where
  "DeleteOverride_sql policyID = \<lparr>d_where = [equals ''id''], d_args = [CellInt policyID]\<rparr>"

definition DeleteEvents_sql :: "int \<Rightarrow> Delete" where
  "DeleteEvents_sql cutoff = \<lparr>d_where = [at_most ''created_at''], d_args = [CellInt cutoff]\<rparr>"

definition SetMetaInt64_sql :: "string \<Rightarrow> int \<Rightarrow> Insert" where
  "SetMetaInt64_sql key v = \<lparr>i_columns = [''key'', ''value'', ''updated_at''], i_values = [Arg, Arg, Arg],
     i_args = [CellText key, CellText (itoa v), CellInt v]\<rparr>"

definition stores_meta :: "stored \<Rightarrow> string \<times> string \<times> int \<Rightarrow> bool" where
  "stores_meta st m \<longleftrightarrow> st ''key'' = CellText (fst m) \<and> st ''value'' = CellText (fst (snd m)) \<and>
     st ''updated_at'' = CellInt (snd (snd m))"

section \<open>Every statement implements its operation\<close>

lemma state_name_eq [simp]: "state_name s = state_name t \<longleftrightarrow> s = t"
  by (cases s; cases t) simp_all

lemma null_arg_option [simp]: "null_arg (nullableInt64 v) = int_cell v"
  by (simp add: null_arg_def nullableInt64_def int_cell_def split: option.split)

lemmas stores_defs = stores_rule_def stores_scope_def stores_rule_client_def stores_exclude_def stores_override_def
  stores_traffic_def stores_event_def state_arg_def

lemmas execution = update_row_def insert_row_def assign_def equals_def generated_id_def no_columns_def stores_defs

lemma rule_statements:
  "implements stores_rule (SetRuleDisabled_sql i now) (\<lambda>r. rr_id r = i)
     (\<lambda>r. r\<lparr>rr_state := StateDisabled, rr_updated_at := now, rr_disabled_at := Some now\<rparr>)"
  "implements stores_rule (SetRuleMerged_sql i now) (\<lambda>r. rr_id r = i)
     (\<lambda>r. r\<lparr>rr_state := StateMerged, rr_updated_at := now, rr_disabled_at := Some now\<rparr>)"
  "implements stores_rule (SetRuleOrphaned_sql i now) (\<lambda>r. rr_id r = i)
     (\<lambda>r. r\<lparr>rr_state := StateOrphaned, rr_updated_at := now, rr_disabled_at := Some now\<rparr>)"
  "implements stores_rule (SetRulePaused_sql i now) (\<lambda>r. rr_id r = i)
     (\<lambda>r. r\<lparr>rr_state := StatePaused, rr_updated_at := now, rr_paused_at := Some now\<rparr>)"
  "implements stores_rule (SetRuleActive_sql i now) (\<lambda>r. rr_id r = i)
     (\<lambda>r. r\<lparr>rr_state := StateActive, rr_updated_at := now, rr_activated_at := Some now\<rparr>)"
  by (rule implementsI; simp add: execution SetRuleDisabled_sql_def SetRuleMerged_sql_def SetRuleOrphaned_sql_def
    SetRulePaused_sql_def SetRuleActive_sql_def)+

lemma rule_client_statements:
  "implements stores_rule_client (UpdateRuleClientBaseline_sql rc) (is_rc (rc_rule_id rc) (rc_traffic_id rc))
     (\<lambda>old. old\<lparr>rc_last_up := rc_last_up rc, rc_last_down := rc_last_down rc, rc_rem_up := rc_rem_up rc,
        rc_rem_down := rc_rem_down rc, rc_missing_at := None, rc_updated_at := rc_updated_at rc\<rparr>)"
  "implements stores_rule_client (MarkRuleClientMissing_sql i t now) (is_rc i t)
     (\<lambda>old. old\<lparr>rc_missing_at := (case rc_missing_at old of None \<Rightarrow> Some now | Some m \<Rightarrow> Some m), rc_updated_at := now\<rparr>)"
  "implements stores_rule_client (AdoptRuleClientInbound_sql i t inboundID now) (is_rc i t)
     (\<lambda>old. old\<lparr>rc_inbound_id := inboundID, rc_updated_at := now\<rparr>)"
  "implements stores_rule_client (RefreshRuleClientBaseline_sql i c now) (is_rc i (ct_id c))
     (\<lambda>old. (refresh_row now c old)\<lparr>rc_email := ct_email c\<rparr>)"
  by (rule implementsI; auto simp: execution is_rc_def UpdateRuleClientBaseline_sql_def MarkRuleClientMissing_sql_def
    AdoptRuleClientInbound_sql_def RefreshRuleClientBaseline_sql_def refresh_row_def split: option.split)+

lemma exclude_statements:
  "implements stores_exclude (UpdateExclude_sql policy note i) (\<lambda>p. ep_id p = i)
     (\<lambda>p. p\<lparr>ep_traffic_id := ep_traffic_id policy, ep_inbound_id := ep_inbound_id policy, ep_state := StateActive,
        ep_note := note, ep_updated_at := ep_updated_at policy, ep_activated_at := ep_activated_at policy,
        ep_disabled_at := None\<rparr>)"
  "implements stores_exclude (MoveExclude_sql policy c now) (\<lambda>p. ep_id p = ep_id policy)
     (\<lambda>p. p\<lparr>ep_traffic_id := ct_id c, ep_inbound_id := ct_inbound_id c, ep_updated_at := now\<rparr>)"
  "implements stores_exclude (ReactivateExclude_sql policy i now) (\<lambda>p. ep_id p = i)
     (\<lambda>p. p\<lparr>ep_state := StateActive, ep_note := ep_note policy, ep_activated_at := ep_activated_at policy,
        ep_updated_at := now\<rparr>)"
  "implements stores_exclude (DisableExclude_sql i now) (\<lambda>p. ep_id p = i)
     (\<lambda>p. p\<lparr>ep_state := StateDisabled, ep_updated_at := now, ep_disabled_at := Some now\<rparr>)"
  by (rule implementsI; auto simp: execution UpdateExclude_sql_def MoveExclude_sql_def ReactivateExclude_sql_def
    DisableExclude_sql_def split: if_splits)+

lemma override_statements:
  "implements stores_override (UpdateOverride_sql policy note i) (\<lambda>p. op_id p = i)
     (\<lambda>p. p\<lparr>op_traffic_id := op_traffic_id policy, op_inbound_id := op_inbound_id policy,
        op_factor_ppm := op_factor_ppm policy, op_state := StateActive, op_note := note,
        op_updated_at := op_updated_at policy, op_activated_at := op_activated_at policy, op_disabled_at := None\<rparr>)"
  "implements stores_override (MoveOverride_sql policy c now) (\<lambda>p. op_id p = op_id policy)
     (\<lambda>p. p\<lparr>op_traffic_id := ct_id c, op_inbound_id := ct_inbound_id c, op_updated_at := now\<rparr>)"
  "implements stores_override (ReactivateOverride_sql policy i now) (\<lambda>p. op_id p = i)
     (\<lambda>p. p\<lparr>op_state := StateActive, op_factor_ppm := op_factor_ppm policy, op_note := op_note policy,
        op_activated_at := op_activated_at policy, op_updated_at := now\<rparr>)"
  "implements stores_override (DisableOverride_sql i now) (\<lambda>p. op_id p = i)
     (\<lambda>p. p\<lparr>op_state := StateDisabled, op_updated_at := now, op_disabled_at := Some now\<rparr>)"
  by (rule implementsI; auto simp: execution UpdateOverride_sql_def MoveOverride_sql_def ReactivateOverride_sql_def
    DisableOverride_sql_def split: if_splits)+

lemma counter_statement:
  "implements stores_traffic (UpdateClientCountersCAS_sql current up down) (cas_match current)
     (\<lambda>t. t\<lparr>tr_up := up, tr_down := down\<rparr>)"
  by (rule implementsI; auto simp: execution cas_match_def UpdateClientCountersCAS_sql_def)

text \<open>The two statements with a subquery, over stored tables that hold the typed ones.\<close>

lemma list_ex_stored:
  assumes "list_all2 stores sts rs" and "\<And>st r. stores st r \<Longrightarrow> P st \<longleftrightarrow> Q r"
  shows "list_ex P sts \<longleftrightarrow> list_ex Q rs"
  using assms(1) by (induction sts rs rule: list_all2_induct) (simp_all add: assms(2))

lemma refresh_active_statement:
  assumes "list_all2 stores_rule rules rs"
  shows "implements stores_rule_client (RefreshActiveRuleClientBaselines_sql rules current t email now)
    (\<lambda>rc. rc_traffic_id rc = t \<and> rc_email rc = email \<and> list_ex (\<lambda>r. rr_id r = rc_rule_id rc \<and> rr_state r = StateActive) rs)
    (refresh_row now current)"
proof -
  have cond: "rule_in_state rules st (state_arg StateActive) \<longleftrightarrow>
      list_ex (\<lambda>r. rr_id r = rc_rule_id rc \<and> rr_state r = StateActive) rs" if "stores_rule_client st rc" for st rc
    unfolding rule_in_state_def using that
    by (intro list_ex_stored [OF assms]) (auto simp: equals_def stores_defs simp flip: state_name.simps)
  show ?thesis
    by (rule implementsI; use cond in \<open>auto simp: update_row_def assign_def equals_def stores_rule_client_def
      RefreshActiveRuleClientBaselines_sql_def refresh_row_def\<close>)
qed

lemma relink_statement:
  assumes "list_all2 stores_rule_client clients rcs"
  shows "implements stores_rule_client (RelinkRuleClient_sql clients i t current now)
    (\<lambda>old. is_rc i t old \<and> \<not> list_ex (is_rc i (ct_id current)) rcs)
    (\<lambda>old. (refresh_row now current old)\<lparr>rc_traffic_id := ct_id current\<rparr>)"
proof -
  have cond: "no_other_client clients st (CellInt (ct_id current)) \<longleftrightarrow> \<not> list_ex (is_rc (rc_rule_id rc) (ct_id current)) rcs"
    if "stores_rule_client st rc" for st rc
    unfolding no_other_client_def using that
    by (subst list_ex_stored [OF assms, where Q = "is_rc (rc_rule_id rc) (ct_id current)"])
      (auto simp: equals_def stores_rule_client_def is_rc_def)
  show ?thesis
    by (rule implementsI; use cond in \<open>auto simp: update_row_def assign_def equals_def stores_rule_client_def
      RelinkRuleClient_sql_def refresh_row_def is_rc_def\<close>)
qed

section \<open>Every insert stores the row of its operation\<close>

lemma insert_statements:
  "inserts stores_rule (generated_id i) (CreateRule_sql rule)
     \<lparr>rr_id = i, rr_name = nullif_empty (r_name rule), rr_inbound_id = Some (r_inbound_id rule), rr_email = r_email rule,
      rr_factor_ppm = r_factor_ppm rule, rr_state = r_state rule, rr_created_at = r_created_at rule,
      rr_updated_at = r_updated_at rule, rr_activated_at = r_activated_at rule, rr_paused_at = None,
      rr_disabled_at = None\<rparr>"
  "inserts stores_scope no_columns (CreateScope_sql scope) scope"
  "inserts stores_rule_client no_columns (CreateRuleClient_sql rc)
     (rc\<lparr>rc_rem_up := 0, rc_rem_down := 0, rc_missing_at := None\<rparr>)"
  "inserts stores_exclude (generated_id i) (InsertExclude_sql ex note)
     (ex\<lparr>ep_id := i, ep_state := StateActive, ep_note := note, ep_disabled_at := None\<rparr>)"
  "inserts stores_override (generated_id i) (InsertOverride_sql ov note)
     (ov\<lparr>op_id := i, op_state := StateActive, op_note := note, op_disabled_at := None\<rparr>)"
  "inserts stores_event (generated_id i) (AddEvent_sql ruleID event_type message now)
     \<lparr>ev_id = i, ev_rule_id = ruleID, ev_type = event_type, ev_message = message, ev_created_at = now\<rparr>"
  by (auto simp: inserts_def execution nullif_empty_def CreateRule_sql_def CreateScope_sql_def CreateRuleClient_sql_def
    InsertExclude_sql_def InsertOverride_sql_def AddEvent_sql_def eval_nat_numeral)

lemma copy_statement:
  assumes "stores_rule_client st rc"
  shows "inserts stores_rule_client no_columns (CopyRuleClient_sql i st) (rc\<lparr>rc_rule_id := i\<rparr>)"
  using assms by (simp add: inserts_def execution CopyRuleClient_sql_def)

section \<open>The store's methods\<close>

text \<open>
  A method that succeeds executes the statement: applied to stored rows that hold the table, the statement is accepted
  and leaves rows that hold the table the method leaves.
\<close>

definition executes :: "(stored \<Rightarrow> 'r \<Rightarrow> bool) \<Rightarrow> (Database \<Rightarrow> 'r list) \<Rightarrow> Update \<Rightarrow> 'a tx \<Rightarrow> bool" where
  "executes stores table u op \<longleftrightarrow>
    (\<forall>w x w' sts. op w = (Inr x, w') \<longrightarrow> list_all2 stores sts (table (w_db w)) \<longrightarrow>
      (\<exists>sts'. update_table u sts = Some sts' \<and> list_all2 stores sts' (table (w_db w'))))"

definition stores_new ::
  "(stored \<Rightarrow> 'r \<Rightarrow> bool) \<Rightarrow> (Database \<Rightarrow> 'r list) \<Rightarrow> ('a \<Rightarrow> stored) \<Rightarrow> Insert \<Rightarrow> 'a tx \<Rightarrow> bool" where
  "stores_new stores table generated ins op \<longleftrightarrow>
    (\<forall>w x w' sts. op w = (Inr x, w') \<longrightarrow> list_all2 stores sts (table (w_db w)) \<longrightarrow>
      (\<exists>st. insert_row (generated x) ins = Some st \<and> list_all2 stores (sts @ [st]) (table (w_db w'))))"

lemma executesI:
  assumes "implements stores u p f"
    and "\<And>w x w'. op w = (Inr x, w') \<Longrightarrow> table (w_db w') = update_where p f (table (w_db w))"
  shows "executes stores table u op"
  using implemented_table [OF assms(1)] assms(2) by (fastforce simp: executes_def)

lemma stores_newI:
  assumes "\<And>x. inserts stores (generated x) ins (r x)"
    and "\<And>w x w'. op w = (Inr x, w') \<Longrightarrow> table (w_db w') = table (w_db w) @ [r x]"
  shows "stores_new stores table generated ins op"
  using assms by (fastforce simp: stores_new_def inserts_def intro: list_all2_appendI)

lemma exec_tx_Inr: "exec_tx f w = (Inr x, w') \<Longrightarrow> w_db w' = f (w_db w)"
  unfolding exec_tx_def by (drule exec_context_Inr) simp

lemma rule_methods:
  "executes stores_rule t_rules (SetRuleDisabled_sql i now) (SetRuleDisabled i now)"
  "executes stores_rule t_rules (SetRuleMerged_sql i now) (SetRuleMerged i now)"
  "executes stores_rule t_rules (SetRuleOrphaned_sql i now) (SetRuleOrphaned i now)"
  "executes stores_rule t_rules (SetRulePaused_sql i now) (SetRulePaused i now)"
  "executes stores_rule t_rules (SetRuleActive_sql i now) (SetRuleActive i now)"
  unfolding SetRuleDisabled_def SetRuleMerged_def SetRuleOrphaned_def SetRulePaused_def SetRuleActive_def update_rule_def
  by (rule executesI, rule rule_statements, drule exec_tx_Inr, simp)+

lemma rule_client_methods:
  "executes stores_rule_client t_rule_clients (UpdateRuleClientBaseline_sql rc) (UpdateRuleClientBaseline rc)"
  "executes stores_rule_client t_rule_clients (MarkRuleClientMissing_sql i t now) (MarkRuleClientMissing i t now)"
  "executes stores_rule_client t_rule_clients (AdoptRuleClientInbound_sql i t b now) (AdoptRuleClientInbound i t b now)"
  unfolding UpdateRuleClientBaseline_def MarkRuleClientMissing_def AdoptRuleClientInbound_def update_rule_clients_def
  by (rule executesI, rule rule_client_statements, drule exec_tx_Inr, simp)+

lemma written_policies:
  "update_exclude i f w = (Inr x, w') \<Longrightarrow> t_excludes (w_db w') = update_where (\<lambda>p. ep_id p = i) f (t_excludes (w_db w))"
  "update_override i g w = (Inr x, w') \<Longrightarrow> t_overrides (w_db w') = update_where (\<lambda>p. op_id p = i) g (t_overrides (w_db w))"
  unfolding update_exclude_def update_override_def ExecContext_def
  by (drule statement_Inr, auto simp: write_excludes_def write_overrides_def eq_commute [of _ "w_db w'"] split: if_splits)+

lemma policy_methods:
  "executes stores_exclude t_excludes (DisableExclude_sql i now) (DisableExclude i now)"
  "executes stores_override t_overrides (DisableOverride_sql i now) (DisableOverride i now)"
  unfolding DisableExclude_def DisableOverride_def
  by (rule executesI, rule exclude_statements override_statements, erule written_policies)+

lemma counter_method:
  "executes stores_traffic t_client_traffics (UpdateClientCountersCAS_sql c up down) (UpdateClientCountersCAS c up down)"
  by (rule executesI, rule counter_statement)
    (auto simp: UpdateClientCountersCAS_def bind_tx_def split: prod.splits sum.splits if_splits dest!: exec_context_Inr)

lemma returned_id:
  "insertReturningID f w = (Inr x, w') \<Longrightarrow> f (w_db w) = Inr (x, w_db w')"
  by (auto simp: insertReturningID_def with_driver_def ExecContext_def split: if_splits dest: statement_Inr)

lemma created:
  "CreateRule rule w = (Inr i, w') \<Longrightarrow> t_rules (w_db w') = t_rules (w_db w) @
    [\<lparr>rr_id = i, rr_name = nullif_empty (r_name rule), rr_inbound_id = Some (r_inbound_id rule),
      rr_email = r_email rule, rr_factor_ppm = r_factor_ppm rule, rr_state = r_state rule,
      rr_created_at = r_created_at rule, rr_updated_at = r_updated_at rule, rr_activated_at = r_activated_at rule,
      rr_paused_at = None, rr_disabled_at = None\<rparr>]"
  "CreateScope scope w = (Inr u, w') \<Longrightarrow> t_scopes (w_db w') = t_scopes (w_db w) @ [scope]"
  "CreateRuleClient rc w = (Inr u, w') \<Longrightarrow>
    t_rule_clients (w_db w') = t_rule_clients (w_db w) @ [rc\<lparr>rc_rem_up := 0, rc_rem_down := 0, rc_missing_at := None\<rparr>]"
  "insertReturningID (insert_exclude ex) w = (Inr i, w') \<Longrightarrow>
    t_excludes (w_db w') = t_excludes (w_db w) @ [ex\<lparr>ep_id := i\<rparr>]"
  "insertReturningID (insert_override ov) w = (Inr i, w') \<Longrightarrow>
    t_overrides (w_db w') = t_overrides (w_db w) @ [ov\<lparr>op_id := i\<rparr>]"
  unfolding CreateRule_def CreateScope_def CreateRuleClient_def ExecContext_def
  by ((drule returned_id | drule statement_Inr), auto simp: insert_rule_def insert_rule_client_def insert_exclude_def
    insert_override_def write_excludes_def write_overrides_def Let_def eq_commute [of _ "w_db w'"]
    split: if_splits sum.splits)+

lemma insert_methods:
  "stores_new stores_rule t_rules generated_id (CreateRule_sql rule) (CreateRule rule)"
  "stores_new stores_scope t_scopes (\<lambda>_. no_columns) (CreateScope_sql scope) (CreateScope scope)"
  "stores_new stores_rule_client t_rule_clients (\<lambda>_. no_columns) (CreateRuleClient_sql rc) (CreateRuleClient rc)"
  by (rule stores_newI, rule insert_statements, erule created)+

lemma insert_policy_methods:
  "stores_new stores_exclude t_excludes generated_id (InsertExclude_sql ex note)
     (insertReturningID (insert_exclude (ex\<lparr>ep_state := StateActive, ep_note := note, ep_disabled_at := None\<rparr>)))"
  "stores_new stores_override t_overrides generated_id (InsertOverride_sql ov note)
     (insertReturningID (insert_override (ov\<lparr>op_state := StateActive, op_note := note, op_disabled_at := None\<rparr>)))"
  by (rule stores_newI, rule insert_statements, drule created, simp)+

text \<open>A \<open>DELETE\<close> keeps the stored rows of the typed rows that stay.\<close>

definition removes ::
  "(stored \<Rightarrow> 'r \<Rightarrow> bool) \<Rightarrow> (Database \<Rightarrow> 'r list) \<Rightarrow> Delete \<Rightarrow> 'a tx \<Rightarrow> bool" where
  "removes stores table del op \<longleftrightarrow>
    (\<forall>w x w' sts. op w = (Inr x, w') \<longrightarrow> list_all2 stores sts (table (w_db w)) \<longrightarrow>
      (\<exists>sts'. delete_table del sts = Some sts' \<and> list_all2 stores sts' (table (w_db w'))))"

lemma filter_stored:
  assumes "list_all2 stores sts rs" and "\<And>st r. stores st r \<Longrightarrow> P st \<longleftrightarrow> Q r"
  shows "list_all2 stores (filter P sts) (filter Q rs)"
  using assms(1) by (induction sts rs rule: list_all2_induct) (simp_all add: assms(2))

lemma removesI:
  assumes "length (d_args del) = length (d_where del)"
    and "\<And>st r. stores st r \<Longrightarrow> list_all2 (\<lambda>c a. c st a) (d_where del) (d_args del) \<longleftrightarrow> p r"
    and "\<And>w x w'. op w = (Inr x, w') \<Longrightarrow> table (w_db w') = filter (\<lambda>r. \<not> p r) (table (w_db w))"
  shows "removes stores table del op"
  using assms(1) filter_stored [of stores _ _ "\<lambda>st. \<not> list_all2 (\<lambda>c a. c st a) (d_where del) (d_args del)" "\<lambda>r. \<not> p r"]
  by (simp add: removes_def delete_table_def assms(2,3))

lemma deleted_rule:
  "delete_rule i w = (Inr x, w') \<Longrightarrow>
    t_rule_clients (w_db w') = filter (\<lambda>rc. rc_rule_id rc \<noteq> i) (t_rule_clients (w_db w)) \<and>
    t_scopes (w_db w') = filter (\<lambda>s. sc_rule_id s \<noteq> i) (t_scopes (w_db w)) \<and>
    t_rules (w_db w') = filter (\<lambda>r. rr_id r \<noteq> i) (t_rules (w_db w))"
  by (auto simp: delete_rule_def bind_tx_def split: prod.splits sum.splits dest!: exec_tx_Inr)

lemma delete_rule_methods:
  "removes stores_rule_client t_rule_clients (DeleteRuleClients_sql i) (delete_rule i)"
  "removes stores_scope t_scopes (DeleteScope_sql i) (delete_rule i)"
  "removes stores_rule t_rules (DeleteRule_sql i) (delete_rule i)"
  by (rule removesI [where p = "\<lambda>rc. rc_rule_id rc = i"] removesI [where p = "\<lambda>s. sc_rule_id s = i"]
      removesI [where p = "\<lambda>r. rr_id r = i"];
    auto simp: DeleteRuleClients_sql_def DeleteScope_sql_def DeleteRule_sql_def equals_def stores_defs dest!: deleted_rule)+

lemma pruning_methods:
  "removes stores_rule_client t_rule_clients (DeleteRuleClient_sql i t)
     (exec_tx (\<lambda>d. d\<lparr>t_rule_clients := filter (\<lambda>rc. \<not> is_rc i t rc) (t_rule_clients d)\<rparr>))"
  "removes stores_exclude t_excludes (DeleteExclude_sql i)
     (exec_tx (\<lambda>d. d\<lparr>t_excludes := filter (\<lambda>p. ep_id p \<noteq> i) (t_excludes d)\<rparr>))"
  "removes stores_override t_overrides (DeleteOverride_sql i)
     (exec_tx (\<lambda>d. d\<lparr>t_overrides := filter (\<lambda>p. op_id p \<noteq> i) (t_overrides d)\<rparr>))"
  "removes stores_event t_events (DeleteEvents_sql cutoff)
     (exec_tx (\<lambda>d. d\<lparr>t_events := filter (\<lambda>e. \<not> ev_created_at e \<le> cutoff) (t_events d)\<rparr>))"
  by (rule removesI [where p = "is_rc i t"] removesI [where p = "\<lambda>p. ep_id p = i"]
      removesI [where p = "\<lambda>p. op_id p = i"] removesI [where p = "\<lambda>e. ev_created_at e \<le> cutoff"];
    auto simp: DeleteRuleClient_sql_def DeleteExclude_sql_def DeleteOverride_sql_def DeleteEvents_sql_def equals_def
      is_rc_def stores_defs dest!: exec_tx_Inr)+

text \<open>The upsert of a marker: \<open>value\<close> and \<open>updated_at\<close> of a row with the key, or a new row.\<close>

lemma meta_method:
  assumes "SetMetaInt64 key v w = (Inr x, w')" and "list_all2 stores_meta sts (t_meta (w_db w))"
  shows "\<exists>sts'. upsert_table ''key'' [''value'', ''updated_at''] no_columns (SetMetaInt64_sql key v) sts = Some sts' \<and>
    list_all2 stores_meta sts' (t_meta (w_db w'))"
proof -
  let ?new = "assign [''key'', ''value'', ''updated_at''] [CellText key, CellText (itoa v), CellInt v] no_columns"
  have new: "insert_row no_columns (SetMetaInt64_sql key v) = Some ?new"
    by (simp add: insert_row_def SetMetaInt64_sql_def)
  have keyed: "equals ''key'' st (?new ''key'') \<longleftrightarrow> (case m of (k, _, _) \<Rightarrow> k = key)" if "stores_meta st m" for st m
    using that by (auto simp: equals_def stores_meta_def assign_def)
  have found: "list_ex (\<lambda>st. equals ''key'' st (?new ''key'')) sts \<longleftrightarrow> list_ex (\<lambda>(k, _, _). k = key) (t_meta (w_db w))"
    using list_ex_stored [OF assms(2) keyed] .
  have written: "list_all2 stores_meta
      (map (\<lambda>st. if equals ''key'' st (?new ''key'') then assign [''value'', ''updated_at''] (map ?new [''value'', ''updated_at'']) st
        else st) sts)
      (update_where (\<lambda>(k, _, _). k = key) (\<lambda>_. (key, itoa v, v)) (t_meta (w_db w)))"
    using assms(2)
    by (induction rule: list_all2_induct) (auto simp: update_where_def equals_def stores_meta_def assign_def)
  have "w_db w' = upsert_meta key (itoa v) v (w_db w)"
    using assms(1) unfolding SetMetaInt64_def by (rule exec_tx_Inr)
  moreover have "stores_meta ?new (key, itoa v, v)" by (simp add: stores_meta_def assign_def)
  ultimately show ?thesis
    using found written assms(2) by (simp add: upsert_table_def new upsert_meta_def list_all2_appendI)
qed

section \<open>Reading back what was inserted\<close>

text \<open>The row of \<open>SELECT CAST(value AS BIGINT)\<close> in \<open>GetMetaInt64\<close>, and its scanner.\<close>

fun cast_row :: "driver \<Rightarrow> string \<Rightarrow> cell \<Rightarrow> string + row" where
  "cast_row driver label (CellText s) = (case cast_bigint driver s of Inl t \<Rightarrow> Inl t | Inr n \<Rightarrow> Inr [(label, CellInt n)])"
| "cast_row driver label c = Inr [(label, c)]"

definition scanMetaInt64 :: "row \<Rightarrow> error + int" where
  "scanMetaInt64 = Scan 1 (dest int64_dest)"

lemma marker_read:
  assumes "in_i64 v"
  shows "\<exists>st cells. insert_row no_columns (SetMetaInt64_sql key v) = Some st \<and> st ''key'' = CellText key \<and>
    cast_row driver label (st ''value'') = Inr cells \<and> scanMetaInt64 cells = Inr v"
  using assms parse_itoa [of v]
  by (simp add: insert_row_def SetMetaInt64_sql_def assign_def cast_bigint_def scanMetaInt64_def Scan_def dest_def)

lemma event_read:
  assumes "stores_event st \<lparr>ev_id = i, ev_rule_id = ruleID, ev_type = eventType, ev_message = message, ev_created_at = now\<rparr>"
    and "stores_rule rst r" and "rr_inbound_id r = Some b" and "rel_option stores_scope sst s"
  shows "scanEventRows (event_row label l1 l2 st (Some rst) sst) =
    Inr \<lparr>vd_id = i, vd_rule_id = ruleID, vd_policy_id = None, vd_type = event_type_name eventType, vd_message = message,
      vd_created_at = now, vd_email = rr_email r,
      vd_inbound_id = Some (case s of None \<Rightarrow> b | Some scope \<Rightarrow> (case sc_inbound_id scope of None \<Rightarrow> b | Some c \<Rightarrow> c))\<rparr>"
proof -
  have row: "select label event_columns st =
      [(label (Col ''id''), CellInt i), (label (Col ''rule_id''), int_cell ruleID),
       (label (Col ''event_type''), CellText (event_type_name eventType)),
       (label (Coalesce ''message'' (CellText [])), CellText message), (label (Col ''created_at''), CellInt now)]"
    using assms(1) by (simp add: select_def event_columns_def stores_event_def del: event_type_name.simps)
  have scope_cell: "joined_cell sst ''inbound_id'' = int_cell (case s of None \<Rightarrow> None | Some scope \<Rightarrow> sc_inbound_id scope)"
    using assms(4) by cases (simp_all add: joined_cell_def stores_scope_def)
  have rule_cells: "joined_cell (Some rst) ''email'' = CellText (rr_email r)" "joined_cell (Some rst) ''inbound_id'' = CellInt b"
    using assms(2,3) by (simp_all add: joined_cell_def stores_rule_def)
  show ?thesis
    by (auto simp: scanEventRows_def Scan_def event_row_def row rule_cells scope_cell nullablePtr_def nullableInt64_def
      simp del: event_type_name.simps split: option.split)
qed

abbreviation created_row :: "int \<Rightarrow> Rule \<Rightarrow> RuleRow" where
  "created_row i rule \<equiv> \<lparr>rr_id = i, rr_name = nullif_empty (r_name rule), rr_inbound_id = Some (r_inbound_id rule),
     rr_email = r_email rule, rr_factor_ppm = r_factor_ppm rule, rr_state = r_state rule,
     rr_created_at = r_created_at rule, rr_updated_at = r_updated_at rule, rr_activated_at = r_activated_at rule,
     rr_paused_at = None, rr_disabled_at = None\<rparr>"

lemma fresh_rule_data:
  "rule_data (scanRule (created_row i rule)) =
    rule_data (rule\<lparr>r_id := i, r_paused_at := None, r_disabled_at := None, r_client_count := 0,
      r_effective_client_count := 0, r_scope := None\<rparr>)"
  by (simp add: rule_data_def scanRule_def nullif_empty_def)

text \<open>What is stored by each insert is read by its scanner.\<close>

lemma stored_read:
  "\<exists>st. insert_row no_columns (CreateRuleClient_sql rc) = Some st \<and>
     scanRuleClient (OneRow (select label rule_client_columns st)) = Inr (rc\<lparr>rc_rem_up := 0, rc_rem_down := 0, rc_missing_at := None\<rparr>)"
  "\<exists>st. insert_row (generated_id i) (InsertExclude_sql ex note) = Some st \<and>
     scanExclude (OneRow (select label exclude_columns st)) =
       Inr (exclude_data (ex\<lparr>ep_id := i, ep_state := StateActive, ep_note := note, ep_disabled_at := None\<rparr>))"
  "\<exists>st. insert_row (generated_id i) (InsertOverride_sql ov note) = Some st \<and>
     scanOverride (OneRow (select label override_columns st)) =
       Inr (override_data (ov\<lparr>op_id := i, op_state := StateActive, op_note := note, op_disabled_at := None\<rparr>))"
  "stores_rule_client source original \<Longrightarrow> \<exists>st. insert_row no_columns (CopyRuleClient_sql j source) = Some st \<and>
     scanRuleClient (OneRow (select label rule_client_columns st)) = Inr (original\<lparr>rc_rule_id := j\<rparr>)"
  using insert_statements(3) [of rc] insert_statements(4) [of i ex "note"] insert_statements(5) [of i ov "note"]
    copy_statement [of source original j] rule_client_rows.read_one exclude_rows.read_one override_rows.read_one
  by (fastforce simp: inserts_def scanRuleClient_def scanRuleClientRows_def scanExclude_def scanOverride_def)+

lemma rule_read:
  assumes "stores_rule st (created_row i rule)"
  shows "scanRuleRow (OneRow (select label rule_columns st)) = Inr (rule_data (rule\<lparr>r_id := i, r_paused_at := None,
      r_disabled_at := None, r_client_count := 0, r_effective_client_count := 0, r_scope := None\<rparr>))"
    and "stores_scope sst scope \<Longrightarrow>
      scanRuleRowsWithScope (select label rule_columns st @ select_joined label scope_columns (Some sst)) =
        Inr (rule_data (rule\<lparr>r_id := i, r_paused_at := None, r_disabled_at := None, r_client_count := 0,
          r_effective_client_count := 0, r_scope := Some scope\<rparr>))"
proof -
  show "scanRuleRow (OneRow (select label rule_columns st)) = Inr (rule_data (rule\<lparr>r_id := i, r_paused_at := None,
      r_disabled_at := None, r_client_count := 0, r_effective_client_count := 0, r_scope := None\<rparr>))"
    using rule_rows.read_one [OF assms] by (simp add: scanRuleRow_def scanRuleRows_def fresh_rule_data)
  have with_scope: "rule_data (scanRuleWithScope (created_row i rule) s) = (rule_data (scanRule (created_row i rule)))\<lparr>rd_scope := s\<rparr>"
    for s by (simp add: rule_data_def scanRuleWithScope_def)
  assume "stores_scope sst scope"
  then show "scanRuleRowsWithScope (select label rule_columns st @ select_joined label scope_columns (Some sst)) =
      Inr (rule_data (rule\<lparr>r_id := i, r_paused_at := None, r_disabled_at := None, r_client_count := 0,
        r_effective_client_count := 0, r_scope := Some scope\<rparr>))"
    using scanned_with_scope [OF assms, of "Some sst" "Some scope" label]
    unfolding with_scope unfolding fresh_rule_data by (simp add: rule_data_def)
qed

lemma created_read:
  "\<exists>st. insert_row (generated_id i) (CreateRule_sql rule) = Some st \<and>
     scanRuleRow (OneRow (select label rule_columns st)) = Inr (rule_data (rule\<lparr>r_id := i, r_paused_at := None,
       r_disabled_at := None, r_client_count := 0, r_effective_client_count := 0, r_scope := None\<rparr>))"
  "\<exists>st sst. insert_row (generated_id i) (CreateRule_sql rule) = Some st \<and>
     insert_row no_columns (CreateScope_sql scope) = Some sst \<and>
     scanRuleRowsWithScope (select label rule_columns st @ select_joined label scope_columns (Some sst)) =
       Inr (rule_data (rule\<lparr>r_id := i, r_paused_at := None, r_disabled_at := None, r_client_count := 0,
         r_effective_client_count := 0, r_scope := Some scope\<rparr>))"
  using insert_statements(1) [of i rule] insert_statements(2) [of scope] rule_read unfolding inserts_def by blast+

lemma event_read_back:
  "\<exists>est st sst. insert_row (generated_id k) (AddEvent_sql ruleID eventType message now) = Some est \<and>
     insert_row (generated_id i) (CreateRule_sql rule) = Some st \<and>
     insert_row no_columns (CreateScope_sql scope) = Some sst \<and>
     scanEventRows (event_row label l1 l2 est (Some st) (Some sst)) =
       Inr \<lparr>vd_id = k, vd_rule_id = ruleID, vd_policy_id = None, vd_type = event_type_name eventType,
         vd_message = message, vd_created_at = now, vd_email = r_email rule,
         vd_inbound_id = Some (case sc_inbound_id scope of None \<Rightarrow> r_inbound_id rule | Some b \<Rightarrow> b)\<rparr>"
proof -
  obtain est st sst where est: "insert_row (generated_id k) (AddEvent_sql ruleID eventType message now) = Some est"
      "stores_event est \<lparr>ev_id = k, ev_rule_id = ruleID, ev_type = eventType, ev_message = message, ev_created_at = now\<rparr>"
    and st: "insert_row (generated_id i) (CreateRule_sql rule) = Some st" "stores_rule st (created_row i rule)"
    and sst: "insert_row no_columns (CreateScope_sql scope) = Some sst" "stores_scope sst scope"
    using insert_statements(1) [of i rule] insert_statements(2) [of scope]
      insert_statements(6) [of k ruleID eventType message now] unfolding inserts_def by blast
  from event_read [OF est(2) st(2), of "r_inbound_id rule" "Some sst" "Some scope"] sst(2) est(1) st(1) sst(1)
  show ?thesis by (simp del: event_type_name.simps)
qed


text \<open>A rule client on record, copied to rule 2.\<close>

definition enrolled_client :: RuleClient where
  "enrolled_client = \<lparr>rc_rule_id = 1, rc_traffic_id = 7, rc_inbound_id = 3, rc_email = ''a@b'', rc_last_up = 10, rc_last_down = 20,
     rc_rem_up = 0, rc_rem_down = 0, rc_missing_at = None, rc_updated_at = 100\<rparr>"


end
