(* ===== verification/XF_Writers.thy ===== *)
theory XF_Writers
  imports XF_Statements
begin

text \<open>
  Every method of \<open>internal/store\<close> that writes, against the statements it sends: methods with one statement, methods
  that choose between statements by what they find (\<open>UpsertExclude\<close>, \<open>RelinkOverrideRow\<close>), statements with a subquery,
  and loops of statements (the baselines of a rule, the pruning of \<open>cleanup.go\<close>).
\<close>

section \<open>Lists of statements\<close>

datatype sql_statement =
  Updating Update | Inserting stored Insert | Upserting string "string list" stored Insert | Deleting Delete

fun run_statement :: "sql_statement \<Rightarrow> stored list \<Rightarrow> stored list option" where
  "run_statement (Updating u) sts = update_table u sts"
| "run_statement (Inserting generated ins) sts = map_option (\<lambda>st. sts @ [st]) (insert_row generated ins)"
| "run_statement (Upserting key columns generated ins) sts = upsert_table key columns generated ins sts"
| "run_statement (Deleting del) sts = delete_table del sts"

fun run_statements :: "sql_statement list \<Rightarrow> stored list \<Rightarrow> stored list option" where
  "run_statements [] sts = Some sts"
| "run_statements (s # ss) sts = Option.bind (run_statement s sts) (run_statements ss)"

text \<open>
  A method that succeeds has run these statements, given the world it started in and the value it returns: on stored
  rows that hold the table they are accepted one after the other and leave rows that hold the table the method leaves.
\<close>

definition performs ::
  "(stored \<Rightarrow> 'r \<Rightarrow> bool) \<Rightarrow> (Database \<Rightarrow> 'r list) \<Rightarrow> (World \<Rightarrow> 'a \<Rightarrow> sql_statement list) \<Rightarrow> 'a tx \<Rightarrow> bool" where
  "performs stores table stmts op \<longleftrightarrow>
    (\<forall>w x w' sts. op w = (Inr x, w') \<longrightarrow> list_all2 stores sts (table (w_db w)) \<longrightarrow>
      (\<exists>sts'. run_statements (stmts w x) sts = Some sts' \<and> list_all2 stores sts' (table (w_db w'))))"

lemma performsI:
  assumes "\<And>w x w' sts. op w = (Inr x, w') \<Longrightarrow> list_all2 stores sts (table (w_db w)) \<Longrightarrow>
      \<exists>sts'. run_statements (stmts w x) sts = Some sts' \<and> list_all2 stores sts' (table (w_db w'))"
  shows "performs stores table stmts op"
  using assms by (simp add: performs_def)

lemma performsD:
  "performs stores table stmts op \<Longrightarrow> op w = (Inr x, w') \<Longrightarrow> list_all2 stores sts (table (w_db w)) \<Longrightarrow>
    \<exists>sts'. run_statements (stmts w x) sts = Some sts' \<and> list_all2 stores sts' (table (w_db w'))"
  by (simp add: performs_def)

lemma run_append: "run_statements (ss @ ts) sts = Option.bind (run_statements ss sts) (run_statements ts)"
  by (induction ss arbitrary: sts) (simp_all add: bind_assoc split: Option.bind_split)

lemma performs_one:
  "executes stores table u op \<Longrightarrow> performs stores table (\<lambda>_ _. [Updating u]) op"
  "removes stores table del op \<Longrightarrow> performs stores table (\<lambda>_ _. [Deleting del]) op"
  "stores_new stores table generated ins op \<Longrightarrow> performs stores table (\<lambda>_ x. [Inserting (generated x) ins]) op"
  by (fastforce simp: performs_def executes_def removes_def stores_new_def)+

lemma performs_nothing: "keeps table op \<Longrightarrow> performs stores table (\<lambda>_ _. []) op"
  by (auto simp: performs_def dest: keepsD)

lemma performs_then:
  assumes "performs stores table (\<lambda>_ _. ss) m" and "\<And>x. performs stores table (\<lambda>_ _. ts) (f x)"
  shows "performs stores table (\<lambda>_ _. ss @ ts) (bind_tx m f)"
proof (rule performsI)
  fix w y w' sts
  assume "bind_tx m f w = (Inr y, w')" and sts: "list_all2 stores sts (table (w_db w))"
  then obtain x w1 where m: "m w = (Inr x, w1)" and f: "f x w1 = (Inr y, w')" by (auto simp: bind_tx_Inr)
  from performsD [OF assms(1) m sts] obtain sts1
    where "run_statements ss sts = Some sts1" "list_all2 stores sts1 (table (w_db w1))" by blast
  with performsD [OF assms(2) f]
  show "\<exists>sts'. run_statements (ss @ ts) sts = Some sts' \<and> list_all2 stores sts' (table (w_db w'))"
    by (auto simp: run_append)
qed

lemma performs_after:
  assumes "performs stores table (\<lambda>_ _. ss) m" and "\<And>x. keeps table (f x)"
  shows "performs stores table (\<lambda>_ _. ss) (bind_tx m f)"
  using performs_then [OF assms(1) performs_nothing [OF assms(2)]] by simp

lemma performs_before:
  assumes "keeps table m" and "\<And>x. performs stores table (\<lambda>_ _. ss) (f x)"
  shows "performs stores table (\<lambda>_ _. ss) (bind_tx m f)"
  using performs_then [OF performs_nothing [OF assms(1)] assms(2)] by simp

lemma performs_for_each:
  assumes "\<And>a acc. performs stores table (\<lambda>_ _. [s a]) (f a acc)"
  shows "performs stores table (\<lambda>_ _. map s xs) (for_each xs f acc)"
proof (induction xs arbitrary: acc)
  case Nil
  show ?case by (simp add: performs_def)
next
  case (Cons a xs)
  show ?case using performs_then [OF assms Cons.IH, of a acc] by simp
qed

text \<open>A method that reads first runs what it decides on, in the tables it has read.\<close>

definition reads_tables :: "(World \<Rightarrow> 'a) \<Rightarrow> 'a tx \<Rightarrow> bool" where
  "reads_tables g m \<longleftrightarrow> (\<forall>w x w'. m w = (Inr x, w') \<longrightarrow> x = g w \<and> w_db w' = w_db w)"

lemma performs_read:
  assumes "reads_tables g m" and "\<And>r. performs stores table (\<lambda>_ x. S r x) (f r)"
  shows "performs stores table (\<lambda>w x. S (g w) x) (bind_tx m f)"
proof (rule performsI)
  fix w y w' sts
  assume "bind_tx m f w = (Inr y, w')" and sts: "list_all2 stores sts (table (w_db w))"
  then obtain w1 where f: "f (g w) w1 = (Inr y, w')" and "w_db w1 = w_db w"
    using assms(1) by (auto simp: bind_tx_Inr reads_tables_def)
  with sts have "list_all2 stores sts (table (w_db w1))" by simp
  from performsD [OF assms(2) f this]
  show "\<exists>sts'. run_statements (S (g w) y) sts = Some sts' \<and> list_all2 stores sts' (table (w_db w'))" .
qed

lemma reading:
  "reads_tables (\<lambda>w. q (w_db w)) (QueryContext q)"
  "reads_tables (\<lambda>w. q (w_db w)) (QueryRowContext q)"
  by (auto simp: reads_tables_def QueryContext_def QueryRowContext_def dest: statement_Inr)

text \<open>The stages of a lookup: a row, or the next stage when there is none.\<close>

lemma found_row: "bind_tx (QueryRowContext q) found w = (Inr x, w') \<Longrightarrow> q (w_db w) = Some x \<and> w_db w' = w_db w"
  unfolding bind_tx_Inr by (elim exE conjE, drule query_row_Inr) (simp add: found_run split: option.splits)

lemma reads_stage:
  assumes "reads_tables (\<lambda>w. h (w_db w)) k"
  shows "reads_tables (\<lambda>w. case q (w_db w) of Some x \<Rightarrow> Some x | None \<Rightarrow> h (w_db w))
    (attempt (bind_tx (QueryRowContext q) found) (\<lambda>r. case r of Inr x \<Rightarrow> return_tx (Some x)
      | Inl err \<Rightarrow> if \<not> errors_is err ErrNotFound then fail_tx err else k))"
  unfolding reads_tables_def
proof (intro allI impI)
  fix w y w'
  assume "attempt (bind_tx (QueryRowContext q) found) (\<lambda>r. case r of Inr x \<Rightarrow> return_tx (Some x)
      | Inl err \<Rightarrow> if \<not> errors_is err ErrNotFound then fail_tx err else k) w = (Inr y, w')"
  then obtain r w1 where row: "bind_tx (QueryRowContext q) found w = (r, w1)"
    and rest: "(case r of Inr x \<Rightarrow> return_tx (Some x)
      | Inl err \<Rightarrow> if \<not> errors_is err ErrNotFound then fail_tx err else k) w1 = (Inr y, w')"
    by (auto simp: attempt_result)
  show "y = (case q (w_db w) of Some x \<Rightarrow> Some x | None \<Rightarrow> h (w_db w)) \<and> w_db w' = w_db w"
  proof (cases r)
    case (Inr x)
    with found_row [of q w x w1] row rest show ?thesis by (auto split: option.split)
  next
    case (Inl e)
    with rest have err: "errors_is e ErrNotFound" and k: "k w1 = (Inr y, w')" by (auto split: if_splits)
    from find_row_misses [OF row [unfolded Inl] err] have "q (w_db w) = None" and db: "w_db w1 = w_db w" by simp_all
    moreover from k assms have "y = h (w_db w1) \<and> w_db w' = w_db w1" by (simp add: reads_tables_def)
    ultimately show ?thesis by simp
  qed
qed

lemma if_negated: "(if \<not> b then x else y) = (if b then y else x)" by simp

lemma reads_last_stage:
  "reads_tables (\<lambda>w. q (w_db w))
    (attempt (bind_tx (QueryRowContext q) found) (\<lambda>r. case r of Inr x \<Rightarrow> return_tx (Some x)
      | Inl err \<Rightarrow> if errors_is err ErrNotFound then return_tx None else fail_tx err))"
proof -
  have "reads_tables (\<lambda>w. None) (return_tx None)" by (simp add: reads_tables_def)
  moreover have "(case y of None \<Rightarrow> None | Some x \<Rightarrow> Some x) = y" for y :: "'a option" by (cases y) simp_all
  ultimately show ?thesis using reads_stage [of "\<lambda>_. None" "return_tx None" q] unfolding if_negated by simp
qed

section \<open>Policies\<close>

text \<open>The row that an upsert overwrites: active for the client, else of the client, else of the e-mail; the newest.\<close>

definition exclude_for_upsert :: "int \<Rightarrow> string \<Rightarrow> Database \<Rightarrow> ExcludePolicy option" where
  "exclude_for_upsert trafficID email d =
    (case newest ep_id (\<lambda>p. ep_traffic_id p = trafficID \<and> ep_email p = email \<and> ep_state p = StateActive) (t_excludes d) of
       Some p \<Rightarrow> Some p
     | None \<Rightarrow>
         (case newest ep_id (\<lambda>p. ep_traffic_id p = trafficID \<and> ep_email p = email) (t_excludes d) of
            Some p \<Rightarrow> Some p
          | None \<Rightarrow> newest ep_id (\<lambda>p. ep_email p = email) (t_excludes d)))"

definition UpsertExclude_sql :: "ExcludePolicy \<Rightarrow> World \<Rightarrow> ExcludePolicy \<Rightarrow> sql_statement list" where
  "UpsertExclude_sql policy w result =
    (let note = trim_space (ep_note policy) in
     case exclude_for_upsert (ep_traffic_id policy) (ep_email policy) (w_db w) of
       None \<Rightarrow> [Inserting (generated_id (ep_id result)) (InsertExclude_sql policy note)]
     | Some existing \<Rightarrow> [Updating (UpdateExclude_sql policy note (ep_id existing))])"

definition RelinkExcludeRow_sql :: "ExcludePolicy \<Rightarrow> ClientTraffic \<Rightarrow> int \<Rightarrow> World \<Rightarrow> unit \<Rightarrow> sql_statement list" where
  "RelinkExcludeRow_sql policy current now w result =
    (case newest ep_id (\<lambda>p. ep_traffic_id p = ct_id current \<and> ep_inbound_id p = ct_inbound_id current \<and>
        ep_email p = ep_email policy \<and> ep_id p \<noteq> ep_id policy) (t_excludes (w_db w)) of
       None \<Rightarrow> [Updating (MoveExclude_sql policy current now)]
     | Some occupant \<Rightarrow>
         (if ep_state occupant \<noteq> StateActive then [Updating (ReactivateExclude_sql policy (ep_id occupant) now)] else []) @
         [Updating (DisableExclude_sql (ep_id policy) now)])"

definition override_for_upsert :: "int \<Rightarrow> string \<Rightarrow> Database \<Rightarrow> OverridePolicy option" where
  "override_for_upsert trafficID email d =
    (case newest op_id (\<lambda>p. op_traffic_id p = trafficID \<and> op_email p = email \<and> op_state p = StateActive) (t_overrides d) of
       Some p \<Rightarrow> Some p
     | None \<Rightarrow>
         (case newest op_id (\<lambda>p. op_traffic_id p = trafficID \<and> op_email p = email) (t_overrides d) of
            Some p \<Rightarrow> Some p
          | None \<Rightarrow> newest op_id (\<lambda>p. op_email p = email) (t_overrides d)))"

definition UpsertOverride_sql :: "OverridePolicy \<Rightarrow> World \<Rightarrow> OverridePolicy \<times> bool \<Rightarrow> sql_statement list" where
  "UpsertOverride_sql policy w result =
    (let note = trim_space (op_note policy) in
     case override_for_upsert (op_traffic_id policy) (op_email policy) (w_db w) of
       None \<Rightarrow> [Inserting (generated_id (op_id (fst result))) (InsertOverride_sql policy note)]
     | Some existing \<Rightarrow> [Updating (UpdateOverride_sql policy note (op_id existing))])"

definition RelinkOverrideRow_sql :: "OverridePolicy \<Rightarrow> ClientTraffic \<Rightarrow> int \<Rightarrow> World \<Rightarrow> unit \<Rightarrow> sql_statement list" where
  "RelinkOverrideRow_sql policy current now w result =
    (case newest op_id (\<lambda>p. op_traffic_id p = ct_id current \<and> op_inbound_id p = ct_inbound_id current \<and>
        op_email p = op_email policy \<and> op_id p \<noteq> op_id policy) (t_overrides (w_db w)) of
       None \<Rightarrow> [Updating (MoveOverride_sql policy current now)]
     | Some occupant \<Rightarrow>
         (if op_state occupant \<noteq> StateActive then [Updating (ReactivateOverride_sql policy (op_id occupant) now)] else []) @
         [Updating (DisableOverride_sql (op_id policy) now)])"

lemma policy_lookups:
  "reads_tables (\<lambda>w. exclude_for_upsert t e (w_db w)) (findExcludeForUpsert t e)"
  "reads_tables (\<lambda>w. override_for_upsert t e (w_db w)) (findOverrideForUpsert t e)"
  unfolding findExcludeForUpsert_def exclude_for_upsert_def FindActiveExcludeForClient_def FindExcludeForClient_def
    FindExcludeByEmail_def find_exclude_def findOverrideForUpsert_def override_for_upsert_def
    FindActiveOverrideForClient_def FindOverrideForClient_def FindOverrideByEmail_def find_override_def
  by (intro reads_stage reads_last_stage)+

lemma policy_updates:
  "implements stores_exclude u (\<lambda>p. ep_id p = i) f \<Longrightarrow> performs stores_exclude t_excludes (\<lambda>_ _. [Updating u]) (update_exclude i f)"
  "implements stores_override u (\<lambda>p. op_id p = i) g \<Longrightarrow> performs stores_override t_overrides (\<lambda>_ _. [Updating u]) (update_override i g)"
  by (rule performs_one, erule executesI, erule written_policies)+

lemma first_of_filter: "first_of (filter p xs) = Some x \<Longrightarrow> p x"
  by (induction xs) (auto simp: first_of_def split: if_splits)

lemma read_by_id:
  "FindExcludeByID i w = (Inr p, w') \<Longrightarrow> ep_id p = i \<and> w_db w' = w_db w"
  "FindOverrideByID i w = (Inr q, w') \<Longrightarrow> op_id q = i \<and> w_db w' = w_db w"
  unfolding FindExcludeByID_def FindOverrideByID_def by (drule found_row, auto dest: first_of_filter)+

lemma policy_upserts:
  "performs stores_exclude t_excludes (UpsertExclude_sql ex) (UpsertExclude ex)"
  "performs stores_override t_overrides (UpsertOverride_sql ov) (UpsertOverride ov)"
proof -
  have "performs stores_exclude t_excludes (\<lambda>_ x. [Inserting (generated_id (ep_id x)) (InsertExclude_sql ex n)])
      (bind_tx (insertReturningID (insert_exclude (ex\<lparr>ep_state := StateActive, ep_note := n, ep_disabled_at := None\<rparr>)))
        FindExcludeByID)" for n
    by (rule performsI) (auto simp: bind_tx_Inr dest!: read_by_id
      dest: performsD [OF performs_one(3) [OF insert_policy_methods(1)]])
  then show "performs stores_exclude t_excludes (UpsertExclude_sql ex) (UpsertExclude ex)"
    unfolding UpsertExclude_def UpsertExclude_sql_def Let_def
    by (intro performs_read [OF policy_lookups(1)])
      (auto split: option.split intro!: performs_after policy_updates exclude_statements intro: keeps_intro)
next
  have "performs stores_override t_overrides (\<lambda>_ x. [Inserting (generated_id (op_id (fst x))) (InsertOverride_sql ov n)])
      (bind_tx (insertReturningID (insert_override (ov\<lparr>op_state := StateActive, op_note := n, op_disabled_at := None\<rparr>)))
        (\<lambda>newID. bind_tx (FindOverrideByID newID) (\<lambda>created. return_tx (created, False))))" for n
    by (rule performsI) (auto simp: bind_tx_Inr dest!: read_by_id
      dest: performsD [OF performs_one(3) [OF insert_policy_methods(2)]])
  then show "performs stores_override t_overrides (UpsertOverride_sql ov) (UpsertOverride ov)"
    unfolding UpsertOverride_def UpsertOverride_sql_def Let_def
    by (intro performs_read [OF policy_lookups(2)])
      (auto simp del: return_tx_run split: option.split intro!: performs_after policy_updates override_statements
        intro: keeps_intro)
qed

lemma policy_relinks:
  "performs stores_exclude t_excludes (RelinkExcludeRow_sql ex current now) (RelinkExcludeRow ex current now)"
  "performs stores_override t_overrides (RelinkOverrideRow_sql ov current now) (RelinkOverrideRow ov current now)"
proof -
  note steps = performs_then policy_updates exclude_statements override_statements performs_one(1) policy_methods
  have skip: "performs stores_exclude t_excludes (\<lambda>_ _. []) (return_tx ())"
    "performs stores_override t_overrides (\<lambda>_ _. []) (return_tx ())" by (simp_all add: performs_def)
  show "performs stores_exclude t_excludes (RelinkExcludeRow_sql ex current now) (RelinkExcludeRow ex current now)"
    unfolding RelinkExcludeRow_def RelinkExcludeRow_sql_def
    by (rule performs_read [OF reading(2)], rename_tac r, case_tac r)
      (simp_all only: option.case, intro steps, intro steps, simp del: return_tx_run split: if_split, intro conjI impI skip steps)
  show "performs stores_override t_overrides (RelinkOverrideRow_sql ov current now) (RelinkOverrideRow ov current now)"
    unfolding RelinkOverrideRow_def RelinkOverrideRow_sql_def
    by (rule performs_read [OF reading(2)], rename_tac r, case_tac r)
      (simp_all only: option.case, intro steps, intro steps, simp del: return_tx_run split: if_split, intro conjI impI skip steps)
qed

section \<open>Rule clients\<close>

text \<open>The panel row that a refresh or a relink takes its counters from.\<close>

definition traffic_by_id :: "int \<Rightarrow> World \<Rightarrow> ClientTraffic option" where
  "traffic_by_id trafficID w =
    first_of (map (scan_client (w_driver w)) (filter (\<lambda>t. tr_id t = trafficID) (t_client_traffics (w_db w))))"

definition traffic_by_email :: "string \<Rightarrow> World \<Rightarrow> ClientTraffic option" where
  "traffic_by_email email w = first_of (map (scan_client (w_driver w))
     (sort_key tr_id (filter (\<lambda>t. tr_email t = email) (t_client_traffics (w_db w)))))"

text \<open>Statements with a subquery take the stored rows it reads.\<close>

definition RefreshActiveRuleClientBaselinesForTraffic_sql ::
  "int \<Rightarrow> string \<Rightarrow> int \<Rightarrow> stored list \<Rightarrow> World \<Rightarrow> sql_statement list" where
  "RefreshActiveRuleClientBaselinesForTraffic_sql trafficID email now rules w =
    (case traffic_by_id trafficID w of
       None \<Rightarrow> []
     | Some current \<Rightarrow> [Updating (RefreshActiveRuleClientBaselines_sql rules current trafficID email now)])"

definition RelinkRuleClientByEmail_sql :: "int \<Rightarrow> int \<Rightarrow> int \<Rightarrow> stored list \<Rightarrow> World \<Rightarrow> sql_statement list" where
  "RelinkRuleClientByEmail_sql ruleID trafficID now clients w =
    (case Option.bind (first_of (filter (is_rc ruleID trafficID) (t_rule_clients (w_db w)))) (\<lambda>rc. traffic_by_email (rc_email rc) w) of
       None \<Rightarrow> []
     | Some current \<Rightarrow> [Updating (RelinkRuleClient_sql clients ruleID trafficID current now)])"

definition performs_reading ::
  "(stored \<Rightarrow> 's \<Rightarrow> bool) \<Rightarrow> (Database \<Rightarrow> 's list) \<Rightarrow> (stored \<Rightarrow> 'r \<Rightarrow> bool) \<Rightarrow> (Database \<Rightarrow> 'r list) \<Rightarrow>
    (stored list \<Rightarrow> World \<Rightarrow> sql_statement list) \<Rightarrow> 'a tx \<Rightarrow> bool" where
  "performs_reading stores' table' stores table stmts op \<longleftrightarrow>
    (\<forall>w x w' others sts. op w = (Inr x, w') \<longrightarrow> list_all2 stores' others (table' (w_db w)) \<longrightarrow>
      list_all2 stores sts (table (w_db w)) \<longrightarrow>
      (\<exists>sts'. run_statements (stmts others w) sts = Some sts' \<and> list_all2 stores sts' (table (w_db w'))))"

lemma panel_rows:
  "ClientTrafficByID t w = (Inr c, w') \<Longrightarrow> traffic_by_id t w = Some c \<and> w_db w' = w_db w"
  "ClientTrafficByEmail e w = (Inr c, w') \<Longrightarrow> traffic_by_email e w = Some c \<and> w_db w' = w_db w"
  unfolding ClientTrafficByID_def clientTrafficByID_def ClientTrafficByEmail_def with_driver_run
  by (drule found_row, simp add: traffic_by_id_def traffic_by_email_def)+

lemma rule_client_row:
  "RuleClient_tx i t w = (Inr rc, w') \<Longrightarrow> first_of (filter (is_rc i t) (t_rule_clients (w_db w))) = Some rc \<and> w_db w' = w_db w"
  unfolding RuleClient_tx_def by (drule found_row) simp

lemma refresh_active_method:
  "performs_reading stores_rule t_rules stores_rule_client t_rule_clients
     (RefreshActiveRuleClientBaselinesForTraffic_sql t email now) (RefreshActiveRuleClientBaselinesForTraffic t email now)"
  unfolding performs_reading_def
proof (intro allI impI)
  fix w x w' rules sts
  assume run: "RefreshActiveRuleClientBaselinesForTraffic t email now w = (Inr x, w')"
    and rules: "list_all2 stores_rule rules (t_rules (w_db w))"
    and sts: "list_all2 stores_rule_client sts (t_rule_clients (w_db w))"
  let ?p = "\<lambda>rc. rc_traffic_id rc = t \<and> rc_email rc = email \<and>
    list_ex (\<lambda>r. rr_id r = rc_rule_id rc \<and> rr_state r = StateActive) (t_rules (w_db w))"
  obtain c where c: "traffic_by_id t w = Some c"
    and db: "t_rule_clients (w_db w') = update_where ?p (refresh_row now c) (t_rule_clients (w_db w))"
    using run unfolding RefreshActiveRuleClientBaselinesForTraffic_def
    by (auto simp: bind_tx_Inr Let_def split: if_splits dest!: panel_rows exec_context_Inr)
  from implemented_table [OF refresh_active_statement [OF rules] sts, of c t email now] db
  show "\<exists>sts'. run_statements (RefreshActiveRuleClientBaselinesForTraffic_sql t email now rules w) sts = Some sts' \<and>
      list_all2 stores_rule_client sts' (t_rule_clients (w_db w'))"
    by (auto simp: RefreshActiveRuleClientBaselinesForTraffic_sql_def c)
qed

lemma relink_method:
  "performs_reading stores_rule_client t_rule_clients stores_rule_client t_rule_clients
     (RelinkRuleClientByEmail_sql i t now) (RelinkRuleClientByEmail i t now)"
  unfolding performs_reading_def
proof (intro allI impI)
  fix w x w' clients sts
  assume run: "RelinkRuleClientByEmail i t now w = (Inr x, w')"
    and clients: "list_all2 stores_rule_client clients (t_rule_clients (w_db w))"
    and sts: "list_all2 stores_rule_client sts (t_rule_clients (w_db w))"
  obtain rc c where rc: "first_of (filter (is_rc i t) (t_rule_clients (w_db w))) = Some rc"
    and c: "traffic_by_email (rc_email rc) w = Some c"
    and db: "t_rule_clients (w_db w') =
      update_where (\<lambda>old. is_rc i t old \<and> \<not> list_ex (is_rc i (ct_id c)) (t_rule_clients (w_db w)))
        (\<lambda>old. (refresh_row now c old)\<lparr>rc_traffic_id := ct_id c\<rparr>) (t_rule_clients (w_db w))"
  proof -
    from run obtain rc w1 c w2 n w3 where m: "RuleClient_tx i t w = (Inr rc, w1)"
      "ClientTrafficByEmail (rc_email rc) w1 = (Inr c, w2)"
      "ExecContext (\<lambda>d. let p = (\<lambda>old. is_rc i t old \<and> \<not> list_ex (is_rc i (ct_id c)) (t_rule_clients d))
        in Inr (length (filter p (t_rule_clients d)), d\<lparr>t_rule_clients := update_where p
             (\<lambda>old. (refresh_row now c old)\<lparr>rc_traffic_id := ct_id c\<rparr>) (t_rule_clients d)\<rparr>)) w2 = (Inr n, w3)"
      and rest: "(if n \<noteq> 1 then fail_tx ErrConflict else RuleClient_tx i (ct_id c)) w3 = (Inr x, w')"
      unfolding RelinkRuleClientByEmail_def by (auto simp only: bind_tx_Inr)
    have "w_driver w1 = w_driver w"
      using m(1) unfolding RuleClient_tx_def by (auto simp: bind_tx_def found_def QueryRowContext_def statement_def refuse_def Let_def
        split: if_splits list.splits option.splits sum.splits prod.splits)
    with rule_client_row [OF m(1)] panel_rows(2) [OF m(2)] have "traffic_by_email (rc_email rc) w = Some c"
      and same: "w_db w2 = w_db w" and row: "first_of (filter (is_rc i t) (t_rule_clients (w_db w))) = Some rc"
      by (simp_all add: traffic_by_email_def)
    moreover have "w_db w' = w_db w3" using rest by (auto split: if_splits dest: rule_client_row)
    ultimately show ?thesis using that [of rc c] exec_context_Inr [OF m(3) [unfolded Let_def]] by simp
  qed
  from implemented_table [OF relink_statement [OF clients] sts, of i t c now] db
  show "\<exists>sts'. run_statements (RelinkRuleClientByEmail_sql i t now clients w) sts = Some sts' \<and>
      list_all2 stores_rule_client sts' (t_rule_clients (w_db w'))"
    by (auto simp: RelinkRuleClientByEmail_sql_def rc c)
qed

text \<open>\<open>RefreshRuleClientBaselinesCount\<close> sends one update for each client it has read.\<close>

definition clients_of_rule :: "int \<Rightarrow> World \<Rightarrow> ClientTraffic list" where
  "clients_of_rule ruleID w =
    [scan_client (w_driver w) ct. rc \<leftarrow> t_rule_clients (w_db w), ct \<leftarrow> t_client_traffics (w_db w),
      tr_id ct = rc_traffic_id rc \<and> tr_email ct = rc_email rc \<and> rc_rule_id rc = ruleID]"

definition RefreshRuleClientBaselines_sql :: "int \<Rightarrow> int \<Rightarrow> World \<Rightarrow> 'a \<Rightarrow> sql_statement list" where
  "RefreshRuleClientBaselines_sql ruleID now w result =
    map (\<lambda>c. Updating (RefreshRuleClientBaseline_sql ruleID c now)) (clients_of_rule ruleID w)"

lemma rule_client_update:
  "implements stores_rule_client u p f \<Longrightarrow> performs stores_rule_client t_rule_clients (\<lambda>_ _. [Updating u]) (update_rule_clients p f)"
  unfolding update_rule_clients_def by (rule performs_one, erule executesI, drule exec_tx_Inr, simp)

lemma refresh_methods:
  "performs stores_rule_client t_rule_clients (RefreshRuleClientBaselines_sql i now) (RefreshRuleClientBaselinesCount i now)"
  "performs stores_rule_client t_rule_clients (RefreshRuleClientBaselines_sql i now) (RefreshRuleClientBaselines i now)"
proof -
  have loop: "performs stores_rule_client t_rule_clients
      (\<lambda>_ _. map (\<lambda>c. Updating (RefreshRuleClientBaseline_sql i c now)) clients)
      (bind_tx (for_each clients (\<lambda>c _. update_rule_clients (is_rc i (ct_id c))
        (\<lambda>old. (refresh_row now c old)\<lparr>rc_email := ct_email c\<rparr>)) ()) (\<lambda>_. return_tx n))" for clients n
    by (intro performs_after performs_for_each rule_client_update rule_client_statements keeps_intro)
  have "performs stores_rule_client t_rule_clients
      (\<lambda>w _. map (\<lambda>c. Updating (RefreshRuleClientBaseline_sql i c now))
        [scan_client dr ct. rc \<leftarrow> t_rule_clients (w_db w), ct \<leftarrow> t_client_traffics (w_db w),
          tr_id ct = rc_traffic_id rc \<and> tr_email ct = rc_email rc \<and> rc_rule_id rc = i])
      (bind_tx (QueryContext (\<lambda>d. [scan_client dr ct. rc \<leftarrow> t_rule_clients d, ct \<leftarrow> t_client_traffics d,
          tr_id ct = rc_traffic_id rc \<and> tr_email ct = rc_email rc \<and> rc_rule_id rc = i])) (\<lambda>clients.
       bind_tx (for_each clients (\<lambda>c _. update_rule_clients (is_rc i (ct_id c))
        (\<lambda>old. (refresh_row now c old)\<lparr>rc_email := ct_email c\<rparr>)) ()) (\<lambda>_.
       return_tx (int (length clients)))))" for dr
    by (rule performs_read [OF reading(1)]) (rule loop)
  then show count: "performs stores_rule_client t_rule_clients (RefreshRuleClientBaselines_sql i now)
      (RefreshRuleClientBaselinesCount i now)"
    unfolding RefreshRuleClientBaselinesCount_def performs_def RefreshRuleClientBaselines_sql_def clients_of_rule_def with_driver_run
    by blast
  show "performs stores_rule_client t_rule_clients (RefreshRuleClientBaselines_sql i now) (RefreshRuleClientBaselines i now)"
  proof (rule performsI)
    fix w x w' sts
    assume "RefreshRuleClientBaselines i now w = (Inr x, w')" and sts: "list_all2 stores_rule_client sts (t_rule_clients (w_db w))"
    then obtain n where "RefreshRuleClientBaselinesCount i now w = (Inr n, w')"
      unfolding RefreshRuleClientBaselines_def by (auto simp: bind_tx_Inr split: if_splits)
    from performsD [OF count this sts]
    show "\<exists>sts'. run_statements (RefreshRuleClientBaselines_sql i now w x) sts = Some sts' \<and>
        list_all2 stores_rule_client sts' (t_rule_clients (w_db w'))"
      by (simp add: RefreshRuleClientBaselines_sql_def)
  qed
qed

text \<open>
  \<open>INSERT ... SELECT\<close> inserts a copy of every row the condition selects: of at most one row, as \<open>(rule_id, traffic_id)\<close>
  is the primary key.
\<close>

definition copy_rows :: "int \<Rightarrow> int \<Rightarrow> int \<Rightarrow> stored list \<Rightarrow> sql_statement list" where
  "copy_rows fromRuleID toRuleID trafficID sts =
    map (\<lambda>st. Inserting no_columns (CopyRuleClient_sql toRuleID st))
      (filter (\<lambda>st. equals ''rule_id'' st (CellInt fromRuleID) \<and> equals ''traffic_id'' st (CellInt trafficID)) sts)"

definition performs_copy :: "int \<Rightarrow> int \<Rightarrow> int \<Rightarrow> 'a tx \<Rightarrow> bool" where
  "performs_copy fromRuleID toRuleID trafficID op \<longleftrightarrow>
    (\<forall>w x w' sts. op w = (Inr x, w') \<longrightarrow> distinct (map rc_order (t_rule_clients (w_db w))) \<longrightarrow>
      list_all2 stores_rule_client sts (t_rule_clients (w_db w)) \<longrightarrow>
      (\<exists>sts'. run_statements (copy_rows fromRuleID toRuleID trafficID sts) sts = Some sts' \<and>
        list_all2 stores_rule_client sts' (t_rule_clients (w_db w'))))"

lemma keyed_rows:
  "distinct (map rc_order rcs) \<Longrightarrow> filter (is_rc i t) rcs = (case first_of (filter (is_rc i t) rcs) of None \<Rightarrow> [] | Some rc \<Rightarrow> [rc])"
proof (induction rcs)
  case (Cons rc rcs)
  show ?case
  proof (cases "is_rc i t rc")
    case True
    then have "rc_order rc = (i, t)" by (simp add: is_rc_def rc_order_def)
    with Cons.prems have "(i, t) \<notin> rc_order ` set rcs" by simp
    then have "\<forall>other \<in> set rcs. \<not> is_rc i t other" by (auto simp: is_rc_def rc_order_def image_iff)
    then have "filter (is_rc i t) rcs = []" by (simp add: filter_empty_conv)
    with True show ?thesis by (simp add: first_of_def)
  next
    case False
    with Cons show ?thesis by simp
  qed
qed (simp add: first_of_def)

lemma copy_method: "performs_copy i j t (CopyRuleClient i j t)"
  unfolding performs_copy_def
proof (intro allI impI)
  fix w x w' sts
  assume run: "CopyRuleClient i j t w = (Inr x, w')" and key: "distinct (map rc_order (t_rule_clients (w_db w)))"
    and sts: "list_all2 stores_rule_client sts (t_rule_clients (w_db w))"
  let ?chosen = "filter (\<lambda>st. equals ''rule_id'' st (CellInt i) \<and> equals ''traffic_id'' st (CellInt t)) sts"
  have chosen: "list_all2 stores_rule_client ?chosen (filter (is_rc i t) (t_rule_clients (w_db w)))"
    by (rule filter_stored [OF sts]) (auto simp: equals_def stores_rule_client_def is_rc_def)
  show "\<exists>sts'. run_statements (copy_rows i j t sts) sts = Some sts' \<and> list_all2 stores_rule_client sts' (t_rule_clients (w_db w'))"
  proof (cases "first_of (filter (is_rc i t) (t_rule_clients (w_db w)))")
    case None
    with run have "w_db w' = w_db w" unfolding CopyRuleClient_def ExecContext_def by (auto dest!: statement_Inr)
    with chosen None sts keyed_rows [OF key, of i t] show ?thesis by (simp add: copy_rows_def)
  next
    case (Some rc)
    with chosen keyed_rows [OF key, of i t] obtain st where st: "?chosen = [st]" "stores_rule_client st rc"
      by (auto simp: list_all2_Cons2)
    from run Some have "t_rule_clients (w_db w') = t_rule_clients (w_db w) @ [rc\<lparr>rc_rule_id := j\<rparr>]"
      unfolding CopyRuleClient_def ExecContext_def
      by (auto simp: insert_rule_client_def eq_commute [of _ "w_db w'"] split: if_splits dest!: statement_Inr)
    with copy_statement [OF st(2), of j] sts show ?thesis
      by (auto simp: copy_rows_def st(1) inserts_def intro: list_all2_appendI)
  qed
qed

section \<open>Events, markers and pruning\<close>

definition AddEventOnce_sql :: "int \<Rightarrow> event_type \<Rightarrow> string \<Rightarrow> int \<Rightarrow> World \<Rightarrow> bool \<Rightarrow> sql_statement list" where
  "AddEventOnce_sql ruleID eventType message now w written =
    (if written then [Inserting (generated_id (t_seq_events (w_db w) + 1)) (AddEvent_sql (Some ruleID) eventType message now)]
     else [])"

lemma event_method:
  "performs stores_event t_events (\<lambda>w _. [Inserting (generated_id (t_seq_events (w_db w) + 1)) (AddEvent_sql r e m now)])
     (AddEvent r e m now)"
proof (rule performsI)
  fix w x w' sts
  assume run: "AddEvent r e m now w = (Inr x, w')" and sts: "list_all2 stores_event sts (t_events (w_db w))"
  from exec_tx_Inr [OF run [unfolded AddEvent_def]] have "t_events (w_db w') = t_events (w_db w) @
      [\<lparr>ev_id = t_seq_events (w_db w) + 1, ev_rule_id = r, ev_type = e, ev_message = m, ev_created_at = now\<rparr>]"
    by (simp add: insert_event_def Let_def)
  with insert_statements(6) [of "t_seq_events (w_db w) + 1" r e m now] sts
  show "\<exists>sts'. run_statements [Inserting (generated_id (t_seq_events (w_db w) + 1)) (AddEvent_sql r e m now)] sts = Some sts' \<and>
      list_all2 stores_event sts' (t_events (w_db w'))"
    by (auto simp: inserts_def intro: list_all2_appendI)
qed

lemma event_once_method: "performs stores_event t_events (AddEventOnce_sql i e m now) (AddEventOnce i e m now)"
proof (rule performsI)
  fix w x w' sts
  assume "AddEventOnce i e m now w = (Inr x, w')" and sts: "list_all2 stores_event sts (t_events (w_db w))"
  then obtain exists w1 where same: "w_db w1 = w_db w"
    and rest: "(if exists then return_tx False else bind_tx (AddEvent (Some i) e m now) (\<lambda>_. return_tx True)) w1 = (Inr x, w')"
    unfolding AddEventOnce_def by (auto simp only: bind_tx_Inr dest!: query_row_Inr)
  show "\<exists>sts'. run_statements (AddEventOnce_sql i e m now w x) sts = Some sts' \<and> list_all2 stores_event sts' (t_events (w_db w'))"
  proof (cases exists)
    case True
    with rest same sts show ?thesis by (auto simp: AddEventOnce_sql_def)
  next
    case False
    with rest obtain u where "AddEvent (Some i) e m now w1 = (Inr u, w')" and "x = True" by (auto simp: bind_tx_Inr)
    from performsD [OF event_method this(1)] this(2) sts same show ?thesis by (simp add: AddEventOnce_sql_def)
  qed
qed

lemma marker_method:
  "performs stores_meta t_meta (\<lambda>_ _. [Upserting ''key'' [''value'', ''updated_at''] no_columns (SetMetaInt64_sql key v)])
     (SetMetaInt64 key v)"
  by (rule performsI) (use meta_method in fastforce)

definition pruneMissingRuleClients_sql :: "int \<Rightarrow> bool \<Rightarrow> World \<Rightarrow> 'a \<Rightarrow> sql_statement list" where
  "pruneMissingRuleClients_sql cutoff dryRun w result =
    (if dryRun then [] else map (\<lambda>target. Deleting (DeleteRuleClient_sql (rc_rule_id target) (rc_traffic_id target)))
      (sort_key rc_order (filter (missing_since cutoff) (t_rule_clients (w_db w)))))"

text \<open>The three deletes of \<open>pruneDisabledRules\<close>, each with the rules it goes through.\<close>

definition pruneDisabledRules_sql :: "(int \<Rightarrow> Delete) \<Rightarrow> int \<Rightarrow> bool \<Rightarrow> World \<Rightarrow> 'a \<Rightarrow> sql_statement list" where
  "pruneDisabledRules_sql delete cutoff dryRun w result =
    (if dryRun then [] else map (\<lambda>rule. Deleting (delete (rr_id rule)))
      (sort_key rr_id (filter (retired_rule cutoff) (t_rules (w_db w)))))"

definition pruneInactiveExcludes_sql :: "int \<Rightarrow> bool \<Rightarrow> World \<Rightarrow> 'a \<Rightarrow> sql_statement list" where
  "pruneInactiveExcludes_sql cutoff dryRun w result =
    (if dryRun then [] else map (\<lambda>policy. Deleting (DeleteExclude_sql (ep_id policy)))
      (sort_key ep_id (filter (retired_exclude cutoff) (t_excludes (w_db w)))))"

definition pruneInactiveOverrides_sql :: "int \<Rightarrow> bool \<Rightarrow> World \<Rightarrow> 'a \<Rightarrow> sql_statement list" where
  "pruneInactiveOverrides_sql cutoff dryRun w result =
    (if dryRun then [] else map (\<lambda>policy. Deleting (DeleteOverride_sql (op_id policy)))
      (sort_key op_id (filter (retired_override cutoff) (t_overrides (w_db w)))))"

definition pruneAuditEvents_sql :: "int \<Rightarrow> bool \<Rightarrow> World \<Rightarrow> 'a \<Rightarrow> sql_statement list" where
  "pruneAuditEvents_sql cutoff dryRun w result =
    (if dryRun \<or> filter (\<lambda>e. ev_created_at e \<le> cutoff) (t_events (w_db w)) = [] then []
     else [Deleting (DeleteEvents_sql cutoff)])"

text \<open>A loop of the clean-up: nothing in a dry run, else one statement for each row read, beside an event.\<close>

lemma performs_dry_run:
  assumes "\<And>acc a. performs stores table (\<lambda>_ _. [s a]) (f a acc)" and "keeps table skip" and "\<And>u. keeps table (done_with u)"
  shows "performs stores table (\<lambda>_ _. if dry then [] else map s xs)
    (if dry \<or> xs = [] then skip else bind_tx (for_each xs f acc) done_with)"
  using performs_nothing [OF assms(2), of stores] performs_after [OF performs_for_each [OF assms(1)] assms(3)] by auto

lemma event_keeps:
  "keeps t_rule_clients (AddEvent r e m now)" "keeps t_rules (AddEvent r e m now)" "keeps t_scopes (AddEvent r e m now)"
  "keeps t_excludes (AddEvent r e m now)" "keeps t_overrides (AddEvent r e m now)"
  unfolding AddEvent_def insert_event_def Let_def by (intro keeps_intro; simp)+

lemma prune_methods:
  "performs stores_rule_client t_rule_clients (pruneMissingRuleClients_sql cutoff dry) (pruneMissingRuleClients cutoff now dry)"
  "performs stores_exclude t_excludes (pruneInactiveExcludes_sql cutoff dry) (pruneInactiveExcludes cutoff now dry)"
  "performs stores_override t_overrides (pruneInactiveOverrides_sql cutoff dry) (pruneInactiveOverrides cutoff now dry)"
proof -
  show "performs stores_rule_client t_rule_clients (pruneMissingRuleClients_sql cutoff dry) (pruneMissingRuleClients cutoff now dry)"
    unfolding pruneMissingRuleClients_def pruneMissingRuleClients_sql_def
    by (rule performs_read [OF reading(1)], rule performs_dry_run)
      (intro performs_after performs_one pruning_methods event_keeps keeps_intro)+
  have "performs stores_exclude t_excludes (\<lambda>w _. if dry then [] else map (\<lambda>i. Deleting (DeleteExclude_sql i))
      (map ep_id (sort_key ep_id (filter (retired_exclude cutoff) (t_excludes (w_db w))))))
      (pruneInactiveExcludes cutoff now dry)"
    unfolding pruneInactiveExcludes_def
    by (rule performs_read [OF reading(1)], rule performs_dry_run)
      (intro performs_before performs_one pruning_methods event_keeps keeps_intro)+
  then show "performs stores_exclude t_excludes (pruneInactiveExcludes_sql cutoff dry) (pruneInactiveExcludes cutoff now dry)"
    by (simp add: pruneInactiveExcludes_sql_def [abs_def] comp_def cong: if_cong)
  have "performs stores_override t_overrides (\<lambda>w _. if dry then [] else map (\<lambda>i. Deleting (DeleteOverride_sql i))
      (map op_id (sort_key op_id (filter (retired_override cutoff) (t_overrides (w_db w))))))
      (pruneInactiveOverrides cutoff now dry)"
    unfolding pruneInactiveOverrides_def
    by (rule performs_read [OF reading(1)], rule performs_dry_run)
      (intro performs_before performs_one pruning_methods event_keeps keeps_intro)+
  then show "performs stores_override t_overrides (pruneInactiveOverrides_sql cutoff dry) (pruneInactiveOverrides cutoff now dry)"
    by (simp add: pruneInactiveOverrides_sql_def [abs_def] comp_def cong: if_cong)
qed

lemma prune_events_method:
  "performs stores_event t_events (pruneAuditEvents_sql cutoff dry) (pruneAuditEvents cutoff dry)"
proof -
  have "performs stores_event t_events (\<lambda>_ _. if dry \<or> count = 0 then [] else [Deleting (DeleteEvents_sql cutoff)])
      (if dry \<or> count = 0 then return_tx count
       else bind_tx (exec_tx (\<lambda>d. d\<lparr>t_events := filter (\<lambda>e. \<not> ev_created_at e \<le> cutoff) (t_events d)\<rparr>)) (\<lambda>_. return_tx count))"
    for count :: int
    by (cases "dry \<or> count = 0")
      (simp_all only: if_True if_False performs_nothing [OF keeps_return]
        performs_after [OF performs_one(2) [OF pruning_methods(4)] keeps_return])
  from performs_read [OF reading(2) this] have "performs stores_event t_events
      (\<lambda>w _. if dry \<or> int (length (filter (\<lambda>e. ev_created_at e \<le> cutoff) (t_events (w_db w)))) = 0 then []
        else [Deleting (DeleteEvents_sql cutoff)]) (pruneAuditEvents cutoff dry)"
    unfolding pruneAuditEvents_def .
  then show ?thesis by (simp add: pruneAuditEvents_sql_def [abs_def])
qed

lemma prune_rules_methods:
  "performs stores_rule_client t_rule_clients (pruneDisabledRules_sql DeleteRuleClients_sql cutoff dry) (pruneDisabledRules cutoff now dry)"
  "performs stores_scope t_scopes (pruneDisabledRules_sql DeleteScope_sql cutoff dry) (pruneDisabledRules cutoff now dry)"
  "performs stores_rule t_rules (pruneDisabledRules_sql DeleteRule_sql cutoff dry) (pruneDisabledRules cutoff now dry)"
proof -
  have loop: "performs stores table (pruneDisabledRules_sql del cutoff dry) (pruneDisabledRules cutoff now dry)"
    if "\<And>i. removes stores table (del i) (delete_rule i)" and "\<And>r e m. keeps table (AddEvent r e m now)"
    for stores :: "stored \<Rightarrow> 'r \<Rightarrow> bool" and table del
  proof -
    have step: "performs stores table (\<lambda>_ _. [(\<lambda>(i, b). Deleting (del i)) a]) ((case a of (ruleID, isScope) \<Rightarrow> \<lambda>_.
        bind_tx (AddEvent (Some ruleID) EventCleanup (if isScope then ''disabled scope metadata pruned''
          else ''disabled rule metadata pruned'') now) (\<lambda>_. delete_rule ruleID)) acc)" for a and acc :: 'c
      using performs_before [OF that(2) performs_one(2) [OF that(1)]] by (cases a) simp
    have "performs stores table (\<lambda>w _. if dry then [] else map (\<lambda>(i, b). Deleting (del i))
        (map (\<lambda>r. (rr_id r, scope_of (w_db w) (rr_id r) \<noteq> None))
          (sort_key rr_id (filter (retired_rule cutoff) (t_rules (w_db w)))))) (pruneDisabledRules cutoff now dry)"
      unfolding pruneDisabledRules_def Let_def
      by (rule performs_read [OF reading(1)], rule performs_dry_run) (intro step keeps_intro)+
    then show ?thesis by (simp add: pruneDisabledRules_sql_def [abs_def] comp_def cong: if_cong)
  qed
  show "performs stores_rule_client t_rule_clients (pruneDisabledRules_sql DeleteRuleClients_sql cutoff dry) (pruneDisabledRules cutoff now dry)"
    "performs stores_scope t_scopes (pruneDisabledRules_sql DeleteScope_sql cutoff dry) (pruneDisabledRules cutoff now dry)"
    "performs stores_rule t_rules (pruneDisabledRules_sql DeleteRule_sql cutoff dry) (pruneDisabledRules cutoff now dry)"
    by (rule loop, rule delete_rule_methods, rule event_keeps)+
qed

section \<open>Properties\<close>

text \<open>
  C23. Every method of \<open>internal/store\<close> with an \<open>INSERT\<close>, \<open>UPDATE\<close> or \<open>DELETE\<close> of its own, apart from those of the migration and the write probe,
  writes what its SQL says. When the method succeeds, its statements, with the arguments in the order the method passes
  them, are accepted on the stored rows of the table and leave rows that hold the table the method leaves. One statement:
  \<open>SetRuleDisabled\<close>, \<open>SetRuleMerged\<close>, \<open>SetRuleOrphaned\<close>, \<open>SetRulePaused\<close>, \<open>SetRuleActive\<close>, \<open>UpdateRuleClientBaseline\<close>,
  \<open>MarkRuleClientMissing\<close>, \<open>AdoptRuleClientInbound\<close>, \<open>DisableExclude\<close>, \<open>DisableOverride\<close>, \<open>UpdateClientCountersCAS\<close>,
  \<open>CreateRule\<close>, \<open>CreateScope\<close>, \<open>CreateRuleClient\<close>, \<open>AddEvent\<close>, \<open>AddEventOnce\<close> (none when the event is there),
  \<open>SetMetaInt64\<close>. A statement that depends on the rows read before: \<open>UpsertExclude\<close>, \<open>UpsertOverride\<close>,
  \<open>RelinkExcludeRow\<close>, \<open>RelinkOverrideRow\<close>. A statement with a subquery: \<open>RelinkRuleClientByEmail\<close>,
  \<open>RefreshActiveRuleClientBaselinesForTraffic\<close>, and \<open>CopyRuleClient\<close> where the key of the rule clients is unique.
  A list of statements, one for each row read: \<open>RefreshRuleClientBaselines\<close> and its count,
  \<open>pruneMissingRuleClients\<close>, \<open>pruneDisabledRules\<close> (three tables), \<open>pruneInactiveExcludes\<close>,
  \<open>pruneInactiveOverrides\<close>; \<open>pruneAuditEvents\<close> one for all.
\<close>

theorem methods_execute_their_statements:
  "executes stores_rule t_rules (SetRuleDisabled_sql i now) (SetRuleDisabled i now) \<and>
   executes stores_rule t_rules (SetRuleMerged_sql i now) (SetRuleMerged i now) \<and>
   executes stores_rule t_rules (SetRuleOrphaned_sql i now) (SetRuleOrphaned i now) \<and>
   executes stores_rule t_rules (SetRulePaused_sql i now) (SetRulePaused i now) \<and>
   executes stores_rule t_rules (SetRuleActive_sql i now) (SetRuleActive i now) \<and>
   executes stores_rule_client t_rule_clients (UpdateRuleClientBaseline_sql rc) (UpdateRuleClientBaseline rc) \<and>
   executes stores_rule_client t_rule_clients (MarkRuleClientMissing_sql i t now) (MarkRuleClientMissing i t now) \<and>
   executes stores_rule_client t_rule_clients (AdoptRuleClientInbound_sql i t b now) (AdoptRuleClientInbound i t b now) \<and>
   executes stores_exclude t_excludes (DisableExclude_sql i now) (DisableExclude i now) \<and>
   executes stores_override t_overrides (DisableOverride_sql i now) (DisableOverride i now) \<and>
   executes stores_traffic t_client_traffics (UpdateClientCountersCAS_sql c up down) (UpdateClientCountersCAS c up down) \<and>
   stores_new stores_rule t_rules generated_id (CreateRule_sql rule) (CreateRule rule) \<and>
   stores_new stores_scope t_scopes (\<lambda>_. no_columns) (CreateScope_sql scope) (CreateScope scope) \<and>
   stores_new stores_rule_client t_rule_clients (\<lambda>_. no_columns) (CreateRuleClient_sql rc) (CreateRuleClient rc) \<and>
   performs stores_event t_events (\<lambda>w _. [Inserting (generated_id (t_seq_events (w_db w) + 1)) (AddEvent_sql r e m now)])
     (AddEvent r e m now) \<and>
   performs stores_event t_events (AddEventOnce_sql i e m now) (AddEventOnce i e m now) \<and>
   performs stores_meta t_meta (\<lambda>_ _. [Upserting ''key'' [''value'', ''updated_at''] no_columns (SetMetaInt64_sql key v)])
     (SetMetaInt64 key v) \<and>
   performs stores_exclude t_excludes (UpsertExclude_sql ex) (UpsertExclude ex) \<and>
   performs stores_override t_overrides (UpsertOverride_sql ov) (UpsertOverride ov) \<and>
   performs stores_exclude t_excludes (RelinkExcludeRow_sql ex c now) (RelinkExcludeRow ex c now) \<and>
   performs stores_override t_overrides (RelinkOverrideRow_sql ov c now) (RelinkOverrideRow ov c now) \<and>
   performs_reading stores_rule_client t_rule_clients stores_rule_client t_rule_clients
     (RelinkRuleClientByEmail_sql i t now) (RelinkRuleClientByEmail i t now) \<and>
   performs_reading stores_rule t_rules stores_rule_client t_rule_clients
     (RefreshActiveRuleClientBaselinesForTraffic_sql t m now) (RefreshActiveRuleClientBaselinesForTraffic t m now) \<and>
   performs_copy i j t (CopyRuleClient i j t) \<and>
   performs stores_rule_client t_rule_clients (RefreshRuleClientBaselines_sql i now) (RefreshRuleClientBaselinesCount i now) \<and>
   performs stores_rule_client t_rule_clients (RefreshRuleClientBaselines_sql i now) (RefreshRuleClientBaselines i now) \<and>
   performs stores_rule_client t_rule_clients (pruneMissingRuleClients_sql cutoff dry) (pruneMissingRuleClients cutoff now dry) \<and>
   performs stores_rule_client t_rule_clients (pruneDisabledRules_sql DeleteRuleClients_sql cutoff dry) (pruneDisabledRules cutoff now dry) \<and>
   performs stores_scope t_scopes (pruneDisabledRules_sql DeleteScope_sql cutoff dry) (pruneDisabledRules cutoff now dry) \<and>
   performs stores_rule t_rules (pruneDisabledRules_sql DeleteRule_sql cutoff dry) (pruneDisabledRules cutoff now dry) \<and>
   performs stores_exclude t_excludes (pruneInactiveExcludes_sql cutoff dry) (pruneInactiveExcludes cutoff now dry) \<and>
   performs stores_override t_overrides (pruneInactiveOverrides_sql cutoff dry) (pruneInactiveOverrides cutoff now dry) \<and>
   performs stores_event t_events (pruneAuditEvents_sql cutoff dry) (pruneAuditEvents cutoff dry)"
  by (intro conjI rule_methods rule_client_methods policy_methods counter_method insert_methods event_method event_once_method
    marker_method policy_upserts policy_relinks relink_method refresh_active_method copy_method refresh_methods prune_methods
    prune_rules_methods prune_events_method)

end
