(* ===== verification/Spec2Isabelle.thy ===== *)
theory Spec2Isabelle
  imports XF_App XF_Lock XF_Charges XF_Writers
begin

text \<open>
  XuiFactor charges clients of a 3x-ui panel more traffic than they used: a rule gives a client a factor in parts per
  million, and a poll of the daemon adds the difference to the client's counters in the panel's own database
  (\<open>client_traffics\<close>, on SQLite or PostgreSQL). This development models the Go program under \<open>src/\<close>, from \<open>main\<close> down to
  the statements on the tables, and proves what makes it correct, and where it is not, what goes wrong.

  \<^bold>\<open>Parts, bottom up, and the theories that model them\<close>

  \<^item> Generic: \<open>XF_Prelude\<close> (int64, Go's division, lists updated where a predicate holds, errors), \<open>XF_Strings\<close> (decimal
    numbers, trimming, prefixes on byte strings), \<open>XF_Json\<close> (the grammar and the string literals of \<open>encoding/json\<close>).
  \<^item> \<open>internal/engine/factor.go\<close>: \<open>XF_Factor\<close>. \<open>internal/store/types.go\<close> and typed rows: \<open>XF_Types\<close>.
  \<^item> \<open>internal/store\<close>, one Go method a definition of the same name: \<open>XF_Tx\<close> (\<open>store.go\<close>: statements, transactions),
    \<open>XF_Dialect\<close> (\<open>dialect.go\<close>), \<open>XF_Migrate\<close> (\<open>migrations.go\<close>, \<open>Migrate\<close>, \<open>EnsureReady\<close>), \<open>XF_Clients\<close> (\<open>membership.go\<close>,
    \<open>tick.go\<close>, \<open>panel.go\<close>, parts of \<open>bulk.go\<close>), \<open>XF_Rules\<close> (\<open>rules.go\<close>, \<open>scopes.go\<close>), \<open>XF_Policies\<close> (\<open>excludes.go\<close>,
    \<open>overrides.go\<close>), \<open>XF_Listings\<close> (what only reads, \<open>diagnostics.go\<close>), \<open>XF_Cleanup\<close> (\<open>cleanup.go\<close>),
    \<open>XF_Backup\<close> (\<open>backup.go\<close>, with the environment \<open>pg_dump\<close> is given). Below the typed rows: \<open>XF_Rows\<close> (cells, select
    lists and the \<open>scan*\<close> functions over \<open>database/sql\<close>), \<open>XF_Statements\<close> (the \<open>INSERT\<close>, \<open>UPDATE\<close> and \<open>DELETE\<close>
    statements with their placeholders and arguments) and \<open>XF_Writers\<close> (which of them each method sends).
  \<^item> \<open>internal/policy/decision.go\<close>: \<open>XF_Decision\<close>, which of a client's rules, excludes and overrides decides.
  \<^item> \<open>internal/engine\<close>, the commands: \<open>XF_Engine\<close> (\<open>engine.go\<close>), \<open>XF_Bulk\<close> (\<open>bulk.go\<close>), \<open>XF_PolicyOps\<close> (\<open>excludes.go\<close>,
    \<open>overrides.go\<close>), \<open>XF_Reconcile\<close> (\<open>reconcile.go\<close>), \<open>XF_Effective\<close> (\<open>effective.go\<close>, \<open>report.go\<close>).
  \<^item> \<open>internal/daemon\<close>: \<open>XF_Daemon\<close> (\<open>tick.go\<close>, \<open>runTick\<close>), \<open>XF_Commands\<close> (the loop \<open>Run\<close>), \<open>XF_Lock\<close> (\<open>lock.go\<close>).
  \<^item> \<open>internal/config/config.go\<close>: \<open>XF_Duration\<close>, \<open>XF_Config\<close>, and \<open>RedactDSN\<close> in \<open>XF_Host\<close>.
  \<^item> \<open>internal/cli\<close>: \<open>XF_Cli\<close> (every argument parser), \<open>XF_Output\<close> (\<open>output.go\<close>), \<open>XF_Host\<close> (configuration of a command,
    files, opening the store, systemd), \<open>XF_Commands\<close> (the commands that change something), \<open>XF_Inspect\<close> (those
    that read), \<open>XF_App\<close> (\<open>App.Run\<close>, help texts, \<open>cmd/xui-factor/main.go\<close>).

  \<^bold>\<open>State and effects\<close>

  A \<open>Database\<close> is the record of the tables, rows in the order of their identifiers, with the identifier sequences. A store
  method is a program \<open>'a tx\<close> on a \<open>World\<close>: the database, the driver, the driver's behaviour for the coming calls
  (\<open>w_faults\<close>: any statement, \<open>BEGIN\<close> or \<open>COMMIT\<close> may be refused with any text), the aborted flag of a PostgreSQL
  transaction and the rows other writers have locked. An error is a value (\<open>Inl\<close>) and undoes nothing; only
  \<open>WithImmediateTx\<close> rolls back, and a rollback keeps the sequences on PostgreSQL and restores them on SQLite. The daemon's
  tick, the commands and the migration are whole functions of this kind, so a theorem about them covers every failure.
  A command line is a function from a \<open>World\<close> to its exit status and two streams (\<open>Outcome\<close>) and the world it leaves.

  \<^bold>\<open>What is proved\<close>

  \<^item> Charging: \<open>XF_Metering\<close> proves \<open>calculateExtra\<close> exact and one \<open>tickTarget\<close> a refinement of the abstract step
    \<open>charge\<close> (locale \<open>metered\<close>); \<open>XF_Billing\<close> concludes that any sequence of traffic and ticks bills exactly the use, and
    that extra traffic is never charged again; \<open>XF_Charges\<close> follows one poll through all clients: it charges what it decides.
  \<^item> Well-formedness: \<open>XF_Schema\<close> and \<open>XF_System\<close> (locale \<open>stable_relation\<close> of \<open>XF_Tx\<close>: a relation every step keeps)
    carry one invariant through every operation; \<open>XF_Exclusive\<close> and \<open>XF_Unambiguous\<close> add that commands keep one active
    rule a client, that policies are unique (locale \<open>policy_table\<close>), that decisions then exist, and how relinking breaks it.
  \<^item> The tick: \<open>XF_Tick\<close> (atomic, only raises counters, refused on a managed panel). Ownership: \<open>XF_Frame\<close>.
  \<^item> Reading: \<open>XF_Explain\<close> (\<open>explain\<close> shows the poll's decision, and when it does not), \<open>XF_Audit\<close> (the audit log adds up,
    messages read back, and what is lost).
  \<^item> Migration: what it changes, and that a second one changes nothing (\<open>XF_Migrate\<close>).
  \<^item> Rows: every scanner gives the struct of the typed row (locale \<open>stored_table\<close>, interpreted for rules, rule clients,
    excludes and overrides); every store method that writes, apart from the migration and the write probe, does what its
    SQL says (\<open>XF_Writers\<close>); and what the inserts store reads back (\<open>XF_Statements\<close>).
  \<^item> Configuration and arguments: whatever is accepted has its type (\<open>XF_Config\<close>, \<open>XF_Cli\<close>); a file that spells a
    configuration is read as that configuration; flags read back in either
    spelling (locale \<open>flag_set\<close>, interpreted for every command); durations that wrap around (\<open>XF_Duration\<close>).
  \<^item> Whole runs: \<open>XF_Runs\<close> lifts relations on databases to commands (locale \<open>maintained\<close>, interpreted with the schema, the
    panel's tables and their identities), and \<open>XF_App\<close> states for every run of the program that it keeps the schema, who may
    write the counters, that reading writes nothing, that a failure leaves no trace, and what an exit status means;
    \<open>XF_Backup\<close> that no file is overwritten.
  \<^item> The instance lock (\<open>XF_Lock\<close>): any interleaving has at most one holder more than removals of the file, and two
    daemons do hold it after one removal.

  \<^bold>\<open>Termination and bounds\<close>

  Every definition is total. Loops over rows and arguments are structural or (\<open>parse_flags\<close>, \<open>common_flags\<close>,
  \<open>ParseDuration\<close>, \<open>unit_of\<close>, \<open>replace_from\<close>, \<open>unquote\<close>, \<open>tokens\<close>) decrease the length of what is left, so there is no fuel anywhere; the
  search for a backup's name has the code's own bound of 1000, and failing at it is an error of the code. The
  endless loop of the daemon is a function of the list of the times at which it polls before its signal. \<open>int\<close> values stand
  for \<open>int64\<close>; where Go's arithmetic can wrap (\<open>ParseFactor\<close>, durations in days, the sum of a report) the wrap-around or the
  check is written out with \<open>wrap64\<close> and \<open>in_i64\<close>, and the unsigned 128-bit product of \<open>calculateExtra\<close> is exact.

  \<^bold>\<open>Parameters\<close>

  What the program asks of code outside the repository is an argument: the driver (\<open>World\<close>), the columns the tables have
  (\<open>columns\<close>), the rounding of fractions by \<open>time.ParseDuration\<close> (\<open>fraction\<close>), the names a driver gives columns (\<open>label\<close>), the
  environment, the bytes of files and the words for a JSON syntax error (\<open>Machine\<close>), and \<open>stat\<close>, \<open>open\<close>, \<open>net/url\<close>, \<open>pgconn.ParseConfig\<close>, \<open>systemctl\<close>, \<open>pg_dump\<close>, the clock and the build strings (\<open>Host\<close>).
  No property assumes anything of a \<open>Machine\<close>, a \<open>Host\<close> or a \<open>fraction\<close>, except that the file read back in
  \<open>config_file_reads_back\<close> is the one the machine holds.

  \<^bold>\<open>Not modelled\<close>

  The text of queries (a \<open>SELECT\<close> is a comprehension over the tables with its conditions, order and limit; the select lists
  are in \<open>XF_Rows\<close>) and the statements of the migration as SQL (they are operations on the tables); \<open>net/url\<close>, whose
  grammar of hosts and escapes changes between releases of Go and which only \<open>RedactDSN\<close>, \<open>shouldStatPath\<close>, \<open>readOnlyDSN\<close>
  and \<open>dsnParam\<close> ask (its answers are fields of \<open>Host\<close>); in error texts, the \<open>%q\<close> escapes of bytes outside ASCII; the sizes of the connection pool; the time a poll takes; and the
  packaging (\<open>scripts/\<close>, \<open>systemd/\<close>, \<open>Makefile\<close>, workflows), which is not Go.
\<close>

end
